(* ===== verification/Prelude.thy ===== *)
theory Prelude
  imports Complex_Main "HOL-Library.AList" "HOL-Library.Sublist"
begin

text \<open>
  Shared vocabulary of the development.

  \<^item> A Python \<open>dict\<close> is an association list with distinct keys in insertion order. Its
    operations are \<open>map_of\<close> (\<open>d.get\<close>), \<open>AList.update\<close> (\<open>d[k] = v\<close>: an old key keeps its
    place, a new one goes to the end, as in Python) and \<open>AList.delete\<close> (\<open>d.pop\<close>, \<open>del\<close>).
  \<^item> A value decoded by \<open>json.loads\<close> is a \<open>json\<close>; an object is the dict it decodes to.
  \<^item> An instant (a \<open>datetime\<close> or a monotonic clock reading) is a number of microseconds.
  \<^item> A Python float is the rational it denotes; rounding is not modelled.
  \<^item> A raised exception is the left side of a sum.
\<close>

section \<open>Types\<close>

type_synonym instant = int

type_synonym ('k, 'v) dict = "('k \<times> 'v) list"

datatype json =
    JNull
  | JBool bool
  | JInt int
  | JNum rat
  | JStr string
  | JArr "json list"
  | JObj "(string \<times> json) list"

text \<open>The exceptions the modelled code raises or lets through.\<close>

datatype py_exc =
    KeyError string
  | ValueError string
  | TypeError
  | AttributeError
  | TimeoutError
  | QueueFull
  | PreparationError string
  | RuntimeError
  | EOFError
  | OSError
  | ExecutionError string
  | IndexError
  | IntentConflict string
  | ConsistencyPending string

section \<open>JSON helpers\<close>

definition jopt :: "('a \<Rightarrow> json) \<Rightarrow> 'a option \<Rightarrow> json" where
  "jopt f x = (case x of None \<Rightarrow> JNull | Some v \<Rightarrow> f v)"

definition jstrs :: "string list \<Rightarrow> json" where
  "jstrs xs = JArr (map JStr xs)"

text \<open>
  \<open>bool(v)\<close> of a decoded value, \<open>d.get(k, v)\<close> of an object, and \<open>x.get(k, v)\<close> of any value: \<open>None\<close> is the
  \<open>AttributeError\<close> of one that is no object.
\<close>

definition truthy :: "json \<Rightarrow> bool" where
  "truthy v = (case v of JNull \<Rightarrow> False | JBool b \<Rightarrow> b | JInt i \<Rightarrow> i \<noteq> 0 | JNum q \<Rightarrow> q \<noteq> 0 | JStr s \<Rightarrow> s \<noteq> []
     | JArr xs \<Rightarrow> xs \<noteq> [] | JObj d \<Rightarrow> d \<noteq> [])"

definition get_or :: "(string, json) dict \<Rightarrow> string \<Rightarrow> json \<Rightarrow> json" where
  "get_or d k v = (case map_of d k of Some x \<Rightarrow> x | None \<Rightarrow> v)"

definition json_get :: "string \<Rightarrow> json \<Rightarrow> json \<Rightarrow> json option" where
  "json_get k v x = (case x of JObj d \<Rightarrow> Some (get_or d k v) | _ \<Rightarrow> None)"

lemma jopt_simps [simp]: "jopt f None = JNull" "jopt f (Some v) = f v"
  by (simp_all add: jopt_def)

section \<open>Dictionaries\<close>

abbreviation dict_keys :: "('k, 'v) dict \<Rightarrow> 'k list" where
  "dict_keys d \<equiv> map fst d"

abbreviation dict_vals :: "('k, 'v) dict \<Rightarrow> 'v list" where
  "dict_vals d \<equiv> map snd d"

text \<open>The well-formedness of a dict: no key occurs twice.\<close>

abbreviation wf_dict :: "('k, 'v) dict \<Rightarrow> bool" where
  "wf_dict d \<equiv> distinct (map fst d)"

text \<open>Update the value of an existing key in place (\<open>entry = d[k]; entry.x = ...\<close>).\<close>

definition dict_modify :: "'k \<Rightarrow> ('v \<Rightarrow> 'v) \<Rightarrow> ('k, 'v) dict \<Rightarrow> ('k, 'v) dict" where
  "dict_modify k f d = (case map_of d k of None \<Rightarrow> d | Some v \<Rightarrow> AList.update k (f v) d)"

lemma map_of_update [simp]: "map_of (AList.update k v d) = (map_of d)(k \<mapsto> v)"
  by (rule ext) (simp add: update_conv')

lemma map_of_delete [simp]: "map_of (AList.delete k d) = (map_of d)(k := None)"
  by (rule ext) (simp add: delete_conv')

lemma wf_dict_update [simp]: "wf_dict d \<Longrightarrow> wf_dict (AList.update k v d)"
  by (rule distinct_update)

lemma wf_dict_delete [simp]: "wf_dict d \<Longrightarrow> wf_dict (AList.delete k d)"
  by (rule distinct_delete)

lemma map_of_dict_modify:
  "map_of (dict_modify k f d) = (map_of d)(k := map_option f (map_of d k))"
  by (auto simp: dict_modify_def fun_eq_iff split: option.splits)

lemma wf_dict_modify [simp]: "wf_dict d \<Longrightarrow> wf_dict (dict_modify k f d)"
  by (simp add: dict_modify_def split: option.splits)

lemma keys_update_old: "k \<in> fst ` set d \<Longrightarrow> dict_keys (AList.update k v d) = dict_keys d"
  by (induction d) auto

lemma keys_dict_modify [simp]: "dict_keys (dict_modify k f d) = dict_keys d"
proof (cases "map_of d k")
  case None
  then show ?thesis by (simp add: dict_modify_def)
next
  case (Some v)
  then have "k \<in> fst ` set d" by (force dest: map_of_SomeD)
  then show ?thesis using Some by (simp add: dict_modify_def keys_update_old)
qed

section \<open>Strings\<close>

text \<open>\<open>s.startswith(p)\<close>, \<open>s.endswith(p)\<close> and \<open>s.rstrip(c)\<close> for one character.\<close>

definition startswith :: "string \<Rightarrow> string \<Rightarrow> bool" where
  "startswith s p = prefix p s"

definition endswith :: "string \<Rightarrow> string \<Rightarrow> bool" where
  "endswith s p = suffix p s"

definition rstrip_char :: "char \<Rightarrow> string \<Rightarrow> string" where
  "rstrip_char c s = rev (dropWhile (\<lambda>x. x = c) (rev s))"

text \<open>\<open>str(i)\<close> of an integer.\<close>

fun nat_str :: "nat \<Rightarrow> string" where
  "nat_str n = (if n < 10 then [char_of (48 + n)] else nat_str (n div 10) @ [char_of (48 + n mod 10)])"

declare nat_str.simps [simp del]

definition int_str :: "int \<Rightarrow> string" where
  "int_str i = (if i < 0 then CHR ''-'' # nat_str (nat (- i)) else nat_str (nat i))"

lemma int_str_digits [simp]:
  "int_str 0 = ''0''" "int_str 1 = ''1''" "int_str 2 = ''2''" "int_str 3 = ''3''" "int_str (-1) = ''-1''"
  by code_simp+

text \<open>\<open>c.lower()\<close> of an ASCII character; other characters are left alone.\<close>

definition lower_char :: "char \<Rightarrow> char" where
  "lower_char c = (let n = of_char c :: nat in if 65 \<le> n \<and> n \<le> 90 then char_of (n + 32) else c)"

text \<open>
  \<open>repr(s)\<close> of a string of printable characters, and the text of a list of strings: double quotes when
  \<open>s\<close> has a single quote and no double one, backslashes before a backslash and the quote.
\<close>

definition py_repr :: "string \<Rightarrow> string" where
  "py_repr s =
    (let q = (if CHR 0x27 \<in> set s \<and> CHR 0x22 \<notin> set s then CHR 0x22 else CHR 0x27)
     in [q] @ concat (map (\<lambda>c. if c = q \<or> c = CHR 0x5C then [CHR 0x5C, c] else [c]) s) @ [q])"

fun comma_join :: "string list \<Rightarrow> string" where
  "comma_join [] = []"
| "comma_join [x] = x"
| "comma_join (x # y # zs) = x @ '', '' @ comma_join (y # zs)"

definition list_text :: "string list \<Rightarrow> string" where
  "list_text xs = ''['' @ comma_join (map py_repr xs) @ '']''"

abbreviation newline :: char where
  "newline \<equiv> CHR 0x0A"

section \<open>Numbers\<close>

text \<open>\<open>round(x, n)\<close>: to \<open>n\<close> decimals, ties to even.\<close>

definition py_round :: "nat \<Rightarrow> rat \<Rightarrow> rat" where
  "py_round n x =
    (let y = x * 10 ^ n; f = floor y; d = y - of_int f;
         r = (if d < 1 / 2 then f else if d > 1 / 2 then f + 1 else if even f then f else f + 1)
     in of_int r / 10 ^ n)"

section \<open>Lists\<close>

text \<open>The last \<open>n\<close> elements, \<open>xs[-n:]\<close> for a positive \<open>n\<close>.\<close>

definition last_n :: "nat \<Rightarrow> 'a list \<Rightarrow> 'a list" where
  "last_n n xs = drop (length xs - n) xs"

lemma length_last_n [simp]: "length (last_n n xs) = min n (length xs)"
  by (simp add: last_n_def)

lemma last_n_all [simp]: "length xs \<le> n \<Longrightarrow> last_n n xs = xs"
  by (simp add: last_n_def)

lemma filter_sum_partition:
  "length (filter P xs) + length (filter (\<lambda>x. \<not> P x) xs) = length xs"
  by (rule sum_length_filter_compl)

end
