(* ===== verification/Audit_Events.thy ===== *)
theory Audit_Events
  imports Prelude
begin

text \<open>
  The audit event builders of \<open>orchestrator/events.py\<close> and \<open>orchestrator/egress_events.py\<close>.
  An event is the dict that \<open>build_event\<close> returns. Each builder takes first the \<open>stamp\<close> of the
  event: the identifier that \<open>_uuid7()\<close> draws (package \<open>uuid_utils\<close>) and the text that
  \<open>_now_iso()\<close> reads from the clock, which \<open>build_event\<close> takes from its environment. The other
  arguments keep the order of the Python signatures; a parameter with default \<open>None\<close> is an
  \<open>option\<close>.
\<close>

type_synonym event = "(string, json) dict"

type_synonym stamp = "string \<times> string"

section \<open>The envelope\<close>

definition build_event :: "stamp \<Rightarrow> string \<Rightarrow> string option \<Rightarrow> string \<Rightarrow> (string, json) dict
    \<Rightarrow> string option \<Rightarrow> int option \<Rightarrow> string option \<Rightarrow> string \<Rightarrow> event" where
  "build_event sp event_type job_id durability payload capability_id wal_level parent_job_id source =
    [(''schema_version'', JStr ''2.0''),
     (''source_event_id'', JStr (fst sp)),
     (''timestamp'', JStr (snd sp)),
     (''event_type'', JStr event_type),
     (''job_id'', jopt JStr job_id),
     (''parent_job_id'', jopt JStr parent_job_id),
     (''capability_id'', jopt JStr capability_id),
     (''wal_level'', jopt JInt wal_level),
     (''source'', JStr source),
     (''durability'', JStr durability),
     (''payload'', JObj payload)]"

text \<open>Reading an event back: \<open>event[key]\<close> where the value is known to be a string.\<close>

definition event_str :: "event \<Rightarrow> string \<Rightarrow> string" where
  "event_str e k = (case map_of e k of Some (JStr s) \<Rightarrow> s | _ \<Rightarrow> [])"

lemma build_event_lookup [simp]:
  "map_of (build_event sp ty jid dur pl cap wal par src) ''schema_version'' = Some (JStr ''2.0'')"
  "map_of (build_event sp ty jid dur pl cap wal par src) ''source_event_id'' = Some (JStr (fst sp))"
  "map_of (build_event sp ty jid dur pl cap wal par src) ''timestamp'' = Some (JStr (snd sp))"
  "map_of (build_event sp ty jid dur pl cap wal par src) ''event_type'' = Some (JStr ty)"
  "map_of (build_event sp ty jid dur pl cap wal par src) ''job_id'' = Some (jopt JStr jid)"
  "map_of (build_event sp ty jid dur pl cap wal par src) ''parent_job_id'' = Some (jopt JStr par)"
  "map_of (build_event sp ty jid dur pl cap wal par src) ''capability_id'' = Some (jopt JStr cap)"
  "map_of (build_event sp ty jid dur pl cap wal par src) ''wal_level'' = Some (jopt JInt wal)"
  "map_of (build_event sp ty jid dur pl cap wal par src) ''source'' = Some (JStr src)"
  "map_of (build_event sp ty jid dur pl cap wal par src) ''durability'' = Some (JStr dur)"
  "map_of (build_event sp ty jid dur pl cap wal par src) ''payload'' = Some (JObj pl)"
  by (simp_all add: build_event_def)

section \<open>The builders\<close>

definition event_system_startup :: "stamp \<Rightarrow> string option \<Rightarrow> string option \<Rightarrow> string option
     \<Rightarrow> string option \<Rightarrow> (string list) option \<Rightarrow> ((string \<times> json) list) option
     \<Rightarrow> event" where
  "event_system_startup sp config_hash state_hash ollama_model ollama_model_version
      components_loaded recovery_summary =
    build_event sp ''system.startup'' None ''durable''
     ([(''component'', JStr ''orchestrator''),
      (''version'', JStr ''0.4.0''),
      (''config_hash'', jopt JStr config_hash),
      (''state_hash'', jopt JStr state_hash),
      (''ollama_model'', jopt JStr ollama_model),
      (''ollama_model_version'', jopt JStr ollama_model_version),
      (''components_loaded'', JArr (case components_loaded of None \<Rightarrow> [] | Some xs \<Rightarrow> map JStr xs))] @
     (case recovery_summary of None \<Rightarrow> [] | Some r \<Rightarrow> [(''recovery_summary'', JObj r)]))
     None None None ''orchestrator''"

definition event_wal_promoted :: "stamp \<Rightarrow> string \<Rightarrow> string \<Rightarrow> int \<Rightarrow> int
     \<Rightarrow> ((string \<times> json) list) option \<Rightarrow> string \<Rightarrow> event" where
  "event_wal_promoted sp capability_id capability_name from_level to_level criteria_met approved_by =
    build_event sp ''wal.promoted'' None ''durable''
     [(''capability_id'', JStr capability_id),
      (''capability_name'', JStr capability_name),
      (''from_level'', JInt from_level),
      (''to_level'', JInt to_level),
      (''criteria_met'', JObj (case criteria_met of None \<Rightarrow> [] | Some c \<Rightarrow> c)),
      (''approved_by'', JStr approved_by)]
     (Some capability_id) (Some to_level) None ''orchestrator''"

definition event_system_config_change :: "stamp \<Rightarrow> string option \<Rightarrow> string \<Rightarrow> (string list) option
     \<Rightarrow> event" where
  "event_system_config_change sp previous_hash new_hash changed_capabilities =
    build_event sp ''system.config_change'' None ''durable''
     [(''previous_hash'', jopt JStr previous_hash),
      (''new_hash'', JStr new_hash),
      (''changed_capabilities'', JArr (case changed_capabilities of None \<Rightarrow> [] | Some xs \<Rightarrow> map JStr xs))]
     None None None ''orchestrator''"

definition event_system_model_change :: "stamp \<Rightarrow> string option \<Rightarrow> string \<Rightarrow> string list
     \<Rightarrow> event" where
  "event_system_model_change sp previous_model new_model affected_capabilities =
    build_event sp ''system.model_change'' None ''durable''
     [(''previous_model'', jopt JStr previous_model),
      (''new_model'', JStr new_model),
      (''affected_capabilities'', jstrs affected_capabilities)]
     None None None ''orchestrator''"

definition event_job_submitted :: "stamp \<Rightarrow> string \<Rightarrow> string \<Rightarrow> string \<Rightarrow> string
     \<Rightarrow> string option \<Rightarrow> string option \<Rightarrow> string option
     \<Rightarrow> string option \<Rightarrow> event" where
  "event_job_submitted sp job_id raw_input input_modality device client_source
      client_source_event_id client_timestamp intent_equivalence_hash =
    build_event sp ''job.submitted'' (Some job_id) ''durable''
     [(''raw_input'', JStr raw_input),
      (''input_modality'', JStr input_modality),
      (''device'', JStr device),
      (''request_category'', JNull),
      (''client_source'', jopt JStr client_source),
      (''client_source_event_id'', jopt JStr client_source_event_id),
      (''client_timestamp'', jopt JStr client_timestamp),
      (''intent_equivalence_hash'', jopt JStr intent_equivalence_hash)]
     None None None ''orchestrator''"

definition event_source_event_conflict :: "stamp \<Rightarrow> string \<Rightarrow> string \<Rightarrow> string \<Rightarrow> string
     \<Rightarrow> string \<Rightarrow> event" where
  "event_source_event_conflict sp original_job_id client_source client_source_event_id
      original_intent_hash new_intent_hash =
    build_event sp ''source_event.conflict'' (Some original_job_id) ''durable''
     [(''source_event_replay'', JBool True),
      (''source_event_conflict'', JBool True),
      (''conflict_type'', JStr ''intent_mismatch''),
      (''original_job_id'', JStr original_job_id),
      (''client_source'', JStr client_source),
      (''client_source_event_id'', JStr client_source_event_id),
      (''original_intent_equivalence_hash'', JStr original_intent_hash),
      (''new_intent_equivalence_hash'', JStr new_intent_hash),
      (''action_required'', JStr ''reconfirmation_required''),
      (''adr_compliance'', JStr ''partial_until_reconfirmation_path_exists'')]
     None None None ''orchestrator''"

definition event_source_event_divergence :: "stamp \<Rightarrow> string \<Rightarrow> string \<Rightarrow> string \<Rightarrow> event" where
  "event_source_event_divergence sp original_job_id client_source client_source_event_id =
    build_event sp ''source_event.consistency_pending'' (Some original_job_id) ''best_effort''
     [(''source_event_replay'', JBool True),
      (''source_event_conflict'', JBool False),
      (''consistency_pending'', JBool True),
      (''original_job_id'', JStr original_job_id),
      (''client_source'', JStr client_source),
      (''client_source_event_id'', JStr client_source_event_id),
      (''reason'', JStr ''original_job_not_yet_loadable'')]
     None None None ''orchestrator''"

definition event_job_classified :: "stamp \<Rightarrow> string \<Rightarrow> string \<Rightarrow> rat \<Rightarrow> bool
     \<Rightarrow> string \<Rightarrow> string list \<Rightarrow> string \<Rightarrow> event" where
  "event_job_classified sp job_id request_category confidence local_capable routing_recommendation
      candidate_models governing_capability_id =
    build_event sp ''job.classified'' (Some job_id) ''durable''
     [(''request_category'', JStr request_category),
      (''confidence'', JNum confidence),
      (''local_capable'', JBool local_capable),
      (''routing_recommendation'', JStr routing_recommendation),
      (''candidate_models'', jstrs candidate_models),
      (''governing_capability_id'', JStr governing_capability_id),
      (''declared_pipeline'', JArr [JObj [(''capability_id'', JStr governing_capability_id),
      (''dependency_mode'', JStr ''required'')]])]
     (Some governing_capability_id) None None ''orchestrator''"

definition event_wal_permission_check :: "stamp \<Rightarrow> string \<Rightarrow> string \<Rightarrow> string \<Rightarrow> int
     \<Rightarrow> int option \<Rightarrow> string \<Rightarrow> bool \<Rightarrow> string option
     \<Rightarrow> string option \<Rightarrow> string option \<Rightarrow> int option
     \<Rightarrow> event" where
  "event_wal_permission_check sp job_id capability_id requested_action current_level
      required_level result delivery_hold hold_type block_reason dependency_mode wal_level =
    build_event sp ''wal.permission_check'' (Some job_id) ''durable''
     [(''capability_id'', JStr capability_id),
      (''job_id'', JStr job_id),
      (''requested_action'', JStr requested_action),
      (''current_level'', JInt current_level),
      (''required_level'', jopt JInt required_level),
      (''result'', JStr result),
      (''delivery_hold'', JBool delivery_hold),
      (''hold_type'', jopt JStr hold_type),
      (''block_reason'', jopt JStr block_reason),
      (''dependency_mode'', jopt JStr dependency_mode)]
     (Some capability_id) (case wal_level of Some w \<Rightarrow> Some w | None \<Rightarrow> Some current_level) None ''orchestrator''"

definition event_wal_demoted :: "stamp \<Rightarrow> string \<Rightarrow> string \<Rightarrow> int \<Rightarrow> int
     \<Rightarrow> string \<Rightarrow> string option \<Rightarrow> event" where
  "event_wal_demoted sp capability_id capability_name from_level to_level trigger incident_ref =
    build_event sp ''wal.demoted'' None ''durable''
     [(''capability_id'', JStr capability_id),
      (''capability_name'', JStr capability_name),
      (''from_level'', JInt from_level),
      (''to_level'', JInt to_level),
      (''trigger'', JStr trigger),
      (''incident_ref'', jopt JStr incident_ref)]
     (Some capability_id) (Some to_level) None ''orchestrator''"

definition event_job_dispatched :: "stamp \<Rightarrow> string \<Rightarrow> string \<Rightarrow> string \<Rightarrow> string
     \<Rightarrow> string \<Rightarrow> string option \<Rightarrow> string option
     \<Rightarrow> event" where
  "event_job_dispatched sp job_id target_model route_id wal_permission_check_ref
      assembled_payload_hash egress_config_hash context_package_id =
    build_event sp ''job.dispatched'' (Some job_id) ''durable''
     [(''target_model'', JStr target_model),
      (''route_id'', JStr route_id),
      (''context_package_id'', jopt JStr context_package_id),
      (''wal_permission_check_ref'', JStr wal_permission_check_ref),
      (''retry_sequence'', JInt 0),
      (''same_capability_retry'', JBool True),
      (''assembled_payload_hash'', JStr assembled_payload_hash),
      (''egress_config_hash'', jopt JStr egress_config_hash)]
     None None None ''orchestrator''"

definition event_model_response :: "stamp \<Rightarrow> string \<Rightarrow> string \<Rightarrow> string \<Rightarrow> int
     \<Rightarrow> int \<Rightarrow> int \<Rightarrow> rat \<Rightarrow> string \<Rightarrow> string
     \<Rightarrow> string \<Rightarrow> event" where
  "event_model_response sp job_id mdl route_id latency_ms token_count_in token_count_out
      cost_estimate_usd result_id response_hash finish_reason =
    build_event sp ''model.response'' (Some job_id) ''durable''
     [(''model'', JStr mdl),
      (''route_id'', JStr route_id),
      (''latency_ms'', JInt latency_ms),
      (''token_count_in'', JInt token_count_in),
      (''token_count_out'', JInt token_count_out),
      (''cost_estimate_usd'', JNum cost_estimate_usd),
      (''result_id'', JStr result_id),
      (''response_hash'', JStr response_hash),
      (''finish_reason'', JStr finish_reason)]
     None None None ''orchestrator''"

definition event_job_response_received :: "stamp \<Rightarrow> string \<Rightarrow> string \<Rightarrow> int \<Rightarrow> int
     \<Rightarrow> int \<Rightarrow> rat \<Rightarrow> string \<Rightarrow> string
     \<Rightarrow> event" where
  "event_job_response_received sp job_id mdl latency_ms token_count_in token_count_out
      cost_estimate_usd result_id response_hash =
    build_event sp ''job.response_received'' (Some job_id) ''durable''
     [(''model'', JStr mdl),
      (''latency_ms'', JInt latency_ms),
      (''token_count_in'', JInt token_count_in),
      (''token_count_out'', JInt token_count_out),
      (''cost_estimate_usd'', JNum cost_estimate_usd),
      (''result_id'', JStr result_id),
      (''response_hash'', JStr response_hash)]
     None None None ''orchestrator''"

definition event_job_delivered :: "stamp \<Rightarrow> string \<Rightarrow> event" where
  "event_job_delivered sp job_id =
    build_event sp ''job.delivered'' (Some job_id) ''durable''
     [(''delivery_target'', JStr ''api_response''),
      (''delivery_method'', JStr ''poll'')]
     None None None ''orchestrator''"

definition event_system_notify :: "stamp \<Rightarrow> string \<Rightarrow> string \<Rightarrow> (string \<times> json) list
     \<Rightarrow> event" where
  "event_system_notify sp notification_type titl detail =
    build_event sp ''system.notify'' None ''durable''
     [(''notification_type'', JStr notification_type),
      (''title'', JStr titl),
      (''detail'', JObj detail)]
     None None None ''system''"

definition event_egress_validation_failure :: "stamp \<Rightarrow> string \<Rightarrow> string \<Rightarrow> string \<Rightarrow> string
     \<Rightarrow> event" where
  "event_egress_validation_failure sp job_id failure_type detail route_id =
    build_event sp ''egress.validation_failure'' (Some job_id) ''durable''
     [(''context_package_id'', JNull),
      (''job_id'', JStr job_id),
      (''failure_type'', JStr failure_type),
      (''detail'', JStr detail),
      (''route_id'', JStr route_id),
      (''failing_component'', JStr ''egress_gateway''),
      (''blocked'', JBool True)]
     None None None ''orchestrator''"

definition event_egress_fallback_to_local :: "stamp \<Rightarrow> string \<Rightarrow> string list \<Rightarrow> string \<Rightarrow> string
     \<Rightarrow> event" where
  "event_egress_fallback_to_local sp job_id blocked_route_ids classifier_routing capability_id =
    build_event sp ''egress.fallback_to_local'' (Some job_id) ''durable''
     [(''blocked_route_ids'', jstrs blocked_route_ids),
      (''classifier_routing'', JStr classifier_routing),
      (''capability_id'', JStr capability_id),
      (''detail'', JStr (''Classifier routed locally; cloud route(s) disabled in egress config. '' @
        ''Local dispatch proceeded. Logged for audit trail.''))]
     (Some capability_id) None None ''orchestrator''"

definition event_model_error :: "stamp \<Rightarrow> string \<Rightarrow> string \<Rightarrow> string \<Rightarrow> string
     \<Rightarrow> string \<Rightarrow> int \<Rightarrow> event" where
  "event_model_error sp job_id mdl route_id error_type error_detail latency_ms =
    build_event sp ''model.error'' (Some job_id) ''durable''
     [(''model'', JStr mdl),
      (''route_id'', JStr route_id),
      (''error_type'', JStr error_type),
      (''error_detail'', JStr error_detail),
      (''latency_ms'', JInt latency_ms),
      (''retry_sequence'', JInt 0)]
     None None None ''orchestrator''"

definition event_job_failed :: "stamp \<Rightarrow> string \<Rightarrow> string \<Rightarrow> string \<Rightarrow> string option
     \<Rightarrow> event" where
  "event_job_failed sp job_id error_class detail failing_capability_id =
    build_event sp ''job.failed'' (Some job_id) ''durable''
     [(''error_class'', JStr error_class),
      (''detail'', JStr detail),
      (''failing_capability_id'', jopt JStr failing_capability_id)]
     None None None ''orchestrator''"

definition event_context_packaged :: "stamp \<Rightarrow> string \<Rightarrow> string \<Rightarrow> string list \<Rightarrow> string list
     \<Rightarrow> int \<Rightarrow> string \<Rightarrow> string \<Rightarrow> event" where
  "event_context_packaged sp context_package_id job_id fields_included fields_stripped
      outbound_token_estimate assembled_payload_hash context_object_hash =
    build_event sp ''context.packaged'' (Some job_id) ''durable''
     [(''context_package_id'', JStr context_package_id),
      (''job_id'', JStr job_id),
      (''fields_included'', jstrs fields_included),
      (''fields_stripped'', jstrs fields_stripped),
      (''fields_blocked'', JArr []),
      (''memory_objects_attached'', JInt 0),
      (''memory_retrieval_ms'', JInt 0),
      (''outbound_token_estimate'', JInt outbound_token_estimate),
      (''assembled_payload_hash'', JStr assembled_payload_hash),
      (''context_object_hash'', JStr context_object_hash),
      (''exclusion_summary'', JObj [(''local_only'', JInt 0),
      (''below_confidence'', JInt 0),
      (''over_budget'', JInt 0)])]
     None None None ''context_packager''"

definition event_human_override :: "stamp \<Rightarrow> string \<Rightarrow> string \<Rightarrow> string \<Rightarrow> string
     \<Rightarrow> string \<Rightarrow> event" where
  "event_human_override sp job_id override_type target detail device =
    build_event sp ''human.override'' (Some job_id) ''durable''
     [(''job_id'', JStr job_id),
      (''override_type'', JStr override_type),
      (''target'', JStr target),
      (''detail'', JStr detail),
      (''device'', JStr device)]
     None None None ''human''"

definition event_job_revoked :: "stamp \<Rightarrow> string \<Rightarrow> string \<Rightarrow> string \<Rightarrow> string option
     \<Rightarrow> (string list) option \<Rightarrow> event" where
  "event_job_revoked sp job_id reason override_source_event_id successor_job_id memory_objects_superseded =
    build_event sp ''job.revoked'' (Some job_id) ''durable''
     [(''reason'', JStr reason),
      (''override_source_event_id'', JStr override_source_event_id),
      (''successor_job_id'', jopt JStr successor_job_id),
      (''memory_objects_superseded'', JArr (case memory_objects_superseded of Some xs \<Rightarrow> map JStr xs | None \<Rightarrow> []))]
     None None None ''orchestrator''"

definition event_job_proposal_ready :: "stamp \<Rightarrow> string \<Rightarrow> string \<Rightarrow> string \<Rightarrow> string
     \<Rightarrow> string \<Rightarrow> string \<Rightarrow> rat option \<Rightarrow> string option
     \<Rightarrow> string \<Rightarrow> event" where
  "event_job_proposal_ready sp job_id proposal_id result_id response_hash proposed_by
      governing_capability_id confidence auto_accept_at hold_reason =
    build_event sp ''job.proposal_ready'' (Some job_id) ''durable''
     [(''proposal_id'', JStr proposal_id),
      (''result_id'', JStr result_id),
      (''response_hash'', JStr response_hash),
      (''proposed_by'', JStr proposed_by),
      (''governing_capability_id'', JStr governing_capability_id),
      (''confidence'', jopt JNum confidence),
      (''auto_accept_at'', jopt JStr auto_accept_at),
      (''hold_reason'', JStr hold_reason)]
     (Some governing_capability_id) None None ''orchestrator''"

definition event_job_closed_no_action :: "stamp \<Rightarrow> string \<Rightarrow> string option \<Rightarrow> string option \<Rightarrow> string
     \<Rightarrow> string \<Rightarrow> string option \<Rightarrow> string \<Rightarrow> event" where
  "event_job_closed_no_action sp job_id result_id response_hash review_decision
      decision_idempotency_key governing_capability_id reason =
    build_event sp ''job.closed_no_action'' (Some job_id) ''durable''
     [(''result_id'', jopt JStr result_id),
      (''response_hash'', jopt JStr response_hash),
      (''review_decision'', JStr review_decision),
      (''decision_idempotency_key'', JStr decision_idempotency_key),
      (''governing_capability_id'', jopt JStr governing_capability_id),
      (''reason'', JStr reason)]
     governing_capability_id None None ''orchestrator''"

definition event_human_reviewed :: "stamp \<Rightarrow> string \<Rightarrow> string \<Rightarrow> string \<Rightarrow> int
     \<Rightarrow> string option \<Rightarrow> string option \<Rightarrow> string option
     \<Rightarrow> string option \<Rightarrow> event" where
  "event_human_reviewed sp job_id decision device review_latency_ms modification_summary
      modified_result_id modified_result_hash derived_from_result_id =
    build_event sp ''human.reviewed'' (Some job_id) ''durable''
     [(''job_id'', JStr job_id),
      (''decision'', JStr decision),
      (''device'', JStr device),
      (''review_latency_ms'', JInt review_latency_ms),
      (''modification_summary'', jopt JStr modification_summary),
      (''modified_result_id'', jopt JStr modified_result_id),
      (''modified_result_hash'', jopt JStr modified_result_hash),
      (''derived_from_result_id'', jopt JStr derived_from_result_id)]
     None None None ''human''"

definition event_manifest_validated :: "stamp \<Rightarrow> string \<Rightarrow> string \<Rightarrow> string \<Rightarrow> bool
     \<Rightarrow> int \<Rightarrow> int \<Rightarrow> (string list) option \<Rightarrow> event" where
  "event_manifest_validated sp manifest_id capability_id worker_type valid error_count warning_count errs =
    build_event sp ''manifest.validated'' None ''durable''
     ([(''manifest_id'', JStr manifest_id),
      (''capability_id'', JStr capability_id),
      (''worker_type'', JStr worker_type),
      (''valid'', JBool valid),
      (''error_count'', JInt error_count),
      (''warning_count'', JInt warning_count)] @
     (case errs of Some es \<Rightarrow> if \<not> valid \<and> es \<noteq> [] then [(''errors'', jstrs es)] else []
       | None \<Rightarrow> []))
     None None None ''orchestrator''"

definition event_manifest_rejected :: "stamp \<Rightarrow> string \<Rightarrow> string \<Rightarrow> string \<Rightarrow> string list
     \<Rightarrow> event" where
  "event_manifest_rejected sp manifest_id capability_id rejection_reason all_errors =
    build_event sp ''manifest.rejected'' None ''durable''
     [(''manifest_id'', JStr manifest_id),
      (''capability_id'', JStr capability_id),
      (''rejection_reason'', JStr rejection_reason),
      (''all_errors'', jstrs all_errors)]
     None None None ''orchestrator''"

definition event_hub_startup_validated :: "stamp \<Rightarrow> bool \<Rightarrow> int \<Rightarrow> int \<Rightarrow> string list
     \<Rightarrow> string list \<Rightarrow> event" where
  "event_hub_startup_validated sp hub_start_permitted checks_passed checks_failed critical_failures warnings =
    build_event sp ''hub.startup_validated'' None ''durable''
     [(''hub_start_permitted'', JBool hub_start_permitted),
      (''checks_passed'', JInt checks_passed),
      (''checks_failed'', JInt checks_failed),
      (''critical_failures'', jstrs critical_failures),
      (''warnings'', jstrs warnings)]
     None None None ''orchestrator''"

definition event_hub_startup_blocked :: "stamp \<Rightarrow> string list \<Rightarrow> string \<Rightarrow> event" where
  "event_hub_startup_blocked sp blocking_checks message =
    build_event sp ''hub.startup_blocked'' None ''durable''
     [(''blocking_checks'', jstrs blocking_checks),
      (''message'', JStr message)]
     None None None ''orchestrator''"

definition event_context_strip_detail :: "stamp \<Rightarrow> string \<Rightarrow> string \<Rightarrow> string \<Rightarrow> string
     \<Rightarrow> int \<Rightarrow> int \<Rightarrow> string \<Rightarrow> string
     \<Rightarrow> string \<Rightarrow> event" where
  "event_context_strip_detail sp context_package_id job_id field_id field_name span_start span_end
      original_class action reason =
    build_event sp ''context.strip_detail'' (Some job_id) ''durable''
     [(''context_package_id'', JStr context_package_id),
      (''field_id'', JStr field_id),
      (''field_name'', JStr field_name),
      (''span'', JObj [(''start_char'', JInt span_start),
      (''end_char'', JInt span_end)]),
      (''original_class'', JStr original_class),
      (''classification_status'', JStr ''matched''),
      (''action'', JStr action),
      (''method'', JStr (if action = ''stripped'' then ''redact'' else ''generalize'')),
      (''detected_by'', JStr ''packager''),
      (''failing_capability_id'', JNull),
      (''reason'', JStr reason)]
     None None None ''context_packager''"

definition event_blueprint_created :: "stamp \<Rightarrow> string \<Rightarrow> string \<Rightarrow> string \<Rightarrow> string
     \<Rightarrow> int \<Rightarrow> int \<Rightarrow> string \<Rightarrow> event" where
  "event_blueprint_created sp blueprint_id manifest_id capability_id network_mode mount_count
      cap_drop_count memory_limit =
    build_event sp ''sandbox.blueprint_created'' None ''durable''
     [(''blueprint_id'', JStr blueprint_id),
      (''manifest_id'', JStr manifest_id),
      (''capability_id'', JStr capability_id),
      (''network_mode'', JStr network_mode),
      (''mount_count'', JInt mount_count),
      (''cap_drop_count'', JInt cap_drop_count),
      (''memory_limit'', JStr memory_limit)]
     None None None ''orchestrator''"

definition event_worker_prepared :: "stamp \<Rightarrow> string \<Rightarrow> string \<Rightarrow> string \<Rightarrow> string
     \<Rightarrow> string \<Rightarrow> event" where
  "event_worker_prepared sp worker_id job_id capability_id blueprint_id manifest_id =
    build_event sp ''worker.prepared'' (Some job_id) ''durable''
     [(''worker_id'', JStr worker_id),
      (''job_id'', JStr job_id),
      (''capability_id'', JStr capability_id),
      (''blueprint_id'', JStr blueprint_id),
      (''manifest_id'', JStr manifest_id)]
     (Some capability_id) None None ''orchestrator''"

definition event_worker_teardown :: "stamp \<Rightarrow> string \<Rightarrow> string \<Rightarrow> int \<Rightarrow> int
     \<Rightarrow> rat \<Rightarrow> event" where
  "event_worker_teardown sp worker_id job_id total_egress_requests denied_egress_requests duration_seconds =
    build_event sp ''worker.teardown'' (Some job_id) ''durable''
     [(''worker_id'', JStr worker_id),
      (''job_id'', JStr job_id),
      (''total_egress_requests'', JInt total_egress_requests),
      (''denied_egress_requests'', JInt denied_egress_requests),
      (''duration_seconds'', JNum duration_seconds)]
     None None None ''orchestrator''"

definition event_worker_preparation_failed :: "stamp \<Rightarrow> string \<Rightarrow> string \<Rightarrow> string \<Rightarrow> event" where
  "event_worker_preparation_failed sp job_id capability_id error =
    build_event sp ''job.failed'' (Some job_id) ''durable''
     [(''error_class'', JStr ''worker_preparation_failed''),
      (''detail'', JStr error),
      (''failing_capability_id'', JStr capability_id)]
     (Some capability_id) None None ''orchestrator''"

definition event_worker_execution_started :: "stamp \<Rightarrow> string \<Rightarrow> string \<Rightarrow> string \<Rightarrow> string
     \<Rightarrow> string \<Rightarrow> string \<Rightarrow> event" where
  "event_worker_execution_started sp worker_id job_id capability_id container_id img task_type =
    build_event sp ''worker.execution_started'' (Some job_id) ''durable''
     [(''worker_id'', JStr worker_id),
      (''job_id'', JStr job_id),
      (''capability_id'', JStr capability_id),
      (''container_id'', JStr container_id),
      (''image'', JStr img),
      (''task_type'', JStr task_type)]
     (Some capability_id) None None ''orchestrator''"

definition event_worker_execution_completed :: "stamp \<Rightarrow> string \<Rightarrow> string \<Rightarrow> string \<Rightarrow> string
     \<Rightarrow> int \<Rightarrow> bool \<Rightarrow> int \<Rightarrow> int \<Rightarrow> int
     \<Rightarrow> string option \<Rightarrow> event" where
  "event_worker_execution_completed sp worker_id job_id capability_id container_id exit_code
      success latency_ms token_count_in token_count_out error =
    build_event sp ''worker.execution_completed'' (Some job_id) ''durable''
     ([(''worker_id'', JStr worker_id),
      (''job_id'', JStr job_id),
      (''capability_id'', JStr capability_id),
      (''container_id'', JStr container_id),
      (''exit_code'', JInt exit_code),
      (''success'', JBool success),
      (''latency_ms'', JInt latency_ms),
      (''token_count_in'', JInt token_count_in),
      (''token_count_out'', JInt token_count_out)] @
     (case error of None \<Rightarrow> [] | Some e \<Rightarrow> [(''error'', JStr e)]))
     (Some capability_id) None None ''orchestrator''"

definition event_system_connectivity_hub_cloud :: "stamp \<Rightarrow> string \<Rightarrow> string list \<Rightarrow> int \<Rightarrow> event" where
  "event_system_connectivity_hub_cloud sp state_v affected_routes queued_jobs =
    build_event sp ''system.connectivity'' None ''durable''
     [(''link'', JStr ''hub_cloud''),
      (''state'', JStr state_v),
      (''affected_routes'', jstrs affected_routes),
      (''queued_jobs'', JInt queued_jobs)]
     None None None ''orchestrator''"

definition event_system_connectivity_device :: "stamp \<Rightarrow> string \<Rightarrow> string \<Rightarrow> int \<Rightarrow> int option
     \<Rightarrow> int \<Rightarrow> int \<Rightarrow> int \<Rightarrow> event" where
  "event_system_connectivity_device sp lnk state_v queued_requests duration_ms replayed_requests
      dropped_requests replay_conflicts =
    build_event sp ''system.connectivity'' None ''durable''
     [(''link'', JStr lnk),
      (''state'', JStr state_v),
      (''duration_ms'', jopt JInt duration_ms),
      (''queued_requests'', JInt queued_requests),
      (''replayed_requests'', JInt replayed_requests),
      (''dropped_requests'', JInt dropped_requests),
      (''replay_conflicts'', JInt replay_conflicts)]
     None None None ''phone_app''"

definition event_system_hub_switch :: "stamp \<Rightarrow> string \<Rightarrow> string \<Rightarrow> string \<Rightarrow> int
     \<Rightarrow> bool \<Rightarrow> event" where
  "event_system_hub_switch sp from_hub to_hub reason pending_jobs_on_old_hub suspend_command_delivered =
    build_event sp ''system.hub_switch'' None ''durable''
     [(''from_hub'', JStr from_hub),
      (''to_hub'', JStr to_hub),
      (''reason'', JStr reason),
      (''pending_jobs_on_old_hub'', JInt pending_jobs_on_old_hub),
      (''suspend_command_delivered'', JBool suspend_command_delivered)]
     None None None ''phone_app''"

definition event_wal_demoted_temporal_decay :: "stamp \<Rightarrow> string \<Rightarrow> int \<Rightarrow> int \<Rightarrow> int
     \<Rightarrow> int \<Rightarrow> string option \<Rightarrow> event" where
  "event_wal_demoted_temporal_decay sp capability_id from_level window_days outcomes_in_window
      min_required last_outcome_timestamp =
    (let to_level = from_level - 1 in
    build_event sp ''wal.demoted'' None ''durable''
     [(''trigger'', JStr ''temporal_decay''),
      (''capability_id'', JStr capability_id),
      (''from_level'', JInt from_level),
      (''to_level'', JInt to_level),
      (''window_days'', JInt window_days),
      (''outcomes_in_window'', JInt outcomes_in_window),
      (''min_required'', JInt min_required),
      (''last_outcome_timestamp'', jopt JStr last_outcome_timestamp)]
     (Some capability_id) (Some to_level) None ''orchestrator'')"

definition event_job_queued :: "stamp \<Rightarrow> string \<Rightarrow> string \<Rightarrow> int \<Rightarrow> int option
     \<Rightarrow> event" where
  "event_job_queued sp job_id reason position estimated_wait_ms =
    build_event sp ''job.queued'' (Some job_id) ''best_effort''
     [(''reason'', JStr reason),
      (''position'', JInt position),
      (''estimated_wait_ms'', jopt JInt estimated_wait_ms)]
     None None None ''orchestrator''"

definition event_hub_state_change :: "stamp \<Rightarrow> string \<Rightarrow> string \<Rightarrow> string \<Rightarrow> string
     \<Rightarrow> event" where
  "event_hub_state_change sp from_state to_state reason hostname =
    build_event sp ''system.hub_state_change'' None ''durable''
     [(''from_state'', JStr from_state),
      (''to_state'', JStr to_state),
      (''reason'', JStr reason),
      (''hostname'', JStr hostname)]
     None None None ''orchestrator''"

section \<open>Egress proxy events (\<open>egress_events.py\<close>)\<close>

definition event_egress_authorized :: "stamp \<Rightarrow> string \<Rightarrow> string \<Rightarrow> string \<Rightarrow> int
     \<Rightarrow> string \<Rightarrow> string \<Rightarrow> event" where
  "event_egress_authorized sp blueprint_id capability_id target_host target_port meth matched_rule =
    build_event sp ''egress.authorized'' None ''durable''
     [(''blueprint_id'', JStr blueprint_id),
      (''capability_id'', JStr capability_id),
      (''target_host'', JStr target_host),
      (''target_port'', JInt target_port),
      (''method'', JStr meth),
      (''matched_rule'', JStr matched_rule)]
     None None None ''egress_proxy''"

definition event_egress_denied :: "stamp \<Rightarrow> string \<Rightarrow> string \<Rightarrow> string \<Rightarrow> int
     \<Rightarrow> string \<Rightarrow> string \<Rightarrow> event" where
  "event_egress_denied sp blueprint_id capability_id target_host target_port meth denial_reason =
    build_event sp ''egress.denied'' None ''durable''
     [(''blueprint_id'', JStr blueprint_id),
      (''capability_id'', JStr capability_id),
      (''target_host'', JStr target_host),
      (''target_port'', JInt target_port),
      (''method'', JStr meth),
      (''denial_reason'', JStr denial_reason)]
     None None None ''egress_proxy''"

section \<open>The definitions as one bundle\<close>

lemmas event_defs =
  event_system_startup_def event_wal_promoted_def event_system_config_change_def
  event_system_model_change_def event_job_submitted_def event_source_event_conflict_def
  event_source_event_divergence_def event_job_classified_def event_wal_permission_check_def
  event_wal_demoted_def event_job_dispatched_def event_model_response_def
  event_job_response_received_def event_job_delivered_def event_system_notify_def
  event_egress_validation_failure_def event_egress_fallback_to_local_def event_model_error_def
  event_job_failed_def event_context_packaged_def event_human_override_def
  event_job_revoked_def event_job_proposal_ready_def event_job_closed_no_action_def
  event_human_reviewed_def event_manifest_validated_def event_manifest_rejected_def
  event_hub_startup_validated_def event_hub_startup_blocked_def event_context_strip_detail_def
  event_blueprint_created_def event_worker_prepared_def event_worker_teardown_def
  event_worker_preparation_failed_def event_worker_execution_started_def event_worker_execution_completed_def
  event_system_connectivity_hub_cloud_def event_system_connectivity_device_def event_system_hub_switch_def
  event_wal_demoted_temporal_decay_def event_job_queued_def event_hub_state_change_def
  event_egress_authorized_def event_egress_denied_def

end
