(* ===== verification/Audit_Validator.thy ===== *)
theory Audit_Validator
  imports Audit_Events
begin

text \<open>
  The envelope check of the audit log writer (\<open>audit-log-writer/src/event_validator.py\<close> with the
  constants of \<open>models.py\<close>), on the JSON value the writer decoded. The returned message is the
  constructor of \<open>verr\<close> for the format string of the code, with what it interpolates. A membership
  test of a list or an object in a \<open>frozenset\<close> raises \<open>TypeError\<close>, which is a branch here.
  \<open>datetime.fromisoformat\<close> enters as the predicate \<open>iso_ok\<close> of the texts it accepts.
\<close>

section \<open>Constants\<close>

definition VALID_SOURCES :: "string list" where
  "VALID_SOURCES = [''orchestrator'', ''context_packager'', ''egress_gateway'', ''watch_app'',
     ''phone_app'', ''human'', ''system'', ''log_writer'']"

definition VALID_DURABILITY :: "string list" where
  "VALID_DURABILITY = [''durable'', ''best_effort'']"

definition SCHEMA_VERSION :: string where
  "SCHEMA_VERSION = ''2.0''"

definition REQUIRED_FIELDS :: "string list" where
  "REQUIRED_FIELDS = [''schema_version'', ''source_event_id'', ''timestamp'', ''event_type'',
     ''source'', ''durability'', ''payload'']"

definition NULLABLE_FIELDS :: "string list" where
  "NULLABLE_FIELDS = [''job_id'', ''parent_job_id'', ''capability_id'', ''wal_level'']"

section \<open>The UUIDv7 pattern\<close>

definition hex_digit :: "char \<Rightarrow> bool" where
  "hex_digit c = (c \<in> set ''0123456789abcdefABCDEF'')"

text \<open>The pattern, one predicate per character: 8-4-7xxx-[89ab]xxx-12, letters in either case.\<close>

definition uuid7_shape :: "(char \<Rightarrow> bool) list" where
  "uuid7_shape =
     replicate 8 hex_digit @ [(=) CHR ''-''] @ replicate 4 hex_digit @ [(=) CHR ''-''] @
     [(=) CHR ''7''] @ replicate 3 hex_digit @ [(=) CHR ''-''] @
     [\<lambda>c. c \<in> set ''89abAB''] @ replicate 3 hex_digit @ [(=) CHR ''-''] @ replicate 12 hex_digit"

definition uuid7_exact :: "string \<Rightarrow> bool" where
  "uuid7_exact s = list_all2 (\<lambda>p c. p c) uuid7_shape s"

text \<open>
  \<open>UUID_V7_PATTERN.match(s)\<close>. The final \<open>$\<close> of the pattern also matches before a newline that
  ends the text.
\<close>

definition uuid7_match :: "string \<Rightarrow> bool" where
  "uuid7_match s = (uuid7_exact s \<or> (s \<noteq> [] \<and> last s = newline \<and> uuid7_exact (butlast s)))"

section \<open>The check\<close>

datatype verr =
    NotAnObject
  | MissingField string
  | BadSchemaVersion json
  | BadSourceEventId
  | TimestampNotString
  | TimestampNotIso
  | BadEventType
  | BadSource json
  | BadDurability json
  | PayloadNotObject
  | BadJobId
  | BadParentJobId
  | BadCapabilityId
  | WalNotInteger
  | WalOutOfRange

fun first_missing :: "string list \<Rightarrow> (string, json) dict \<Rightarrow> string option" where
  "first_missing [] d = None"
| "first_missing (f # fs) d = (if map_of d f = None then Some f else first_missing fs d)"

fun is_jstr :: "json \<Rightarrow> bool" where
  "is_jstr (JStr _) = True"
| "is_jstr _ = False"

text \<open>\<open>x in S\<close> for a frozenset \<open>S\<close> of strings: unhashable values raise.\<close>

fun in_frozenset :: "json \<Rightarrow> string list \<Rightarrow> py_exc + bool" where
  "in_frozenset (JStr s) S = Inr (s \<in> set S)"
| "in_frozenset (JArr _) S = Inl TypeError"
| "in_frozenset (JObj _) S = Inl TypeError"
| "in_frozenset _ S = Inr False"

text \<open>The value of a field whose presence the first two loops have checked.\<close>

definition field :: "(string, json) dict \<Rightarrow> string \<Rightarrow> json" where
  "field d k = (case map_of d k of Some v \<Rightarrow> v | None \<Rightarrow> JNull)"

fun uuid_or_null :: "json \<Rightarrow> bool" where
  "uuid_or_null JNull = True"
| "uuid_or_null (JStr s) = uuid7_match s"
| "uuid_or_null _ = False"

fun uuid_str :: "json \<Rightarrow> bool" where
  "uuid_str (JStr s) = uuid7_match s"
| "uuid_str _ = False"

fun check_wal :: "json \<Rightarrow> verr option" where
  "check_wal JNull = None"
| "check_wal (JInt i) = (if i < -1 \<or> i > 3 then Some WalOutOfRange else None)"
| "check_wal _ = Some WalNotInteger"

definition check_nullable :: "(string, json) dict \<Rightarrow> verr option" where
  "check_nullable d =
     (if \<not> uuid_or_null (field d ''job_id'') then Some BadJobId
      else if \<not> uuid_or_null (field d ''parent_job_id'') then Some BadParentJobId
      else if field d ''capability_id'' \<noteq> JNull \<and> \<not> is_jstr (field d ''capability_id'')
        then Some BadCapabilityId
      else check_wal (field d ''wal_level''))"

definition validate_event :: "(string \<Rightarrow> bool) \<Rightarrow> json \<Rightarrow> py_exc + verr option" where
  "validate_event iso_ok data =
    (case data of JObj d \<Rightarrow>
      (case first_missing REQUIRED_FIELDS d of Some f \<Rightarrow> Inr (Some (MissingField f)) | None \<Rightarrow>
       case first_missing NULLABLE_FIELDS d of Some f \<Rightarrow> Inr (Some (MissingField f)) | None \<Rightarrow>
       if field d ''schema_version'' \<noteq> JStr SCHEMA_VERSION
         then Inr (Some (BadSchemaVersion (field d ''schema_version'')))
       else if \<not> uuid_str (field d ''source_event_id'')
         then Inr (Some BadSourceEventId)
       else (case field d ''timestamp'' of JStr t \<Rightarrow>
         if \<not> iso_ok t then Inr (Some TimestampNotIso)
         else if \<not> is_jstr (field d ''event_type'') \<or> field d ''event_type'' = JStr []
           then Inr (Some BadEventType)
         else (case in_frozenset (field d ''source'') VALID_SOURCES of
             Inl x \<Rightarrow> Inl x
           | Inr False \<Rightarrow> Inr (Some (BadSource (field d ''source'')))
           | Inr True \<Rightarrow>
             (case in_frozenset (field d ''durability'') VALID_DURABILITY of
                 Inl x \<Rightarrow> Inl x
               | Inr False \<Rightarrow> Inr (Some (BadDurability (field d ''durability'')))
               | Inr True \<Rightarrow>
                 (case field d ''payload'' of JObj _ \<Rightarrow> Inr (check_nullable d)
                  | _ \<Rightarrow> Inr (Some PayloadNotObject))))
         | _ \<Rightarrow> Inr (Some TimestampNotString)))
     | _ \<Rightarrow> Inr (Some NotAnObject))"


section \<open>Events made by \<open>build_event\<close>\<close>

lemma first_missing_None: "first_missing fs d = None \<longleftrightarrow> (\<forall>f \<in> set fs. map_of d f \<noteq> None)"
  by (induction fs) auto

lemma uuid_or_null_jopt [simp]:
  "uuid_or_null (jopt JStr x) = (case x of None \<Rightarrow> True | Some s \<Rightarrow> uuid7_match s)"
  by (cases x) auto

lemma check_wal_jopt [simp]:
  "check_wal (jopt JInt w) =
    (case w of None \<Rightarrow> None | Some i \<Rightarrow> if i < -1 \<or> i > 3 then Some WalOutOfRange else None)"
  by (cases w) auto

lemma jstr_or_null: "jopt JStr x = JNull \<or> is_jstr (jopt JStr x)"
  by (cases x) auto

lemma build_event_fields_present:
  "first_missing REQUIRED_FIELDS (build_event sp ty jid dur pl cap wal par src) = None"
  "first_missing NULLABLE_FIELDS (build_event sp ty jid dur pl cap wal par src) = None"
  by (simp_all add: REQUIRED_FIELDS_def NULLABLE_FIELDS_def)

lemma build_event_field [simp]:
  "field (build_event sp ty jid dur pl cap wal par src) ''schema_version'' = JStr ''2.0''"
  "field (build_event sp ty jid dur pl cap wal par src) ''source_event_id'' = JStr (fst sp)"
  "field (build_event sp ty jid dur pl cap wal par src) ''timestamp'' = JStr (snd sp)"
  "field (build_event sp ty jid dur pl cap wal par src) ''event_type'' = JStr ty"
  "field (build_event sp ty jid dur pl cap wal par src) ''job_id'' = jopt JStr jid"
  "field (build_event sp ty jid dur pl cap wal par src) ''parent_job_id'' = jopt JStr par"
  "field (build_event sp ty jid dur pl cap wal par src) ''capability_id'' = jopt JStr cap"
  "field (build_event sp ty jid dur pl cap wal par src) ''wal_level'' = jopt JInt wal"
  "field (build_event sp ty jid dur pl cap wal par src) ''source'' = JStr src"
  "field (build_event sp ty jid dur pl cap wal par src) ''durability'' = JStr dur"
  "field (build_event sp ty jid dur pl cap wal par src) ''payload'' = JObj pl"
  by (simp_all add: field_def)

lemma validate_build_event:
  "validate_event iso_ok (JObj (build_event sp ty jid dur pl cap wal par src)) =
    (if \<not> uuid7_match (fst sp) then Inr (Some BadSourceEventId)
     else if \<not> iso_ok (snd sp) then Inr (Some TimestampNotIso)
     else if ty = [] then Inr (Some BadEventType)
     else if src \<notin> set VALID_SOURCES then Inr (Some (BadSource (JStr src)))
     else if dur \<notin> set VALID_DURABILITY then Inr (Some (BadDurability (JStr dur)))
     else Inr (check_nullable (build_event sp ty jid dur pl cap wal par src)))"
  by (simp add: validate_event_def build_event_fields_present SCHEMA_VERSION_def split: bool.split)

definition envelope_ok :: "(string \<Rightarrow> bool) \<Rightarrow> stamp \<Rightarrow> bool" where
  "envelope_ok iso_ok sp = (uuid7_match (fst sp) \<and> iso_ok (snd sp))"

lemma check_nullable_build_event:
  "check_nullable (build_event sp ty jid dur pl cap wal par src) = None \<longleftrightarrow>
     (\<forall>j. jid = Some j \<longrightarrow> uuid7_match j) \<and> (\<forall>j. par = Some j \<longrightarrow> uuid7_match j) \<and>
     (\<forall>w. wal = Some w \<longrightarrow> -1 \<le> w \<and> w \<le> 3)"
  using jstr_or_null [of cap] by (auto simp: check_nullable_def split: option.splits)

text \<open>
  A built event is accepted exactly when its stamp, type, source, durability and job references are
  in range: the writer's check asks nothing of the payload beyond being an object.
\<close>

lemma build_event_accepted_iff:
  "validate_event iso_ok (JObj (build_event sp ty jid dur pl cap wal par src)) = Inr None \<longleftrightarrow>
     envelope_ok iso_ok sp \<and> ty \<noteq> [] \<and> src \<in> set VALID_SOURCES \<and> dur \<in> set VALID_DURABILITY \<and>
     (\<forall>j. jid = Some j \<longrightarrow> uuid7_match j) \<and> (\<forall>j. par = Some j \<longrightarrow> uuid7_match j) \<and>
     (\<forall>w. wal = Some w \<longrightarrow> -1 \<le> w \<and> w \<le> 3)"
  by (simp add: validate_build_event envelope_ok_def check_nullable_build_event)

section \<open>The orchestrator's events against the writer's check\<close>

definition accepted :: "(string \<Rightarrow> bool) \<Rightarrow> event \<Rightarrow> bool" where
  "accepted iso_ok e = (validate_event iso_ok (JObj e) = Inr None)"

lemmas accepted_simps = accepted_def build_event_accepted_iff event_defs Let_def
  VALID_SOURCES_def VALID_DURABILITY_def


definition sample_uuid :: string where
  "sample_uuid = ''01890a5d-ac96-774b-bcce-b302099a8057''"

lemma sample_uuid_match [simp]: "uuid7_match sample_uuid"
  by (simp add: uuid7_match_def uuid7_exact_def uuid7_shape_def hex_digit_def sample_uuid_def
      numeral_eq_Suc)


text \<open>
  The two egress proxy events carry the source \<open>egress_proxy\<close>, which is not one of the
  writer's \<open>VALID_SOURCES\<close>: whatever the request and however well formed the stamp, the writer
  answers \<open>Invalid source\<close>, so no egress decision ever reaches the durable log.
\<close>

theorem egress_events_rejected:
  assumes "envelope_ok iso_ok sp"
  shows
    "validate_event iso_ok (JObj (event_egress_authorized sp blueprint_id capability_id
       target_host target_port meth matched_rule)) = Inr (Some (BadSource (JStr ''egress_proxy''))) \<and>
     validate_event iso_ok (JObj (event_egress_denied sp blueprint_id capability_id
       target_host target_port meth denial_reason)) = Inr (Some (BadSource (JStr ''egress_proxy'')))"
  using assms
  by (simp_all add: event_egress_authorized_def event_egress_denied_def validate_build_event
      envelope_ok_def VALID_SOURCES_def)

theorem egress_events_rejected_witness:
  "validate_event (\<lambda>_. True) (JObj (event_egress_denied (sample_uuid, ''t'') ''b'' ''c'' ''h'' 443
     ''egress_check'' ''default_deny'')) = Inr (Some (BadSource (JStr ''egress_proxy'')))"
  using egress_events_rejected [of "\<lambda>_. True" "(sample_uuid, ''t'')"]
  by (simp add: envelope_ok_def)

end
