(* ===== verification/Audit_Chain.thy ===== *)
theory Audit_Chain
  imports Audit_Validator
begin

text \<open>
  Hash-chain verification: \<open>audit-log-writer/src/hash_chain.py\<close> and the stand-alone verifier
  \<open>audit-log-writer/scripts/drnt_audit_verify.py\<close>. A log line is its text. What the code takes
  from the standard library is one record: \<open>sha256\<close> is \<open>hashlib.sha256(...).hexdigest()\<close> of the
  UTF-8 text, \<open>json_loads\<close> is \<open>json.loads\<close> (\<open>None\<close> where it raises \<open>JSONDecodeError\<close>) and
  \<open>json_dumps\<close> is \<open>json.dumps\<close> with compact separators. The results carry the verdict and the break
  index; the message texts are not modelled.
\<close>

record codec =
  sha256 :: "string \<Rightarrow> string"
  json_loads :: "string \<Rightarrow> json option"
  json_dumps :: "json \<Rightarrow> string"

definition GENESIS_STRING :: string where
  "GENESIS_STRING = ''DRNT-GENESIS''"

definition GENESIS_HASH :: "codec \<Rightarrow> string" where
  "GENESIS_HASH C = sha256 C GENESIS_STRING"

definition compute_hash :: "codec \<Rightarrow> string \<Rightarrow> string" where
  "compute_hash C json_line = sha256 C json_line"

section \<open>\<open>verify_chain\<close>\<close>

text \<open>\<open>json.loads(line).get("prev_hash")\<close>, with its two exceptions.\<close>

definition line_prev_hash :: "codec \<Rightarrow> string \<Rightarrow> py_exc + json option" where
  "line_prev_hash C l =
    (case json_loads C l of
       None \<Rightarrow> Inl (ValueError ''JSONDecodeError'')
     | Some (JObj d) \<Rightarrow> Inr (map_of d ''prev_hash'')
     | Some _ \<Rightarrow> Inl AttributeError)"

text \<open>The loop over \<open>i = 1 ..< len(lines)\<close>, with \<open>lines[i - 1]\<close> in hand.\<close>

fun verify_links :: "codec \<Rightarrow> nat \<Rightarrow> string \<Rightarrow> string list \<Rightarrow> py_exc + bool \<times> int" where
  "verify_links C i prev [] = Inr (True, -1)"
| "verify_links C i prev (l # ls) =
    (case line_prev_hash C l of
       Inl x \<Rightarrow> Inl x
     | Inr ph \<Rightarrow> if ph \<noteq> Some (JStr (compute_hash C prev)) then Inr (False, int i)
         else verify_links C (Suc i) l ls)"

fun verify_chain :: "codec \<Rightarrow> string list \<Rightarrow> string \<Rightarrow> py_exc + bool \<times> int" where
  "verify_chain C [] expected_genesis = Inr (True, -1)"
| "verify_chain C (l # ls) expected_genesis =
    (case line_prev_hash C l of
       Inl x \<Rightarrow> Inl x
     | Inr ph \<Rightarrow> if ph \<noteq> Some (JStr expected_genesis) then Inr (False, 0)
         else verify_links C 1 l ls)"

section \<open>The specification of a chain\<close>

text \<open>The predecessor hash that a well-formed line names.\<close>

definition link_of :: "codec \<Rightarrow> string \<Rightarrow> string option" where
  "link_of C l =
    (case json_loads C l of
       Some (JObj d) \<Rightarrow> (case map_of d ''prev_hash'' of Some (JStr h) \<Rightarrow> Some h | _ \<Rightarrow> None)
     | _ \<Rightarrow> None)"

fun chained :: "codec \<Rightarrow> string \<Rightarrow> string list \<Rightarrow> bool" where
  "chained C h [] = True"
| "chained C h (l # ls) = (link_of C l = Some h \<and> chained C (compute_hash C l) ls)"

text \<open>The hash a continuation of the chain must name.\<close>

definition last_hash :: "codec \<Rightarrow> string \<Rightarrow> string list \<Rightarrow> string" where
  "last_hash C h ls = (if ls = [] then h else compute_hash C (last ls))"

lemma last_hash_simps [simp]:
  "last_hash C h [] = h"
  "last_hash C h (ls @ [l]) = compute_hash C l"
  "last_hash C h (l # ls) = last_hash C (compute_hash C l) ls"
  by (auto simp: last_hash_def)

lemma chained_append [simp]:
  "chained C h (xs @ ys) \<longleftrightarrow> chained C h xs \<and> chained C (last_hash C h xs) ys"
  by (induction xs arbitrary: h) auto

lemma last_hash_append [simp]: "last_hash C h (xs @ ys) = last_hash C (last_hash C h xs) ys"
  by (auto simp: last_hash_def)

lemma line_prev_hash_link:
  "line_prev_hash C l = Inr (Some (JStr h)) \<longleftrightarrow> link_of C l = Some h"
  by (auto simp: line_prev_hash_def link_of_def split: option.splits json.splits)

lemma verify_links_True:
  "verify_links C i p ls = Inr (True, -1) \<longleftrightarrow> chained C (compute_hash C p) ls"
proof (induction ls arbitrary: i p)
  case (Cons l ls)
  show ?case
  proof (cases "line_prev_hash C l = Inr (Some (JStr (compute_hash C p)))")
    case True
    then have "link_of C l = Some (compute_hash C p)" using line_prev_hash_link by blast
    with True Cons.IH show ?thesis by simp
  next
    case False
    then have "link_of C l \<noteq> Some (compute_hash C p)" using line_prev_hash_link by blast
    then show ?thesis using False by (auto split: sum.splits)
  qed
qed simp

lemma verify_chain_True:
  "verify_chain C ls g = Inr (True, -1) \<longleftrightarrow> chained C g ls"
proof (cases ls)
  case (Cons l rest)
  show ?thesis
  proof (cases "line_prev_hash C l = Inr (Some (JStr g))")
    case True
    then have "link_of C l = Some g" using line_prev_hash_link by blast
    with True Cons verify_links_True show ?thesis by simp
  next
    case False
    then have "link_of C l \<noteq> Some g" using line_prev_hash_link by blast
    then show ?thesis using Cons False by (auto split: sum.splits)
  qed
qed simp

lemma verify_links_False:
  "verify_links C i p ls = Inr (False, k) \<Longrightarrow>
    \<exists>n < length ls. k = int (i + n) \<and> chained C (compute_hash C p) (take n ls) \<and>
      \<not> chained C (compute_hash C p) (take (Suc n) ls)"
proof (induction ls arbitrary: i p)
  case (Cons l ls)
  show ?case
  proof (cases "link_of C l = Some (compute_hash C p)")
    case True
    then have ph: "line_prev_hash C l = Inr (Some (JStr (compute_hash C p)))"
      using line_prev_hash_link by blast
    then have "verify_links C (Suc i) l ls = Inr (False, k)" using Cons.prems by simp
    then obtain n where "n < length ls" "k = int (Suc i + n)"
      "chained C (compute_hash C l) (take n ls)" "\<not> chained C (compute_hash C l) (take (Suc n) ls)"
      using Cons.IH by blast
    then show ?thesis using True by (intro exI [of _ "Suc n"]) auto
  next
    case False
    then have "k = int i" using Cons.prems by (auto split: sum.splits if_splits
          simp: line_prev_hash_link [symmetric])
    then show ?thesis using False by (intro exI [of _ 0]) auto
  qed
qed simp

text \<open>
  \<open>verify_chain\<close> accepts a list of lines exactly when every line names the hash of the line
  before it (the first one the genesis hash); when it reports a break, the lines before the reported
  index form a valid chain and the reported line does not continue it.
\<close>

theorem verify_chain_correct:
  "(verify_chain C ls g = Inr (True, -1) \<longleftrightarrow> chained C g ls) \<and>
   (\<forall>k. verify_chain C ls g = Inr (False, k) \<longrightarrow>
      0 \<le> k \<and> nat k < length ls \<and> chained C g (take (nat k) ls) \<and>
      \<not> chained C g (take (Suc (nat k)) ls))"
proof (intro conjI allI impI)
  show "verify_chain C ls g = Inr (True, -1) \<longleftrightarrow> chained C g ls" by (rule verify_chain_True)
next
  fix k assume v: "verify_chain C ls g = Inr (False, k)"
  then obtain l rest where ls: "ls = l # rest" by (cases ls) auto
  have "\<exists>n < length ls. k = int n \<and> chained C g (take n ls) \<and> \<not> chained C g (take (Suc n) ls)"
  proof (cases "link_of C l = Some g")
    case True
    then have "verify_links C 1 l rest = Inr (False, k)"
      using v ls line_prev_hash_link [THEN iffD2, OF True] by simp
    then obtain n where "n < length rest" "k = int (1 + n)"
      "chained C (compute_hash C l) (take n rest)"
      "\<not> chained C (compute_hash C l) (take (Suc n) rest)"
      using verify_links_False by blast
    then show ?thesis using True ls by (intro exI [of _ "Suc n"]) auto
  next
    case False
    then have "k = 0" using v ls by (auto split: sum.splits if_splits
          simp: line_prev_hash_link [symmetric])
    then show ?thesis using False ls by (intro exI [of _ 0]) auto
  qed
  then show "0 \<le> k" "nat k < length ls" "chained C g (take (nat k) ls)"
    "\<not> chained C g (take (Suc (nat k)) ls)" by auto
qed

theorem verify_chain_correct_witness:
  "let C = \<lparr>sha256 = id, json_loads = (\<lambda>s. Some (JObj [(''prev_hash'', JStr (tl s))])),
        json_dumps = (\<lambda>_. [])\<rparr> in
    (verify_chain C [''ag'', ''bag'', ''c''] ''g'' = Inr (False, 2)) \<and>
    chained C ''g'' (take 2 [''ag'', ''bag'', ''c''])"
  unfolding Let_def
  using verify_chain_correct [of "\<lparr>sha256 = id, json_loads = (\<lambda>s. Some (JObj [(''prev_hash'', JStr (tl s))])),
        json_dumps = (\<lambda>_. [])\<rparr>" "[''ag'', ''bag'', ''c'']" "''g''"]
  by (simp add: line_prev_hash_def compute_hash_def link_of_def eval_nat_numeral)

section \<open>Tamper evidence\<close>

lemma chained_same_head:
  assumes "chained C g xs" and "chained C g ys" and "last_hash C g xs = last_hash C g ys"
    and "inj_on (sha256 C) (set xs \<union> set ys)" and "g \<notin> sha256 C ` (set xs \<union> set ys)"
  shows "xs = ys"
  using assms
proof (induction xs arbitrary: ys rule: rev_induct)
  case Nil
  then show ?case by (cases ys rule: rev_cases) (auto simp: compute_hash_def)
next
  case (snoc x xs)
  show ?case
  proof (cases ys rule: rev_cases)
    case Nil
    then show ?thesis using snoc.prems by (auto simp: compute_hash_def)
  next
    case (snoc ys' y)
    note ys = snoc
    have "x = y"
    proof (rule inj_onD [OF snoc.prems(4)])
      show "sha256 C x = sha256 C y" using snoc.prems(3) ys by (simp add: compute_hash_def)
    qed (simp_all add: ys)
    moreover have "xs = ys'"
    proof (rule snoc.IH)
      show "chained C g xs" "chained C g ys'" using snoc.prems(1,2) ys by auto
      show "last_hash C g xs = last_hash C g ys'" using snoc.prems(1,2) ys \<open>x = y\<close> by auto
      show "inj_on (sha256 C) (set xs \<union> set ys')"
        using snoc.prems(4) ys by (auto intro: inj_on_subset)
      show "g \<notin> sha256 C ` (set xs \<union> set ys')" using snoc.prems(5) ys by auto
    qed
    ultimately show ?thesis using ys by simp
  qed
qed

text \<open>
  C15: Two different logs that \<open>verify_chain\<close> accepts from genesis have different head hashes: no
  edit, insertion, deletion or truncation of lines survives verification together with a comparison
  of the head hash, as long as SHA-256 does not collide on the lines and the genesis string.
\<close>

theorem chain_tamper_evident:
  assumes "verify_chain C xs (GENESIS_HASH C) = Inr (True, -1)"
    and "verify_chain C ys (GENESIS_HASH C) = Inr (True, -1)"
    and "xs \<noteq> ys"
    and "inj_on (sha256 C) (insert GENESIS_STRING (set xs \<union> set ys))"
    and "GENESIS_STRING \<notin> set xs \<union> set ys"
  shows "last_hash C (GENESIS_HASH C) xs \<noteq> last_hash C (GENESIS_HASH C) ys"
proof
  assume "last_hash C (GENESIS_HASH C) xs = last_hash C (GENESIS_HASH C) ys"
  moreover have "chained C (GENESIS_HASH C) xs" "chained C (GENESIS_HASH C) ys"
    using assms(1,2) verify_chain_True by blast+
  moreover have "inj_on (sha256 C) (set xs \<union> set ys)"
    using assms(4) by (rule inj_on_subset) auto
  moreover have "GENESIS_HASH C \<notin> sha256 C ` (set xs \<union> set ys)"
    using assms(4,5) by (auto simp: GENESIS_HASH_def inj_on_def)
  ultimately show False using chained_same_head assms(3) by blast
qed

theorem chain_tamper_evident_witness:
  "last_hash \<lparr>sha256 = (\<lambda>s. CHR ''h'' # s),
       json_loads = (\<lambda>s. Some (JObj [(''prev_hash'', JStr (tl s))])), json_dumps = (\<lambda>_. [])\<rparr>
     ''hDRNT-GENESIS'' [''ahDRNT-GENESIS''] \<noteq>
   last_hash \<lparr>sha256 = (\<lambda>s. CHR ''h'' # s),
       json_loads = (\<lambda>s. Some (JObj [(''prev_hash'', JStr (tl s))])), json_dumps = (\<lambda>_. [])\<rparr>
     ''hDRNT-GENESIS'' [''bhDRNT-GENESIS'', ''chbhDRNT-GENESIS'']"
  using chain_tamper_evident [of "\<lparr>sha256 = (\<lambda>s. CHR ''h'' # s),
       json_loads = (\<lambda>s. Some (JObj [(''prev_hash'', JStr (tl s))])), json_dumps = (\<lambda>_. [])\<rparr>"
      "[''ahDRNT-GENESIS'']" "[''bhDRNT-GENESIS'', ''chbhDRNT-GENESIS'']"]
  by (simp add: GENESIS_HASH_def GENESIS_STRING_def line_prev_hash_def compute_hash_def inj_on_def)

section \<open>The stand-alone verifier \<open>verify_files\<close>\<close>

text \<open>
  The state of the loop: \<open>prev_hash\<close> (\<open>None\<close> after a malformed line) and \<open>all_valid\<close>. A file is the
  list of its lines after \<open>rstrip\<close>; empty lines are skipped.
\<close>

definition verify_line :: "codec \<Rightarrow> string option \<times> bool \<Rightarrow> string \<Rightarrow> py_exc + string option \<times> bool"
where
  "verify_line C ps line =
    (if line = [] then Inr ps
     else (case json_loads C line of
         None \<Rightarrow> Inr (None, False)
       | Some (JObj d) \<Rightarrow>
           (let event_prev_hash = (case map_of d ''prev_hash'' of Some v \<Rightarrow> v | None \<Rightarrow> JStr []) in
            (case fst ps of
               None \<Rightarrow> Inr (Some (compute_hash C line), snd ps)
             | Some p \<Rightarrow> Inr (Some (compute_hash C line), snd ps \<and> event_prev_hash = JStr p)))
       | Some _ \<Rightarrow> Inl AttributeError))"

fun verify_lines :: "codec \<Rightarrow> string option \<times> bool \<Rightarrow> string list \<Rightarrow> py_exc + string option \<times> bool"
where
  "verify_lines C ps [] = Inr ps"
| "verify_lines C ps (l # ls) =
    (case verify_line C ps l of Inl x \<Rightarrow> Inl x | Inr ps' \<Rightarrow> verify_lines C ps' ls)"

definition verify_files :: "codec \<Rightarrow> string list list \<Rightarrow> py_exc + bool" where
  "verify_files C files =
    (if files = [] then Inr True
     else map_sum id snd (verify_lines C (Some (GENESIS_HASH C), True) (concat files)))"

lemma verify_lines_stays_False:
  "verify_lines C (p, False) ls = Inr (q, b) \<Longrightarrow> \<not> b"
proof (induction ls arbitrary: p)
  case (Cons l ls)
  then obtain p' where "verify_lines C (p', False) ls = Inr (q, b)"
    by (auto simp: verify_line_def Let_def split: sum.splits option.splits json.splits if_splits)
  then show ?case by (rule Cons.IH)
qed simp

lemma verify_lines_chained:
  assumes "[] \<notin> set ls" and "h \<noteq> []"  and "\<And>s. sha256 C s \<noteq> []"
  shows "(\<exists>q. verify_lines C (Some h, True) ls = Inr (q, True)) \<longleftrightarrow> chained C h ls"
  using assms(1,2)
proof (induction ls arbitrary: h)
  case (Cons l ls)
  show ?case
  proof (cases "link_of C l = Some h")
    case True
    then have "verify_line C (Some h, True) l = Inr (Some (compute_hash C l), True)"
      using Cons.prems
      by (auto simp: verify_line_def link_of_def split: option.splits json.splits)
    moreover have "compute_hash C l \<noteq> []" by (simp add: compute_hash_def assms(3))
    ultimately show ?thesis using True Cons.IH Cons.prems by simp
  next
    case False
    have "\<exists>x. verify_line C (Some h, True) l = Inl x \<or>
        (\<exists>p. verify_line C (Some h, True) l = Inr (p, False))"
      using False Cons.prems
      by (auto simp: verify_line_def link_of_def Let_def split: option.splits json.splits)
    then show ?thesis using False verify_lines_stays_False by fastforce
  qed
qed simp

lemma verify_files_chained:
  assumes "\<And>s. sha256 C s \<noteq> []" and "[] \<notin> set (concat files)"
  shows "verify_files C files = Inr True \<longleftrightarrow> chained C (GENESIS_HASH C) (concat files)"
proof (cases "files = []")
  case True
  then show ?thesis by (simp add: verify_files_def)
next
  case False
  have "verify_files C files = Inr True \<longleftrightarrow>
      (\<exists>q. verify_lines C (Some (GENESIS_HASH C), True) (concat files) = Inr (q, True))"
    using False
    by (cases "verify_lines C (Some (GENESIS_HASH C), True) (concat files)")
      (auto simp: verify_files_def)
  also have "\<dots> \<longleftrightarrow> chained C (GENESIS_HASH C) (concat files)"
    using verify_lines_chained [OF assms(2)] assms(1) by (simp add: GENESIS_HASH_def)
  finally show ?thesis .
qed

text \<open>
  The stand-alone verifier accepts a set of log files exactly when their lines, concatenated in
  the order given, form one unbroken chain from genesis; a re-anchored segment, a malformed line or
  a foreign record makes it report a break (or raise).
\<close>

theorem verify_files_correct:
  assumes "\<And>s. sha256 C s \<noteq> []" and "[] \<notin> set (concat files)"
  shows "verify_files C files = Inr True \<longleftrightarrow> chained C (GENESIS_HASH C) (concat files)"
  using assms by (rule verify_files_chained)

theorem verify_files_correct_witness:
  "let C = \<lparr>sha256 = (\<lambda>s. CHR ''h'' # s), json_loads = (\<lambda>s. Some (JObj [(''prev_hash'', JStr (tl s))])),
        json_dumps = (\<lambda>_. [])\<rparr> in
    verify_files C [[''ahDRNT-GENESIS''], [''bhahDRNT-GENESIS'']] = Inr True"
  unfolding Let_def
  by (subst verify_files_correct)
    (simp_all add: GENESIS_HASH_def GENESIS_STRING_def link_of_def compute_hash_def)

end
