(* ===== verification/Audit_Files.thy ===== *)
theory Audit_Files
  imports Audit_Chain "HOL-Library.Countable" "HOL-Library.List_Lexorder" "HOL-Library.Char_ord"
begin

text \<open>
  The daily log files: \<open>audit-log-writer/src/file_manager.py\<close>. A file is its bytes; a date is the
  text \<open>YYYY-MM-DD\<close> that names it, and the directory is a dict from dates to files, in order of
  creation. \<open>open_date\<close>/\<open>wbuf\<close> is the open handle with its unflushed user-space buffer and \<open>synced\<close>
  the length of the prefix of each file that an \<open>fsync\<close> has made durable. The laws of the JSON and
  hash library that proofs use are collected in \<open>codec_ok\<close>, which \<open>sample_codec\<close> satisfies.
\<close>

section \<open>Documented behaviour of the codec\<close>

fun json_wf :: "json \<Rightarrow> bool" where
  "json_wf (JArr xs) = (\<forall>x \<in> set xs. json_wf x)"
| "json_wf (JObj d) = (wf_dict d \<and> (\<forall>kv \<in> set d. json_wf (snd kv)))"
| "json_wf _ = True"

abbreviation carriage :: char where
  "carriage \<equiv> CHR 0x0D"

text \<open>
  \<open>json.loads\<close> inverts \<open>json.dumps\<close> and yields objects without duplicate keys; \<open>json.dumps\<close> escapes
  the control characters, so its text is one non-empty line; a hex digest is not empty.
\<close>

definition codec_ok :: "codec \<Rightarrow> bool" where
  "codec_ok C \<longleftrightarrow>
    (\<forall>v. json_wf v \<longrightarrow> json_loads C (json_dumps C v) = Some v) \<and>
    (\<forall>s v. json_loads C s = Some v \<longrightarrow> json_wf v) \<and>
    (\<forall>v. json_dumps C v \<noteq> [] \<and> newline \<notin> set (json_dumps C v) \<and> carriage \<notin> set (json_dumps C v)) \<and>
    (\<forall>s. sha256 C s \<noteq> [])"

lemma codec_okD:
  assumes "codec_ok C"
  shows codec_loads_dumps: "json_wf v \<Longrightarrow> json_loads C (json_dumps C v) = Some v"
    and codec_loads_wf: "json_loads C s = Some v \<Longrightarrow> json_wf v"
    and codec_dumps_nonempty: "json_dumps C v \<noteq> []"
    and codec_dumps_newline: "newline \<notin> set (json_dumps C v)"
    and codec_dumps_carriage: "carriage \<notin> set (json_dumps C v)"
    and codec_sha_nonempty: "sha256 C s \<noteq> []"
  using assms by (auto simp: codec_ok_def)

instance char :: countable
  by (rule countable_classI [of "of_char :: char \<Rightarrow> nat"]) simp

instance json :: countable
  by countable_datatype

text \<open>A codec with these laws: numbers in unary for the JSON texts, a tagged copy for the hash.\<close>

definition sample_codec :: codec where
  "sample_codec =
    \<lparr>sha256 = (\<lambda>s. CHR ''#'' # s),
     json_loads = (\<lambda>s. let v = from_nat (length s - 1) in
        if s \<noteq> [] \<and> json_wf v then Some v else None),
     json_dumps = (\<lambda>v. replicate (Suc (to_nat v)) CHR ''1'')\<rparr>"

lemma sample_codec_ok [simp]: "codec_ok sample_codec"
  by (auto simp: codec_ok_def sample_codec_def Let_def split: if_splits)

section \<open>Reading a file line by line\<close>

text \<open>Text mode reads CR LF and CR as a line end (universal newlines).\<close>

fun univ_newlines :: "string \<Rightarrow> string" where
  "univ_newlines [] = []"
| "univ_newlines (c # cs) =
    (if c = carriage then
       (case cs of
          [] \<Rightarrow> [newline]
        | d # ds \<Rightarrow> newline # (if d = newline then univ_newlines ds else univ_newlines cs))
     else c # univ_newlines cs)"

fun split_lines :: "string \<Rightarrow> string list" where
  "split_lines [] = [[]]"
| "split_lines (c # cs) =
    (if c = newline then [] # split_lines cs
     else (case split_lines cs of [] \<Rightarrow> [[c]] | l # ls \<Rightarrow> (c # l) # ls))"

text \<open>The non-empty lines of a file, in order (\<open>for line in f\<close> with \<open>rstrip\<close> and the emptiness test).\<close>

definition file_lines :: "string \<Rightarrow> string list" where
  "file_lines txt = filter (\<lambda>l. l \<noteq> []) (split_lines (univ_newlines txt))"

lemma univ_newlines_id: "carriage \<notin> set s \<Longrightarrow> univ_newlines s = s"
  by (induction s) auto

lemma split_lines_nonempty [simp]: "split_lines s \<noteq> []"
  by (induction s) (auto split: list.splits)

lemma split_lines_append: "split_lines (s @ newline # t) = split_lines s @ split_lines t"
proof (induction s)
  case (Cons c s)
  then show ?case by (cases "split_lines s") auto
qed simp

lemma split_lines_single: "newline \<notin> set l \<Longrightarrow> split_lines l = [l]"
  by (induction l) auto

text \<open>A file whose last line is complete, as every whole write of the writer leaves it.\<close>

definition whole_lines :: "string \<Rightarrow> bool" where
  "whole_lines txt \<longleftrightarrow> carriage \<notin> set txt \<and> (txt = [] \<or> last txt = newline)"

lemma whole_lines_Nil [simp]: "whole_lines []"
  by (simp add: whole_lines_def)

lemma file_lines_Nil [simp]: "file_lines [] = []"
  by (simp add: file_lines_def)

text \<open>A text that is one line of the log: not empty and without line terminators.\<close>

definition line_text :: "string \<Rightarrow> bool" where
  "line_text l \<longleftrightarrow> l \<noteq> [] \<and> newline \<notin> set l \<and> carriage \<notin> set l"

lemma line_text_dumps [simp]: "codec_ok C \<Longrightarrow> line_text (json_dumps C v)"
  by (simp add: line_text_def codec_okD)

lemma whole_lines_append:
  "whole_lines txt \<Longrightarrow> line_text l \<Longrightarrow> whole_lines (txt @ l @ [newline])"
  by (auto simp: whole_lines_def line_text_def)

lemma file_lines_append:
  assumes "whole_lines txt" and "line_text l"
  shows "file_lines (txt @ l @ [newline]) = file_lines txt @ [l]"
proof (cases "txt = []")
  case True
  have "split_lines (l @ newline # []) = split_lines l @ split_lines []"
    by (rule split_lines_append)
  then show ?thesis
    using assms True by (auto simp: file_lines_def line_text_def univ_newlines_id split_lines_single)
next
  case False
  then obtain t where t: "txt = t @ [newline]"
    using assms(1) by (metis append_butlast_last_id whole_lines_def)
  have "split_lines (t @ newline # l @ [newline]) = split_lines t @ split_lines (l @ newline # [])"
    by (simp add: split_lines_append)
  also have "\<dots> = split_lines t @ [l] @ [[]]"
    using assms(2) split_lines_append [of l "[]"] by (simp add: line_text_def split_lines_single)
  finally have "split_lines (t @ newline # l @ [newline]) = split_lines t @ [l] @ [[]]" .
  moreover have "split_lines (t @ newline # []) = split_lines t @ [[]]"
    by (simp add: split_lines_append)
  ultimately show ?thesis
    using assms t
    by (auto simp: file_lines_def line_text_def whole_lines_def univ_newlines_id)
qed

section \<open>\<open>FileManager\<close>\<close>

record file_manager =
  log_files :: "(string, string) dict"
  open_date :: "string option"
  wbuf :: string
  synced :: "(string, nat) dict"

definition initial_fm :: "(string, string) dict \<Rightarrow> file_manager" where
  "initial_fm fs = \<lparr>log_files = fs, open_date = None, wbuf = [], synced = []\<rparr>"

text \<open>The content of a day's file (empty when it does not exist).\<close>

definition text_at :: "(string, string) dict \<Rightarrow> string \<Rightarrow> string" where
  "text_at fs d = (case map_of fs d of None \<Rightarrow> [] | Some txt \<Rightarrow> txt)"

abbreviation file_text :: "file_manager \<Rightarrow> string \<Rightarrow> string" where
  "file_text fm d \<equiv> text_at (log_files fm) d"

text \<open>\<open>file.flush()\<close> of the open handle.\<close>

definition flush :: "file_manager \<Rightarrow> file_manager" where
  "flush fm = (case open_date fm of
      None \<Rightarrow> fm
    | Some d \<Rightarrow> fm\<lparr>log_files := AList.update d (file_text fm d @ wbuf fm) (log_files fm), wbuf := []\<rparr>)"

definition close_file :: "file_manager \<Rightarrow> file_manager" where
  "close_file fm = (case open_date fm of None \<Rightarrow> fm | Some d \<Rightarrow> (flush fm)\<lparr>open_date := None\<rparr>)"

text \<open>Opening with mode \<open>"a"\<close> creates the file if it is missing.\<close>

definition open_file :: "string \<Rightarrow> file_manager \<Rightarrow> file_manager" where
  "open_file d fm =
    (let fm = (if open_date fm \<noteq> None then flush fm else fm) in
     fm\<lparr>log_files := AList.update d (file_text fm d) (log_files fm), open_date := Some d\<rparr>)"

definition ensure_file_for_date :: "string \<Rightarrow> file_manager \<Rightarrow> file_manager" where
  "ensure_file_for_date d fm = (if open_date fm \<noteq> Some d then open_file d fm else fm)"

definition fsync_open :: "file_manager \<Rightarrow> file_manager" where
  "fsync_open fm = (case open_date fm of
      None \<Rightarrow> fm
    | Some d \<Rightarrow> fm\<lparr>synced := AList.update d (length (file_text fm d)) (synced fm)\<rparr>)"

definition append_line :: "string \<Rightarrow> string \<Rightarrow> bool \<Rightarrow> file_manager \<Rightarrow> file_manager" where
  "append_line d json_line do_fsync fm =
    (let fm = ensure_file_for_date d fm;
         fm = fm\<lparr>wbuf := wbuf fm @ json_line @ [newline]\<rparr>
     in if do_fsync then fsync_open (flush fm) else fm)"

section \<open>\<open>recover_chain_state\<close>\<close>

text \<open>
  One line: a text that is no JSON is skipped; a JSON value that is no object, or an unhashable id,
  raises an exception that the code does not catch.
\<close>

definition recover_line ::
    "codec \<Rightarrow> string \<times> int \<times> json set \<Rightarrow> string \<Rightarrow> py_exc + string \<times> int \<times> json set" where
  "recover_line C a line =
    (case a of (prev_hash, sequence, seen_ids) \<Rightarrow>
      (case json_loads C line of
         None \<Rightarrow> Inr a
       | Some (JObj event) \<Rightarrow>
           (case (case map_of event ''source_event_id'' of None \<Rightarrow> JStr [] | Some v \<Rightarrow> v) of
              JArr _ \<Rightarrow> Inl TypeError
            | JObj _ \<Rightarrow> Inl TypeError
            | v \<Rightarrow> Inr (compute_hash C line, sequence + 1, insert v seen_ids))
       | Some _ \<Rightarrow> Inl AttributeError))"

fun recover_lines ::
    "codec \<Rightarrow> string \<times> int \<times> json set \<Rightarrow> string list \<Rightarrow> py_exc + string \<times> int \<times> json set" where
  "recover_lines C a [] = Inr a"
| "recover_lines C a (l # ls) =
    (case recover_line C a l of Inl x \<Rightarrow> Inl x | Inr a' \<Rightarrow> recover_lines C a' ls)"

definition recover_chain_state ::
    "codec \<Rightarrow> string \<Rightarrow> string \<Rightarrow> file_manager \<Rightarrow> py_exc + string \<times> int \<times> json set" where
  "recover_chain_state C yesterday today fm =
    recover_lines C (GENESIS_HASH C, 0, {})
      (file_lines (file_text fm yesterday) @ file_lines (file_text fm today))"

definition get_last_hash_of_file :: "codec \<Rightarrow> string \<Rightarrow> file_manager \<Rightarrow> string option" where
  "get_last_hash_of_file C d fm =
    (case file_lines (file_text fm d) of
       [] \<Rightarrow> None
     | l # ls \<Rightarrow> Some (compute_hash C (last (l # ls))))"


section \<open>The abstract log directory\<close>

text \<open>
  What a flush would leave on disk. On this view \<open>append_line\<close> is one update of the dict, whatever
  handle is open and whatever is still buffered.
\<close>

definition view :: "file_manager \<Rightarrow> (string, string) dict" where
  "view fm = log_files (flush fm)"

definition append_text :: "string \<Rightarrow> string \<Rightarrow> (string, string) dict \<Rightarrow> (string, string) dict" where
  "append_text d l fs = AList.update d (text_at fs d @ l @ [newline]) fs"

definition handle_ok :: "file_manager \<Rightarrow> bool" where
  "handle_ok fm \<longleftrightarrow> (open_date fm = None \<longrightarrow> wbuf fm = [])"

lemma update_update [simp]: "AList.update k v (AList.update k w d) = AList.update k v d"
  by (induction d) auto

lemma text_at_update [simp]:
  "text_at (AList.update k v fs) d = (if d = k then v else text_at fs d)"
  by (simp add: text_at_def)

lemma view_append_line:
  "handle_ok fm \<Longrightarrow> view (append_line d l b fm) = append_text d l (view fm)"
  by (cases "open_date fm")
    (auto simp: view_def append_line_def append_text_def ensure_file_for_date_def open_file_def
      flush_def fsync_open_def handle_ok_def Let_def)

lemma append_line_open [simp]: "open_date (append_line d l b fm) = Some d"
  by (auto simp: append_line_def ensure_file_for_date_def open_file_def flush_def fsync_open_def
      Let_def split: option.splits)

lemma handle_ok_append_line [simp]: "handle_ok (append_line d l b fm)"
  by (simp add: handle_ok_def)

lemma append_line_fsync:
  "wbuf (append_line d l True fm) = []"
  "map_of (synced (append_line d l True fm)) d
    = Some (length (file_text (append_line d l True fm) d))"
  by (auto simp: append_line_def ensure_file_for_date_def open_file_def flush_def fsync_open_def
      Let_def split: option.splits)

lemma flush_simps [simp]:
  "open_date (flush fm) = open_date fm"
  "handle_ok fm \<Longrightarrow> wbuf (flush fm) = []"
  "handle_ok (flush fm) = handle_ok fm"
  by (auto simp: flush_def handle_ok_def split: option.splits)

lemma log_files_flush: "log_files (flush fm) = view fm"
  by (simp add: view_def)

text \<open>The lines of a directory, and a directory whose newest file is no newer than \<open>cur\<close>.\<close>

definition dict_lines :: "(string, string) dict \<Rightarrow> string list" where
  "dict_lines fs = concat (map (\<lambda>kv. file_lines (snd kv)) fs)"

definition days_ok :: "string \<Rightarrow> (string, string) dict \<Rightarrow> bool" where
  "days_ok cur fs \<longleftrightarrow> sorted_wrt (<) (dict_keys fs) \<and> (\<forall>d \<in> set (dict_keys fs). d \<le> cur) \<and>
    (\<forall>txt \<in> set (dict_vals fs). whole_lines txt \<and> file_lines txt \<noteq> [])"

lemma days_ok_mono: "days_ok c fs \<Longrightarrow> c \<le> c' \<Longrightarrow> days_ok c' fs"
  by (auto simp: days_ok_def intro: order_trans)

lemma days_ok_wf: "days_ok c fs \<Longrightarrow> wf_dict fs"
  by (auto simp: days_ok_def strict_sorted_iff)

lemma append_text_lines:
  assumes "days_ok cur fs" and "line_text l"
  shows "dict_lines (append_text cur l fs) = dict_lines fs @ [l] \<and> days_ok cur (append_text cur l fs)"
  using assms(1)
proof (induction fs)
  case Nil
  then show ?case
    using assms(2) file_lines_append [of "[]" l] whole_lines_append [of "[]" l]
    by (simp add: append_text_def text_at_def dict_lines_def days_ok_def)
next
  case (Cons kv fs)
  obtain k v where kv: "kv = (k, v)" by force
  show ?case
  proof (cases "k = cur")
    case True
    have "fs = []"
    proof (rule ccontr)
      assume "fs \<noteq> []"
      then obtain kv' where "kv' \<in> set fs" by (cases fs) auto
      then have "cur < fst kv'" "fst kv' \<le> cur"
        using Cons.prems kv True by (auto simp: days_ok_def)
      then show False by simp
    qed
    moreover have "whole_lines v" using Cons.prems kv by (simp add: days_ok_def)
    ultimately show ?thesis
      using kv True assms(2) Cons.prems
      by (auto simp: append_text_def text_at_def dict_lines_def days_ok_def file_lines_append
          whole_lines_append)
  next
    case False
    have ok: "days_ok cur fs" using Cons.prems by (simp add: days_ok_def)
    have upd: "append_text cur l (kv # fs) = kv # append_text cur l fs"
      using False kv by (simp add: append_text_def text_at_def)
    have keys: "set (dict_keys (append_text cur l fs)) = insert cur (set (dict_keys fs))"
      by (simp add: append_text_def dom_update)
    have "k < cur" using Cons.prems kv False by (auto simp: days_ok_def)
    then show ?thesis
      using Cons.IH [OF ok] Cons.prems upd keys kv
      by (auto simp: dict_lines_def days_ok_def)
  qed
qed

end
