(* ===== verification/Audit_Writer.thy ===== *)
theory Audit_Writer
  imports Audit_Files
begin

text \<open>
  The audit log writer: \<open>audit-log-writer/src/log_writer.py\<close>. The clock and the UUID source enter as
  arguments: \<open>now\<close> is \<open>datetime.now(utc)\<close> printed as \<open>committed_at\<close> (its first ten characters are
  the date), \<open>mt\<close> is \<open>time.monotonic()\<close> and \<open>event_id\<close> is \<open>str(uuid7())\<close>. A request is one
  connection of the accept loop (the length prefix and the message body), a tick is the flush check
  after it, a restart is a crash of the process followed by \<open>_initialize\<close>. The sockets are not
  modelled.
\<close>

record writer =
  file_mgr :: file_manager
  prev_hash :: string
  sequence :: int
  seen_source_ids :: "json set"
  current_date :: "string option"
  be_buffer :: "(string \<times> string) list"
  last_flush_time :: instant

datatype werr = Message_too_large | Invalid_JSON | Invalid verr

datatype response =
    Ack string string string int
  | Duplicate string
  | Error_response werr

definition MAX_MESSAGE_SIZE :: nat where
  "MAX_MESSAGE_SIZE = 16 * 1024 * 1024"

definition flush_interval :: instant where
  "flush_interval = 1000000"

section \<open>Operations\<close>

definition initialize ::
    "codec \<Rightarrow> string \<Rightarrow> string \<Rightarrow> instant \<Rightarrow> file_manager \<Rightarrow> py_exc + writer" where
  "initialize C yesterday today mt f =
    map_sum id (\<lambda>(h, n, ids).
       \<lparr>file_mgr = f, prev_hash = h, sequence = n, seen_source_ids = ids,
        current_date = Some today, be_buffer = [], last_flush_time = mt\<rparr>)
      (recover_chain_state C yesterday today f)"

definition flush_best_effort :: "instant \<Rightarrow> writer \<Rightarrow> writer" where
  "flush_best_effort mt W =
    (if be_buffer W = [] then W
     else W\<lparr>file_mgr := flush (fold (\<lambda>(d, l). append_line d l False) (be_buffer W) (file_mgr W)),
            be_buffer := [], last_flush_time := mt\<rparr>)"

definition maybe_flush_best_effort :: "instant \<Rightarrow> writer \<Rightarrow> writer" where
  "maybe_flush_best_effort mt W =
    (if be_buffer W \<noteq> [] \<and> mt - last_flush_time W \<ge> flush_interval
     then flush_best_effort mt W else W)"

text \<open>\<open>CommittedEvent.to_dict\<close> of the event that \<open>_commit_event\<close> builds.\<close>

definition committed_event ::
    "string \<Rightarrow> string \<Rightarrow> string \<Rightarrow> (string, json) dict \<Rightarrow> (string, json) dict" where
  "committed_event event_id committed_at prev data =
    [(''schema_version'', field data ''schema_version''),
     (''event_id'', JStr event_id),
     (''source_event_id'', field data ''source_event_id''),
     (''timestamp'', field data ''timestamp''),
     (''committed_at'', JStr committed_at),
     (''event_type'', field data ''event_type''),
     (''job_id'', field data ''job_id''),
     (''parent_job_id'', field data ''parent_job_id''),
     (''capability_id'', field data ''capability_id''),
     (''wal_level'', field data ''wal_level''),
     (''source'', field data ''source''),
     (''prev_hash'', JStr prev),
     (''durability'', field data ''durability''),
     (''payload'', field data ''payload'')]"

text \<open>The midnight rollover flushes the buffer to the old day first.\<close>

definition commit_event ::
    "string \<Rightarrow> string \<Rightarrow> instant \<Rightarrow> (string, json) dict \<Rightarrow> writer \<Rightarrow> (string, json) dict \<times> writer" where
  "commit_event now event_id mt data W =
    (let date_str = take 10 now;
         W = (if current_date W \<noteq> None \<and> Some date_str \<noteq> current_date W
              then flush_best_effort mt W else W);
         W = W\<lparr>current_date := Some date_str\<rparr>
     in (committed_event event_id now (prev_hash W) data, W))"

definition write_event ::
    "codec \<Rightarrow> string \<Rightarrow> instant \<Rightarrow> (string, json) dict \<Rightarrow> writer \<Rightarrow> writer" where
  "write_event C committed_at mt event W =
    (let json_line = json_dumps C (JObj event);
         date_str = take 10 committed_at;
         W = (if field event ''durability'' = JStr ''durable''
              then let W = flush_best_effort mt W
                   in W\<lparr>file_mgr := append_line date_str json_line True (file_mgr W)\<rparr>
              else W\<lparr>be_buffer := be_buffer W @ [(date_str, json_line)]\<rparr>)
     in W\<lparr>prev_hash := compute_hash C json_line, sequence := sequence W + 1,
          seen_source_ids := insert (field event ''source_event_id'') (seen_source_ids W)\<rparr>)"

definition handle_event ::
    "codec \<Rightarrow> (string \<Rightarrow> bool) \<Rightarrow> string \<Rightarrow> string \<Rightarrow> instant \<Rightarrow> json \<Rightarrow> writer
      \<Rightarrow> (py_exc + response) \<times> writer" where
  "handle_event C iso_ok now event_id mt data W =
    (case validate_event iso_ok data of
       Inl x \<Rightarrow> (Inl x, W)
     | Inr (Some e) \<Rightarrow> (Inr (Error_response (Invalid e)), W)
     | Inr None \<Rightarrow>
        (case data of
           JObj d \<Rightarrow>
             (if field d ''source_event_id'' \<in> seen_source_ids W
              then (Inr (Duplicate (event_str d ''source_event_id'')), W)
              else
                let (event, W1) = commit_event now event_id mt d W;
                    W2 = write_event C now mt event W1
                in (Inr (Ack event_id now (event_str event ''prev_hash'') (sequence W2)), W2))
         | _ \<Rightarrow> (Inl TypeError, W)))"

text \<open>
  One connection: an unhandled exception is logged and the connection closed without a response.
\<close>

definition handle_connection ::
    "codec \<Rightarrow> (string \<Rightarrow> bool) \<Rightarrow> string \<Rightarrow> string \<Rightarrow> instant \<Rightarrow> nat \<Rightarrow> string \<Rightarrow> writer
      \<Rightarrow> response option \<times> writer" where
  "handle_connection C iso_ok now event_id mt msg_length body W =
    (if msg_length > MAX_MESSAGE_SIZE then (Some (Error_response Message_too_large), W)
     else (case json_loads C body of
         None \<Rightarrow> (Some (Error_response Invalid_JSON), W)
       | Some data \<Rightarrow>
           (case handle_event C iso_ok now event_id mt data W of
              (Inl x, W') \<Rightarrow> (None, W')
            | (Inr r, W') \<Rightarrow> (Some r, W'))))"

definition shutdown :: "instant \<Rightarrow> writer \<Rightarrow> writer" where
  "shutdown mt W = (let W = flush_best_effort mt W in W\<lparr>file_mgr := close_file (file_mgr W)\<rparr>)"

text \<open>A process crash keeps what the operating system has: the files, not the buffers.\<close>

definition crash :: "writer \<Rightarrow> file_manager" where
  "crash W = (initial_fm (log_files (file_mgr W)))\<lparr>synced := synced (file_mgr W)\<rparr>"

datatype writer_op =
    Request string string instant nat string
  | Tick instant
  | Restart string string instant

definition writer_step ::
    "codec \<Rightarrow> (string \<Rightarrow> bool) \<Rightarrow> writer_op \<Rightarrow> writer \<Rightarrow> py_exc + response option \<times> writer" where
  "writer_step C iso_ok op W =
    (case op of
       Request now event_id mt n body \<Rightarrow>
         Inr (handle_connection C iso_ok now event_id mt n body W)
     | Tick mt \<Rightarrow> Inr (None, maybe_flush_best_effort mt W)
     | Restart yesterday today mt \<Rightarrow>
         map_sum id (\<lambda>W'. (None, W')) (initialize C yesterday today mt (crash W)))"

fun writer_run ::
    "codec \<Rightarrow> (string \<Rightarrow> bool) \<Rightarrow> writer_op list \<Rightarrow> writer \<Rightarrow> py_exc + writer" where
  "writer_run C iso_ok [] W = Inr W"
| "writer_run C iso_ok (op # ops) W =
    (case writer_step C iso_ok op W of
       Inl x \<Rightarrow> Inl x
     | Inr (_, W') \<Rightarrow> writer_run C iso_ok ops W')"


section \<open>The invariant\<close>

text \<open>The log as the chain sees it: the lines on disk, then the buffered ones.\<close>

definition stream :: "writer \<Rightarrow> string list" where
  "stream W = dict_lines (log_files (file_mgr W)) @ map snd (be_buffer W)"

text \<open>The id under which a line is deduplicated.\<close>

definition line_id :: "codec \<Rightarrow> string \<Rightarrow> json option" where
  "line_id C l =
    (case json_loads C l of
       Some (JObj d) \<Rightarrow>
         (case map_of d ''source_event_id'' of Some (JStr s) \<Rightarrow> Some (JStr s) | _ \<Rightarrow> None)
     | _ \<Rightarrow> None)"

definition writer_inv :: "codec \<Rightarrow> writer \<Rightarrow> bool" where
  "writer_inv C W \<longleftrightarrow>
    (\<exists>cur. current_date W = Some cur \<and> days_ok cur (log_files (file_mgr W)) \<and>
       (\<forall>dl \<in> set (be_buffer W). fst dl = cur \<and> line_text (snd dl))) \<and>
    wbuf (file_mgr W) = [] \<and>
    (\<forall>d. open_date (file_mgr W) = Some d \<longrightarrow> map_of (log_files (file_mgr W)) d \<noteq> None) \<and>
    chained C (GENESIS_HASH C) (stream W) \<and>
    prev_hash W = last_hash C (GENESIS_HASH C) (stream W) \<and>
    (\<forall>l \<in> set (stream W). line_id C l \<noteq> None)"

lemma writer_invE:
  assumes "writer_inv C W"
  obtains cur where "current_date W = Some cur" "days_ok cur (log_files (file_mgr W))"
    "\<forall>dl \<in> set (be_buffer W). fst dl = cur \<and> line_text (snd dl)"
    "wbuf (file_mgr W) = []"
    "\<forall>d. open_date (file_mgr W) = Some d \<longrightarrow> map_of (log_files (file_mgr W)) d \<noteq> None"
    "chained C (GENESIS_HASH C) (stream W)"
    "prev_hash W = last_hash C (GENESIS_HASH C) (stream W)"
    "\<forall>l \<in> set (stream W). line_id C l \<noteq> None"
proof -
  from assms obtain cur where c: "current_date W = Some cur" "days_ok cur (log_files (file_mgr W))"
    "\<forall>dl \<in> set (be_buffer W). fst dl = cur \<and> line_text (snd dl)"
    unfolding writer_inv_def by blast
  show thesis
    by (rule that [OF c]) (use assms in \<open>auto simp: writer_inv_def\<close>)
qed

text \<open>With an empty user-space buffer and the open file on disk, the view is what is on disk.\<close>

lemma view_settled:
  assumes "wbuf f = []" and "\<And>d. open_date f = Some d \<Longrightarrow> map_of (log_files f) d \<noteq> None"
  shows "view f = log_files f" "handle_ok f"
proof -
  show "handle_ok f" using assms(1) by (simp add: handle_ok_def)
  show "view f = log_files f"
  proof (cases "open_date f")
    case None
    then show ?thesis by (simp add: view_def flush_def)
  next
    case (Some d)
    then obtain t where "map_of (log_files f) d = Some t" using assms(2) by blast
    then show ?thesis using Some assms(1) by (simp add: view_def flush_def text_at_def update_triv)
  qed
qed

text \<open>Appending the buffered lines of one day.\<close>

lemma fold_append_lines:
  assumes "handle_ok f" and "days_ok cur (view f)"
    and "\<forall>dl \<in> set buf. fst dl = cur \<and> line_text (snd dl)"
  shows "let f' = fold (\<lambda>(d, l). append_line d l False) buf f in
    handle_ok f' \<and> days_ok cur (view f') \<and> dict_lines (view f') = dict_lines (view f) @ map snd buf \<and>
    set (dict_keys (view f')) = set (dict_keys (view f)) \<union> fst ` set buf \<and>
    (buf \<noteq> [] \<longrightarrow> open_date f' = Some cur)"
  using assms
proof (induction buf arbitrary: f)
  case (Cons dl buf)
  obtain l where dl: "dl = (cur, l)" "line_text l"
    using Cons.prems(3) by (cases dl) simp
  let ?g = "append_line cur l False f"
  have v: "view ?g = append_text cur l (view f)" using Cons.prems(1) by (rule view_append_line)
  then have lines: "dict_lines (view ?g) = dict_lines (view f) @ [l]" "days_ok cur (view ?g)"
    using append_text_lines [OF Cons.prems(2) dl(2)] by auto
  have "set (dict_keys (view ?g)) = insert cur (set (dict_keys (view f)))"
    unfolding v by (simp add: append_text_def dom_update)
  moreover have "let f' = fold (\<lambda>(d, l). append_line d l False) buf ?g in
      handle_ok f' \<and> days_ok cur (view f') \<and> dict_lines (view f') = dict_lines (view ?g) @ map snd buf \<and>
      set (dict_keys (view f')) = set (dict_keys (view ?g)) \<union> fst ` set buf \<and>
      (buf \<noteq> [] \<longrightarrow> open_date f' = Some cur)"
    using Cons.prems(3) lines by (intro Cons.IH) auto
  ultimately show ?case
    using lines dl by (cases "buf = []") (auto simp: Let_def)
qed simp

lemma flush_best_effort_simps [simp]:
  "be_buffer (flush_best_effort mt W) = []"
  "prev_hash (flush_best_effort mt W) = prev_hash W"
  "sequence (flush_best_effort mt W) = sequence W"
  "seen_source_ids (flush_best_effort mt W) = seen_source_ids W"
  "current_date (flush_best_effort mt W) = current_date W"
  by (simp_all add: flush_best_effort_def)

lemma flush_best_effort_inv:
  assumes "writer_inv C W"
  shows "stream (flush_best_effort mt W) = stream W \<and> writer_inv C (flush_best_effort mt W)"
proof (cases "be_buffer W = []")
  case True
  then show ?thesis using assms by (simp add: flush_best_effort_def)
next
  case False
  obtain cur where w: "current_date W = Some cur" "days_ok cur (log_files (file_mgr W))"
    "\<forall>dl \<in> set (be_buffer W). fst dl = cur \<and> line_text (snd dl)" "wbuf (file_mgr W) = []"
    "\<forall>d. open_date (file_mgr W) = Some d \<longrightarrow> map_of (log_files (file_mgr W)) d \<noteq> None"
    using assms by (rule writer_invE)
  have v: "view (file_mgr W) = log_files (file_mgr W)" "handle_ok (file_mgr W)"
    using view_settled w(4,5) by blast+
  define f' where "f' = fold (\<lambda>(d, l). append_line d l False) (be_buffer W) (file_mgr W)"
  have f': "handle_ok f'" "days_ok cur (view f')"
    "dict_lines (view f') = dict_lines (log_files (file_mgr W)) @ map snd (be_buffer W)"
    "set (dict_keys (view f')) = set (dict_keys (log_files (file_mgr W))) \<union> fst ` set (be_buffer W)"
    "open_date f' = Some cur"
    using fold_append_lines [OF v(2), of cur "be_buffer W"] w(2,3) v(1) False
    by (simp_all add: f'_def Let_def)
  have fl: "flush_best_effort mt W = W\<lparr>file_mgr := flush f', be_buffer := [], last_flush_time := mt\<rparr>"
    using False by (simp add: flush_best_effort_def f'_def)
  have str: "stream (flush_best_effort mt W) = stream W"
    by (simp add: fl stream_def log_files_flush f'(3))
  obtain dl where "dl \<in> set (be_buffer W)" using False by (cases "be_buffer W") auto
  then have "cur \<in> fst ` set (be_buffer W)" using w(3) by force
  then have "cur \<in> set (dict_keys (view f'))" using f'(4) by blast
  then have "map_of (view f') cur \<noteq> None" by (simp add: map_of_eq_None_iff)
  then show ?thesis
    using assms str f' w(1) unfolding writer_inv_def str by (simp add: fl log_files_flush)
qed

lemma maybe_flush_inv:
  "writer_inv C W \<Longrightarrow> stream (maybe_flush_best_effort mt W) = stream W \<and>
    writer_inv C (maybe_flush_best_effort mt W)"
  by (simp add: maybe_flush_best_effort_def flush_best_effort_inv)

section \<open>Committing an event\<close>

lemma commit_event_inv:
  assumes "writer_inv C W" and "commit_event now event_id mt d W = (event, W1)"
    and "\<And>cur. current_date W = Some cur \<Longrightarrow> cur \<le> take 10 now"
  shows "writer_inv C W1" "stream W1 = stream W" "current_date W1 = Some (take 10 now)"
    "event = committed_event event_id now (last_hash C (GENESIS_HASH C) (stream W)) d"
    "seen_source_ids W1 = seen_source_ids W" "sequence W1 = sequence W"
proof -
  obtain cur where w: "current_date W = Some cur" "days_ok cur (log_files (file_mgr W))"
    "\<forall>dl \<in> set (be_buffer W). fst dl = cur \<and> line_text (snd dl)"
    "prev_hash W = last_hash C (GENESIS_HASH C) (stream W)"
    using assms(1) by (rule writer_invE)
  define V where "V = (if take 10 now \<noteq> cur then flush_best_effort mt W else W)"
  have V: "writer_inv C V" "stream V = stream W" "current_date V = Some cur"
    "take 10 now \<noteq> cur \<Longrightarrow> be_buffer V = []" "prev_hash V = prev_hash W"
    "seen_source_ids V = seen_source_ids W" "sequence V = sequence W"
    using flush_best_effort_inv [OF assms(1), of mt] assms(1) w(1) by (auto simp: V_def)
  have eq: "event = committed_event event_id now (prev_hash V) d"
      "W1 = V\<lparr>current_date := Some (take 10 now)\<rparr>"
    using assms(2) w(1) by (auto simp: commit_event_def Let_def V_def split: if_splits)
  have "cur \<le> take 10 now" using assms(3) w(1) by blast
  moreover obtain c where "current_date V = Some c" "days_ok c (log_files (file_mgr V))"
    "\<forall>dl \<in> set (be_buffer V). fst dl = c \<and> line_text (snd dl)"
    using V(1) by (rule writer_invE)
  ultimately have days: "days_ok (take 10 now) (log_files (file_mgr W1))"
    and buf: "\<forall>dl \<in> set (be_buffer W1). fst dl = take 10 now \<and> line_text (snd dl)"
    using V(3,4) by (cases "take 10 now = cur"; simp add: eq days_ok_mono)+
  have str: "stream W1 = stream V" by (simp add: eq stream_def)
  show "writer_inv C W1"
    using V(1) days buf unfolding writer_inv_def str by (simp add: eq)
  show "stream W1 = stream W" using str V(2) by simp
  show "current_date W1 = Some (take 10 now)" by (simp add: eq)
  show "event = committed_event event_id now (last_hash C (GENESIS_HASH C) (stream W)) d"
    using eq(1) V(5) w(4) by simp
  show "seen_source_ids W1 = seen_source_ids W" "sequence W1 = sequence W"
    using V(6,7) by (simp_all add: eq)
qed


text \<open>The line of a committed event names its predecessor and its source id.\<close>

lemma json_wf_field: "json_wf (JObj d) \<Longrightarrow> json_wf (field d k)"
  by (auto simp: field_def split: option.splits dest: map_of_SomeD)

lemma committed_line:
  assumes "codec_ok C" and "json_wf (JObj d)" and "field d ''source_event_id'' = JStr s"
  shows "link_of C (json_dumps C (JObj (committed_event eid now h d))) = Some h"
    "line_id C (json_dumps C (JObj (committed_event eid now h d))) = Some (JStr s)"
proof -
  have "json_wf (JObj (committed_event eid now h d))"
    by (simp add: committed_event_def json_wf_field [OF assms(2)] del: json_wf.simps(2))
      (simp add: json_wf_field [OF assms(2)])
  then have "json_loads C (json_dumps C (JObj (committed_event eid now h d)))
      = Some (JObj (committed_event eid now h d))"
    by (rule codec_loads_dumps [OF assms(1)])
  then show "link_of C (json_dumps C (JObj (committed_event eid now h d))) = Some h"
    "line_id C (json_dumps C (JObj (committed_event eid now h d))) = Some (JStr s)"
    using assms(3) by (simp_all add: link_of_def line_id_def committed_event_def)
qed

lemma settled_append_durable:
  assumes "wbuf f = []" and "\<forall>d. open_date f = Some d \<longrightarrow> map_of (log_files f) d \<noteq> None"
    and "days_ok cur (log_files f)" and "line_text l"
  defines "f' \<equiv> append_line cur l True f"
  shows "dict_lines (log_files f') = dict_lines (log_files f) @ [l]" "days_ok cur (log_files f')"
    "wbuf f' = []" "\<forall>d. open_date f' = Some d \<longrightarrow> map_of (log_files f') d \<noteq> None"
proof -
  have v: "view f = log_files f" "handle_ok f" using view_settled assms(1,2) by blast+
  have v': "view f' = append_text cur l (log_files f)"
    unfolding f'_def using view_append_line [OF v(2)] v(1) by simp
  show "wbuf f' = []" by (simp add: f'_def append_line_fsync)
  have "log_files f' = view f'"
    by (auto simp: f'_def append_line_def view_def ensure_file_for_date_def open_file_def flush_def
        fsync_open_def Let_def split: option.splits)
  then have lf: "log_files f' = append_text cur l (log_files f)" using v' by simp
  show "dict_lines (log_files f') = dict_lines (log_files f) @ [l]" "days_ok cur (log_files f')"
    unfolding lf using append_text_lines [OF assms(3,4)] by blast+
  show "\<forall>d. open_date f' = Some d \<longrightarrow> map_of (log_files f') d \<noteq> None"
    unfolding lf by (simp add: f'_def append_text_def)
qed

lemma write_event_inv:
  assumes "codec_ok C" and "writer_inv C W" and "current_date W = Some (take 10 now)"
    and "json_wf (JObj d)" and "field d ''source_event_id'' = JStr s"
    and "event = committed_event eid now (last_hash C (GENESIS_HASH C) (stream W)) d"
  shows "writer_inv C (write_event C now mt event W)"
    "stream (write_event C now mt event W) = stream W @ [json_dumps C (JObj event)]"
proof -
  let ?l = "json_dumps C (JObj event)" and ?W = "write_event C now mt event W"
  have line: "link_of C ?l = Some (last_hash C (GENESIS_HASH C) (stream W))" "line_id C ?l = Some (JStr s)"
    unfolding assms(6) by (rule committed_line [OF assms(1,4,5)])+
  have both: "stream ?W = stream W @ [?l] \<and>
     days_ok (take 10 now) (log_files (file_mgr ?W)) \<and>
     (\<forall>dl \<in> set (be_buffer ?W). fst dl = take 10 now \<and> line_text (snd dl)) \<and>
     wbuf (file_mgr ?W) = [] \<and>
     (\<forall>d. open_date (file_mgr ?W) = Some d \<longrightarrow> map_of (log_files (file_mgr ?W)) d \<noteq> None)"
  proof (cases "field event ''durability'' = JStr ''durable''")
    case True
    let ?F = "flush_best_effort mt W"
    have F: "stream ?F = stream W" "writer_inv C ?F"
      using flush_best_effort_inv [OF assms(2)] by auto
    from F(2) obtain cur where f: "current_date ?F = Some cur" "days_ok cur (log_files (file_mgr ?F))"
      "wbuf (file_mgr ?F) = []"
      "\<forall>d. open_date (file_mgr ?F) = Some d \<longrightarrow> map_of (log_files (file_mgr ?F)) d \<noteq> None"
      by (rule writer_invE)
    have cur: "cur = take 10 now" using f(1) assms(3) by simp
    show ?thesis
      using True F(1) settled_append_durable [OF f(3,4,2) line_text_dumps [OF assms(1)], of "JObj event"]
      by (simp add: write_event_def Let_def stream_def cur)
  next
    case False
    obtain cur where w: "current_date W = Some cur" "days_ok cur (log_files (file_mgr W))"
      "\<forall>dl \<in> set (be_buffer W). fst dl = cur \<and> line_text (snd dl)"
      "wbuf (file_mgr W) = []"
      "\<forall>d. open_date (file_mgr W) = Some d \<longrightarrow> map_of (log_files (file_mgr W)) d \<noteq> None"
      using assms(2) by (rule writer_invE)
    then show ?thesis
      using False assms(1,3) by (auto simp: write_event_def Let_def stream_def)
  qed
  then show "stream ?W = stream W @ [?l]" by blast
  then have str: "stream ?W = stream W @ [?l]" .
  have "current_date ?W = Some (take 10 now)" "prev_hash ?W = compute_hash C ?l"
    using assms(3) by (simp_all add: write_event_def Let_def)
  moreover have "chained C (GENESIS_HASH C) (stream W)" "\<forall>l \<in> set (stream W). line_id C l \<noteq> None"
    using assms(2) by (auto elim: writer_invE)
  ultimately show "writer_inv C ?W"
    using both line unfolding writer_inv_def str by simp
qed

section \<open>Handling a request\<close>

lemma validate_event_id:
  assumes "validate_event iso_ok (JObj d) = Inr None"
  shows "\<exists>s. field d ''source_event_id'' = JStr s \<and> event_str d ''source_event_id'' = s"
proof -
  have "uuid_str (field d ''source_event_id'')"
    using assms by (auto simp: validate_event_def Let_def split: option.splits if_splits)
  moreover have "map_of d ''source_event_id'' \<noteq> None"
    using assms by (auto simp: validate_event_def Let_def REQUIRED_FIELDS_def first_missing_None
        split: option.splits if_splits)
  ultimately show ?thesis
    by (cases "field d ''source_event_id''") (auto simp: field_def event_str_def split: option.splits)
qed

text \<open>The only way to change the log: a fresh valid event is committed and acknowledged.\<close>

lemma handle_event_cases:
  assumes "handle_event C iso_ok now eid mt data W = (r, W')"
  obtains
    (unchanged) "W' = W" "\<forall>e a p n. r \<noteq> Inr (Ack e a p n)"
  | (commit) d s event W1 where "data = JObj d" "validate_event iso_ok data = Inr None"
      "field d ''source_event_id'' = JStr s" "JStr s \<notin> seen_source_ids W"
      "commit_event now eid mt d W = (event, W1)" "W' = write_event C now mt event W1"
      "r = Inr (Ack eid now (event_str event ''prev_hash'') (sequence W'))"
proof (cases "validate_event iso_ok data = Inr None")
  case False
  then show thesis
    using assms unchanged by (auto simp: handle_event_def split: sum.splits option.splits)
next
  case True
  show thesis
  proof (cases data)
    case (JObj d)
    obtain s where s: "field d ''source_event_id'' = JStr s"
      using validate_event_id True JObj by blast
    obtain event W1 where c: "commit_event now eid mt d W = (event, W1)" by force
    show thesis
    proof (cases "JStr s \<in> seen_source_ids W")
      case True
      then show thesis
        using assms unchanged s JObj \<open>validate_event iso_ok data = Inr None\<close>
        by (auto simp: handle_event_def)
    next
      case False
      then show thesis
        using assms s JObj c True commit [OF JObj True s False c]
        by (auto simp: handle_event_def Let_def)
    qed
  qed (use assms True unchanged in \<open>auto simp: handle_event_def\<close>)
qed


lemma handle_event_inv:
  assumes "codec_ok C" and "writer_inv C W" and "json_wf data"
    and "\<forall>cur. current_date W = Some cur \<longrightarrow> cur \<le> take 10 now"
    and "handle_event C iso_ok now eid mt data W = (r, W')"
  shows "writer_inv C W' \<and> (\<exists>ls. stream W' = stream W @ ls)"
  using assms(5)
proof (cases rule: handle_event_cases)
  case unchanged
  then show ?thesis using assms(2) by auto
next
  case (commit d s event W1)
  note c = commit_event_inv [OF assms(2) commit(5) assms(4) [rule_format]]
  have "json_wf (JObj d)" using assms(3) commit(1) by simp
  with c have "writer_inv C W'" "stream W' = stream W1 @ [json_dumps C (JObj event)]"
    unfolding commit(6) using write_event_inv [OF assms(1) c(1,3) _ commit(3), of event eid mt] by simp_all
  then show ?thesis using c(2) by auto
qed

lemma handle_connection_inv:
  assumes "codec_ok C" and "writer_inv C W"
    and "\<forall>cur. current_date W = Some cur \<longrightarrow> cur \<le> take 10 now"
  shows "writer_inv C (snd (handle_connection C iso_ok now eid mt n body W)) \<and>
    (\<exists>ls. stream (snd (handle_connection C iso_ok now eid mt n body W)) = stream W @ ls)"
proof (cases "n > MAX_MESSAGE_SIZE \<or> json_loads C body = None")
  case True
  then show ?thesis using assms(2) by (auto simp: handle_connection_def)
next
  case False
  then obtain data where d: "json_loads C body = Some data" by auto
  then have "json_wf data" by (rule codec_loads_wf [OF assms(1)])
  moreover obtain r W' where h: "handle_event C iso_ok now eid mt data W = (r, W')" by force
  ultimately have "writer_inv C W' \<and> (\<exists>ls. stream W' = stream W @ ls)"
    using handle_event_inv assms by blast
  then show ?thesis using False d h by (auto simp: handle_connection_def split: sum.splits)
qed

section \<open>Recovery\<close>

lemma recover_lines_ok:
  assumes "\<forall>l \<in> set ls. line_id C l \<noteq> None"
  shows "recover_lines C (h, n, ids) ls =
    Inr (last_hash C h ls, n + int (length ls), ids \<union> (the \<circ> line_id C) ` set ls)"
  using assms
proof (induction ls arbitrary: h n ids)
  case (Cons l ls)
  obtain s where "line_id C l = Some (JStr s)"
    using Cons.prems by (auto simp: line_id_def split: option.splits json.splits)
  then have "recover_line C (h, n, ids) l = Inr (compute_hash C l, n + 1, insert (JStr s) ids)"
    by (auto simp: line_id_def recover_line_def split: option.splits json.splits)
  then show ?case using Cons \<open>line_id C l = Some (JStr s)\<close> by (auto simp: o_def)
qed simp

text \<open>
  A restart sees the whole chain state when the newest file is yesterday's or today's: the lines it
  reads end in the last line of the directory.
\<close>

lemma last_two_days:
  assumes "days_ok cur fs" and "fs \<noteq> []" and "fst (last fs) \<in> {y, t}" and "y < t" and "cur \<le> t"
  shows "file_lines (text_at fs y) @ file_lines (text_at fs t) \<noteq> [] \<and>
    last (file_lines (text_at fs y) @ file_lines (text_at fs t)) = last (dict_lines fs)"
proof -
  obtain fs' k u where fs: "fs = fs' @ [(k, u)]"
    using assms(2) by (cases fs rule: rev_cases) auto
  have wf: "wf_dict fs" using assms(1) by (rule days_ok_wf)
  have ne: "file_lines u \<noteq> []" using assms(1) fs by (simp add: days_ok_def)
  have k: "text_at fs k = u"
    using map_of_eq_Some_iff [OF wf, of k u] by (simp add: text_at_def fs)
  have ls: "last (dict_lines fs) = last (file_lines u)" using ne by (simp add: fs dict_lines_def)
  show ?thesis
  proof (cases "k = t")
    case True
    then show ?thesis using k ne ls by simp
  next
    case False
    then have "k = y" using assms(3) fs by simp
    have "\<forall>d \<in> set (dict_keys fs'). d < k" using assms(1) fs by (auto simp: days_ok_def sorted_wrt_append)
    then have "t \<notin> set (dict_keys fs)" using \<open>k = y\<close> assms(4) fs by auto
    then have "map_of fs t = None" by (simp add: map_of_eq_None_iff)
    then have "text_at fs t = []" by (simp add: text_at_def)
    then show ?thesis using k ne ls \<open>k = y\<close> by simp
  qed
qed

lemma text_at_lines: "set (file_lines (text_at fs d)) \<subseteq> set (dict_lines fs)"
  by (auto simp: text_at_def dict_lines_def split: option.splits dest: map_of_SomeD)


lemma last_hash_last: "ls \<noteq> [] \<Longrightarrow> last_hash C h ls = compute_hash C (last ls)"
  by (simp add: last_hash_def)

text \<open>
  When the clock is in time for the log: a request comes on the current day or later; a restart finds
  no log file, or the newest one is yesterday's or today's.
\<close>

definition timely :: "writer_op \<Rightarrow> writer \<Rightarrow> bool" where
  "timely op W =
    (case op of
       Request now eid mt n body \<Rightarrow>
         (case current_date W of None \<Rightarrow> True | Some cur \<Rightarrow> cur \<le> take 10 now)
     | Tick mt \<Rightarrow> True
     | Restart yesterday today mt \<Rightarrow>
         yesterday < today \<and>
         (case current_date W of None \<Rightarrow> True | Some cur \<Rightarrow> cur \<le> today) \<and>
         (log_files (file_mgr W) = [] \<or> fst (last (log_files (file_mgr W))) \<in> {yesterday, today}))"

fun timely_run :: "codec \<Rightarrow> (string \<Rightarrow> bool) \<Rightarrow> writer_op list \<Rightarrow> writer \<Rightarrow> bool" where
  "timely_run C iso_ok [] W = True"
| "timely_run C iso_ok (op # ops) W =
    (timely op W \<and>
     (case writer_step C iso_ok op W of Inl x \<Rightarrow> True | Inr (_, W') \<Rightarrow> timely_run C iso_ok ops W'))"

lemma restart_inv:
  assumes "codec_ok C" and "writer_inv C W" and "timely (Restart y t mt) W"
  shows "\<exists>W'. writer_step C iso_ok (Restart y t mt) W = Inr (None, W') \<and> writer_inv C W' \<and>
    stream W' = dict_lines (log_files (file_mgr W))"
proof -
  obtain cur where w: "current_date W = Some cur" "days_ok cur (log_files (file_mgr W))"
    "chained C (GENESIS_HASH C) (stream W)" "\<forall>l \<in> set (stream W). line_id C l \<noteq> None"
    using assms(2) by (rule writer_invE)
  let ?fs = "log_files (file_mgr W)"
  let ?ls = "file_lines (text_at ?fs y) @ file_lines (text_at ?fs t)"
  have t: "y < t" "cur \<le> t" "?fs = [] \<or> fst (last ?fs) \<in> {y, t}"
    using assms(3) w(1) by (simp_all add: timely_def)
  have good: "\<forall>l \<in> set ?ls. line_id C l \<noteq> None"
    using w(4) text_at_lines [of ?fs y] text_at_lines [of ?fs t] by (auto simp: stream_def)
  have hash: "last_hash C (GENESIS_HASH C) ?ls = last_hash C (GENESIS_HASH C) (dict_lines ?fs)"
  proof (cases "?fs = []")
    case True
    then show ?thesis by (simp add: text_at_def dict_lines_def)
  next
    case False
    then have *: "?ls \<noteq> [] \<and> last ?ls = last (dict_lines ?fs)"
      using last_two_days [OF w(2)] t by blast
    moreover have "dict_lines ?fs \<noteq> []"
      using * text_at_lines [of ?fs y] text_at_lines [of ?fs t] by (cases "dict_lines ?fs") auto
    ultimately show ?thesis using last_hash_last by metis
  qed
  define W' where "W' = \<lparr>file_mgr = crash W, prev_hash = last_hash C (GENESIS_HASH C) (dict_lines ?fs),
    sequence = int (length ?ls), seen_source_ids = (the \<circ> line_id C) ` set ?ls,
    current_date = Some t, be_buffer = [], last_flush_time = mt\<rparr>"
  have "recover_chain_state C y t (crash W) =
      Inr (last_hash C (GENESIS_HASH C) (dict_lines ?fs), int (length ?ls), (the \<circ> line_id C) ` set ?ls)"
    using recover_lines_ok [OF good, of "GENESIS_HASH C" 0 "{}"] hash
    by (simp add: recover_chain_state_def crash_def initial_fm_def)
  then have "writer_step C iso_ok (Restart y t mt) W = Inr (None, W')"
    by (simp add: writer_step_def initialize_def W'_def)
  moreover have str: "stream W' = dict_lines ?fs"
    by (simp add: stream_def W'_def crash_def initial_fm_def)
  moreover have "writer_inv C W'"
    unfolding writer_inv_def str
    using w t(2) days_ok_mono by (auto simp: W'_def crash_def initial_fm_def stream_def)
  ultimately show ?thesis by blast
qed

lemma writer_step_inv:
  assumes "codec_ok C" and "writer_inv C W" and "timely op W"
  shows "\<exists>r W'. writer_step C iso_ok op W = Inr (r, W') \<and> writer_inv C W'"
proof (cases op)
  case (Request now eid mt n body)
  have "\<forall>cur. current_date W = Some cur \<longrightarrow> cur \<le> take 10 now"
    using assms(3) Request by (simp add: timely_def split: option.splits)
  from handle_connection_inv [OF assms(1,2) this, of iso_ok eid mt n body]
  have "writer_inv C (snd (handle_connection C iso_ok now eid mt n body W))" by blast
  then show ?thesis using Request
    by (cases "handle_connection C iso_ok now eid mt n body W") (simp add: writer_step_def)
next
  case (Tick mt)
  then show ?thesis using maybe_flush_inv [OF assms(2)] by (simp add: writer_step_def)
next
  case (Restart y t mt)
  then show ?thesis using restart_inv assms by blast
qed

lemma writer_run_inv:
  assumes "codec_ok C" and "writer_inv C W" and "timely_run C iso_ok ops W"
  shows "\<exists>W'. writer_run C iso_ok ops W = Inr W' \<and> writer_inv C W'"
  using assms(2,3)
proof (induction ops arbitrary: W)
  case (Cons op ops)
  then obtain r W' where "writer_step C iso_ok op W = Inr (r, W')" "writer_inv C W'"
    using writer_step_inv [OF assms(1), of W op iso_ok] by auto
  then show ?case using Cons by simp
qed simp

text \<open>A writer on an empty log directory.\<close>

definition fresh_writer :: "codec \<Rightarrow> string \<Rightarrow> string \<Rightarrow> instant \<Rightarrow> writer" where
  "fresh_writer C yesterday today mt =
    (case initialize C yesterday today mt (initial_fm []) of Inr W \<Rightarrow> W)"

lemma fresh_writer_eq:
  "initialize C y t mt (initial_fm []) = Inr (fresh_writer C y t mt)"
  "fresh_writer C y t mt = \<lparr>file_mgr = initial_fm [], prev_hash = GENESIS_HASH C, sequence = 0,
     seen_source_ids = {}, current_date = Some t, be_buffer = [], last_flush_time = mt\<rparr>"
  by (simp_all add: fresh_writer_def initialize_def recover_chain_state_def initial_fm_def text_at_def)

lemma fresh_writer_date [simp]: "current_date (fresh_writer C y t mt) = Some t"
  by (simp add: fresh_writer_eq(2))

lemma fresh_writer_inv: "writer_inv C (fresh_writer C y t mt)" "stream (fresh_writer C y t mt) = []"
  by (auto simp: writer_inv_def fresh_writer_eq stream_def initial_fm_def dict_lines_def days_ok_def)


section \<open>What the writer guarantees\<close>

lemma invariant_log_verifies:
  assumes "codec_ok C" and "writer_inv C W"
  shows "verify_files C (map file_lines (dict_vals (log_files (file_mgr (shutdown mt W))))) = Inr True"
proof -
  let ?F = "flush_best_effort mt W"
  have F: "writer_inv C ?F" "be_buffer ?F = []" using flush_best_effort_inv [OF assms(2)] by auto
  obtain cur where f: "wbuf (file_mgr ?F) = []"
    "\<forall>d. open_date (file_mgr ?F) = Some d \<longrightarrow> map_of (log_files (file_mgr ?F)) d \<noteq> None"
    "chained C (GENESIS_HASH C) (stream ?F)"
    using F(1) by (rule writer_invE)
  have "view (file_mgr ?F) = log_files (file_mgr ?F)" using view_settled f(1,2) by blast
  then have "log_files (file_mgr (shutdown mt W)) = log_files (file_mgr ?F)"
    by (auto simp: shutdown_def close_file_def Let_def log_files_flush split: option.splits)
  moreover have "chained C (GENESIS_HASH C) (concat (map file_lines (dict_vals (log_files (file_mgr ?F)))))"
    using f(3) F(2) by (simp add: stream_def dict_lines_def o_def)
  moreover have "[] \<notin> set (concat (map file_lines ts))" for ts
    by (auto simp: file_lines_def)
  ultimately show ?thesis
    using verify_files_chained [OF codec_sha_nonempty [OF assms(1)]] by metis
qed

lemma sample_loads [simp]:
  "json_wf v \<Longrightarrow> json_loads sample_codec (json_dumps sample_codec v) = Some v"
  by (rule codec_loads_dumps [OF sample_codec_ok])


text \<open>A run for the witnesses: a durable event, a crash at midnight, a buffered event.\<close>

definition sample_data :: "string \<Rightarrow> string \<Rightarrow> (string, json) dict" where
  "sample_data sid dur =
    [(''schema_version'', JStr ''2.0''), (''source_event_id'', JStr sid), (''timestamp'', JStr ''t''),
     (''event_type'', JStr ''hub.probe''), (''job_id'', JNull), (''parent_job_id'', JNull),
     (''capability_id'', JNull), (''wal_level'', JNull), (''source'', JStr ''system''),
     (''durability'', JStr dur), (''payload'', JObj [])]"

lemma sample_data_wf: "json_wf (JObj (sample_data sid dur))"
  by (simp add: sample_data_def)

lemma sample_data_simps [simp]:
  "json_loads sample_codec (json_dumps sample_codec (JObj (sample_data sid dur)))
    = Some (JObj (sample_data sid dur))"
  "field (sample_data sid dur) ''source_event_id'' = JStr sid"
  "field (sample_data sid dur) ''durability'' = JStr dur"
  "event_str (sample_data sid dur) ''source_event_id'' = sid"
  by (rule sample_loads [OF sample_data_wf]) (simp_all add: sample_data_def field_def event_str_def)

lemma committed_simps [simp]:
  "field (committed_event e c p d) ''durability'' = field d ''durability''"
  "field (committed_event e c p d) ''source_event_id'' = field d ''source_event_id''"
  "event_str (committed_event e c p d) ''prev_hash'' = p"
  by (simp_all add: committed_event_def field_def event_str_def)

lemma sample_data_valid [simp]:
  "uuid7_match sid \<Longrightarrow> dur \<in> set VALID_DURABILITY \<Longrightarrow>
    validate_event (\<lambda>_. True) (JObj (sample_data sid dur)) = Inr None"
  by (auto simp: sample_data_def validate_event_def REQUIRED_FIELDS_def NULLABLE_FIELDS_def
      SCHEMA_VERSION_def field_def check_nullable_def VALID_SOURCES_def VALID_DURABILITY_def)

definition sample_request :: "string \<Rightarrow> string \<Rightarrow> writer_op" where
  "sample_request now dur =
    Request now ''e1'' 1 10 (json_dumps sample_codec (JObj (sample_data sample_uuid dur)))"

definition sample_ops :: "writer_op list" where
  "sample_ops =
    [sample_request ''2026-01-01T23:59:00Z'' ''durable'',
     Restart ''2026-01-01'' ''2026-01-02'' 2,
     sample_request ''2026-01-02T10:00:00Z'' ''best_effort'']"

lemma sample_request_fresh:
  "dur \<in> set VALID_DURABILITY \<Longrightarrow>
   writer_step sample_codec (\<lambda>_. True) (sample_request now dur) (fresh_writer sample_codec y t m) =
    (let (event, W1) = commit_event now ''e1'' 1 (sample_data sample_uuid dur)
           (fresh_writer sample_codec y t m);
         W2 = write_event sample_codec now 1 event W1
     in Inr (Some (Ack ''e1'' now (GENESIS_HASH sample_codec) (sequence W2)), W2))"
  by (simp add: writer_step_def sample_request_def handle_connection_def MAX_MESSAGE_SIZE_def
      handle_event_def fresh_writer_eq commit_event_def flush_best_effort_def Let_def)

lemma sample_ops_timely:
  "timely_run sample_codec (\<lambda>_. True) sample_ops (fresh_writer sample_codec ''2025-12-31'' ''2026-01-01'' 0)"
proof -
  let ?S = "fresh_writer sample_codec ''2025-12-31'' ''2026-01-01'' 0"
  obtain W1 r where W1: "writer_step sample_codec (\<lambda>_. True)
      (sample_request ''2026-01-01T23:59:00Z'' ''durable'') ?S = Inr (r, W1)"
    "current_date W1 = Some ''2026-01-01''" "dict_keys (log_files (file_mgr W1)) = [''2026-01-01'']"
    using sample_request_fresh [of "''durable''" "''2026-01-01T23:59:00Z''" "''2025-12-31''" "''2026-01-01''" 0]
    by (simp add: VALID_DURABILITY_def commit_event_def write_event_def
        fresh_writer_eq flush_best_effort_def initial_fm_def append_line_def ensure_file_for_date_def
        open_file_def flush_def fsync_open_def Let_def)
  have "timely (sample_request ''2026-01-01T23:59:00Z'' ''durable'') ?S"
    by (simp add: timely_def sample_request_def fresh_writer_eq(2))
  from writer_step_inv [OF sample_codec_ok fresh_writer_inv(1) this, of "\<lambda>_. True"]
  have inv: "writer_inv sample_codec W1" using W1(1) by auto
  have files: "fst (last (log_files (file_mgr W1))) = ''2026-01-01''"
    using W1(3) by (cases "log_files (file_mgr W1)") auto
  then have t: "timely (Restart ''2026-01-01'' ''2026-01-02'' 2) W1"
    using W1(2) by (simp add: timely_def)
  obtain W2 where W2: "writer_step sample_codec (\<lambda>_. True) (Restart ''2026-01-01'' ''2026-01-02'' 2) W1
      = Inr (None, W2)" using restart_inv [OF sample_codec_ok inv t] by blast
  then have "current_date W2 = Some ''2026-01-02''"
    by (auto simp: writer_step_def initialize_def map_sum_def split: sum.splits)
  then show ?thesis
    using W1(1) t W2
    by (simp add: sample_ops_def timely_def fresh_writer_eq sample_request_def split: sum.splits)
qed





section \<open>Deduplication\<close>

text \<open>What one step without a restart adds: nothing, or one line under an id not seen before.\<close>

definition fresh_lines :: "codec \<Rightarrow> writer \<Rightarrow> string list \<Rightarrow> writer \<Rightarrow> bool" where
  "fresh_lines C W new W' \<longleftrightarrow>
    stream W' = stream W @ new \<and> distinct (map (line_id C) new) \<and>
    (\<forall>l \<in> set new. the (line_id C l) \<notin> seen_source_ids W) \<and>
    seen_source_ids W' = seen_source_ids W \<union> (the \<circ> line_id C) ` set new \<and>
    (\<forall>l \<in> set new. line_id C l \<noteq> None)"

lemma fresh_lines_refl: "stream W' = stream W \<Longrightarrow> seen_source_ids W' = seen_source_ids W \<Longrightarrow>
    fresh_lines C W [] W'"
  by (simp add: fresh_lines_def)

lemma fresh_lines_trans:
  assumes "fresh_lines C W xs W1" and "fresh_lines C W1 ys W2"
  shows "fresh_lines C W (xs @ ys) W2"
proof -
  have "line_id C x \<noteq> line_id C y" if "x \<in> set xs" "y \<in> set ys" for x y
  proof
    assume "line_id C x = line_id C y"
    moreover have "the (line_id C x) \<in> seen_source_ids W1" using assms(1) that by (auto simp: fresh_lines_def)
    ultimately show False using assms(2) that by (auto simp: fresh_lines_def)
  qed
  then show ?thesis using assms by (auto simp: fresh_lines_def)
qed

lemma handle_event_fresh:
  assumes "codec_ok C" and "writer_inv C W" and "json_wf data"
    and "\<forall>cur. current_date W = Some cur \<longrightarrow> cur \<le> take 10 now"
    and "handle_event C iso_ok now eid mt data W = (r, W')"
  shows "\<exists>new. fresh_lines C W new W'"
  using assms(5)
proof (cases rule: handle_event_cases)
  case unchanged
  then show ?thesis using fresh_lines_refl by blast
next
  case (commit d s event W1)
  note c = commit_event_inv [OF assms(2) commit(5) assms(4) [rule_format]]
  have wf: "json_wf (JObj d)" using assms(3) commit(1) by simp
  let ?l = "json_dumps C (JObj event)"
  have "stream W' = stream W1 @ [?l]"
    unfolding commit(6) using write_event_inv(2) [OF assms(1) c(1,3) wf commit(3)] c(2,4) by simp
  moreover have "line_id C ?l = Some (JStr s)"
    using committed_line(2) [OF assms(1) wf commit(3)] c(4) by simp
  moreover have "seen_source_ids W' = insert (JStr s) (seen_source_ids W)"
    using commit(3) c(4,5) by (simp add: commit(6) write_event_def Let_def)
  ultimately have "fresh_lines C W [?l] W'" using c(2) commit(4) by (simp add: fresh_lines_def)
  then show ?thesis by blast
qed


fun is_restart :: "writer_op \<Rightarrow> bool" where
  "is_restart (Restart y t mt) = True"
| "is_restart _ = False"

lemma writer_step_fresh:
  assumes "codec_ok C" and "writer_inv C W" and "timely op W" and "\<not> is_restart op"
    and "writer_step C iso_ok op W = Inr (r, W')"
  shows "\<exists>new. fresh_lines C W new W'"
proof (cases op)
  case (Request now eid mt n body)
  have t: "\<forall>cur. current_date W = Some cur \<longrightarrow> cur \<le> take 10 now"
    using assms(3) Request by (simp add: timely_def split: option.splits)
  show ?thesis
  proof (cases "n > MAX_MESSAGE_SIZE \<or> json_loads C body = None")
    case True
    then have "W' = W" using assms(5) Request
      by (auto simp: writer_step_def handle_connection_def split: if_splits option.splits)
    then show ?thesis using fresh_lines_refl by blast
  next
    case False
    then obtain data where d: "json_loads C body = Some data" by auto
    obtain r' V where h: "handle_event C iso_ok now eid mt data W = (r', V)" by force
    then have "V = W'"
      using assms(5) Request False d by (auto simp: writer_step_def handle_connection_def split: sum.splits)
    then show ?thesis
      using handle_event_fresh [OF assms(1,2) codec_loads_wf [OF assms(1) d] t h] by simp
  qed
next
  case (Tick mt)
  then have "W' = maybe_flush_best_effort mt W" using assms(5) by (simp add: writer_step_def)
  moreover have "seen_source_ids (maybe_flush_best_effort mt W) = seen_source_ids W"
    by (simp add: maybe_flush_best_effort_def)
  ultimately show ?thesis using maybe_flush_inv [OF assms(2), of mt] fresh_lines_refl by blast
qed (use assms(4) in simp)

lemma writer_run_fresh:
  assumes "codec_ok C" and "writer_inv C W" and "timely_run C iso_ok ops W" and "\<not> list_ex is_restart ops"
  shows "\<exists>W' new. writer_run C iso_ok ops W = Inr W' \<and> fresh_lines C W new W'"
  using assms(2-4)
proof (induction ops arbitrary: W)
  case Nil
  then show ?case using fresh_lines_refl by auto
next
  case (Cons op ops)
  then obtain r W1 where s: "writer_step C iso_ok op W = Inr (r, W1)" "writer_inv C W1"
    using writer_step_inv [OF assms(1), of W op iso_ok] by auto
  obtain xs where xs: "fresh_lines C W xs W1"
    using writer_step_fresh [OF assms(1) Cons.prems(1) _ _ s(1)] Cons.prems(2,3) by auto
  obtain W' ys where "writer_run C iso_ok ops W1 = Inr W'" "fresh_lines C W1 ys W'"
    using Cons.IH [OF s(2)] Cons.prems(2,3) s(1) by auto
  then show ?case using s(1) fresh_lines_trans [OF xs] by auto
qed

text \<open>
  At most once: within one process life, whatever requests arrive and however often they are
  repeated, the log only grows, no source event id is written twice, and no id that recovery found in
  yesterday's or today's file is written again.
\<close>

theorem writer_at_most_once:
  assumes "codec_ok C" and "writer_inv C W" and "timely_run C iso_ok ops W" and "\<not> list_ex is_restart ops"
  shows "\<exists>W' new. writer_run C iso_ok ops W = Inr W' \<and> stream W' = stream W @ new \<and>
    distinct (map (line_id C) new) \<and> (the \<circ> line_id C) ` set new \<inter> seen_source_ids W = {}"
proof -
  obtain W' new where "writer_run C iso_ok ops W = Inr W'" "fresh_lines C W new W'"
    using writer_run_fresh [OF assms] by blast
  then show ?thesis by (auto simp: fresh_lines_def)
qed

theorem writer_at_most_once_witness:
  "\<exists>W' new. writer_run sample_codec (\<lambda>_. True)
      [sample_request ''2026-01-01T23:59:00Z'' ''durable'', sample_request ''2026-01-01T23:59:00Z'' ''durable'']
      (fresh_writer sample_codec ''2025-12-31'' ''2026-01-01'' 0) = Inr W' \<and>
    stream W' = new \<and> distinct (map (line_id sample_codec) new)"
proof -
  let ?W = "fresh_writer sample_codec ''2025-12-31'' ''2026-01-01'' 0"
  let ?ops = "[sample_request ''2026-01-01T23:59:00Z'' ''durable'', sample_request ''2026-01-01T23:59:00Z'' ''durable'']"
  have "timely_run sample_codec (\<lambda>_. True) ?ops ?W"
    using sample_request_fresh [of "''durable''" "''2026-01-01T23:59:00Z''" "''2025-12-31''" "''2026-01-01''" 0]
    by (simp add: VALID_DURABILITY_def timely_def sample_request_def Let_def commit_event_def write_event_def
        fresh_writer_eq(2) flush_best_effort_def split: sum.split)
  moreover have "\<not> list_ex is_restart ?ops" by (simp add: sample_request_def)
  ultimately show ?thesis
    using writer_at_most_once [OF sample_codec_ok fresh_writer_inv(1), of "\<lambda>_. True" ?ops] fresh_writer_inv(2)
    by fastforce
qed

lemma handle_event_duplicate:
  assumes "validate_event iso_ok (JObj d) = Inr None" and "field d ''source_event_id'' \<in> seen_source_ids W"
  shows "handle_event C iso_ok now eid mt (JObj d) W = (Inr (Duplicate (event_str d ''source_event_id'')), W)"
  using assms by (simp add: handle_event_def)

section \<open>A gap in the days\<close>

lemma handle_event_commit:
  assumes "validate_event iso_ok (JObj d) = Inr None" and "field d ''source_event_id'' \<notin> seen_source_ids W"
    and "commit_event now eid mt d W = (event, W1)"
  shows "handle_event C iso_ok now eid mt (JObj d) W =
    (Inr (Ack eid now (event_str event ''prev_hash'') (sequence (write_event C now mt event W1))),
     write_event C now mt event W1)"
  using assms by (simp add: handle_event_def Let_def)

text \<open>
  Recovery reads only yesterday's and today's file. After a gap of more than a day the first
  event is chained to genesis again, and from then on the stand-alone verifier reports a break in
  the directory although every record is genuine (unless SHA-256 maps the last line to the genesis
  hash).
\<close>

theorem gap_restart_reanchors:
  assumes "codec_ok C" and "writer_inv C W" and "log_files (file_mgr W) \<noteq> []"
    and "map_of (log_files (file_mgr W)) y = None" and "map_of (log_files (file_mgr W)) t = None"
    and "\<forall>cur. current_date W = Some cur \<longrightarrow> cur \<le> t" and "take 10 now = t"
    and "validate_event iso_ok (JObj d) = Inr None" and "json_wf (JObj d)"
    and "field d ''durability'' = JStr ''durable''"
    and "compute_hash C (last (dict_lines (log_files (file_mgr W)))) \<noteq> GENESIS_HASH C"
  shows "\<exists>W1 W2. writer_step C iso_ok (Restart y t mt) W = Inr (None, W1) \<and>
    handle_event C iso_ok now eid mt (JObj d) W1 = (Inr (Ack eid now (GENESIS_HASH C) 1), W2) \<and>
    verify_files C (map file_lines (dict_vals (log_files (file_mgr W2)))) \<noteq> Inr True"
proof -
  let ?fs = "log_files (file_mgr W)"
  define W1 where "W1 = \<lparr>file_mgr = crash W, prev_hash = GENESIS_HASH C, sequence = 0,
    seen_source_ids = {}, current_date = Some t, be_buffer = [], last_flush_time = mt\<rparr>"
  define event where "event = committed_event eid now (GENESIS_HASH C) d"
  define W2 where "W2 = write_event C now mt event W1"
  obtain cur where w: "current_date W = Some cur" "days_ok cur ?fs" using assms(2) by (rule writer_invE)
  have days: "days_ok t ?fs" using w assms(6) days_ok_mono by blast
  obtain s where s: "field d ''source_event_id'' = JStr s" using validate_event_id [OF assms(8)] by blast
  have "writer_step C iso_ok (Restart y t mt) W = Inr (None, W1)"
    using assms(4,5)
    by (simp add: writer_step_def initialize_def recover_chain_state_def crash_def initial_fm_def
        text_at_def W1_def)
  moreover have c: "commit_event now eid mt d W1 = (event, W1)"
    using assms(7) by (simp add: commit_event_def W1_def event_def Let_def)
  moreover have "handle_event C iso_ok now eid mt (JObj d) W1 = (Inr (Ack eid now (GENESIS_HASH C) 1), W2)"
    using handle_event_commit [OF assms(8) _ c, of C]
    by (simp add: W1_def W2_def event_def write_event_def Let_def flush_best_effort_def)
  moreover have "verify_files C (map file_lines (dict_vals (log_files (file_mgr W2)))) \<noteq> Inr True"
  proof
    let ?l = "json_dumps C (JObj event)"
    have f2: "file_mgr W2 = append_line t ?l True (crash W)"
      using assms(7,10) by (simp add: W2_def write_event_def W1_def event_def flush_best_effort_def Let_def)
    have "dict_lines (log_files (file_mgr W2)) = dict_lines (log_files (crash W)) @ [?l]"
      unfolding f2 by (rule settled_append_durable(1))
        (use days in \<open>simp_all add: crash_def initial_fm_def assms(1)\<close>)
    then have lines: "concat (map file_lines (dict_vals (log_files (file_mgr W2)))) = dict_lines ?fs @ [?l]"
      by (simp add: crash_def initial_fm_def dict_lines_def o_def)
    assume "verify_files C (map file_lines (dict_vals (log_files (file_mgr W2)))) = Inr True"
    then have "chained C (GENESIS_HASH C) (concat (map file_lines (dict_vals (log_files (file_mgr W2)))))"
      using verify_files_chained [OF codec_sha_nonempty [OF assms(1)], of "map file_lines (dict_vals (log_files (file_mgr W2)))"]
      by (auto simp: file_lines_def)
    then have "link_of C ?l = Some (last_hash C (GENESIS_HASH C) (dict_lines ?fs))"
      by (simp only: lines chained_append) simp
    moreover have "link_of C ?l = Some (GENESIS_HASH C)"
      unfolding event_def by (rule committed_line(1) [OF assms(1,9) s])
    moreover have "dict_lines ?fs \<noteq> []"
      using assms(3) days by (cases ?fs) (auto simp: dict_lines_def days_ok_def)
    ultimately show False using assms(11) by (simp add: last_hash_def)
  qed
  ultimately show ?thesis by blast
qed


lemma sample_gap_state:
  obtains W r where "writer_step sample_codec (\<lambda>_. True) (sample_request ''2026-01-01T23:59:00Z'' ''durable'')
      (fresh_writer sample_codec ''2025-12-31'' ''2026-01-01'' 0) = Inr (r, W)"
    "writer_inv sample_codec W" "current_date W = Some ''2026-01-01''"
    "dict_keys (log_files (file_mgr W)) = [''2026-01-01'']"
    "compute_hash sample_codec (last (dict_lines (log_files (file_mgr W)))) \<noteq> GENESIS_HASH sample_codec"
proof -
  let ?S = "fresh_writer sample_codec ''2025-12-31'' ''2026-01-01'' 0"
  let ?now = "''2026-01-01T23:59:00Z''" and ?d = "sample_data sample_uuid ''durable''"
  let ?e = "committed_event ''e1'' ?now (GENESIS_HASH sample_codec) ?d"
  let ?W = "write_event sample_codec ?now 1 ?e ?S"
  have c: "commit_event ?now ''e1'' 1 ?d ?S = (?e, ?S)"
    by (simp add: commit_event_def fresh_writer_eq(2) Let_def)
  have "handle_event sample_codec (\<lambda>_. True) ?now ''e1'' 1 (JObj ?d) ?S
      = (Inr (Ack ''e1'' ?now (event_str ?e ''prev_hash'') (sequence ?W)), ?W)"
    by (rule handle_event_commit [OF _ _ c]) (simp_all add: VALID_DURABILITY_def fresh_writer_eq(2))
  then have step: "writer_step sample_codec (\<lambda>_. True) (sample_request ?now ''durable'') ?S
      = Inr (Some (Ack ''e1'' ?now (event_str ?e ''prev_hash'') (sequence ?W)), ?W)"
    by (simp add: writer_step_def sample_request_def handle_connection_def MAX_MESSAGE_SIZE_def)
  note inv = write_event_inv [where C = sample_codec and W = ?S and now = ?now and d = ?d
      and s = sample_uuid and event = ?e and eid = "''e1''" and mt = 1, OF sample_codec_ok fresh_writer_inv(1)]
  have w: "writer_inv sample_codec ?W" "stream ?W = [json_dumps sample_codec (JObj ?e)]"
    using inv sample_data_wf fresh_writer_inv(2) by simp_all
  have "be_buffer ?W = []" by (simp add: write_event_def Let_def)
  then have "dict_lines (log_files (file_mgr ?W)) = [json_dumps sample_codec (JObj ?e)]"
    using w(2) by (simp add: stream_def)
  then have "compute_hash sample_codec (last (dict_lines (log_files (file_mgr ?W)))) \<noteq> GENESIS_HASH sample_codec"
    by (simp add: compute_hash_def GENESIS_HASH_def sample_codec_def GENESIS_STRING_def)
  moreover have "dict_keys (log_files (file_mgr ?W)) = [''2026-01-01'']"
    by (simp add: write_event_def fresh_writer_eq(2) flush_best_effort_def initial_fm_def append_line_def
        ensure_file_for_date_def open_file_def flush_def fsync_open_def Let_def)
  moreover have "current_date ?W = Some ''2026-01-01''" by (simp add: write_event_def Let_def)
  ultimately show thesis by (intro that [OF step w(1)])
qed

theorem gap_restart_reanchors_witness:
  "\<exists>W r W1 W2. writer_step sample_codec (\<lambda>_. True) (sample_request ''2026-01-01T23:59:00Z'' ''durable'')
      (fresh_writer sample_codec ''2025-12-31'' ''2026-01-01'' 0) = Inr (r, W) \<and>
    writer_step sample_codec (\<lambda>_. True) (Restart ''2026-01-04'' ''2026-01-05'' 7) W = Inr (None, W1) \<and>
    handle_event sample_codec (\<lambda>_. True) ''2026-01-05T08:00:00Z'' ''e2'' 7
      (JObj (sample_data sample_uuid ''durable'')) W1
      = (Inr (Ack ''e2'' ''2026-01-05T08:00:00Z'' (GENESIS_HASH sample_codec) 1), W2) \<and>
    verify_files sample_codec (map file_lines (dict_vals (log_files (file_mgr W2)))) \<noteq> Inr True"
proof -
  obtain W r where w: "writer_step sample_codec (\<lambda>_. True) (sample_request ''2026-01-01T23:59:00Z'' ''durable'')
      (fresh_writer sample_codec ''2025-12-31'' ''2026-01-01'' 0) = Inr (r, W)"
    "writer_inv sample_codec W" "current_date W = Some ''2026-01-01''"
    "dict_keys (log_files (file_mgr W)) = [''2026-01-01'']"
    "compute_hash sample_codec (last (dict_lines (log_files (file_mgr W)))) \<noteq> GENESIS_HASH sample_codec"
    by (rule sample_gap_state)
  have dom: "fst ` set (log_files (file_mgr W)) = {''2026-01-01''}"
    using arg_cong [OF w(4), of set] by simp
  have "log_files (file_mgr W) \<noteq> []" "map_of (log_files (file_mgr W)) ''2026-01-04'' = None"
    "map_of (log_files (file_mgr W)) ''2026-01-05'' = None"
    using w(4) by (auto simp: map_of_eq_None_iff dom)
  from gap_restart_reanchors [where now = "''2026-01-05T08:00:00Z''" and iso_ok = "\<lambda>_. True" and mt = 7
      and eid = "''e2''", OF sample_codec_ok w(2) this _ _ _ sample_data_wf _ w(5), of sample_uuid "''durable''"]
  show ?thesis using w(1,3) by (auto simp: VALID_DURABILITY_def)
qed

end
