(* ===== verification/Audit_Client.thy ===== *)
theory Audit_Client
  imports Audit_Writer
begin

text \<open>
  The client of the audit log: \<open>orchestrator/audit_client.py\<close>. One attempt opens a connection, sends
  the event and waits for the reply; what the network does to it is an argument. The back-off sleeps
  only pass time and are the list \<open>backoff_delays\<close>. The service the client talks to is the locale
  \<open>event_sink\<close>; it is interpreted on the writer's \<open>handle_connection\<close>.
\<close>

datatype net =
    Delivered
  | Unreachable
  | Reply_timeout
  | Reply_eof

definition MAX_RETRIES :: nat where
  "MAX_RETRIES = 3"

text \<open>
  \<open>Unreachable\<close>: connecting fails or times out; \<open>Reply_timeout\<close>: the service handles the event and the
  reply is late or the connection is reset; \<open>Reply_eof\<close>: the connection is closed before the reply, which
  \<open>readexactly\<close> reports as \<open>IncompleteReadError\<close>, an \<open>EOFError\<close> that the retry loop does not catch.
\<close>

fun emit_attempts ::
    "('c \<Rightarrow> event \<Rightarrow> 's \<Rightarrow> response option \<times> 's) \<Rightarrow> event \<Rightarrow> (net \<times> 'c) list \<Rightarrow> 's
      \<Rightarrow> (py_exc + bool) \<times> 's" where
  "emit_attempts handle e [] s = (Inl TimeoutError, s)"
| "emit_attempts handle e ((w, c) # rest) s =
    (case w of
       Unreachable \<Rightarrow> emit_attempts handle e rest s
     | Reply_timeout \<Rightarrow> emit_attempts handle e rest (snd (handle c e s))
     | Reply_eof \<Rightarrow> (Inl EOFError, snd (handle c e s))
     | Delivered \<Rightarrow>
         (case handle c e s of
            (None, s') \<Rightarrow> (Inl EOFError, s')
          | (Some (Ack a b p n), s') \<Rightarrow> (Inr True, s')
          | (Some (Duplicate i), s') \<Rightarrow> (Inr True, s')
          | (Some (Error_response x), s') \<Rightarrow> (Inr False, s')))"

definition emit_durable ::
    "('c \<Rightarrow> event \<Rightarrow> 's \<Rightarrow> response option \<times> 's) \<Rightarrow> event \<Rightarrow> (nat \<Rightarrow> net \<times> 'c) \<Rightarrow> 's
      \<Rightarrow> (py_exc + bool) \<times> 's" where
  "emit_durable handle e attempt s = emit_attempts handle e (map attempt [0..<MAX_RETRIES]) s"

text \<open>Fire and forget: one attempt, every failure ignored.\<close>

definition emit_best_effort ::
    "('c \<Rightarrow> event \<Rightarrow> 's \<Rightarrow> response option \<times> 's) \<Rightarrow> event \<Rightarrow> net \<times> 'c \<Rightarrow> 's \<Rightarrow> 's" where
  "emit_best_effort handle e attempt s =
    (if fst attempt = Unreachable then s else snd (handle (snd attempt) e s))"

text \<open>
  \<open>health_check\<close>: one probe event within two seconds; every failure is the answer False. The probe is
  recorded by the service like any event.
\<close>

definition health_probe :: "stamp \<Rightarrow> event" where
  "health_probe sp =
    build_event sp ''system.health_probe'' None ''best_effort''
      [(''component'', JStr ''orchestrator''), (''probe'', JBool True)] None None None ''orchestrator''"

definition audit_health_check ::
    "('c \<Rightarrow> event \<Rightarrow> 's \<Rightarrow> response option \<times> 's) \<Rightarrow> event \<Rightarrow> net \<times> 'c \<Rightarrow> 's \<Rightarrow> bool \<times> 's" where
  "audit_health_check handle e attempt s =
    (case attempt of (w, c) \<Rightarrow>
       (case w of
          Unreachable \<Rightarrow> (False, s)
        | Delivered \<Rightarrow>
            (case handle c e s of
               (Some (Ack a b p n), s') \<Rightarrow> (True, s')
             | (Some (Duplicate i), s') \<Rightarrow> (True, s')
             | (_, s') \<Rightarrow> (False, s'))
        | _ \<Rightarrow> (False, snd (handle c e s))))"

definition RECONNECT_INITIAL_MS :: nat where
  "RECONNECT_INITIAL_MS = 100"

definition RECONNECT_MAX_MS :: nat where
  "RECONNECT_MAX_MS = 5000"

text \<open>The sleeps between \<open>n\<close> failed attempts, in milliseconds.\<close>

fun backoff_delays :: "nat \<Rightarrow> nat \<Rightarrow> nat list" where
  "backoff_delays 0 delay_ms = []"
| "backoff_delays (Suc n) delay_ms = delay_ms # backoff_delays n (min (delay_ms * 2) RECONNECT_MAX_MS)"

lemma backoff_of_emit: "backoff_delays (MAX_RETRIES - 1) RECONNECT_INITIAL_MS = [100, 200]"
  by (simp add: MAX_RETRIES_def RECONNECT_INITIAL_MS_def RECONNECT_MAX_MS_def numeral_2_eq_2)

section \<open>The service as an interface\<close>

text \<open>
  \<open>known e s\<close>: the id of \<open>e\<close> is in the deduplication set; \<open>writes e s\<close>: how many records carry it.
  \<open>inv d s\<close> is the service's invariant on day \<open>d\<close>, \<open>day c\<close> the day on which an attempt is handled.
\<close>

locale event_sink =
  fixes handle :: "'c \<Rightarrow> event \<Rightarrow> 's \<Rightarrow> response option \<times> 's"
    and inv :: "'d::linorder \<Rightarrow> 's \<Rightarrow> bool"
    and day :: "'c \<Rightarrow> 'd"
    and good :: "event \<Rightarrow> bool"
    and known :: "event \<Rightarrow> 's \<Rightarrow> bool"
    and writes :: "event \<Rightarrow> 's \<Rightarrow> nat"
  assumes handle_inv: "good e \<Longrightarrow> inv d s \<Longrightarrow> d \<le> day c \<Longrightarrow> inv (day c) (snd (handle c e s))"
    and handle_ack: "good e \<Longrightarrow> inv d s \<Longrightarrow> d \<le> day c \<Longrightarrow> handle c e s = (Some (Ack a b p n), s') \<Longrightarrow>
      \<not> known e s \<and> known e s' \<and> writes e s' = Suc (writes e s)"
    and handle_dup: "good e \<Longrightarrow> inv d s \<Longrightarrow> d \<le> day c \<Longrightarrow> handle c e s = (Some (Duplicate i), s') \<Longrightarrow>
      known e s \<and> s' = s"
    and handle_error: "good e \<Longrightarrow> inv d s \<Longrightarrow> d \<le> day c \<Longrightarrow> handle c e s = (Some (Error_response x), s') \<Longrightarrow> s' = s"
    and handle_none: "good e \<Longrightarrow> inv d s \<Longrightarrow> d \<le> day c \<Longrightarrow> handle c e s = (None, s') \<Longrightarrow> s' = s"
begin

definition written_once :: "event \<Rightarrow> 's \<Rightarrow> 's \<Rightarrow> bool" where
  "written_once e s s' \<longleftrightarrow> known e s' \<and> writes e s' = (if known e s then writes e s else Suc (writes e s))"

lemma handle_effect:
  assumes "good e" and "inv d s" and "d \<le> day c" and "handle c e s = (r, s')"
  shows "s' = s \<or> written_once e s s'"
    and "(\<exists>a b p n. r = Some (Ack a b p n)) \<or> (\<exists>i. r = Some (Duplicate i)) \<Longrightarrow> written_once e s s'"
proof -
  have cases: "(\<exists>a b p n. r = Some (Ack a b p n)) \<or> (\<exists>i. r = Some (Duplicate i)) \<or>
      (\<exists>x. r = Some (Error_response x)) \<or> r = None"
    by (metis not_None_eq response.exhaust)
  then show "s' = s \<or> written_once e s s'"
    using handle_ack [OF assms(1-3)] handle_dup [OF assms(1-3)] handle_error [OF assms(1-3)]
      handle_none [OF assms(1-3)] assms(4) unfolding written_once_def by metis
  assume "(\<exists>a b p n. r = Some (Ack a b p n)) \<or> (\<exists>i. r = Some (Duplicate i))"
  then show "written_once e s s'"
    using handle_ack [OF assms(1-3)] handle_dup [OF assms(1-3)] assms(4) unfolding written_once_def by metis
qed

lemma written_once_trans:
  "s1 = s \<or> written_once e s s1 \<Longrightarrow> written_once e s1 s2 \<Longrightarrow> written_once e s s2"
  by (auto simp: written_once_def split: if_splits)

lemma emit_attempts_once:
  assumes "good e" and "inv d s" and "sorted (d # map (day \<circ> snd) ws)" and "emit_attempts handle e ws s = (r, s')"
  shows "(s' = s \<or> written_once e s s') \<and> (r = Inr True \<longrightarrow> written_once e s s')"
  using assms(2-)
proof (induction ws arbitrary: d s)
  case (Cons wc ws)
  obtain w c where wc: "wc = (w, c)" by force
  have d: "d \<le> day c" and rest: "sorted (day c # map (day \<circ> snd) ws)" "sorted (d # map (day \<circ> snd) ws)"
    using Cons.prems(2) wc by (auto simp: o_def)
  obtain q t where h: "handle c e s = (q, t)" by force
  have t: "s = t \<or> written_once e s t" using handle_effect(1) [OF assms(1) Cons.prems(1) d h] by auto
  show ?case
  proof (cases w)
    case Unreachable
    then have "emit_attempts handle e ws s = (r, s')" using Cons.prems(3) wc by simp
    then show ?thesis using Cons.IH [OF Cons.prems(1) rest(2)] by simp
  next
    case Reply_timeout
    then have "emit_attempts handle e ws t = (r, s')" using Cons.prems(3) wc h by simp
    moreover have "inv (day c) t" using handle_inv [OF assms(1) Cons.prems(1) d] h by simp
    ultimately have "(s' = t \<or> written_once e t s') \<and> (r = Inr True \<longrightarrow> written_once e t s')"
      using Cons.IH rest(1) by blast
    then show ?thesis using t written_once_trans [of t s e s'] by blast
  next
    case Reply_eof
    then show ?thesis using Cons.prems(3) wc h t by auto
  next
    case Delivered
    then show ?thesis
      using Cons.prems(3) wc h t handle_effect(2) [OF assms(1) Cons.prems(1) d h]
      by (auto split: option.splits response.splits)
  qed
qed auto

end


section \<open>The writer is such a service\<close>

definition writer_handle ::
    "codec \<Rightarrow> (string \<Rightarrow> bool) \<Rightarrow> string \<times> string \<times> instant \<Rightarrow> event \<Rightarrow> writer \<Rightarrow> response option \<times> writer"
where
  "writer_handle C iso_ok c e W =
    (case c of (now, eid, mt) \<Rightarrow>
      let body = json_dumps C (JObj e) in handle_connection C iso_ok now eid mt (length body) body W)"

definition writer_day :: "string \<times> string \<times> instant \<Rightarrow> string" where
  "writer_day c = take 10 (fst c)"

definition writer_good :: "event \<Rightarrow> bool" where
  "writer_good e \<longleftrightarrow> json_wf (JObj e)"

definition writer_ready :: "codec \<Rightarrow> string \<Rightarrow> writer \<Rightarrow> bool" where
  "writer_ready C d W \<longleftrightarrow> codec_ok C \<and> writer_inv C W \<and> (\<forall>cur. current_date W = Some cur \<longrightarrow> cur \<le> d)"

definition writer_known :: "event \<Rightarrow> writer \<Rightarrow> bool" where
  "writer_known e W \<longleftrightarrow> field e ''source_event_id'' \<in> seen_source_ids W"

definition writer_writes :: "codec \<Rightarrow> event \<Rightarrow> writer \<Rightarrow> nat" where
  "writer_writes C e W =
    length (filter (\<lambda>l. line_id C l = Some (field e ''source_event_id'')) (stream W))"

text \<open>The reply and the effect of a whole request, read off \<open>handle_event\<close>.\<close>

lemma writer_handle_cases:
  assumes "codec_ok C" and "json_wf (JObj e)" and "writer_handle C iso_ok (now, eid, mt) e W = (r, W')"
  obtains (unchanged) "W' = W" "\<forall>a b p n. r \<noteq> Some (Ack a b p n)"
      "\<And>i. r = Some (Duplicate i) \<Longrightarrow> writer_known e W"
  | (ack) q where "handle_event C iso_ok now eid mt (JObj e) W = (Inr q, W')" "r = Some q"
      "\<exists>a b p n. q = Ack a b p n"
proof -
  let ?body = "json_dumps C (JObj e)"
  have l: "json_loads C ?body = Some (JObj e)" by (rule codec_loads_dumps [OF assms(1,2)])
  obtain q V where h: "handle_event C iso_ok now eid mt (JObj e) W = (q, V)" by force
  show thesis
  proof (cases "length ?body > MAX_MESSAGE_SIZE")
    case True
    then show thesis using assms(3) unchanged by (auto simp: writer_handle_def handle_connection_def Let_def)
  next
    case False
    then have r: "W' = V" "r = (case q of Inl x \<Rightarrow> None | Inr x \<Rightarrow> Some x)"
      using assms(3) l h by (auto simp: writer_handle_def handle_connection_def Let_def split: sum.splits)
    show thesis
      using h
    proof (cases rule: handle_event_cases)
      case unchanged
      have "writer_known e W" if "r = Some (Duplicate i)" for i
        using that r(2) h
        by (auto simp: handle_event_def writer_known_def Let_def split: sum.splits option.splits if_splits prod.splits)
      then show thesis using that(1) r unchanged by (auto split: sum.splits)
    next
      case (commit d s event W1)
      then show thesis using that(2) h r by auto
    qed
  qed
qed

text \<open>
  Over a network that delivers, the writer answers the health probe as healthy: the probe passes the
  envelope check.
\<close>

lemma health_probe_accepted: "envelope_ok iso_ok sp \<Longrightarrow> accepted iso_ok (health_probe sp)"
  by (simp add: health_probe_def accepted_simps)

lemma health_check_healthy:
  assumes "codec_ok C" and "envelope_ok iso_ok sp" and "json_wf (JObj (health_probe sp))"
    and "length (json_dumps C (JObj (health_probe sp))) \<le> MAX_MESSAGE_SIZE"
  shows "fst (audit_health_check (writer_handle C iso_ok) (health_probe sp) (Delivered, c) W)"
proof -
  obtain now eid mt where c: "c = (now, eid, mt)" by (cases c)
  have l: "json_loads C (json_dumps C (JObj (health_probe sp))) = Some (JObj (health_probe sp))"
    by (rule codec_loads_dumps [OF assms(1,3)])
  obtain q V where h: "handle_event C iso_ok now eid mt (JObj (health_probe sp)) W = (q, V)" by force
  then have "\<exists>r. q = Inr r \<and> (\<forall>x. r \<noteq> Error_response x)"
    using health_probe_accepted [OF assms(2)]
    by (auto simp: handle_event_def accepted_def Let_def split: prod.splits if_splits)
  then obtain r where "q = Inr r" "\<And>x. r \<noteq> Error_response x" by blast
  then show ?thesis
    using assms(4) l h
    by (cases r) (auto simp: audit_health_check_def c writer_handle_def handle_connection_def Let_def)
qed

lemma writer_ack_effect:
  assumes "codec_ok C" and "writer_inv C W" and "json_wf (JObj e)"
    and "\<forall>cur. current_date W = Some cur \<longrightarrow> cur \<le> take 10 now"
    and "handle_event C iso_ok now eid mt (JObj e) W = (Inr (Ack a b p n), W')"
  shows "\<not> writer_known e W \<and> writer_known e W' \<and> writer_writes C e W' = Suc (writer_writes C e W)"
  using assms(5)
proof (cases rule: handle_event_cases)
  case (commit d s event W1)
  note c = commit_event_inv [OF assms(2) commit(5) assms(4) [rule_format]]
  have d: "d = e" using commit(1) by simp
  let ?l = "json_dumps C (JObj event)"
  have "stream W' = stream W @ [?l]"
    unfolding commit(6)
    using write_event_inv(2) [OF assms(1) c(1,3), of e s event eid mt] assms(3) commit(3) c(2,4) d by simp
  moreover have "line_id C ?l = Some (JStr s)"
    using committed_line(2) [OF assms(1), of e s] assms(3) commit(3) c(4) d by simp
  moreover have "seen_source_ids W' = insert (JStr s) (seen_source_ids W)"
    using commit(3) c(4,5) by (simp add: commit(6) write_event_def Let_def)
  ultimately show ?thesis using commit(3,4) d by (simp add: writer_known_def writer_writes_def)
qed auto

lemma handle_connection_date:
  "current_date (snd (handle_connection C iso_ok now eid mt n body W)) \<in> {current_date W, Some (take 10 now)}"
proof (cases "n > MAX_MESSAGE_SIZE \<or> json_loads C body = None")
  case True
  then show ?thesis by (auto simp: handle_connection_def)
next
  case False
  then obtain data r V where d: "json_loads C body = Some data"
    and h: "handle_event C iso_ok now eid mt data W = (r, V)" by (meson not_None_eq surj_pair)
  have "current_date V \<in> {current_date W, Some (take 10 now)}"
    using h
  proof (cases rule: handle_event_cases)
    case (commit d s event W1)
    have "current_date W1 = Some (take 10 now)"
      using commit(5) by (auto simp: commit_event_def Let_def)
    then show ?thesis by (simp add: commit(6) write_event_def Let_def)
  qed auto
  then show ?thesis using False d h by (auto simp: handle_connection_def split: sum.splits)
qed

interpretation writer_sink: event_sink "writer_handle C iso_ok" "writer_ready C" writer_day writer_good
    writer_known "writer_writes C" for C iso_ok
proof
  fix c e W d r W' a b p n i x
  assume e: "writer_good e" and W: "writer_ready C d W" and d: "d \<le> writer_day c"
  obtain now eid mt where c: "c = (now, eid, mt)" by (cases c) auto
  have w: "codec_ok C" "writer_inv C W" "json_wf (JObj e)"
    "\<forall>cur. current_date W = Some cur \<longrightarrow> cur \<le> take 10 now"
    using e W d c by (auto simp: writer_good_def writer_ready_def writer_day_def)
  note cases = writer_handle_cases [OF w(1,3), of iso_ok now eid mt W]
  show "W' = W" if "writer_handle C iso_ok c e W = (Some (Error_response x), W')"
    using that unfolding c by (cases rule: cases) auto
  show "W' = W" if "writer_handle C iso_ok c e W = (None, W')"
    using that unfolding c by (cases rule: cases) auto
  show "writer_known e W \<and> W' = W" if "writer_handle C iso_ok c e W = (Some (Duplicate i), W')"
    using that unfolding c by (cases rule: cases) auto
  show "\<not> writer_known e W \<and> writer_known e W' \<and> writer_writes C e W' = Suc (writer_writes C e W)"
    if "writer_handle C iso_ok c e W = (Some (Ack a b p n), W')"
    using that unfolding c by (cases rule: cases) (use writer_ack_effect [OF w] in auto)
  let ?h = "handle_connection C iso_ok now eid mt (length (json_dumps C (JObj e))) (json_dumps C (JObj e)) W"
  have "writer_inv C (snd ?h)" using handle_connection_inv [OF w(1,2,4)] by blast
  moreover have "current_date (snd ?h) \<in> {current_date W, Some (take 10 now)}"
    by (rule handle_connection_date)
  ultimately have "writer_ready C (take 10 now) (snd ?h)" using w(1,4) by (auto simp: writer_ready_def)
  then show "writer_ready C (writer_day c) (snd (writer_handle C iso_ok c e W))"
    by (simp add: c writer_handle_def writer_day_def Let_def)
qed


section \<open>What a durable emission means\<close>

definition attempt_days :: "(nat \<Rightarrow> net \<times> string \<times> string \<times> instant) \<Rightarrow> string list" where
  "attempt_days attempt = map (writer_day \<circ> snd \<circ> attempt) [0..<MAX_RETRIES]"

text \<open>The id is known and the log has gained one record of it, or had it before.\<close>

definition recorded_once :: "codec \<Rightarrow> event \<Rightarrow> writer \<Rightarrow> writer \<Rightarrow> bool" where
  "recorded_once C e W W' \<longleftrightarrow> writer_known e W' \<and>
    writer_writes C e W' = (if writer_known e W then writer_writes C e W else Suc (writer_writes C e W))"

text \<open>
  C14: Exactly once over an unreliable connection: whatever happens to the up to three attempts, when
  \<open>emit_durable\<close> returns \<open>True\<close> the event's id is recorded and the log has gained one record of it,
  none if it was recorded before; when it returns \<open>False\<close> or raises, the log is unchanged or has gained
  exactly that one record.
\<close>

theorem emit_durable_exactly_once:
  assumes "codec_ok C" and "writer_inv C W" and "json_wf (JObj e)"
    and "\<forall>cur. current_date W = Some cur \<longrightarrow> cur \<le> d" and "sorted (d # attempt_days attempt)"
    and "emit_durable (writer_handle C iso_ok) e attempt W = (r, W')"
  shows "(r = Inr True \<longrightarrow> recorded_once C e W W') \<and> (W' = W \<or> recorded_once C e W W')"
proof -
  have "sorted (d # map (writer_day \<circ> snd) (map attempt [0..<MAX_RETRIES]))"
    using assms(5) by (simp add: attempt_days_def o_assoc)
  moreover have "writer_good e" "writer_ready C d W"
    using assms(1-4) by (simp_all add: writer_good_def writer_ready_def)
  moreover have "emit_attempts (writer_handle C iso_ok) e (map attempt [0..<MAX_RETRIES]) W = (r, W')"
    using assms(6) by (simp add: emit_durable_def)
  ultimately have "(W' = W \<or> writer_sink.written_once C e W W') \<and>
      (r = Inr True \<longrightarrow> writer_sink.written_once C e W W')"
    by (intro writer_sink.emit_attempts_once)
  then show ?thesis by (auto simp: writer_sink.written_once_def recorded_once_def)
qed

text \<open>A codec that prints one value in a single character, for a message of known length.\<close>

definition short_codec :: "json \<Rightarrow> codec" where
  "short_codec v0 =
    \<lparr>sha256 = (\<lambda>s. CHR ''#'' # s),
     json_loads = (\<lambda>s. let v = from_nat (length s - 2) in
        if s = ''1'' then Some v0 else if 2 \<le> length s \<and> json_wf v then Some v else None),
     json_dumps = (\<lambda>v. if v = v0 then ''1'' else replicate (Suc (Suc (to_nat v))) CHR ''1'')\<rparr>"

lemma short_codec_ok: "json_wf v0 \<Longrightarrow> codec_ok (short_codec v0)"
  by (auto simp: codec_ok_def short_codec_def Let_def split: if_splits)

definition short_sample :: codec where
  "short_sample = short_codec (JObj (sample_data sample_uuid ''durable''))"

lemma short_sample_simps [simp]:
  "codec_ok short_sample"
  "json_dumps short_sample (JObj (sample_data sample_uuid ''durable'')) = ''1''"
  "json_loads short_sample ''1'' = Some (JObj (sample_data sample_uuid ''durable''))"
  by (auto simp: short_sample_def short_codec_ok [OF sample_data_wf]) (simp_all add: short_codec_def)

theorem emit_durable_exactly_once_witness:
  "\<exists>W'. emit_durable (writer_handle short_sample (\<lambda>_. True)) (sample_data sample_uuid ''durable'')
      (\<lambda>i. (if i = 0 then Reply_timeout else Delivered, ''2026-01-01T10:00:00Z'', ''e1'', 1))
      (fresh_writer short_sample ''2025-12-31'' ''2026-01-01'' 0) = (Inr True, W') \<and>
    recorded_once short_sample (sample_data sample_uuid ''durable'')
      (fresh_writer short_sample ''2025-12-31'' ''2026-01-01'' 0) W'"
proof -
  let ?S = "fresh_writer short_sample ''2025-12-31'' ''2026-01-01'' 0" and ?d = "sample_data sample_uuid ''durable''"
  let ?now = "''2026-01-01T10:00:00Z''"
  let ?a = "\<lambda>i::nat. (if i = 0 then Reply_timeout else Delivered, ?now, ''e1'', 1 :: int)"
  obtain event W1 where c: "commit_event ?now ''e1'' 1 ?d ?S = (event, W1)" by force
  let ?V = "write_event short_sample ?now 1 event W1"
  have "handle_event short_sample (\<lambda>_. True) ?now ''e1'' 1 (JObj ?d) ?S
      = (Inr (Ack ''e1'' ?now (event_str event ''prev_hash'') (sequence ?V)), ?V)"
    by (rule handle_event_commit [OF _ _ c]) (simp_all add: VALID_DURABILITY_def fresh_writer_eq(2))
  then have first: "writer_handle short_sample (\<lambda>_. True) (?now, ''e1'', 1) ?d ?S
      = (Some (Ack ''e1'' ?now (event_str event ''prev_hash'') (sequence ?V)), ?V)"
    by (simp add: writer_handle_def handle_connection_def MAX_MESSAGE_SIZE_def Let_def)
  have "field event ''source_event_id'' = JStr sample_uuid"
    using c by (auto simp: commit_event_def Let_def fresh_writer_eq(2))
  then have "JStr sample_uuid \<in> seen_source_ids ?V" by (simp add: write_event_def Let_def)
  then have "writer_handle short_sample (\<lambda>_. True) (?now, ''e1'', 1) ?d ?V = (Some (Duplicate sample_uuid), ?V)"
    by (simp add: writer_handle_def handle_connection_def MAX_MESSAGE_SIZE_def Let_def handle_event_duplicate
        VALID_DURABILITY_def)
  then have emit: "emit_durable (writer_handle short_sample (\<lambda>_. True)) ?d ?a ?S = (Inr True, ?V)"
    using first by (simp add: emit_durable_def MAX_RETRIES_def upt_rec)
  have "recorded_once short_sample ?d ?S ?V"
    using emit_durable_exactly_once [OF _ fresh_writer_inv(1) sample_data_wf _ _ emit, of "''2026-01-01''"]
    by (simp add: attempt_days_def MAX_RETRIES_def writer_day_def upt_rec)
  then show ?thesis using emit by blast
qed

end
