(* ===== verification/Audit_Integrity.thy ===== *)
theory Audit_Integrity
  imports Audit_Files
begin

text \<open>
  Integrity classification and tail repair of the log directory: \<open>orchestrator/audit_integrity.py\<close>. A
  directory is a dict from file names to bytes. The report carries the status and the indices, not the
  message texts; the \<open>quarantine\<close> directory is the file the repair writes, and the fsyncs and the
  time stamp of its name are not modelled.
\<close>

section \<open>Records\<close>

record audit_record =
  rec_index :: nat
  rec_file :: string
  byte_start :: nat
  byte_end :: nat
  raw :: string
  parsed :: "(string, json) dict option"

definition is_space :: "char \<Rightarrow> bool" where
  "is_space c \<longleftrightarrow> c \<in> {CHR '' '', CHR 0x09, CHR 0x0A, CHR 0x0B, CHR 0x0C, CHR 0x0D}"

text \<open>\<open>raw.strip()\<close> is empty.\<close>

definition blank :: "string \<Rightarrow> bool" where
  "blank s = list_all is_space s"

definition parse_object :: "codec \<Rightarrow> string \<Rightarrow> (string, json) dict option" where
  "parse_object C r = (case json_loads C r of Some (JObj d) \<Rightarrow> Some d | _ \<Rightarrow> None)"

text \<open>The loop of \<open>_read_file_records\<close> from offset \<open>start\<close> on, with the bytes from there.\<close>

function scan_records :: "codec \<Rightarrow> string \<Rightarrow> nat \<Rightarrow> nat \<Rightarrow> string \<Rightarrow> audit_record list" where
  "scan_records C path start idx [] = []"
| "scan_records C path start idx (c # cs) =
    (let bytes = c # cs;
         r = takeWhile (\<lambda>x. x \<noteq> newline) bytes;
         tail = dropWhile (\<lambda>x. x \<noteq> newline) bytes;
         line_end = start + length r + (if tail = [] then 0 else 1)
     in if blank r then scan_records C path line_end idx (tl tail)
        else \<lparr>rec_index = idx, rec_file = path, byte_start = start, byte_end = line_end, raw = r,
               parsed = parse_object C r\<rparr> # scan_records C path line_end (Suc idx) (tl tail))"
  by pat_completeness auto
termination
proof (relation "measure (\<lambda>(C, path, start, idx, s). length s)")
  have "length (tl (dropWhile (\<lambda>x. x \<noteq> newline) (c # cs))) < length (c # cs)" for c :: char and cs
  proof -
    have "length (dropWhile (\<lambda>x. x \<noteq> newline) cs) \<le> length cs" by (rule length_dropWhile_le)
    then have "length (dropWhile (\<lambda>x. x \<noteq> newline) cs) - Suc 0 \<le> length cs" by arith
    then show ?thesis by (simp add: less_Suc_eq_le)
  qed
  then show "\<And>C path start idx c cs x xa xb xc. x = c # cs \<Longrightarrow> xa = takeWhile (\<lambda>x. x \<noteq> newline) x \<Longrightarrow>
      xb = dropWhile (\<lambda>x. x \<noteq> newline) x \<Longrightarrow> xc = start + length xa + (if xb = [] then 0 else 1) \<Longrightarrow>
      blank xa \<Longrightarrow> ((C, path, xc, idx, tl xb), C, path, start, idx, c # cs)
        \<in> measure (\<lambda>(C, path, start, idx, s). length s)"
    "\<And>C path start idx c cs x xa xb xc. x = c # cs \<Longrightarrow> xa = takeWhile (\<lambda>x. x \<noteq> newline) x \<Longrightarrow>
      xb = dropWhile (\<lambda>x. x \<noteq> newline) x \<Longrightarrow> xc = start + length xa + (if xb = [] then 0 else 1) \<Longrightarrow>
      \<not> blank xa \<Longrightarrow> ((C, path, xc, Suc idx, tl xb), C, path, start, idx, c # cs)
        \<in> measure (\<lambda>(C, path, start, idx, s). length s)" by fastforce+
qed simp

definition read_file_records :: "codec \<Rightarrow> string \<Rightarrow> string \<Rightarrow> nat \<Rightarrow> audit_record list" where
  "read_file_records C path bytes start_index = scan_records C path 0 start_index bytes"

definition log_glob :: "string \<Rightarrow> bool" where
  "log_glob name \<longleftrightarrow> startswith name ''drnt-audit-'' \<and> endswith name ''.jsonl'' \<and>
    length ''drnt-audit-.jsonl'' \<le> length name"

definition collect_log_files :: "(string, string) dict \<Rightarrow> string list" where
  "collect_log_files dir = sort (filter log_glob (dict_keys dir))"

definition read_records :: "codec \<Rightarrow> (string, string) dict \<Rightarrow> string list \<Rightarrow> audit_record list" where
  "read_records C dir files =
    fold (\<lambda>f records. records @ read_file_records C f (text_at dir f) (length records)) files []"

section \<open>Classification\<close>

definition chain_hash :: "codec \<Rightarrow> audit_record \<Rightarrow> string" where
  "chain_hash C r =
    (if endswith (raw r) [carriage] then sha256 C (butlast (raw r)) else sha256 C (raw r))"

text \<open>\<open>_segment_starts\<close>, with the file of the record before.\<close>

fun segment_starts_from :: "string option \<Rightarrow> audit_record list \<Rightarrow> bool list" where
  "segment_starts_from prev_file [] = []"
| "segment_starts_from prev_file (r # rs) =
    (Some (rec_file r) \<noteq> prev_file) # segment_starts_from (Some (rec_file r)) rs"

definition segment_starts :: "audit_record list \<Rightarrow> bool list" where
  "segment_starts rs = segment_starts_from None rs"

text \<open>A record continues the chain from \<open>prev\<close>, or re-anchors it at the start of a file.\<close>

definition link_ok :: "codec \<Rightarrow> string \<Rightarrow> bool \<Rightarrow> audit_record \<Rightarrow> bool" where
  "link_ok C prev seg r =
    (case parsed r of
       None \<Rightarrow> False
     | Some d \<Rightarrow> map_of d ''prev_hash'' = Some (JStr prev) \<or>
         seg \<and> map_of d ''prev_hash'' = Some (JStr (GENESIS_HASH C)))"

fun first_break_from :: "codec \<Rightarrow> nat \<Rightarrow> string \<Rightarrow> audit_record list \<Rightarrow> bool list \<Rightarrow> nat option" where
  "first_break_from C i prev (r # rs) (s # ss) =
    (if link_ok C prev s r then first_break_from C (Suc i) (chain_hash C r) rs ss else Some i)"
| "first_break_from C i prev _ _ = None"

text \<open>\<open>None\<close> is the code's \<open>-1\<close>.\<close>

definition first_break :: "codec \<Rightarrow> audit_record list \<Rightarrow> bool list \<Rightarrow> nat option" where
  "first_break C rs seg_starts = first_break_from C 0 (GENESIS_HASH C) rs seg_starts"

definition coherent_at :: "codec \<Rightarrow> audit_record list \<Rightarrow> bool list \<Rightarrow> nat \<Rightarrow> bool" where
  "coherent_at C rs seg_starts i =
    (case parsed (rs ! i) of
       None \<Rightarrow> False
     | Some d \<Rightarrow>
         seg_starts ! i \<and> map_of d ''prev_hash'' = Some (JStr (GENESIS_HASH C)) \<or>
         parsed (rs ! (i - 1)) \<noteq> None \<and>
           map_of d ''prev_hash'' = Some (JStr (chain_hash C (rs ! (i - 1)))))"

definition has_coherent_continuation :: "codec \<Rightarrow> audit_record list \<Rightarrow> bool list \<Rightarrow> nat \<Rightarrow> bool" where
  "has_coherent_continuation C rs seg_starts first_invalid =
    list_ex (coherent_at C rs seg_starts) [first_invalid + 1..<length rs]"

definition suffix_sha256 :: "codec \<Rightarrow> audit_record list \<Rightarrow> nat \<Rightarrow> string" where
  "suffix_sha256 C rs first_invalid =
    sha256 C (concat (map (\<lambda>r. raw r @ (if byte_end r > byte_start r + length (raw r) then [newline] else []))
      (drop first_invalid rs)))"

datatype audit_status = Valid | Empty_log | Broken_tail | Interior_corruption

record audit_report =
  rep_status :: audit_status
  records_total :: nat
  records_valid :: nat
  first_invalid_record :: "nat option"
  last_valid_record :: "nat option"
  last_valid_hash :: string
  repairable :: bool
  corrupt_suffix_sha256 :: "string option"
  rep_files :: "string list"

definition classify :: "codec \<Rightarrow> audit_record list \<Rightarrow> string list \<Rightarrow> audit_report" where
  "classify C rs files =
    (if rs = [] then
       \<lparr>rep_status = Empty_log, records_total = 0, records_valid = 0, first_invalid_record = None,
        last_valid_record = None, last_valid_hash = GENESIS_HASH C, repairable = False,
        corrupt_suffix_sha256 = None, rep_files = files\<rparr>
     else
       (let seg_starts = segment_starts rs; total = length rs in
        (case first_break C rs seg_starts of
           None \<Rightarrow>
             \<lparr>rep_status = Valid, records_total = total, records_valid = total,
              first_invalid_record = None, last_valid_record = Some (rec_index (last rs)),
              last_valid_hash = chain_hash C (last rs), repairable = False,
              corrupt_suffix_sha256 = None, rep_files = files\<rparr>
         | Some k \<Rightarrow>
             (let last_ok = (if 0 < k then Some (k - 1) else None);
                  last_h = (if 0 < k then chain_hash C (rs ! (k - 1)) else GENESIS_HASH C);
                  interior = (k = 0 \<or> has_coherent_continuation C rs seg_starts k)
              in \<lparr>rep_status = (if interior then Interior_corruption else Broken_tail),
                  records_total = total, records_valid = k, first_invalid_record = Some k,
                  last_valid_record = last_ok, last_valid_hash = last_h, repairable = \<not> interior,
                  corrupt_suffix_sha256 = Some (suffix_sha256 C rs k), rep_files = files\<rparr>))))"

definition verify_path :: "codec \<Rightarrow> (string, string) dict \<Rightarrow> audit_report" where
  "verify_path C dir =
    (let files = collect_log_files dir in classify C (read_records C dir files) files)"

section \<open>Repair\<close>

record repair_manifest =
  man_records_total :: nat
  man_records_valid :: nat
  man_last_valid_hash :: string
  corrupt_from_record_index :: nat
  man_corrupt_sha256 :: string
  sealed_file :: string
  removed_files :: "string list"
  operator_required :: bool
  post_repair_status :: audit_status
  post_repair_records :: nat

text \<open>
  The result is the refusal (with the status that caused it) or the manifest, the bytes written to the
  quarantine file, and the directory afterwards.
\<close>

definition repair_tail ::
    "codec \<Rightarrow> (string, string) dict \<Rightarrow> (audit_status + repair_manifest \<times> string) \<times> (string, string) dict"
where
  "repair_tail C dir =
    (let files = collect_log_files dir;
         rs = read_records C dir files;
         report = classify C rs files
     in if rep_status report \<noteq> Broken_tail \<or> \<not> repairable report then (Inl (rep_status report), dir)
        else (case first_invalid_record report of
            None \<Rightarrow> (Inl (rep_status report), dir)
          | Some k \<Rightarrow>
             (let break_record = rs ! k;
                  break_file = rec_file break_record;
                  newer_files = filter (\<lambda>f. f > break_file) files;
                  corrupt_tail = drop (byte_start break_record) (text_at dir break_file);
                  quarantined = corrupt_tail @ concat (map (text_at dir) newer_files);
                  sealed = AList.update break_file
                    (take (byte_start break_record) (text_at dir break_file)) dir;
                  dir' = fold AList.delete newer_files sealed;
                  post = verify_path C dir'
              in (Inr (\<lparr>man_records_total = records_total report, man_records_valid = records_valid report,
                        man_last_valid_hash = last_valid_hash report, corrupt_from_record_index = k,
                        man_corrupt_sha256 = sha256 C quarantined, sealed_file = break_file,
                        removed_files = newer_files, operator_required = True,
                        post_repair_status = rep_status post, post_repair_records = records_total post\<rparr>,
                       quarantined), dir'))))"


section \<open>Reading records\<close>

lemma takeWhile_line: "newline \<notin> set r \<Longrightarrow> takeWhile (\<lambda>x. x \<noteq> newline) (r @ newline # t) = r"
  "newline \<notin> set r \<Longrightarrow> dropWhile (\<lambda>x. x \<noteq> newline) (r @ newline # t) = newline # t"
  by (induction r) auto

definition record_at :: "codec \<Rightarrow> string \<Rightarrow> nat \<Rightarrow> nat \<Rightarrow> nat \<Rightarrow> string \<Rightarrow> audit_record" where
  "record_at C path start line_end idx r =
    \<lparr>rec_index = idx, rec_file = path, byte_start = start, byte_end = line_end, raw = r,
     parsed = parse_object C r\<rparr>"

lemma scan_line:
  assumes "newline \<notin> set r"
  shows "scan_records C path start idx (r @ newline # t) =
    (if blank r then scan_records C path (start + length r + 1) idx t
     else record_at C path start (start + length r + 1) idx r
       # scan_records C path (start + length r + 1) (Suc idx) t)"
proof -
  obtain c cs where "r @ newline # t = c # cs" by (cases "r @ newline # t") auto
  moreover from this have "takeWhile (\<lambda>x. x \<noteq> newline) (c # cs) = r" "dropWhile (\<lambda>x. x \<noteq> newline) (c # cs) = newline # t"
    using takeWhile_line [OF assms, of t] by simp_all
  ultimately show ?thesis by (simp add: record_at_def Let_def del: takeWhile.simps dropWhile.simps)
qed

lemma scan_last:
  assumes "newline \<notin> set r"
  shows "scan_records C path start idx r =
    (if blank r then [] else [record_at C path start (start + length r) idx r])"
proof (cases r)
  case Nil
  then show ?thesis by (simp add: blank_def)
next
  case (Cons c cs)
  have "takeWhile (\<lambda>x. x \<noteq> newline) r = r" "dropWhile (\<lambda>x. x \<noteq> newline) r = []"
    using assms by (auto simp: takeWhile_eq_all_conv dropWhile_eq_Nil_conv)
  then have tw: "takeWhile (\<lambda>x. x \<noteq> newline) (c # cs) = c # cs"
    and dw: "dropWhile (\<lambda>x. x \<noteq> newline) (c # cs) = []"
    using Cons by simp_all
  show ?thesis
    unfolding Cons scan_records.simps Let_def tw dw by (simp add: record_at_def)
qed

lemma first_line_cases:
  obtains (last) "newline \<notin> set s" | (line) r t where "newline \<notin> set r" "s = r @ newline # t"
  by (metis split_list_first)

text \<open>Truncating a file where a record starts removes exactly that record and what follows.\<close>

lemma scan_truncate:
  assumes "k < length (scan_records C path start idx s)"
  defines "b \<equiv> byte_start (scan_records C path start idx s ! k)"
  shows "start \<le> b \<and> scan_records C path start idx (take (b - start) s) = take k (scan_records C path start idx s) \<and>
    rec_file (scan_records C path start idx s ! k) = path"
  using assms(1) unfolding b_def
proof (induction s arbitrary: start idx k rule: measure_induct_rule [of length])
  case (less s)
  show ?case
  proof (cases rule: first_line_cases [of s])
    case last
    then have "k = 0" using less.prems by (simp add: scan_last split: if_splits)
    then show ?thesis using less.prems last by (simp add: scan_last record_at_def split: if_splits)
  next
    case (line r t)
    let ?e = "start + length r + 1"
    show ?thesis
    proof (cases "blank r")
      case True
      let ?b = "byte_start (scan_records C path ?e idx t ! k)"
      have k: "k < length (scan_records C path ?e idx t)" using less.prems line True by (simp add: scan_line)
      have IH: "?e \<le> ?b" "scan_records C path ?e idx (take (?b - ?e) t) = take k (scan_records C path ?e idx t)"
        "rec_file (scan_records C path ?e idx t ! k) = path"
        using less.IH [of t k ?e idx] k line(2) by auto
      have "take (?b - start) s = r @ newline # take (?b - ?e) t"
        using IH(1) line(2) by (simp add: take_Cons' Suc_le_eq numeral_eq_Suc)
      then show ?thesis using IH line True by (simp add: scan_line)
    next
      case False
      show ?thesis
      proof (cases k)
        case 0
        then show ?thesis using line False by (simp add: scan_line record_at_def)
      next
        case (Suc j)
        let ?b = "byte_start (scan_records C path ?e (Suc idx) t ! j)"
        have k: "j < length (scan_records C path ?e (Suc idx) t)"
          using less.prems line False Suc by (simp add: scan_line)
        have IH: "?e \<le> ?b"
          "scan_records C path ?e (Suc idx) (take (?b - ?e) t) = take j (scan_records C path ?e (Suc idx) t)"
          "rec_file (scan_records C path ?e (Suc idx) t ! j) = path"
          using less.IH [of t j ?e "Suc idx"] k line(2) by auto
        have "take (?b - start) s = r @ newline # take (?b - ?e) t"
          using IH(1) line(2) by (simp add: take_Cons')
        then show ?thesis using IH line False Suc by (simp add: scan_line)
      qed
    qed
  qed
qed

section \<open>Reading a directory\<close>

lemma read_records_snoc:
  "read_records C dir (fs @ [f]) =
    read_records C dir fs @ read_file_records C f (text_at dir f) (length (read_records C dir fs))"
  by (simp add: read_records_def)

lemma read_records_Nil [simp]: "read_records C dir [] = []"
  by (simp add: read_records_def)

lemma read_records_append: "\<exists>rest. read_records C dir (xs @ ys) = read_records C dir xs @ rest"
proof (induction ys rule: rev_induct)
  case (snoc y ys)
  then show ?case using read_records_snoc [of C dir "xs @ ys" y] by auto
qed simp

lemma read_records_cong:
  "(\<And>f. f \<in> set fs \<Longrightarrow> text_at dir f = text_at dir' f) \<Longrightarrow> read_records C dir fs = read_records C dir' fs"
proof (induction fs rule: rev_induct)
  case (snoc f fs)
  then show ?case by (simp add: read_records_snoc)
qed simp

lemma read_records_locate:
  assumes "k < length (read_records C dir files)"
  obtains F1 b F2 j where "files = F1 @ b # F2" "k = length (read_records C dir F1) + j"
    "j < length (read_file_records C b (text_at dir b) (length (read_records C dir F1)))"
    "read_records C dir files ! k
      = read_file_records C b (text_at dir b) (length (read_records C dir F1)) ! j"
  using assms
proof (induction files arbitrary: thesis rule: rev_induct)
  case (snoc f fs)
  show ?case
  proof (cases "k < length (read_records C dir fs)")
    case True
    then obtain F1 b F2 j where "fs = F1 @ b # F2" "k = length (read_records C dir F1) + j"
      "j < length (read_file_records C b (text_at dir b) (length (read_records C dir F1)))"
      "read_records C dir fs ! k
        = read_file_records C b (text_at dir b) (length (read_records C dir F1)) ! j"
      using snoc.IH by blast
    moreover have "read_records C dir (fs @ [f]) ! k = read_records C dir fs ! k"
      using True by (simp add: read_records_snoc nth_append)
    ultimately show ?thesis using snoc.prems(1) [of F1 b "F2 @ [f]" j] by simp
  next
    case False
    then show ?thesis
      using snoc.prems(1) [of fs f "[]" "k - length (read_records C dir fs)"] snoc.prems(2)
      by (auto simp: read_records_snoc nth_append)
  qed
qed simp


section \<open>The first break\<close>

lemma segment_starts_from_take:
  "segment_starts_from p (take n rs) = take n (segment_starts_from p rs)"
  by (induction rs arbitrary: p n) (auto simp: take_Cons')

lemma segment_starts_take: "segment_starts (take n rs) = take n (segment_starts rs)"
  by (simp add: segment_starts_def segment_starts_from_take)

lemma length_segment_starts_from [simp]: "length (segment_starts_from p rs) = length rs"
  by (induction rs arbitrary: p) auto

lemma length_segment_starts [simp]: "length (segment_starts rs) = length rs"
  by (simp add: segment_starts_def)

lemma segment_starts_from_nth:
  "i < length rs \<Longrightarrow> segment_starts_from p rs ! i =
    (Some (rec_file (rs ! i)) \<noteq> (if i = 0 then p else Some (rec_file (rs ! (i - 1)))))"
  by (induction rs arbitrary: p i) (auto simp: nth_Cons' )

lemma segment_starts_nth:
  "i < length rs \<Longrightarrow> segment_starts rs ! i = (i = 0 \<or> rec_file (rs ! i) \<noteq> rec_file (rs ! (i - 1)))"
  by (auto simp: segment_starts_def segment_starts_from_nth)

text \<open>The \<open>i\<close>-th record is a legitimate one: what an intact segmented chain requires of it.\<close>

definition continues :: "codec \<Rightarrow> audit_record list \<Rightarrow> nat \<Rightarrow> bool" where
  "continues C rs i = link_ok C (if i = 0 then GENESIS_HASH C else chain_hash C (rs ! (i - 1)))
     (i = 0 \<or> rec_file (rs ! i) \<noteq> rec_file (rs ! (i - 1))) (rs ! i)"

lemma first_break_from_cases:
  assumes "length ss = length rs"
  shows "case first_break_from C n h rs ss of
      None \<Rightarrow> \<forall>i < length rs. link_ok C (if i = 0 then h else chain_hash C (rs ! (i - 1))) (ss ! i) (rs ! i)
    | Some k \<Rightarrow> n \<le> k \<and> k - n < length rs \<and>
        (\<forall>i < k - n. link_ok C (if i = 0 then h else chain_hash C (rs ! (i - 1))) (ss ! i) (rs ! i)) \<and>
        \<not> link_ok C (if k = n then h else chain_hash C (rs ! (k - n - 1))) (ss ! (k - n)) (rs ! (k - n))"
  using assms
proof (induction rs arbitrary: n h ss)
  case (Cons r rs)
  then obtain s ss' where ss: "ss = s # ss'" "length ss' = length rs" by (cases ss) auto
  show ?case
  proof (cases "link_ok C h s r")
    case False
    then show ?thesis using ss by simp
  next
    case True
    have step: "(\<forall>i < Suc m. link_ok C (if i = 0 then h else chain_hash C ((r # rs) ! (i - 1))) (ss ! i) ((r # rs) ! i))
      \<longleftrightarrow> (\<forall>i < m. link_ok C (if i = 0 then chain_hash C r else chain_hash C (rs ! (i - 1))) (ss' ! i) (rs ! i))" for m
      using True ss by (auto simp: All_less_Suc2 nth_Cons')
    show ?thesis
    proof (cases "first_break_from C (Suc n) (chain_hash C r) rs ss'")
      case None
      then show ?thesis using Cons.IH [OF ss(2), where n = "Suc n" and h = "chain_hash C r"] step [of "length rs"] True ss by simp
    next
      case (Some k)
      then have IH: "Suc n \<le> k" "k - Suc n < length rs"
        "\<forall>i < k - Suc n. link_ok C (if i = 0 then chain_hash C r else chain_hash C (rs ! (i - 1))) (ss' ! i) (rs ! i)"
        "\<not> link_ok C (if k = Suc n then chain_hash C r else chain_hash C (rs ! (k - Suc n - 1)))
            (ss' ! (k - Suc n)) (rs ! (k - Suc n))"
        using Cons.IH [OF ss(2), where n = "Suc n" and h = "chain_hash C r"] by auto
      have k: "k - n = Suc (k - Suc n)" using IH(1) by simp
      show ?thesis
        using Some IH step [of "k - Suc n"] True ss unfolding k by (auto simp: nth_Cons')
    qed
  qed
qed simp

lemma first_break_None:
  "first_break C rs (segment_starts rs) = None \<longleftrightarrow> (\<forall>i < length rs. continues C rs i)"
  and first_break_Some:
  "first_break C rs (segment_starts rs) = Some k \<longleftrightarrow>
    k < length rs \<and> \<not> continues C rs k \<and> (\<forall>i < k. continues C rs i)"
proof -
  have c: "continues C rs i \<longleftrightarrow> link_ok C (if i = 0 then GENESIS_HASH C else chain_hash C (rs ! (i - 1)))
      (segment_starts rs ! i) (rs ! i)" if "i < length rs" for i
    using that by (simp add: continues_def segment_starts_nth)
  note fb = first_break_from_cases [where ss = "segment_starts rs" and rs = rs and C = C and n = 0 and h = "GENESIS_HASH C"]
  have none: "\<forall>i < length rs. continues C rs i" if "first_break C rs (segment_starts rs) = None"
    using that fb c by (simp add: first_break_def)
  have some: "j < length rs \<and> \<not> continues C rs j \<and> (\<forall>i < j. continues C rs i)"
    if "first_break C rs (segment_starts rs) = Some j" for j
    using that fb c by (cases "j = 0") (simp_all add: first_break_def)
  show "first_break C rs (segment_starts rs) = None \<longleftrightarrow> (\<forall>i < length rs. continues C rs i)"
    using none some by (cases "first_break C rs (segment_starts rs)") auto
  show "first_break C rs (segment_starts rs) = Some k \<longleftrightarrow>
      k < length rs \<and> \<not> continues C rs k \<and> (\<forall>i < k. continues C rs i)"
    using none some by (cases "first_break C rs (segment_starts rs)") (auto, metis linorder_neqE_nat)
qed


lemma continues_take: "i < k \<Longrightarrow> k \<le> length rs \<Longrightarrow> continues C (take k rs) i = continues C rs i"
  by (simp add: continues_def)

lemma classify_status:
  "rep_status (classify C rs fs) = Valid \<longleftrightarrow> rs \<noteq> [] \<and> (\<forall>i < length rs. continues C rs i)"
  "rep_status (classify C rs fs) = Broken_tail \<longleftrightarrow>
    (\<exists>k > 0. first_break C rs (segment_starts rs) = Some k \<and>
       \<not> has_coherent_continuation C rs (segment_starts rs) k)"
  using first_break_None [of C rs]
  by (auto simp: classify_def Let_def first_break_def split: option.splits)

text \<open>
  The classification is the documented one. A log is valid exactly when it has a record and each
  record names the hash of the record before it or, at the start of a file only, the genesis hash; it
  is a repairable broken tail exactly when a non-empty prefix is valid in this sense, the record
  after it is not, and no later record links to its predecessor or starts a file with genesis.
\<close>

theorem classify_meaning:
  "(rep_status (classify C rs fs) = Valid \<longleftrightarrow> rs \<noteq> [] \<and> (\<forall>i < length rs. continues C rs i)) \<and>
   (rep_status (classify C rs fs) = Broken_tail \<longleftrightarrow>
     (\<exists>k > 0. k < length rs \<and> (\<forall>i < k. continues C rs i) \<and> \<not> continues C rs k \<and>
        (\<forall>i. k < i \<and> i < length rs \<longrightarrow> \<not> coherent_at C rs (segment_starts rs) i))) \<and>
   (repairable (classify C rs fs) \<longleftrightarrow> rep_status (classify C rs fs) = Broken_tail)"
proof (intro conjI)
  show "rep_status (classify C rs fs) = Valid \<longleftrightarrow> rs \<noteq> [] \<and> (\<forall>i < length rs. continues C rs i)"
    by (rule classify_status)
  have "has_coherent_continuation C rs (segment_starts rs) k \<longleftrightarrow>
      (\<exists>i. k < i \<and> i < length rs \<and> coherent_at C rs (segment_starts rs) i)" for k
    by (auto simp: has_coherent_continuation_def list_ex_iff Suc_le_eq)
  then show "rep_status (classify C rs fs) = Broken_tail \<longleftrightarrow>
     (\<exists>k > 0. k < length rs \<and> (\<forall>i < k. continues C rs i) \<and> \<not> continues C rs k \<and>
        (\<forall>i. k < i \<and> i < length rs \<longrightarrow> \<not> coherent_at C rs (segment_starts rs) i))"
    unfolding classify_status first_break_Some by blast
  show "repairable (classify C rs fs) \<longleftrightarrow> rep_status (classify C rs fs) = Broken_tail"
    by (auto simp: classify_def Let_def split: option.splits)
qed

section \<open>Tail repair\<close>

lemma collect_log_files_simps:
  "set (collect_log_files dir) = {f \<in> set (dict_keys dir). log_glob f}"
  "wf_dict dir \<Longrightarrow> distinct (collect_log_files dir)"
  "sorted (collect_log_files dir)"
  by (auto simp: collect_log_files_def)

lemma fold_delete:
  "map_of (fold AList.delete fs dir) f = (if f \<in> set fs then None else map_of dir f)"
  by (induction fs arbitrary: dir) auto

lemma wf_fold_delete: "wf_dict dir \<Longrightarrow> wf_dict (fold AList.delete fs dir)"
  by (induction fs arbitrary: dir) auto

lemma collect_log_files_eqI:
  assumes "wf_dict dir" and "sorted fs" and "distinct fs"
    and "\<And>f. f \<in> set fs \<longleftrightarrow> map_of dir f \<noteq> None \<and> log_glob f"
  shows "collect_log_files dir = fs"
proof (rule sorted_distinct_set_unique)
  show "set (collect_log_files dir) = set fs"
    using assms(4) by (auto simp: collect_log_files_simps map_of_eq_None_iff)
qed (use assms collect_log_files_simps in auto)

text \<open>What the repair does to the directory whose files are \<open>F1 @ b # F2\<close> when \<open>b\<close> is cut at \<open>off\<close>.\<close>

lemma sealed_directory:
  assumes "wf_dict dir" and "collect_log_files dir = F1 @ b # F2"
    and "dir' = fold AList.delete (filter (\<lambda>f. f > b) (collect_log_files dir))
      (AList.update b (take off (text_at dir b)) dir)"
  shows "filter (\<lambda>f. f > b) (collect_log_files dir) = F2"
    "collect_log_files dir' = F1 @ [b]" "text_at dir' b = take off (text_at dir b)"
    "\<And>f. f \<in> set F1 \<Longrightarrow> text_at dir' f = text_at dir f"
    "\<And>f. \<not> log_glob f \<Longrightarrow> map_of dir' f = map_of dir f"
proof -
  have s: "sorted (F1 @ b # F2)" "distinct (F1 @ b # F2)"
    using collect_log_files_simps(2,3) [of dir] assms(1,2) by auto
  have lt: "\<forall>f \<in> set F1. f < b" "\<forall>f \<in> set F2. b < f"
    using s by (auto simp: sorted_append less_le)
  show newer: "filter (\<lambda>f. f > b) (collect_log_files dir) = F2"
    using lt by (auto simp: assms(2) filter_id_conv filter_empty_conv dest: order.asym)
  have mem: "f \<in> set (F1 @ b # F2) \<longleftrightarrow> map_of dir f \<noteq> None \<and> log_glob f" for f
    using collect_log_files_simps(1) [of dir] assms(2) by (auto simp: map_of_eq_None_iff)
  have map: "map_of dir' f = (if f \<in> set F2 then None else if f = b then Some (take off (text_at dir b)) else map_of dir f)" for f
    by (simp add: assms(3) newer fold_delete)
  show "collect_log_files dir' = F1 @ [b]"
  proof (rule collect_log_files_eqI)
    show "wf_dict dir'" unfolding assms(3) newer by (intro wf_fold_delete wf_dict_update assms(1))
    show "sorted (F1 @ [b])" "distinct (F1 @ [b])" using s by (auto simp: sorted_append)
    show "f \<in> set (F1 @ [b]) \<longleftrightarrow> map_of dir' f \<noteq> None \<and> log_glob f" for f
      using mem [of f] mem [of b] s(2) by (auto simp: map)
  qed
  show "text_at dir' b = take off (text_at dir b)" using s(2) by (simp add: text_at_def map)
  show "text_at dir' f = text_at dir f" if "f \<in> set F1" for f
    using that s(2) by (auto simp: text_at_def map)
  show "map_of dir' f = map_of dir f" if "\<not> log_glob f" for f
    using that mem [of f] mem [of b] by (auto simp: map)
qed


lemma broken_tail_split:
  assumes "rep_status (verify_path C dir) = Broken_tail" and "wf_dict dir"
  obtains F1 b F2 k where "collect_log_files dir = F1 @ b # F2" "0 < k"
    "first_break C (read_records C dir (F1 @ b # F2)) (segment_starts (read_records C dir (F1 @ b # F2))) = Some k"
    "rec_file (read_records C dir (F1 @ b # F2) ! k) = b"
    "\<And>dir'. text_at dir' b = take (byte_start (read_records C dir (F1 @ b # F2) ! k)) (text_at dir b) \<Longrightarrow>
       (\<And>f. f \<in> set F1 \<Longrightarrow> text_at dir' f = text_at dir f) \<Longrightarrow>
       read_records C dir' (F1 @ [b]) = take k (read_records C dir (F1 @ b # F2))"
proof -
  let ?fs = "collect_log_files dir"
  let ?rs = "read_records C dir ?fs"
  obtain k where k: "0 < k" "first_break C ?rs (segment_starts ?rs) = Some k"
    using assms(1) by (auto simp: verify_path_def classify_status Let_def)
  then have "k < length ?rs" by (simp add: first_break_Some)
  then obtain F1 b F2 j where f: "?fs = F1 @ b # F2" "k = length (read_records C dir F1) + j"
    "j < length (read_file_records C b (text_at dir b) (length (read_records C dir F1)))"
    "?rs ! k = read_file_records C b (text_at dir b) (length (read_records C dir F1)) ! j"
    by (rule read_records_locate)
  let ?n = "length (read_records C dir F1)"
  let ?S = "scan_records C b 0 ?n (text_at dir b)"
  have tr: "scan_records C b 0 ?n (take (byte_start (?S ! j)) (text_at dir b)) = take j ?S"
    "rec_file (?S ! j) = b"
    using scan_truncate [of j C b 0 ?n "text_at dir b"] f(3) by (auto simp: read_file_records_def)
  obtain rest where rest: "read_records C dir ((F1 @ [b]) @ F2) = read_records C dir (F1 @ [b]) @ rest"
    using read_records_append by blast
  have rs: "read_records C dir (F1 @ b # F2) = read_records C dir F1 @ ?S @ rest"
    using rest by (simp add: read_records_snoc read_file_records_def)
  have "read_records C dir' (F1 @ [b]) = take k (read_records C dir (F1 @ b # F2))"
    if "text_at dir' b = take (byte_start (read_records C dir (F1 @ b # F2) ! k)) (text_at dir b)"
      "\<And>f. f \<in> set F1 \<Longrightarrow> text_at dir' f = text_at dir f" for dir'
  proof -
    have F1: "read_records C dir' F1 = read_records C dir F1" using that(2) by (rule read_records_cong)
    have "byte_start (read_records C dir (F1 @ b # F2) ! k) = byte_start (?S ! j)"
      using f(1,4) by (simp add: read_file_records_def)
    then have "read_records C dir' (F1 @ [b]) = read_records C dir F1 @ take j ?S"
      using tr(1) that(1) F1 by (simp add: read_records_snoc read_file_records_def)
    then show ?thesis using f(2,3) rs by (simp add: read_file_records_def)
  qed
  moreover have "rec_file (read_records C dir (F1 @ b # F2) ! k) = b"
    using f(1,4) tr(2) by (simp add: read_file_records_def)
  ultimately show thesis using that f(1) k by metis
qed

lemma repair_tail_works:
  assumes "wf_dict dir" and "rep_status (verify_path C dir) = Broken_tail"
  shows "\<exists>m q dir'. repair_tail C dir = (Inr (m, q), dir') \<and>
    concat (map (text_at dir) (collect_log_files dir)) = concat (map (text_at dir') (collect_log_files dir')) @ q \<and>
    man_corrupt_sha256 m = sha256 C q \<and>
    (\<forall>f. \<not> log_glob f \<longrightarrow> map_of dir' f = map_of dir f) \<and>
    post_repair_status m = Valid \<and> rep_status (verify_path C dir') = Valid \<and>
    records_total (verify_path C dir') = records_valid (verify_path C dir) \<and>
    last_valid_hash (verify_path C dir') = last_valid_hash (verify_path C dir)"
proof -
  obtain F1 b F2 k where f: "collect_log_files dir = F1 @ b # F2" "0 < k"
    "first_break C (read_records C dir (F1 @ b # F2)) (segment_starts (read_records C dir (F1 @ b # F2))) = Some k"
    "rec_file (read_records C dir (F1 @ b # F2) ! k) = b"
    and tr: "\<And>dir'. text_at dir' b = take (byte_start (read_records C dir (F1 @ b # F2) ! k)) (text_at dir b) \<Longrightarrow>
       (\<And>f. f \<in> set F1 \<Longrightarrow> text_at dir' f = text_at dir f) \<Longrightarrow>
       read_records C dir' (F1 @ [b]) = take k (read_records C dir (F1 @ b # F2))"
    using broken_tail_split [OF assms(2,1)] by metis
  let ?rs = "read_records C dir (F1 @ b # F2)"
  let ?off = "byte_start (?rs ! k)"
  define D where "D = fold AList.delete (filter (\<lambda>f. f > b) (collect_log_files dir))
      (AList.update b (take ?off (text_at dir b)) dir)"
  note sealed = sealed_directory [OF assms(1) f(1) D_def]
  have k: "k < length ?rs" "\<forall>i < k. continues C ?rs i" using f(3) by (simp_all add: first_break_Some)
  have rs': "read_records C D (collect_log_files D) = take k ?rs"
    unfolding sealed(2) by (rule tr) (use sealed(3,4) in auto)
  have valid: "\<forall>i < length (take k ?rs). continues C (take k ?rs) i"
    using k by (simp add: continues_take)
  then have fb: "first_break C (take k ?rs) (segment_starts (take k ?rs)) = None"
    by (simp add: first_break_None)
  have ne: "take k ?rs \<noteq> []" using f(2) k(1) by auto
  have post: "rep_status (verify_path C D) = Valid" "records_total (verify_path C D) = k"
    "last_valid_hash (verify_path C D) = chain_hash C (last (take k ?rs))"
    using rs' fb ne k(1) by (simp_all add: verify_path_def classify_def Let_def)
  have ne': "?rs \<noteq> []" using k(1) by auto
  have pre: "records_valid (verify_path C dir) = k" "last_valid_hash (verify_path C dir) = chain_hash C (?rs ! (k - 1))"
    "first_invalid_record (verify_path C dir) = Some k"
    using f(1,2,3) ne' by (simp_all add: verify_path_def classify_def Let_def)
  have last: "last (take k ?rs) = ?rs ! (k - 1)" using k(1) f(2) ne by (simp add: last_conv_nth)
  have status: "rep_status (classify C ?rs (collect_log_files dir)) = Broken_tail"
    "repairable (classify C ?rs (collect_log_files dir))"
    "first_invalid_record (classify C ?rs (collect_log_files dir)) = Some k"
    using assms(2) pre(3) f(1,2) ne'
    by (auto simp: verify_path_def Let_def classify_def split: option.splits if_splits)
  obtain m q where r: "repair_tail C dir = (Inr (m, q), D)" "post_repair_status m = rep_status (verify_path C D)"
    "man_corrupt_sha256 m = sha256 C q"
    "q = drop ?off (text_at dir b) @ concat (map (text_at dir) (filter (\<lambda>f. f > b) (collect_log_files dir)))"
    using status f(1,4) by (simp add: repair_tail_def Let_def D_def)
  have F1: "map (text_at D) F1 = map (text_at dir) F1" using sealed(4) by simp
  have "q = drop ?off (text_at dir b) @ concat (map (text_at dir) F2)" using r(4) sealed(1) by simp
  moreover have "text_at dir b @ xs = take ?off (text_at dir b) @ drop ?off (text_at dir b) @ xs" for xs
    by (simp flip: append_assoc)
  ultimately have "concat (map (text_at dir) (collect_log_files dir)) = concat (map (text_at D) (collect_log_files D)) @ q"
    by (simp add: f(1) sealed(2,3) F1 del: map_eq_conv)
  then show ?thesis
    using r(1-3) post pre last sealed(5) by (intro exI conjI) (rule r(1), auto)
qed

text \<open>
  C22: Tail repair loses no byte and leaves a sound log. On a broken tail the repair succeeds; the
  bytes of the log before it are the bytes of the log after it followed by the quarantined bytes (whose
  hash the manifest records); files that are no logs are untouched; and the sealed log classifies as
  valid, with exactly the valid records of before and the same head hash.
\<close>

theorem repair_tail_sound:
  assumes "wf_dict dir" and "rep_status (verify_path C dir) = Broken_tail"
  shows "\<exists>m q dir'. repair_tail C dir = (Inr (m, q), dir') \<and>
    concat (map (text_at dir) (collect_log_files dir)) = concat (map (text_at dir') (collect_log_files dir')) @ q \<and>
    man_corrupt_sha256 m = sha256 C q \<and>
    (\<forall>f. \<not> log_glob f \<longrightarrow> map_of dir' f = map_of dir f) \<and>
    post_repair_status m = Valid \<and> rep_status (verify_path C dir') = Valid \<and>
    records_total (verify_path C dir') = records_valid (verify_path C dir) \<and>
    last_valid_hash (verify_path C dir') = last_valid_hash (verify_path C dir)"
  by (rule repair_tail_works [OF assms])

text \<open>A directory whose second file ends in a torn record, under a toy codec.\<close>

definition toy_codec :: codec where
  "toy_codec = \<lparr>sha256 = id,
     json_loads = (\<lambda>s. if s \<noteq> [] \<and> hd s = CHR ''j'' then Some (JObj [(''prev_hash'', JStr (tl s))]) else None),
     json_dumps = (\<lambda>_. [])\<rparr>"

definition torn_dir :: "(string, string) dict" where
  "torn_dir =
    [(''notes.txt'', ''x''),
     (''drnt-audit-2.jsonl'', ''jjDRNT-GENESIS'' @ [newline] @ ''{torn''),
     (''drnt-audit-1.jsonl'', ''jDRNT-GENESIS'' @ [newline])]"

lemma torn_dir_broken: "rep_status (verify_path toy_codec torn_dir) = Broken_tail"
  by code_simp

theorem repair_tail_sound_witness:
  "\<exists>m q dir'. repair_tail toy_codec torn_dir = (Inr (m, q), dir') \<and>
    concat (map (text_at torn_dir) (collect_log_files torn_dir))
      = concat (map (text_at dir') (collect_log_files dir')) @ q \<and>
    rep_status (verify_path toy_codec dir') = Valid"
proof -
  have "wf_dict torn_dir" by (simp add: torn_dir_def)
  from repair_tail_sound [OF this torn_dir_broken] show ?thesis by blast
qed

theorem classify_meaning_witness:
  "rep_status (classify toy_codec (read_records toy_codec torn_dir (collect_log_files torn_dir)) []) = Broken_tail \<and>
   repairable (classify toy_codec (read_records toy_codec torn_dir (collect_log_files torn_dir)) [])"
proof -
  have "rep_status (classify toy_codec (read_records toy_codec torn_dir (collect_log_files torn_dir)) []) = Broken_tail"
    by code_simp
  then show ?thesis
    using classify_meaning [of toy_codec "read_records toy_codec torn_dir (collect_log_files torn_dir)" "[]"]
    by blast
qed

end
