(* ===== verification/Effects.thy ===== *)
theory Effects
  imports Audit_Events
begin

text \<open>
  Effects of the orchestrator's handlers. A handler runs on a state and returns a value or the raised
  exception, with the state it leaves. The audit trail is part of that state: every state of the
  development extends the record \<open>audit\<close>, whose \<open>alog\<close> lists the durable emissions in order. What the
  surroundings decide is an \<open>env\<close>: the id and time stamp the \<open>n\<close>-th event gets, and what its
  \<open>emit_durable\<close> does (raise, or return whether the writer took it; the callers ignore that value),
  and the ISO text of an instant.
\<close>

record env =
  stamp_of :: "nat \<Rightarrow> stamp"
  outcome_of :: "nat \<Rightarrow> py_exc + bool"
  iso_text :: "instant \<Rightarrow> string"

record audit =
  alog :: "event list"

definition emit ::
    "env \<Rightarrow> (stamp \<Rightarrow> event) \<Rightarrow> 'a audit_scheme \<Rightarrow> (py_exc + event) \<times> 'a audit_scheme" where
  "emit E build s =
    (let n = length (alog s); ev = build (stamp_of E n); s' = s\<lparr>alog := alog s @ [ev]\<rparr>
     in (case outcome_of E n of Inl x \<Rightarrow> (Inl x, s') | Inr ok \<Rightarrow> (Inr ev, s')))"

definition source_event_id :: "event \<Rightarrow> string" where
  "source_event_id ev = event_str ev ''source_event_id''"

text \<open>Sequencing, with exceptions leaving the rest out.\<close>

definition bind_r ::
    "('s \<Rightarrow> (py_exc + 'a) \<times> 's) \<Rightarrow> ('a \<Rightarrow> 's \<Rightarrow> (py_exc + 'b) \<times> 's) \<Rightarrow> 's \<Rightarrow> (py_exc + 'b) \<times> 's" where
  "bind_r m f s = (case m s of (Inl x, s') \<Rightarrow> (Inl x, s') | (Inr v, s') \<Rightarrow> f v s')"

definition return_r :: "'a \<Rightarrow> 's \<Rightarrow> (py_exc + 'a) \<times> 's" where
  "return_r v s = (Inr v, s)"

definition raise_r :: "py_exc \<Rightarrow> 's \<Rightarrow> (py_exc + 'a) \<times> 's" where
  "raise_r x s = (Inl x, s)"

fun map_r :: "('a \<Rightarrow> 's \<Rightarrow> (py_exc + 'b) \<times> 's) \<Rightarrow> 'a list \<Rightarrow> 's \<Rightarrow> (py_exc + 'b list) \<times> 's" where
  "map_r f [] s = (Inr [], s)"
| "map_r f (x # xs) s =
    (case f x s of
       (Inl e, s') \<Rightarrow> (Inl e, s')
     | (Inr y, s') \<Rightarrow>
         (case map_r f xs s' of (Inl e, s'') \<Rightarrow> (Inl e, s'') | (Inr ys, s'') \<Rightarrow> (Inr (y # ys), s'')))"

lemma bind_r_simps [simp]:
  "m s = (Inl x, s') \<Longrightarrow> bind_r m f s = (Inl x, s')"
  "m s = (Inr v, s') \<Longrightarrow> bind_r m f s = f v s'"
  by (simp_all add: bind_r_def)

lemma bind_r_cases:
  assumes "bind_r m f s = (r, s')"
  obtains (raise) x where "m s = (Inl x, s')" "r = Inl x"
  | (step) v t where "m s = (Inr v, t)" "f v t = (r, s')"
proof (cases "m s")
  case (Pair q t)
  then show thesis
    using assms that by (cases q) (auto simp: bind_r_def)
qed

lemma return_r_simp [simp]: "return_r v s = (Inr v, s)"
  by (simp add: return_r_def)

lemma raise_r_simp [simp]: "raise_r x s = (Inl x, s)"
  by (simp add: raise_r_def)

lemma emit_cases:
  assumes "emit E f s = (r, s')"
  obtains "s' = s\<lparr>alog := alog s @ [f (stamp_of E (length (alog s)))]\<rparr>"
    "r = Inr (f (stamp_of E (length (alog s)))) \<or> (\<exists>x. r = Inl x)"
  using assms by (auto simp: emit_def Let_def split: sum.splits)

text \<open>An environment in which every emission is accepted, for concrete runs.\<close>

definition good_env :: env where
  "good_env = \<lparr>stamp_of = (\<lambda>n. (replicate n CHR ''i'', ''t'')), outcome_of = (\<lambda>_. Inr True),
     iso_text = (\<lambda>_. ''t'')\<rparr>"

lemma good_env_emit [simp]:
  "emit good_env f s =
    (Inr (f (replicate (length (alog s)) CHR ''i'', ''t'')),
     s\<lparr>alog := alog s @ [f (replicate (length (alog s)) CHR ''i'', ''t'')]\<rparr>)"
  by (simp add: emit_def good_env_def Let_def)

section \<open>Trails\<close>

text \<open>The trail after the emissions \<open>evs\<close>, one after the other.\<close>

definition recorded :: "(stamp \<Rightarrow> event) list \<Rightarrow> env \<Rightarrow> 'a audit_scheme \<Rightarrow> event list" where
  "recorded evs E s = fold (\<lambda>b es. es @ [b (stamp_of E (length es))]) evs (alog s)"

lemma emit_recorded: "emit E b s = (Inr v, t) \<Longrightarrow> t = s\<lparr>alog := alog s @ [b (stamp_of E (length (alog s)))]\<rparr>"
  by (auto simp: emit_def Let_def split: sum.splits)

lemma map_r_emit:
  assumes "map_r (\<lambda>x. emit E (b x)) xs s = (Inr vs, t)"
  shows "t = s\<lparr>alog := recorded (map b xs) E s\<rparr>"
  using assms
proof (induction xs arbitrary: s vs)
  case (Cons x xs)
  then obtain v u ws where 1: "emit E (b x) s = (Inr v, u)" and 2: "map_r (\<lambda>x. emit E (b x)) xs u = (Inr ws, t)"
    by (auto split: prod.splits sum.splits)
  from Cons.IH [OF 2] emit_recorded [OF 1] show ?case by (simp add: recorded_def)
qed (simp add: recorded_def)

text \<open>An environment in which every durable emission is written.\<close>

definition writes_all :: "env \<Rightarrow> bool" where
  "writes_all E \<longleftrightarrow> (\<forall>n. \<exists>ok. outcome_of E n = Inr ok)"

lemma emit_writes: "writes_all E \<Longrightarrow> emit E b s = (Inr (b (stamp_of E (length (alog s)))), s\<lparr>alog := recorded [b] E s\<rparr>)"
  unfolding writes_all_def emit_def recorded_def Let_def by (auto split: sum.splits) (metis sum.distinct(1))

lemma length_recorded: "length (recorded bs E s) = length (alog s) + length bs"
proof -
  have "length (fold (\<lambda>b es. es @ [b (stamp_of E (length es))]) bs es) = length es + length bs" for es
    by (induction bs arbitrary: es) simp_all
  then show ?thesis by (simp add: recorded_def)
qed

lemma recorded_after: "recorded bs E (s\<lparr>alog := recorded as E s\<rparr>) = recorded (as @ bs) E s"
  by (simp add: recorded_def)

lemma recorded_again [simp]: "s\<lparr>alog := xs, alog := ys\<rparr> = s\<lparr>alog := ys\<rparr>"
  by simp

lemma good_env_writes: "writes_all good_env"
  unfolding writes_all_def good_env_def env.simps by blast

end
