(* ===== verification/Capability_Registry.thy ===== *)
theory Capability_Registry
  imports Effects
begin

text \<open>
  The capability registry: \<open>orchestrator/capability_registry.py\<close>. A capability is a record of the fields
  the code reads, with their JSON types; \<open>cap_fields\<close> are the keys its JSON object has. A level entry
  that is no object is \<open>None\<close>; an action policy is null, a string or an object. \<open>capabilities.json\<close> is
  the dict of capabilities; reading and hashing the file are not modelled.
\<close>

definition GOVERNING_ACTIONS :: "string list" where
  "GOVERNING_ACTIONS = [''dispatch_local'', ''dispatch_cloud'', ''dispatch_multi'', ''select_model'',
    ''deliver_result'', ''format_result'', ''auto_retry'']"

definition AUXILIARY_ACTIONS :: "string list" where
  "AUXILIARY_ACTIONS = [''package_context'', ''read_memory'', ''write_memory'', ''send_notification'',
    ''queue_job'']"

definition ALL_ACTIONS :: "string list" where
  "ALL_ACTIONS = GOVERNING_ACTIONS @ AUXILIARY_ACTIONS"

definition VALID_CAPABILITY_TYPES :: "string list" where
  "VALID_CAPABILITY_TYPES = [''governing'', ''auxiliary'', ''operational'']"

definition VALID_GATE_TYPES :: "string list" where
  "VALID_GATE_TYPES = [''none'', ''pre_action'', ''pre_delivery'', ''post_action'', ''on_accept'',
    ''cost_approval'']"

definition VALID_DEPENDENCY_MODES :: "string list" where
  "VALID_DEPENDENCY_MODES = [''required'', ''optional'', ''best_effort'']"

definition SENTINEL_FAILURE_IDS :: "string list" where
  "SENTINEL_FAILURE_IDS = [''egress_config'', ''egress_connectivity'', ''worker_sandbox'']"

definition REQUIRED_CAP_FIELDS :: "string list" where
  "REQUIRED_CAP_FIELDS = [''capability_id'', ''capability_name'', ''capability_type'', ''desired_wal_level'',
    ''max_wal'', ''declared_pipeline'', ''provider_dependencies'', ''action_policies'', ''promotion_criteria'']"

record gate_policy =
  review_gate :: "string option"
  cost_gate_usd :: "rat option"

datatype policy =
    Policy_null
  | Policy_str string
  | Policy gate_policy

record promotion_criteria =
  crit_outcomes :: int
  crit_span_days :: rat
  crit_score_min :: rat
  crit_edge_min :: int
  crit_zero_incidents :: bool

type_synonym level_policies = "(string, policy) dict option"

record capability =
  cap_fields :: "string list"
  cap_name :: string
  cap_type :: string
  desired_wal_level :: int
  max_wal :: int
  declared_pipeline :: "(string \<times> string) list"
  provider_dependencies :: "string list"
  action_policies :: "(string, level_policies) dict"
  promotion_criteria_of :: "(string, promotion_criteria option) dict"

type_synonym registry = "(string, capability) dict"

section \<open>Lookups\<close>

definition registry_get :: "registry \<Rightarrow> string \<Rightarrow> capability option" where
  "registry_get R cid = map_of R cid"

definition get_governing :: "registry \<Rightarrow> string list" where
  "get_governing R = map fst (filter (\<lambda>(cid, c). cap_type c = ''governing'') R)"

definition get_auxiliary :: "registry \<Rightarrow> string list" where
  "get_auxiliary R = map fst (filter (\<lambda>(cid, c). cap_type c = ''auxiliary'') R)"

text \<open>The set of a capability's actions over all levels, without duplicates.\<close>

definition cap_actions :: "capability \<Rightarrow> string list" where
  "cap_actions c = remdups (concat (map (\<lambda>(l, ps). case ps of None \<Rightarrow> [] | Some d \<Rightarrow> dict_keys d)
     (action_policies c)))"

definition get_actions_for :: "registry \<Rightarrow> string \<Rightarrow> string list" where
  "get_actions_for R cid = (case map_of R cid of None \<Rightarrow> [] | Some c \<Rightarrow> cap_actions c)"

definition is_sentinel :: "string \<Rightarrow> bool" where
  "is_sentinel cid \<longleftrightarrow> cid \<in> set SENTINEL_FAILURE_IDS"

section \<open>Validation\<close>

text \<open>The checks in the order of the code; a check returns the \<open>ValueError\<close> it raises.\<close>

definition check_policy :: "string \<times> policy \<Rightarrow> py_exc option" where
  "check_policy ap =
    (if fst ap \<notin> set ALL_ACTIONS then Some (ValueError ''unknown action'')
     else (case snd ap of
         Policy g \<Rightarrow> (case review_gate g of
             Some rg \<Rightarrow> if rg \<notin> set VALID_GATE_TYPES then Some (ValueError ''invalid review_gate'') else None
           | None \<Rightarrow> None)
       | _ \<Rightarrow> None))"

text \<open>The first error of a list of checks.\<close>

fun first_error :: "('a \<Rightarrow> py_exc option) \<Rightarrow> 'a list \<Rightarrow> py_exc option" where
  "first_error f [] = None"
| "first_error f (x # xs) = (case f x of Some e \<Rightarrow> Some e | None \<Rightarrow> first_error f xs)"

definition check_level :: "string \<times> level_policies \<Rightarrow> py_exc option" where
  "check_level lp = (case snd lp of None \<Rightarrow> Some (ValueError ''must be a dict'') | Some d \<Rightarrow> first_error check_policy d)"

definition validate_fields :: "capability \<Rightarrow> py_exc option" where
  "validate_fields c =
    (if \<not> set REQUIRED_CAP_FIELDS \<subseteq> set (cap_fields c) then Some (ValueError ''missing required fields'')
     else if cap_type c \<notin> set VALID_CAPABILITY_TYPES then Some (ValueError ''invalid capability_type'')
     else if \<not> (0 \<le> desired_wal_level c \<and> desired_wal_level c \<le> 3)
       then Some (ValueError ''desired_wal_level out of range'')
     else if \<not> (0 \<le> max_wal c \<and> max_wal c \<le> 3) then Some (ValueError ''max_wal out of range'')
     else if desired_wal_level c > max_wal c then Some (ValueError ''desired_wal_level exceeds max_wal'')
     else if list_ex (\<lambda>l. map_of (action_policies c) l = None) [''0'', ''1'', ''2'', ''3'']
       then Some (ValueError ''action_policies missing WAL level'')
     else (case first_error check_level (action_policies c) of
         Some e \<Rightarrow> Some e
       | None \<Rightarrow> first_error (\<lambda>e. if snd e \<notin> set VALID_DEPENDENCY_MODES
             then Some (ValueError ''invalid dependency_mode'') else None) (declared_pipeline c)))"

definition check_ownership :: "capability \<Rightarrow> py_exc option" where
  "check_ownership c =
    (if cap_type c = ''governing'' \<and> \<not> set (cap_actions c) \<subseteq> set GOVERNING_ACTIONS
       then Some (ValueError ''owns non-governing actions'')
     else if cap_type c = ''auxiliary'' \<and> \<not> set (cap_actions c) \<subseteq> set AUXILIARY_ACTIONS
       then Some (ValueError ''owns non-auxiliary actions'')
     else None)"

definition owned_by_type :: "registry \<Rightarrow> string \<Rightarrow> string list" where
  "owned_by_type R t = concat (map (\<lambda>(cid, c). if cap_type c = t then cap_actions c else []) R)"

definition validate_exclusive_ownership :: "registry \<Rightarrow> py_exc option" where
  "validate_exclusive_ownership R =
    (case first_error (\<lambda>kc. check_ownership (snd kc)) R of
       Some e \<Rightarrow> Some e
     | None \<Rightarrow>
         if set (owned_by_type R ''governing'') \<inter> set (owned_by_type R ''auxiliary'') \<noteq> {}
         then Some (ValueError ''Exclusive ownership violation'') else None)"

definition check_references :: "registry \<Rightarrow> capability \<Rightarrow> py_exc option" where
  "check_references R c =
    (case first_error (\<lambda>e. if fst e \<notin> set (get_auxiliary R)
        then Some (ValueError ''declared_pipeline reference'') else None) (declared_pipeline c) of
       Some e \<Rightarrow> Some e
     | None \<Rightarrow> first_error (\<lambda>dep. if dep \<notin> set (get_governing R)
        then Some (ValueError ''provider_dependencies reference'') else None) (provider_dependencies c))"

definition validate_references :: "registry \<Rightarrow> py_exc option" where
  "validate_references R = first_error (\<lambda>kc. check_references R (snd kc)) R"

definition registry_load :: "registry \<Rightarrow> py_exc + registry" where
  "registry_load data =
    (case first_error (\<lambda>kc. validate_fields (snd kc)) data of
       Some e \<Rightarrow> Inl e
     | None \<Rightarrow>
        (case validate_exclusive_ownership data of
           Some e \<Rightarrow> Inl e
         | None \<Rightarrow> (case validate_references data of Some e \<Rightarrow> Inl e | None \<Rightarrow> Inr data)))"

section \<open>What a loaded registry satisfies\<close>

lemma first_error_None: "first_error f xs = None \<longleftrightarrow> (\<forall>x \<in> set xs. f x = None)"
  by (induction xs) (auto split: option.splits)

definition registry_ok :: "registry \<Rightarrow> bool" where
  "registry_ok R \<longleftrightarrow>
    (\<forall>kc \<in> set R. let c = snd kc in
       0 \<le> desired_wal_level c \<and> desired_wal_level c \<le> max_wal c \<and> max_wal c \<le> 3 \<and>
       cap_type c \<in> set VALID_CAPABILITY_TYPES \<and>
       (\<forall>l \<in> {''0'', ''1'', ''2'', ''3''}. \<exists>d. map_of (action_policies c) l = Some (Some d)) \<and>
       set (cap_actions c) \<subseteq> set ALL_ACTIONS \<and>
       (\<forall>e \<in> set (declared_pipeline c). snd e \<in> set VALID_DEPENDENCY_MODES \<and>
          (\<exists>a. (fst e, a) \<in> set R \<and> cap_type a = ''auxiliary'' \<and> set (cap_actions a) \<subseteq> set AUXILIARY_ACTIONS)) \<and>
       (\<forall>p \<in> set (provider_dependencies c). \<exists>g. (p, g) \<in> set R \<and> cap_type g = ''governing'' \<and>
          set (cap_actions g) \<subseteq> set GOVERNING_ACTIONS))"

lemma check_level_None:
  "check_level lp = None \<longleftrightarrow> (\<exists>d. snd lp = Some d \<and> (\<forall>ap \<in> set d. check_policy ap = None))"
  by (auto simp: check_level_def first_error_None split: option.splits)

lemma validate_fields_None:
  assumes "validate_fields c = None"
  shows "0 \<le> desired_wal_level c" "desired_wal_level c \<le> max_wal c" "max_wal c \<le> 3"
    "cap_type c \<in> set VALID_CAPABILITY_TYPES"
    "l \<in> {''0'', ''1'', ''2'', ''3''} \<Longrightarrow> \<exists>d. map_of (action_policies c) l = Some (Some d)"
    "set (cap_actions c) \<subseteq> set ALL_ACTIONS"
    "e \<in> set (declared_pipeline c) \<Longrightarrow> snd e \<in> set VALID_DEPENDENCY_MODES"
proof -
  note v = assms[unfolded validate_fields_def]
  show "0 \<le> desired_wal_level c" "desired_wal_level c \<le> max_wal c" "max_wal c \<le> 3"
    "cap_type c \<in> set VALID_CAPABILITY_TYPES"
    using v by (auto split: if_splits)
  have levels: "\<forall>lp \<in> set (action_policies c). check_level lp = None"
    using v by (auto simp: first_error_None split: if_splits option.splits)
  show "set (cap_actions c) \<subseteq> set ALL_ACTIONS"
    using levels by (fastforce simp: cap_actions_def check_level_None check_policy_def split: option.splits if_splits)
  show "\<exists>d. map_of (action_policies c) l = Some (Some d)" if "l \<in> {''0'', ''1'', ''2'', ''3''}"
  proof -
    have "map_of (action_policies c) l \<noteq> None" using v that by (auto split: if_splits)
    then obtain ps where ps: "map_of (action_policies c) l = Some ps" by blast
    then have "check_level (l, ps) = None" using levels map_of_SomeD by fastforce
    then show ?thesis using ps by (auto simp: check_level_None)
  qed
  show "snd e \<in> set VALID_DEPENDENCY_MODES" if "e \<in> set (declared_pipeline c)"
    using v that by (auto simp: first_error_None split: if_splits option.splits)
qed

text \<open>
  A registry that loads is well formed: every capability's desired level lies between 0 and its
  maximum (at most 3), each WAL level has a policy table over known actions, every pipeline step refers
  to a registered auxiliary capability with a known dependency mode, every provider dependency to a
  registered governing one, and governing and auxiliary capabilities own only their kind of actions.
\<close>

theorem registry_load_ok:
  assumes "registry_load data = Inr R"
  shows "R = data \<and> registry_ok R"
proof -
  have f: "\<forall>kc \<in> set data. validate_fields (snd kc) = None"
    and o: "\<forall>kc \<in> set data. check_ownership (snd kc) = None"
    and r: "\<forall>kc \<in> set data. check_references data (snd kc) = None" and R: "R = data"
    using assms
    by (auto simp: registry_load_def validate_exclusive_ownership_def validate_references_def first_error_None
        split: option.splits if_splits)
  have own: "set (cap_actions c) \<subseteq> set (if cap_type c = ''governing'' then GOVERNING_ACTIONS else AUXILIARY_ACTIONS)"
    if "(k, c) \<in> set data" "cap_type c \<in> {''governing'', ''auxiliary''}" for k c
    using o that by (fastforce simp: check_ownership_def split: if_splits)
  have refs: "\<forall>e \<in> set (declared_pipeline c). fst e \<in> set (get_auxiliary data)"
    "\<forall>p \<in> set (provider_dependencies c). p \<in> set (get_governing data)" if "(k, c) \<in> set data" for k c
    using r that by (fastforce simp: check_references_def first_error_None split: option.splits if_splits)+
  have "registry_ok data"
    unfolding registry_ok_def Let_def
  proof (intro ballI)
    fix kc assume kc: "kc \<in> set data"
    then have v: "validate_fields (snd kc) = None" using f by blast
    have kc': "(fst kc, snd kc) \<in> set data" using kc by simp
    show "0 \<le> desired_wal_level (snd kc) \<and> desired_wal_level (snd kc) \<le> max_wal (snd kc) \<and> max_wal (snd kc) \<le> 3 \<and>
       cap_type (snd kc) \<in> set VALID_CAPABILITY_TYPES \<and>
       (\<forall>l \<in> {''0'', ''1'', ''2'', ''3''}. \<exists>d. map_of (action_policies (snd kc)) l = Some (Some d)) \<and>
       set (cap_actions (snd kc)) \<subseteq> set ALL_ACTIONS \<and>
       (\<forall>e \<in> set (declared_pipeline (snd kc)). snd e \<in> set VALID_DEPENDENCY_MODES \<and>
          (\<exists>a. (fst e, a) \<in> set data \<and> cap_type a = ''auxiliary'' \<and> set (cap_actions a) \<subseteq> set AUXILIARY_ACTIONS)) \<and>
       (\<forall>p \<in> set (provider_dependencies (snd kc)). \<exists>g. (p, g) \<in> set data \<and> cap_type g = ''governing'' \<and>
          set (cap_actions g) \<subseteq> set GOVERNING_ACTIONS)"
    proof (intro conjI ballI)
      fix e assume "e \<in> set (declared_pipeline (snd kc))"
      then have "fst e \<in> set (get_auxiliary data)" using refs(1) [OF kc'] by blast
      then obtain a where "(fst e, a) \<in> set data" "cap_type a = ''auxiliary''" by (auto simp: get_auxiliary_def)
      then show "\<exists>a. (fst e, a) \<in> set data \<and> cap_type a = ''auxiliary'' \<and> set (cap_actions a) \<subseteq> set AUXILIARY_ACTIONS"
        using own by fastforce
    next
      fix p assume "p \<in> set (provider_dependencies (snd kc))"
      then have "p \<in> set (get_governing data)" using refs(2) [OF kc'] by blast
      then obtain g where "(p, g) \<in> set data" "cap_type g = ''governing''" by (auto simp: get_governing_def)
      then show "\<exists>g. (p, g) \<in> set data \<and> cap_type g = ''governing'' \<and> set (cap_actions g) \<subseteq> set GOVERNING_ACTIONS"
        using own by fastforce
    qed (use validate_fields_None [OF v] in blast)+
  qed
  then show ?thesis using R by simp
qed


text \<open>Two capabilities after \<open>config/capabilities.json\<close>, for concrete runs.\<close>

definition gate :: "string \<Rightarrow> rat option \<Rightarrow> policy" where
  "gate g c = Policy \<lparr>review_gate = Some g, cost_gate_usd = c\<rparr>"

definition sample_cloud :: capability where
  "sample_cloud = \<lparr>cap_fields = REQUIRED_CAP_FIELDS, cap_name = ''Claude Cloud Dispatch'', cap_type = ''governing'',
     desired_wal_level = 0, max_wal = 2, declared_pipeline = [(''context.package'', ''required'')],
     provider_dependencies = [],
     action_policies =
       [(''0'', Some [(''dispatch_cloud'', gate ''pre_delivery'' (Some (1/4))), (''auto_retry'', Policy_str ''blocked'')]),
        (''1'', Some [(''dispatch_cloud'', gate ''pre_delivery'' (Some (1/2))), (''auto_retry'', gate ''none'' None)]),
        (''2'', Some [(''dispatch_cloud'', gate ''post_action'' (Some 2)), (''auto_retry'', gate ''none'' None)]),
        (''3'', Some [])],
     promotion_criteria_of =
       [(''0_to_1'', Some \<lparr>crit_outcomes = 30, crit_span_days = 7, crit_score_min = 19/20, crit_edge_min = 0,
          crit_zero_incidents = False\<rparr>), (''1_to_2'', None)]\<rparr>"

definition sample_packager :: capability where
  "sample_packager = \<lparr>cap_fields = REQUIRED_CAP_FIELDS, cap_name = ''Context Packager'', cap_type = ''auxiliary'',
     desired_wal_level = 0, max_wal = 3, declared_pipeline = [], provider_dependencies = [],
     action_policies = map (\<lambda>l. (l, Some [(''package_context'', gate ''none'' None)])) [''0'', ''1'', ''2'', ''3''],
     promotion_criteria_of = []\<rparr>"

definition sample_registry :: registry where
  "sample_registry = [(''route.cloud.claude'', sample_cloud), (''context.package'', sample_packager)]"

lemma sample_registry_load: "registry_load sample_registry = Inr sample_registry"
  by code_simp

theorem registry_load_ok_witness: "registry_ok sample_registry"
  using registry_load_ok [OF sample_registry_load] by simp

end
