(* ===== verification/Capability_State.thy ===== *)
theory Capability_State
  imports Capability_Registry
begin

text \<open>
  The run-time state of the capabilities: \<open>orchestrator/capability_state.py\<close>. Time stamps are the
  instants they denote. A failing lookup raises \<open>KeyError\<close>. The atomic write of the state file after
  each change is not modelled.
\<close>

definition EVALUABLE_OUTCOMES_MAX :: nat where
  "EVALUABLE_OUTCOMES_MAX = 200"

definition FAILURE_EVICTION_WINDOW_HOURS :: int where
  "FAILURE_EVICTION_WINDOW_HOURS = 24"

definition FAILURE_DEMOTION_THRESHOLD :: nat where
  "FAILURE_DEMOTION_THRESHOLD = 3"

definition seconds :: "int \<Rightarrow> instant" where
  "seconds n = n * 1000000"

definition days :: "int \<Rightarrow> instant" where
  "days n = seconds (n * 86400)"

definition DISPOSITION_SCORES :: "(string, rat) dict" where
  "DISPOSITION_SCORES = [(''accepted'', 1), (''modified'', 1/2), (''rejected'', 0), (''resubmitted'', 0),
    (''auto_delivered'', 1)]"

record evaluable_outcome =
  disposition :: string
  outcome_time :: "instant option"

record cap_state =
  effective_wal_level :: int
  cap_status :: string
  evaluable_outcomes :: "evaluable_outcome list"
  recent_failures :: "(instant \<times> string) list"
  first_job_date :: "instant option"
  last_reset :: instant
  last_incident :: "string option"

type_synonym cap_states = "(string, cap_state) dict"

definition unknown_capability :: "string \<Rightarrow> py_exc" where
  "unknown_capability cid = KeyError (''Unknown capability: '' @ cid)"

definition fresh_cap_state :: "instant \<Rightarrow> cap_state" where
  "fresh_cap_state now = \<lparr>effective_wal_level = 0, cap_status = ''active'', evaluable_outcomes = [],
     recent_failures = [], first_job_date = None, last_reset = now, last_incident = None\<rparr>"

definition initialize_from_registry :: "instant \<Rightarrow> registry \<Rightarrow> cap_states" where
  "initialize_from_registry now R = map (\<lambda>(cid, c). (cid, fresh_cap_state now)) R"

text \<open>Change the entry of a capability, or raise \<open>KeyError\<close>.\<close>

definition on_entry :: "string \<Rightarrow> (cap_state \<Rightarrow> cap_state) \<Rightarrow> cap_states \<Rightarrow> py_exc + cap_states" where
  "on_entry cid f S =
    (case map_of S cid of None \<Rightarrow> Inl (unknown_capability cid) | Some e \<Rightarrow> Inr (AList.update cid (f e) S))"

definition get_entry :: "string \<Rightarrow> cap_states \<Rightarrow> py_exc + cap_state" where
  "get_entry cid S = (case map_of S cid of None \<Rightarrow> Inl (unknown_capability cid) | Some e \<Rightarrow> Inr e)"

definition effective_wal :: "cap_state \<Rightarrow> int" where
  "effective_wal e = (if cap_status e = ''suspended'' then -1 else effective_wal_level e)"

definition get_effective_wal :: "cap_states \<Rightarrow> string \<Rightarrow> py_exc + int" where
  "get_effective_wal S cid = map_sum id effective_wal (get_entry cid S)"

definition set_effective_wal :: "string \<Rightarrow> int \<Rightarrow> cap_states \<Rightarrow> py_exc + cap_states" where
  "set_effective_wal cid level = on_entry cid (\<lambda>e. e\<lparr>effective_wal_level := level\<rparr>)"

definition get_status :: "cap_states \<Rightarrow> string \<Rightarrow> py_exc + string" where
  "get_status S cid = map_sum id cap_status (get_entry cid S)"

text \<open>The ring buffer: append, then drop from the front down to the bound.\<close>

function trim_front :: "'a list \<Rightarrow> 'a list" where
  "trim_front xs = (if length xs > EVALUABLE_OUTCOMES_MAX then trim_front (tl xs) else xs)"
  by auto
termination by (relation "measure length") auto

declare trim_front.simps [simp del]

definition record_outcome :: "string \<Rightarrow> evaluable_outcome \<Rightarrow> cap_states \<Rightarrow> py_exc + cap_states" where
  "record_outcome cid oc = on_entry cid (\<lambda>e. e\<lparr>evaluable_outcomes := trim_front (evaluable_outcomes e @ [oc])\<rparr>)"

definition get_outcomes :: "cap_states \<Rightarrow> string \<Rightarrow> py_exc + evaluable_outcome list" where
  "get_outcomes S cid = map_sum id evaluable_outcomes (get_entry cid S)"

definition record_failure :: "string \<Rightarrow> instant \<Rightarrow> string \<Rightarrow> cap_states \<Rightarrow> py_exc + cap_states" where
  "record_failure cid timestamp sid = on_entry cid (\<lambda>e. e\<lparr>recent_failures := recent_failures e @ [(timestamp, sid)]\<rparr>)"

definition evict_old_failures :: "instant \<Rightarrow> string \<Rightarrow> cap_states \<Rightarrow> py_exc + cap_states" where
  "evict_old_failures now cid = on_entry cid (\<lambda>e. e\<lparr>recent_failures :=
     filter (\<lambda>f. now - fst f < seconds (FAILURE_EVICTION_WINDOW_HOURS * 3600)) (recent_failures e)\<rparr>)"

definition get_recent_failures :: "instant \<Rightarrow> string \<Rightarrow> cap_states \<Rightarrow> py_exc + (instant \<times> string) list \<times> cap_states" where
  "get_recent_failures now cid S =
    (case evict_old_failures now cid S of
       Inl x \<Rightarrow> Inl x
     | Inr S' \<Rightarrow> map_sum id (\<lambda>e. (recent_failures e, S')) (get_entry cid S'))"

definition get_recent_failure_count :: "instant \<Rightarrow> string \<Rightarrow> cap_states \<Rightarrow> py_exc + nat \<times> cap_states" where
  "get_recent_failure_count now cid S = map_sum id (\<lambda>(fs, S'). (length fs, S')) (get_recent_failures now cid S)"

text \<open>The approval score of a list of outcomes, \<open>None\<close> when it is empty.\<close>

definition score_of :: "string \<Rightarrow> rat" where
  "score_of d = (case map_of DISPOSITION_SCORES d of None \<Rightarrow> 0 | Some r \<Rightarrow> r)"

definition approval_score :: "evaluable_outcome list \<Rightarrow> rat option" where
  "approval_score os =
    (if os = [] then None else Some (sum_list (map (score_of \<circ> disposition) os) / of_nat (length os)))"

definition compute_approval_score :: "cap_states \<Rightarrow> string \<Rightarrow> py_exc + rat option" where
  "compute_approval_score S cid = map_sum id approval_score (get_outcomes S cid)"

definition set_first_job_date :: "string \<Rightarrow> instant \<Rightarrow> cap_states \<Rightarrow> py_exc + cap_states" where
  "set_first_job_date cid timestamp = on_entry cid
    (\<lambda>e. if first_job_date e = None then e\<lparr>first_job_date := Some timestamp\<rparr> else e)"

definition reset_counters :: "instant \<Rightarrow> string \<Rightarrow> cap_states \<Rightarrow> py_exc + cap_states" where
  "reset_counters now cid = on_entry cid
    (\<lambda>e. e\<lparr>evaluable_outcomes := [], recent_failures := [], first_job_date := None, last_reset := now,
          last_incident := last_incident e\<rparr>)"

definition suspend :: "string \<Rightarrow> cap_states \<Rightarrow> py_exc + cap_states" where
  "suspend cid = on_entry cid (\<lambda>e. e\<lparr>effective_wal_level := -1, cap_status := ''suspended''\<rparr>)"

definition demote :: "string \<Rightarrow> int \<Rightarrow> cap_states \<Rightarrow> py_exc + cap_states" where
  "demote cid to_level S =
    (if to_level = -1 then suspend cid S
     else on_entry cid (\<lambda>e. e\<lparr>effective_wal_level := to_level, cap_status := ''active''\<rparr>) S)"

section \<open>Well-formed states\<close>

definition entry_ok :: "cap_state \<Rightarrow> bool" where
  "entry_ok e \<longleftrightarrow> -1 \<le> effective_wal_level e \<and> effective_wal_level e \<le> 3 \<and>
    (cap_status e = ''active'' \<and> 0 \<le> effective_wal_level e \<or> cap_status e = ''suspended'' \<and> effective_wal_level e = -1) \<and>
    length (evaluable_outcomes e) \<le> EVALUABLE_OUTCOMES_MAX"

definition states_ok :: "cap_states \<Rightarrow> bool" where
  "states_ok S \<longleftrightarrow> wf_dict S \<and> (\<forall>cid e. map_of S cid = Some e \<longrightarrow> entry_ok e)"

lemma trim_front_eq: "trim_front xs = last_n EVALUABLE_OUTCOMES_MAX xs"
proof (induction xs rule: trim_front.induct)
  case (1 xs)
  show ?case
  proof (cases "length xs > EVALUABLE_OUTCOMES_MAX")
    case True
    then have "trim_front xs = last_n EVALUABLE_OUTCOMES_MAX (tl xs)"
      using 1 by (subst trim_front.simps) simp
    also have "\<dots> = last_n EVALUABLE_OUTCOMES_MAX xs"
      using True by (cases xs) (auto simp: last_n_def Suc_diff_le less_Suc_eq_le)
    finally show ?thesis .
  next
    case False
    then show ?thesis by (subst trim_front.simps) simp
  qed
qed

lemma on_entry_cases:
  assumes "on_entry cid f S = Inr S'"
  obtains e where "map_of S cid = Some e" "S' = AList.update cid (f e) S"
  using assms by (auto simp: on_entry_def split: option.splits)

lemma on_entry_ok:
  assumes "on_entry cid f S = Inr S'" and "states_ok S"
    and "\<And>e. map_of S cid = Some e \<Longrightarrow> entry_ok e \<Longrightarrow> entry_ok (f e)"
  shows "states_ok S'"
  using assms(2,3) by (cases rule: on_entry_cases [OF assms(1)]) (auto simp: states_ok_def)

lemma effective_wal_range: "entry_ok e \<Longrightarrow> effective_wal e = effective_wal_level e \<and> -1 \<le> effective_wal e \<and> effective_wal e \<le> 3"
  by (auto simp: entry_ok_def effective_wal_def)

lemmas state_op_defs = set_effective_wal_def record_outcome_def record_failure_def evict_old_failures_def
  set_first_job_date_def reset_counters_def suspend_def demote_def

text \<open>The operations of the state manager, as the steps its callers can take.\<close>

datatype state_op =
    Record_outcome string evaluable_outcome
  | Record_failure string instant string
  | Evict instant string
  | First_job string instant
  | Reset instant string
  | Suspend string
  | Demote string int

fun state_step :: "state_op \<Rightarrow> cap_states \<Rightarrow> py_exc + cap_states" where
  "state_step (Record_outcome cid oc) S = record_outcome cid oc S"
| "state_step (Record_failure cid ts sid) S = record_failure cid ts sid S"
| "state_step (Evict now cid) S = evict_old_failures now cid S"
| "state_step (First_job cid ts) S = set_first_job_date cid ts S"
| "state_step (Reset now cid) S = reset_counters now cid S"
| "state_step (Suspend cid) S = suspend cid S"
| "state_step (Demote cid l) S = demote cid l S"

text \<open>A failing operation raises and changes nothing.\<close>

definition run_step :: "cap_states \<Rightarrow> state_op \<Rightarrow> cap_states" where
  "run_step S op = (case state_step op S of Inl x \<Rightarrow> S | Inr S' \<Rightarrow> S')"

definition op_in_range :: "state_op \<Rightarrow> bool" where
  "op_in_range op = (case op of Demote cid l \<Rightarrow> -1 \<le> l \<and> l \<le> 3 | _ \<Rightarrow> True)"

lemma state_step_ok:
  assumes "states_ok S" and "state_step op S = Inr S'" and "op_in_range op"
  shows "states_ok S'"
  using assms
  by (cases op)
    (auto simp: state_op_defs op_in_range_def trim_front_eq entry_ok_def split: if_splits elim!: on_entry_ok)

lemma run_steps_ok: "states_ok S \<Longrightarrow> list_all op_in_range ops \<Longrightarrow> states_ok (foldl run_step S ops)"
proof (induction ops arbitrary: S)
  case (Cons op ops)
  then have "states_ok (run_step S op)"
    by (auto simp: run_step_def state_step_ok split: sum.splits)
  then show ?case using Cons by simp
qed simp

lemma initialize_ok: "wf_dict R \<Longrightarrow> states_ok (initialize_from_registry now R)"
  by (auto simp: states_ok_def initialize_from_registry_def map_of_map fresh_cap_state_def entry_ok_def
      comp_def case_prod_unfold dest!: map_of_SomeD)



section \<open>The failure window and the score\<close>

text \<open>
  The failure count a demotion decision sees is the number of recorded failures less than 24
  hours old, the one just recorded included.
\<close>

theorem failure_window:
  assumes "record_failure cid ts sid S = Inr S1" and "get_recent_failure_count now cid S1 = Inr (n, S2)"
    and "map_of S cid = Some e"
  shows "n = length (filter (\<lambda>t. now - t < days 1) (map fst (recent_failures e) @ [ts]))"
  using assms
  by (auto simp: record_failure_def get_recent_failure_count_def get_recent_failures_def evict_old_failures_def
      on_entry_def get_entry_def days_def seconds_def FAILURE_EVICTION_WINDOW_HOURS_def filter_map comp_def)

theorem failure_window_witness:
  "\<exists>S1 S2. record_failure ''route.cloud.claude'' (days 2) ''e2''
      [(''route.cloud.claude'', (fresh_cap_state 0)\<lparr>recent_failures := [(0, ''e0''), (days 2, ''e1'')]\<rparr>)] = Inr S1 \<and>
    get_recent_failure_count (days 2) ''route.cloud.claude'' S1 = Inr (2, S2)"
proof -
  let ?S = "[(''route.cloud.claude'', (fresh_cap_state 0)\<lparr>recent_failures := [(0, ''e0''), (days 2, ''e1'')]\<rparr>)]"
  obtain S1 where 1: "record_failure ''route.cloud.claude'' (days 2) ''e2'' ?S = Inr S1"
    by (simp add: record_failure_def on_entry_def)
  obtain n S2 where 2: "get_recent_failure_count (days 2) ''route.cloud.claude'' S1 = Inr (n, S2)"
    using 1 by (auto simp: record_failure_def on_entry_def get_recent_failure_count_def get_recent_failures_def
        evict_old_failures_def get_entry_def)
  have "n = 2" using failure_window [OF 1 2] by (simp add: days_def seconds_def)
  then show ?thesis using 1 2 by blast
qed

lemma score_of_range: "0 \<le> score_of d" "score_of d \<le> 1"
  by (auto simp: score_of_def DISPOSITION_SCORES_def split: option.splits if_splits)

lemma sum_scores_range:
  "0 \<le> sum_list (map (score_of \<circ> disposition) os) \<and> sum_list (map (score_of \<circ> disposition) os) \<le> of_nat (length os)"
  by (induction os) (auto simp: score_of_range add_mono add_nonneg_nonneg)

lemma approval_score_range: "approval_score os = Some r \<Longrightarrow> 0 \<le> r \<and> r \<le> 1"
  using sum_scores_range [of os] by (auto simp: approval_score_def divide_le_eq split: if_splits)

end
