(* ===== verification/Permission.thy ===== *)
theory Permission
  imports Capability_State
begin

text \<open>
  The permission checks: \<open>orchestrator/permission_checker.py\<close>, the pipeline evaluation of
  \<open>orchestrator/pipeline_evaluator.py\<close>, and the gate validation that \<open>orchestrator/startup.py\<close> runs
  before the orchestrator takes jobs. \<open>decide\<close> is the decision, \<open>check_permission\<close> adds the durable
  \<open>wal.permission_check\<close> event. Costs are rationals.
\<close>

record trust = audit +
  caps :: cap_states

record job_context =
  ctx_job_id :: string
  est_cost :: "rat option"
  human_approved :: bool
  result_accepted :: bool

record permission_result =
  perm_result :: string
  perm_delivery_hold :: bool
  hold_type :: "string option"
  block_reason :: "string option"
  dependency_mode :: "string option"
  perm_capability :: string
  perm_action :: string
  perm_level :: int
  required_level :: "int option"
  perm_event_id :: string

section \<open>The decision\<close>

text \<open>\<open>cap["action_policies"].get(str(level), {}).get(action)\<close>; \<open>Policy_null\<close> when there is none.\<close>

definition policy_at :: "capability \<Rightarrow> int \<Rightarrow> string \<Rightarrow> policy" where
  "policy_at c l a =
    (case map_of (action_policies c) (int_str l) of
       Some (Some d) \<Rightarrow> (case map_of d a of Some p \<Rightarrow> p | None \<Rightarrow> Policy_null)
     | _ \<Rightarrow> Policy_null)"

definition not_blocked :: "policy \<Rightarrow> bool" where
  "not_blocked p \<longleftrightarrow> p \<noteq> Policy_null \<and> p \<noteq> Policy_str ''blocked''"

definition compute_required_level :: "capability \<Rightarrow> string \<Rightarrow> int option" where
  "compute_required_level c a = List.find (\<lambda>l. not_blocked (policy_at c l a)) [0, 1, 2, 3]"

definition blank_result :: "string \<Rightarrow> string \<Rightarrow> string option \<Rightarrow> permission_result" where
  "blank_result cid a dm = \<lparr>perm_result = ''allowed'', perm_delivery_hold = False, hold_type = None,
     block_reason = None, dependency_mode = dm, perm_capability = cid, perm_action = a, perm_level = 0,
     required_level = None, perm_event_id = []\<rparr>"

definition blocked :: "string \<Rightarrow> permission_result \<Rightarrow> permission_result" where
  "blocked why r = r\<lparr>perm_result := ''blocked'', block_reason := Some why\<rparr>"

definition held :: "string \<Rightarrow> permission_result \<Rightarrow> permission_result" where
  "held ty r = r\<lparr>perm_result := ''held'', hold_type := Some ty\<rparr>"

text \<open>The review gate; an absent one is \<open>"none"\<close>, and any other value allows without a hold.\<close>

definition apply_review_gate :: "string \<Rightarrow> job_context \<Rightarrow> permission_result \<Rightarrow> permission_result" where
  "apply_review_gate g ctx r =
    (if g = ''pre_action'' then (if \<not> human_approved ctx then held ''pre_action'' r else r)
     else if g = ''pre_delivery'' then r\<lparr>perm_delivery_hold := True\<rparr>
     else if g = ''post_action'' then r
     else if g = ''on_accept'' then (if \<not> result_accepted ctx then held ''on_accept'' r else r)
     else r)"

definition decide ::
    "registry \<Rightarrow> cap_states \<Rightarrow> string \<Rightarrow> string \<Rightarrow> job_context \<Rightarrow> string option \<Rightarrow> py_exc + permission_result" where
  "decide R S cid a ctx dm =
    (let r = blank_result cid a dm in
     case registry_get R cid of
       None \<Rightarrow> Inr (blocked ''unknown_capability'' r)
     | Some c \<Rightarrow>
        (case get_effective_wal S cid of
           Inl x \<Rightarrow> Inr (blocked ''unknown_capability'' r)
         | Inr wal \<Rightarrow>
            (let r = r\<lparr>perm_level := wal, required_level := compute_required_level c a\<rparr> in
             if wal = -1 then Inr (blocked ''suspended'' r)
             else (case policy_at c wal a of
                 Policy_null \<Rightarrow> Inr (blocked ''action_not_permitted'' r)
               | Policy_str t \<Rightarrow>
                   if t = ''blocked'' then Inr (blocked ''action_not_permitted'' r) else Inl AttributeError
               | Policy g \<Rightarrow>
                   (let over = (case (cost_gate_usd g, est_cost ctx) of (Some m, Some e) \<Rightarrow> e > m | _ \<Rightarrow> False)
                    in if over then Inr (held ''cost_approval'' r)
                       else Inr (apply_review_gate
                         (case review_gate g of None \<Rightarrow> ''none'' | Some t \<Rightarrow> t) ctx r))))))"

definition permission_event :: "permission_result \<Rightarrow> string \<Rightarrow> stamp \<Rightarrow> event" where
  "permission_event r jid sp =
    event_wal_permission_check sp jid (perm_capability r) (perm_action r) (perm_level r) (required_level r)
      (perm_result r) (perm_delivery_hold r) (hold_type r) (block_reason r) (dependency_mode r) (Some (perm_level r))"

definition check_permission ::
    "env \<Rightarrow> registry \<Rightarrow> string \<Rightarrow> string \<Rightarrow> job_context \<Rightarrow> string option \<Rightarrow> 'a trust_scheme
      \<Rightarrow> (py_exc + permission_result) \<times> 'a trust_scheme" where
  "check_permission E R cid a ctx dm s =
    (case decide R (caps s) cid a ctx dm of
       Inl x \<Rightarrow> (Inl x, s)
     | Inr r \<Rightarrow>
        bind_r (emit E (permission_event r (ctx_job_id ctx)))
          (\<lambda>ev. return_r (r\<lparr>perm_event_id := source_event_id ev\<rparr>)) s)"


section \<open>Pipelines\<close>

record pipeline_result =
  pl_allowed :: bool
  pl_results :: "permission_result list"
  pl_blocked_by :: "string option"
  pl_block_reason :: "string option"

text \<open>
  The loop over the declared pipeline. An auxiliary capability that does not own exactly one action is
  skipped; a blocked or held step ends the pipeline only if it is required.
\<close>

fun pipeline_steps ::
    "env \<Rightarrow> registry \<Rightarrow> job_context \<Rightarrow> permission_result list \<Rightarrow> (string \<times> string) list \<Rightarrow> 'a trust_scheme
      \<Rightarrow> (py_exc + pipeline_result) \<times> 'a trust_scheme" where
  "pipeline_steps E R ctx results [] s =
    (Inr \<lparr>pl_allowed = True, pl_results = results, pl_blocked_by = None, pl_block_reason = None\<rparr>, s)"
| "pipeline_steps E R ctx results ((aux, mode) # rest) s =
    (case get_actions_for R aux of
       [a] \<Rightarrow>
         (case check_permission E R aux a ctx (Some mode) s of
            (Inl x, s') \<Rightarrow> (Inl x, s')
          | (Inr r, s') \<Rightarrow>
              if perm_result r \<in> {''blocked'', ''held''} \<and> mode = ''required'' then
                (Inr \<lparr>pl_allowed = False, pl_results = results @ [r], pl_blocked_by = Some aux,
                      pl_block_reason = (case block_reason r of None \<Rightarrow> hold_type r | Some b \<Rightarrow> Some b)\<rparr>, s')
              else pipeline_steps E R ctx (results @ [r]) rest s')
     | _ \<Rightarrow> pipeline_steps E R ctx results rest s)"

definition evaluate_pipeline ::
    "env \<Rightarrow> registry \<Rightarrow> string \<Rightarrow> job_context \<Rightarrow> 'a trust_scheme \<Rightarrow> (py_exc + pipeline_result) \<times> 'a trust_scheme"
where
  "evaluate_pipeline E R gov ctx s =
    (case registry_get R gov of
       None \<Rightarrow> (Inr \<lparr>pl_allowed = False, pl_results = [], pl_blocked_by = Some gov,
                     pl_block_reason = Some ''unknown_governing_capability''\<rparr>, s)
     | Some c \<Rightarrow> pipeline_steps E R ctx [] (declared_pipeline c) s)"

definition provider_suspended :: "cap_states \<Rightarrow> string \<Rightarrow> bool" where
  "provider_suspended S p = (case get_effective_wal S p of Inl x \<Rightarrow> True | Inr l \<Rightarrow> l = -1)"

definition check_providers :: "registry \<Rightarrow> cap_states \<Rightarrow> string \<Rightarrow> py_exc + string list \<times> string list" where
  "check_providers R S gov =
    (case registry_get R gov of
       None \<Rightarrow> Inl (ValueError ''Unknown governing capability'')
     | Some c \<Rightarrow>
        (let deps = provider_dependencies c;
             available = filter (\<lambda>p. \<not> provider_suspended S p) deps
         in if deps = [] then Inr ([], [])
            else if available = [] then Inl (ValueError ''all_providers_suspended'')
            else Inr (available, filter (provider_suspended S) deps)))"

section \<open>Gate validation at startup\<close>

definition SPEC_DEFAULT_GATES :: "(string, (string, string) dict) dict" where
  "SPEC_DEFAULT_GATES =
    [(''dispatch_local'', [(''0'', ''pre_delivery''), (''1'', ''pre_delivery''), (''2'', ''post_action'')]),
     (''dispatch_cloud'', [(''0'', ''pre_delivery''), (''1'', ''pre_delivery''), (''2'', ''post_action'')]),
     (''dispatch_multi'', [(''0'', ''pre_delivery''), (''1'', ''pre_delivery''), (''2'', ''post_action'')]),
     (''select_model'', [(''0'', ''pre_action''), (''1'', ''pre_action''), (''2'', ''none'')]),
     (''deliver_result'', [(''0'', ''pre_delivery''), (''1'', ''pre_delivery''), (''2'', ''post_action'')]),
     (''format_result'', [(''0'', ''blocked''), (''1'', ''pre_delivery''), (''2'', ''pre_delivery'')]),
     (''auto_retry'', [(''0'', ''blocked''), (''1'', ''none''), (''2'', ''none'')]),
     (''package_context'', [(''0'', ''none''), (''1'', ''none''), (''2'', ''none''), (''3'', ''none'')]),
     (''read_memory'', [(''0'', ''none''), (''1'', ''none''), (''2'', ''none''), (''3'', ''none'')]),
     (''write_memory'', [(''0'', ''blocked''), (''1'', ''on_accept''), (''2'', ''none''), (''3'', ''none'')]),
     (''send_notification'', [(''0'', ''none''), (''1'', ''none''), (''2'', ''none''), (''3'', ''none'')]),
     (''queue_job'', [(''0'', ''none''), (''1'', ''none''), (''2'', ''none''), (''3'', ''none'')])]"

definition GATE_STRICTNESS :: "(string, nat) dict" where
  "GATE_STRICTNESS =
    [(''blocked'', 0), (''pre_action'', 1), (''cost_approval'', 2), (''pre_delivery'', 3), (''on_accept'', 4),
     (''post_action'', 5), (''none'', 6)]"

text \<open>The gate a policy configures; \<open>None\<close> for a policy that is neither "blocked" nor an object.\<close>

definition config_gate :: "policy \<Rightarrow> string option" where
  "config_gate p =
    (case p of
       Policy_null \<Rightarrow> None
     | Policy_str t \<Rightarrow> if t = ''blocked'' then Some ''blocked'' else None
     | Policy g \<Rightarrow> Some (case review_gate g of None \<Rightarrow> ''none'' | Some t \<Rightarrow> t))"

definition relaxes_gate :: "string \<Rightarrow> string \<Rightarrow> policy \<Rightarrow> bool" where
  "relaxes_gate level_str action p =
    (case map_of SPEC_DEFAULT_GATES action of
       None \<Rightarrow> False
     | Some defaults \<Rightarrow>
        (case map_of defaults level_str of
           None \<Rightarrow> False
         | Some spec \<Rightarrow>
            (case config_gate p of
               None \<Rightarrow> False
             | Some g \<Rightarrow>
                (case (map_of GATE_STRICTNESS spec, map_of GATE_STRICTNESS g) of
                   (Some a, Some b) \<Rightarrow> b > a
                 | _ \<Rightarrow> False))))"

text \<open>The errors, as the capability, the level and the action each names.\<close>

definition validate_gate_relaxation :: "registry \<Rightarrow> (string \<times> string \<times> string) list" where
  "validate_gate_relaxation R =
    concat (map (\<lambda>(cid, c).
      concat (map (\<lambda>(l, lp). case lp of
          None \<Rightarrow> []
        | Some d \<Rightarrow> map (\<lambda>(a, p). (cid, l, a)) (filter (\<lambda>(a, p). relaxes_gate l a p) d))
        (action_policies c))) R)"


section \<open>What a permission means\<close>

definition over_cost_gate :: "gate_policy \<Rightarrow> job_context \<Rightarrow> bool" where
  "over_cost_gate g ctx = (case (cost_gate_usd g, est_cost ctx) of (Some m, Some e) \<Rightarrow> e > m | _ \<Rightarrow> False)"

definition gate_of :: "gate_policy \<Rightarrow> string" where
  "gate_of g = (case review_gate g of None \<Rightarrow> ''none'' | Some t \<Rightarrow> t)"

lemma decide_policy:
  assumes "registry_get R cid = Some c" and "map_of S cid = Some e" and "effective_wal e \<noteq> -1"
    and "policy_at c (effective_wal e) a = Policy g"
  shows "decide R S cid a ctx dm =
    Inr (let r = (blank_result cid a dm)\<lparr>perm_level := effective_wal e, required_level := compute_required_level c a\<rparr>
         in if over_cost_gate g ctx then held ''cost_approval'' r else apply_review_gate (gate_of g) ctx r)"
  using assms by (simp add: decide_def get_effective_wal_def get_entry_def over_cost_gate_def gate_of_def Let_def)

lemma apply_review_gate_result:
  assumes "perm_result r = ''allowed''" and "\<not> perm_delivery_hold r"
  shows "perm_result (apply_review_gate g ctx r) = ''allowed'' \<longleftrightarrow>
      (g = ''pre_action'' \<longrightarrow> human_approved ctx) \<and> (g = ''on_accept'' \<longrightarrow> result_accepted ctx)"
    "perm_delivery_hold (apply_review_gate g ctx r) \<longleftrightarrow> g = ''pre_delivery''"
    "perm_level (apply_review_gate g ctx r) = perm_level r"
    "required_level (apply_review_gate g ctx r) = required_level r"
  using assms by (auto simp: apply_review_gate_def held_def)

lemma decide_not_policy:
  assumes "decide R S cid a ctx dm = Inr r" and "perm_result r = ''allowed''"
  obtains c e g where "registry_get R cid = Some c" "map_of S cid = Some e" "effective_wal e \<noteq> -1"
    "policy_at c (effective_wal e) a = Policy g"
proof -
  obtain c where c: "registry_get R cid = Some c"
    using assms by (cases "registry_get R cid") (auto simp: decide_def blocked_def Let_def)
  obtain e where e: "map_of S cid = Some e"
    using assms c by (cases "map_of S cid") (auto simp: decide_def blocked_def get_effective_wal_def get_entry_def Let_def)
  have w: "effective_wal e \<noteq> -1"
    using assms c e by (auto simp: decide_def blocked_def get_effective_wal_def get_entry_def Let_def)
  obtain g where "policy_at c (effective_wal e) a = Policy g"
    using assms c e w
    by (cases "policy_at c (effective_wal e) a")
      (auto simp: decide_def blocked_def get_effective_wal_def get_entry_def Let_def split: if_splits)
  then show thesis using that c e w by blast
qed

text \<open>
  C8: An action is allowed exactly when the capability is registered and has a state, is not
  suspended, has a policy object for the action at its current level, the known cost does not exceed
  the cost gate, and the human approval (or accepted result) that the review gate asks for is there;
  delivery is held exactly when the gate is \<open>pre_delivery\<close>.
\<close>

theorem permission_allowed_iff:
  assumes "decide R S cid a ctx dm = Inr r"
  shows "(perm_result r = ''allowed'' \<longleftrightarrow>
      (\<exists>c e g. registry_get R cid = Some c \<and> map_of S cid = Some e \<and> effective_wal e \<noteq> -1 \<and>
         policy_at c (effective_wal e) a = Policy g \<and> \<not> over_cost_gate g ctx \<and>
         (gate_of g = ''pre_action'' \<longrightarrow> human_approved ctx) \<and> (gate_of g = ''on_accept'' \<longrightarrow> result_accepted ctx) \<and>
         (perm_delivery_hold r \<longleftrightarrow> gate_of g = ''pre_delivery'')))"
proof
  assume al: "perm_result r = ''allowed''"
  obtain c e g where p: "registry_get R cid = Some c" "map_of S cid = Some e" "effective_wal e \<noteq> -1"
    "policy_at c (effective_wal e) a = Policy g"
    using decide_not_policy [OF assms al] .
  have nc: "\<not> over_cost_gate g ctx" using decide_policy [OF p, of ctx dm] assms al by (auto simp: held_def Let_def)
  let ?r0 = "(blank_result cid a dm)\<lparr>perm_level := effective_wal e, required_level := compute_required_level c a\<rparr>"
  have "r = apply_review_gate (gate_of g) ctx ?r0"
    using decide_policy [OF p, of ctx dm] assms nc by (simp add: Let_def)
  then show "\<exists>c e g. registry_get R cid = Some c \<and> map_of S cid = Some e \<and> effective_wal e \<noteq> -1 \<and>
         policy_at c (effective_wal e) a = Policy g \<and> \<not> over_cost_gate g ctx \<and>
         (gate_of g = ''pre_action'' \<longrightarrow> human_approved ctx) \<and> (gate_of g = ''on_accept'' \<longrightarrow> result_accepted ctx) \<and>
         (perm_delivery_hold r \<longleftrightarrow> gate_of g = ''pre_delivery'')"
    using apply_review_gate_result [of ?r0 "gate_of g" ctx] al p nc by (auto simp: blank_result_def)
next
  assume "\<exists>c e g. registry_get R cid = Some c \<and> map_of S cid = Some e \<and> effective_wal e \<noteq> -1 \<and>
         policy_at c (effective_wal e) a = Policy g \<and> \<not> over_cost_gate g ctx \<and>
         (gate_of g = ''pre_action'' \<longrightarrow> human_approved ctx) \<and> (gate_of g = ''on_accept'' \<longrightarrow> result_accepted ctx) \<and>
         (perm_delivery_hold r \<longleftrightarrow> gate_of g = ''pre_delivery'')"
  then obtain c e g where p: "registry_get R cid = Some c" "map_of S cid = Some e" "effective_wal e \<noteq> -1"
    "policy_at c (effective_wal e) a = Policy g" and g: "\<not> over_cost_gate g ctx"
    "gate_of g = ''pre_action'' \<longrightarrow> human_approved ctx" "gate_of g = ''on_accept'' \<longrightarrow> result_accepted ctx" by blast
  let ?r0 = "(blank_result cid a dm)\<lparr>perm_level := effective_wal e, required_level := compute_required_level c a\<rparr>"
  have "r = apply_review_gate (gate_of g) ctx ?r0"
    using decide_policy [OF p, of ctx dm] assms g by (simp add: Let_def)
  then show "perm_result r = ''allowed''"
    using apply_review_gate_result [of ?r0 "gate_of g" ctx] g by (simp add: blank_result_def)
qed

definition sample_ctx :: job_context where
  "sample_ctx = \<lparr>ctx_job_id = ''j'', est_cost = Some (1/5), human_approved = False, result_accepted = False\<rparr>"

theorem permission_allowed_iff_witness:
  "\<exists>r. decide sample_registry (initialize_from_registry 0 sample_registry) ''route.cloud.claude'' ''dispatch_cloud''
      sample_ctx None = Inr r \<and> perm_result r = ''allowed'' \<and> perm_delivery_hold r"
proof -
  obtain r where r: "decide sample_registry (initialize_from_registry 0 sample_registry) ''route.cloud.claude''
      ''dispatch_cloud'' sample_ctx None = Inr r" "perm_delivery_hold r"
    by (simp add: decide_def registry_get_def sample_registry_def initialize_from_registry_def get_effective_wal_def
        get_entry_def effective_wal_def fresh_cap_state_def policy_at_def sample_cloud_def gate_def sample_ctx_def
        apply_review_gate_def Let_def)
  have "perm_result r = ''allowed''"
    unfolding permission_allowed_iff [OF r(1)] using r(2)
    by (simp add: registry_get_def sample_registry_def initialize_from_registry_def effective_wal_def
        fresh_cap_state_def policy_at_def sample_cloud_def gate_def sample_ctx_def over_cost_gate_def gate_of_def)
  then show ?thesis using r by blast
qed

text \<open>
  No decision without its audit record: a permission check that returns a decision has appended
  exactly one \<open>wal.permission_check\<close> event, which carries the decision; when the emission raises, the
  check raises. It never changes the capabilities.
\<close>

theorem permission_check_audited:
  assumes "check_permission E R cid a ctx dm s = (res, s')"
  shows "caps s' = caps s \<and>
    (\<forall>r. res = Inr r \<longrightarrow> (\<exists>d. decide R (caps s) cid a ctx dm = Inr d \<and> perm_result r = perm_result d \<and>
       alog s' = alog s @ [permission_event d (ctx_job_id ctx) (stamp_of E (length (alog s)))] \<and>
       outcome_of E (length (alog s)) \<in> range Inr))"
  using assms
  by (auto simp: check_permission_def emit_def Let_def bind_r_def split: sum.splits)

theorem permission_check_audited_witness:
  "\<exists>r s'. check_permission good_env sample_registry ''nobody'' ''dispatch_cloud'' sample_ctx None
      \<lparr>alog = [], caps = []\<rparr> = (Inr r, s') \<and> perm_result r = ''blocked'' \<and> length (alog s') = 1"
proof -
  obtain r s' where c: "check_permission good_env sample_registry ''nobody'' ''dispatch_cloud'' sample_ctx None
      \<lparr>alog = [], caps = []\<rparr> = (Inr r, s')" "perm_result r = ''blocked''"
    by (simp add: check_permission_def decide_def sample_registry_def registry_get_def blocked_def bind_r_def)
  from permission_check_audited [OF c(1)] have "length (alog s') = 1" by auto
  then show ?thesis using c by blast
qed

section \<open>The validated gates hold at run time\<close>

text \<open>What a gate of the specification demands of an allowed action.\<close>

definition gate_met :: "string \<Rightarrow> job_context \<Rightarrow> permission_result \<Rightarrow> bool" where
  "gate_met spec ctx r \<longleftrightarrow>
    (spec = ''blocked'' \<longrightarrow> False) \<and>
    (spec = ''pre_action'' \<longrightarrow> human_approved ctx) \<and>
    (spec = ''pre_delivery'' \<longrightarrow> human_approved ctx \<or> perm_delivery_hold r) \<and>
    (spec = ''on_accept'' \<longrightarrow> human_approved ctx \<or> perm_delivery_hold r \<or> result_accepted ctx)"

lemma policy_at_mem:
  assumes "policy_at c l a = Policy g"
  obtains d where "(int_str l, Some d) \<in> set (action_policies c)" "(a, Policy g) \<in> set d"
  using assms by (auto simp: policy_at_def split: option.splits dest: map_of_SomeD)

lemma loaded_gate_valid:
  assumes "registry_load R = Inr R'" and "registry_get R cid = Some c" and "policy_at c l a = Policy g"
  shows "gate_of g \<in> set VALID_GATE_TYPES"
proof -
  obtain d where d: "(int_str l, Some d) \<in> set (action_policies c)" "(a, Policy g) \<in> set d"
    using assms(3) by (rule policy_at_mem)
  have "(cid, c) \<in> set R" using assms(2) by (auto simp: registry_get_def dest: map_of_SomeD)
  then have "validate_fields c = None"
    using assms(1) by (fastforce simp: registry_load_def first_error_None split: option.splits)
  then have "check_level (int_str l, Some d) = None"
    using d(1) by (auto simp: validate_fields_def first_error_None split: if_splits option.splits)
  then have "check_policy (a, Policy g) = None" using d(2) by (auto simp: check_level_None)
  then show ?thesis
    by (auto simp: check_policy_def gate_of_def VALID_GATE_TYPES_def split: option.splits if_splits)
qed

lemma not_relaxed:
  assumes "validate_gate_relaxation R = []" and "registry_get R cid = Some c" and "policy_at c l a = Policy g"
  shows "\<not> relaxes_gate (int_str l) a (Policy g)"
proof -
  obtain d where d: "(int_str l, Some d) \<in> set (action_policies c)" "(a, Policy g) \<in> set d"
    using assms(3) by (rule policy_at_mem)
  have "(cid, c) \<in> set R" using assms(2) by (auto simp: registry_get_def dest: map_of_SomeD)
  then show ?thesis
    using assms(1) d by (fastforce simp: validate_gate_relaxation_def filter_empty_conv)
qed

text \<open>
  The gates checked at startup are the gates enforced at run time, but for \<open>cost_approval\<close>: in a
  registry that loads and passes the gate validation, an allowed action meets the specification's
  default gate of its level (no blocked action runs, \<open>pre_action\<close> needs approval, \<open>pre_delivery\<close> at
  least holds the delivery), unless its policy configures the gate \<open>cost_approval\<close>.
\<close>

theorem validated_gates_enforced:
  assumes "registry_load R = Inr R" and "validate_gate_relaxation R = []"
    and "decide R S cid a ctx dm = Inr r" and "perm_result r = ''allowed''"
    and "map_of SPEC_DEFAULT_GATES a = Some defaults" and "map_of defaults (int_str (perm_level r)) = Some spec"
    and "registry_get R cid = Some c"
    and "config_gate (policy_at c (perm_level r) a) \<noteq> Some ''cost_approval''"
  shows "gate_met spec ctx r"
proof -
  obtain c' e g where p: "registry_get R cid = Some c'" "map_of S cid = Some e" "effective_wal e \<noteq> -1"
    "policy_at c' (effective_wal e) a = Policy g"
    using decide_not_policy [OF assms(3,4)] .
  have c': "c' = c" using p(1) assms(7) by simp
  let ?r0 = "(blank_result cid a dm)\<lparr>perm_level := effective_wal e, required_level := compute_required_level c a\<rparr>"
  have nc: "\<not> over_cost_gate g ctx"
    using decide_policy [OF p, of ctx dm] assms(3,4) by (auto simp: held_def Let_def)
  have r: "r = apply_review_gate (gate_of g) ctx ?r0"
    using decide_policy [OF p, of ctx dm] assms(3) nc c' by (simp add: Let_def)
  have lev: "perm_level r = effective_wal e"
    using r apply_review_gate_result(3) [of ?r0] by (simp add: blank_result_def)
  have g: "gate_of g \<in> set VALID_GATE_TYPES" using loaded_gate_valid [OF assms(1) p(1,4)] .
  have ncost: "gate_of g \<noteq> ''cost_approval''"
    using assms(8) p(4) lev c' by (simp add: config_gate_def gate_of_def)
  have "\<not> relaxes_gate (int_str (effective_wal e)) a (Policy g)" using not_relaxed [OF assms(2) p(1,4)] .
  then have strict: "\<not> (case (map_of GATE_STRICTNESS spec, map_of GATE_STRICTNESS (gate_of g)) of
      (Some x, Some y) \<Rightarrow> y > x | _ \<Rightarrow> False)"
    using assms(5,6) lev by (simp add: relaxes_gate_def config_gate_def gate_of_def)
  have al: "perm_result (apply_review_gate (gate_of g) ctx ?r0) = ''allowed''" using assms(4) r by simp
  have hold: "perm_delivery_hold r \<longleftrightarrow> gate_of g = ''pre_delivery''"
    using r apply_review_gate_result(2) [of ?r0] by (simp add: blank_result_def)
  have met: "(gate_of g = ''pre_action'' \<longrightarrow> human_approved ctx)" "(gate_of g = ''on_accept'' \<longrightarrow> result_accepted ctx)"
    using al apply_review_gate_result(1) [of ?r0 "gate_of g" ctx] by (simp_all add: blank_result_def)
  show ?thesis
    using g ncost strict hold met
    by (auto simp: gate_met_def VALID_GATE_TYPES_def GATE_STRICTNESS_def)
qed


theorem validated_gates_enforced_witness:
  "\<exists>r. decide sample_registry (initialize_from_registry 0 sample_registry) ''route.cloud.claude'' ''dispatch_cloud''
      sample_ctx None = Inr r \<and> gate_met ''pre_delivery'' sample_ctx r"
proof -
  let ?S = "initialize_from_registry 0 sample_registry"
  obtain r where r: "decide sample_registry ?S ''route.cloud.claude'' ''dispatch_cloud'' sample_ctx None = Inr r"
    "perm_result r = ''allowed''" "perm_level r = 0"
    by (simp add: decide_def registry_get_def sample_registry_def initialize_from_registry_def get_effective_wal_def
        get_entry_def effective_wal_def fresh_cap_state_def policy_at_def sample_cloud_def gate_def sample_ctx_def
        apply_review_gate_def blank_result_def Let_def)
  have "validate_gate_relaxation sample_registry = []" by code_simp
  from validated_gates_enforced [OF sample_registry_load this r(1,2)] r
  have "gate_met ''pre_delivery'' sample_ctx r"
    by (simp add: SPEC_DEFAULT_GATES_def registry_get_def sample_registry_def sample_cloud_def policy_at_def gate_def
        config_gate_def)
  then show ?thesis using r(1) by blast
qed

text \<open>
  The gate \<open>cost_approval\<close> is a hole: the registry accepts it, the startup validation counts it as
  stricter than \<open>pre_delivery\<close>, yet the permission check treats it like \<open>none\<close>: without a cost above
  the cost gate the action is allowed at once, with no approval and no delivery hold.
\<close>

theorem cost_approval_gate_open:
  assumes "registry_get R cid = Some c" and "map_of S cid = Some e" and "effective_wal e \<noteq> -1"
    and "policy_at c (effective_wal e) ''dispatch_cloud'' = Policy \<lparr>review_gate = Some ''cost_approval'', cost_gate_usd = m\<rparr>"
    and "m = None \<or> est_cost ctx = None"
  shows "\<exists>r. decide R S cid ''dispatch_cloud'' ctx dm = Inr r \<and> perm_result r = ''allowed'' \<and> \<not> perm_delivery_hold r \<and>
    (\<forall>l. \<not> relaxes_gate l ''dispatch_cloud'' (Policy \<lparr>review_gate = Some ''cost_approval'', cost_gate_usd = m\<rparr>))"
proof -
  have "\<not> relaxes_gate l ''dispatch_cloud'' (Policy \<lparr>review_gate = Some ''cost_approval'', cost_gate_usd = m\<rparr>)" for l
    by (auto simp: relaxes_gate_def SPEC_DEFAULT_GATES_def config_gate_def GATE_STRICTNESS_def)
  then show ?thesis
    using decide_policy [OF assms(1-4), of ctx dm] assms(5)
    by (auto simp: over_cost_gate_def gate_of_def apply_review_gate_def blank_result_def Let_def split: option.splits)
qed

theorem cost_approval_gate_open_witness:
  "\<exists>r. decide [(''c'', sample_cloud\<lparr>action_policies := [(''0'', Some [(''dispatch_cloud'', gate ''cost_approval'' None)])]\<rparr>)]
      [(''c'', fresh_cap_state 0)] ''c'' ''dispatch_cloud'' sample_ctx None = Inr r \<and>
    perm_result r = ''allowed'' \<and> \<not> perm_delivery_hold r"
  using cost_approval_gate_open [of "[(''c'', sample_cloud\<lparr>action_policies := [(''0'', Some [(''dispatch_cloud'',
        gate ''cost_approval'' None)])]\<rparr>)]" "''c''" "sample_cloud\<lparr>action_policies := [(''0'', Some [(''dispatch_cloud'',
        gate ''cost_approval'' None)])]\<rparr>" "[(''c'', fresh_cap_state 0)]" "fresh_cap_state 0" None sample_ctx None]
  by (auto simp: registry_get_def effective_wal_def fresh_cap_state_def policy_at_def gate_def)

section \<open>Pipelines stop at a required step\<close>

definition required_passes :: "registry \<Rightarrow> cap_states \<Rightarrow> job_context \<Rightarrow> string \<Rightarrow> bool" where
  "required_passes R S ctx aux \<longleftrightarrow>
    (\<forall>a. get_actions_for R aux = [a] \<longrightarrow>
       (\<exists>d. decide R S aux a ctx (Some ''required'') = Inr d \<and> perm_result d \<notin> {''blocked'', ''held''}))"

definition required_stops :: "registry \<Rightarrow> cap_states \<Rightarrow> job_context \<Rightarrow> string \<Rightarrow> bool" where
  "required_stops R S ctx aux \<longleftrightarrow>
    (\<exists>a d. get_actions_for R aux = [a] \<and> decide R S aux a ctx (Some ''required'') = Inr d \<and>
       perm_result d \<in> {''blocked'', ''held''})"

lemma pipeline_steps_sound:
  assumes "pipeline_steps E R ctx rs steps s = (Inr p, s')"
  shows "caps s' = caps s \<and>
    (pl_allowed p \<longrightarrow> (\<forall>aux. (aux, ''required'') \<in> set steps \<longrightarrow> required_passes R (caps s) ctx aux)) \<and>
    (\<not> pl_allowed p \<longrightarrow> (\<exists>aux. (aux, ''required'') \<in> set steps \<and> pl_blocked_by p = Some aux \<and>
       required_stops R (caps s) ctx aux))"
  using assms
proof (induction steps arbitrary: rs s)
  case (Cons st steps)
  obtain aux mode where st: "st = (aux, mode)" by force
  show ?case
  proof (cases "\<exists>a. get_actions_for R aux = [a]")
    case False
    then have "pipeline_steps E R ctx rs steps s = (Inr p, s')"
      using Cons.prems st by (auto split: list.splits)
    from Cons.IH [OF this] show ?thesis
      using st False by (auto simp: required_passes_def)
  next
    case True
    then obtain a where a: "get_actions_for R aux = [a]" by blast
    obtain q t where c: "check_permission E R aux a ctx (Some mode) s = (q, t)" by force
    then obtain r where q: "q = Inr r" using Cons.prems st a by (cases q) auto
    obtain d where d: "decide R (caps s) aux a ctx (Some mode) = Inr d" "perm_result r = perm_result d" "caps t = caps s"
      using c q by (auto simp: check_permission_def emit_def Let_def bind_r_def split: sum.splits)
    show ?thesis
    proof (cases "perm_result r \<in> {''blocked'', ''held''} \<and> mode = ''required''")
      case True
      then have "s' = t" "p = \<lparr>pl_allowed = False, pl_results = rs @ [r], pl_blocked_by = Some aux,
          pl_block_reason = (case block_reason r of None \<Rightarrow> hold_type r | Some b \<Rightarrow> Some b)\<rparr>"
        using Cons.prems st a c q by auto
      moreover have "required_stops R (caps s) ctx aux"
        using True d a by (auto simp: required_stops_def)
      ultimately show ?thesis using True d st by auto
    next
      case False
      then have "pipeline_steps E R ctx (rs @ [r]) steps t = (Inr p, s')"
        using Cons.prems st a c q by (auto split: if_splits)
      from Cons.IH [OF this] show ?thesis
        using d st a False by (auto simp: required_passes_def)
    qed
  qed
qed auto

text \<open>
  A pipeline is allowed only if every required step of it that owns one action passed its own
  permission check (was neither blocked nor held), and it is stopped only by such a step that was
  blocked or held; optional and best-effort steps never stop it, and no check changes a capability.
\<close>

theorem pipeline_required_steps:
  assumes "evaluate_pipeline E R gov ctx s = (Inr p, s')" and "registry_get R gov = Some c"
  shows "caps s' = caps s \<and>
    (pl_allowed p \<longrightarrow>
      (\<forall>aux. (aux, ''required'') \<in> set (declared_pipeline c) \<longrightarrow> required_passes R (caps s) ctx aux)) \<and>
    (\<not> pl_allowed p \<longrightarrow> (\<exists>aux. (aux, ''required'') \<in> set (declared_pipeline c) \<and> pl_blocked_by p = Some aux \<and>
       required_stops R (caps s) ctx aux))"
  using assms by (intro pipeline_steps_sound) (simp add: evaluate_pipeline_def)

definition suspended_packager :: "trust" where
  "suspended_packager = \<lparr>alog = [], caps = [(''route.cloud.claude'', fresh_cap_state 0),
     (''context.package'', (fresh_cap_state 0)\<lparr>effective_wal_level := -1, cap_status := ''suspended''\<rparr>)]\<rparr>"

theorem pipeline_required_steps_witness:
  "\<exists>p s'. evaluate_pipeline good_env sample_registry ''route.cloud.claude'' sample_ctx suspended_packager = (Inr p, s') \<and>
    \<not> pl_allowed p \<and> caps s' = caps suspended_packager"
proof -
  have a: "get_actions_for sample_registry ''context.package'' = [''package_context'']" by code_simp
  obtain p s' where e: "evaluate_pipeline good_env sample_registry ''route.cloud.claude'' sample_ctx suspended_packager
      = (Inr p, s')" "\<not> pl_allowed p"
    using a
    by (simp add: evaluate_pipeline_def registry_get_def sample_registry_def sample_cloud_def check_permission_def
        decide_def suspended_packager_def get_effective_wal_def get_entry_def effective_wal_def blocked_def)
  have "registry_get sample_registry ''route.cloud.claude'' = Some sample_cloud"
    by (simp add: registry_get_def sample_registry_def)
  from pipeline_required_steps [OF e(1) this] show ?thesis using e by blast
qed

end
