(* ===== verification/Trust.thy ===== *)
theory Trust
  imports Permission
begin

text \<open>
  Changes of trust: the demotion engine (\<open>orchestrator/demotion_engine.py\<close>), the promotion monitor
  (\<open>orchestrator/promotion_monitor.py\<close>), the temporal decay (\<open>orchestrator/decay_evaluator.py\<close>) and the
  reconciliation of \<open>orchestrator/startup.py\<close>. Each handler runs on the \<open>trust\<close> state (the audit trail
  and the capability states); \<open>now\<close> is its clock reading.
\<close>

text \<open>Run an operation of the state manager inside a handler.\<close>

definition on_caps ::
    "(cap_states \<Rightarrow> py_exc + cap_states) \<Rightarrow> 'a trust_scheme \<Rightarrow> (py_exc + unit) \<times> 'a trust_scheme" where
  "on_caps f s = (case f (caps s) of Inl x \<Rightarrow> (Inl x, s) | Inr S \<Rightarrow> (Inr (), s\<lparr>caps := S\<rparr>))"

definition read_caps ::
    "(cap_states \<Rightarrow> py_exc + 'b) \<Rightarrow> 'a trust_scheme \<Rightarrow> (py_exc + 'b) \<times> 'a trust_scheme" where
  "read_caps f s = (f (caps s), s)"

section \<open>Demotion\<close>

record demotion_result =
  demoted :: bool
  dem_capability :: string
  dem_from :: int
  dem_to :: int
  dem_trigger :: string
  dem_reason :: string
  dem_event_id :: string

definition no_demotion :: "string \<Rightarrow> demotion_result" where
  "no_demotion why = \<lparr>demoted = False, dem_capability = [], dem_from = 0, dem_to = 0, dem_trigger = [],
     dem_reason = why, dem_event_id = []\<rparr>"

definition capability_name_of :: "registry \<Rightarrow> string \<Rightarrow> string" where
  "capability_name_of R cid = (case registry_get R cid of Some c \<Rightarrow> cap_name c | None \<Rightarrow> cid)"

definition set_incident :: "string option \<Rightarrow> string \<Rightarrow> cap_states \<Rightarrow> py_exc + cap_states" where
  "set_incident sid cid S =
    (case sid of
       None \<Rightarrow> Inr S
     | Some i \<Rightarrow> if i = [] then Inr S else on_entry cid (\<lambda>e. e\<lparr>last_incident := Some i\<rparr>) S)"

definition execute_demotion ::
    "env \<Rightarrow> registry \<Rightarrow> instant \<Rightarrow> string \<Rightarrow> int \<Rightarrow> string \<Rightarrow> string option \<Rightarrow> 'a trust_scheme
      \<Rightarrow> (py_exc + demotion_result) \<times> 'a trust_scheme" where
  "execute_demotion E R now cid to_level trigger sid =
    bind_r (read_caps (\<lambda>S. get_effective_wal S cid)) (\<lambda>from_level.
    bind_r (on_caps (demote cid to_level)) (\<lambda>_.
    bind_r (on_caps (reset_counters now cid)) (\<lambda>_.
    bind_r (on_caps (set_incident sid cid)) (\<lambda>_.
    bind_r (emit E (\<lambda>sp. event_wal_demoted sp cid (capability_name_of R cid) from_level to_level trigger sid)) (\<lambda>ev.
    return_r \<lparr>demoted = True, dem_capability = cid, dem_from = from_level, dem_to = to_level,
      dem_trigger = trigger, dem_reason = [], dem_event_id = source_event_id ev\<rparr>)))))"

definition handle_strip_failure ::
    "env \<Rightarrow> registry \<Rightarrow> instant \<Rightarrow> string \<Rightarrow> 'a trust_scheme \<Rightarrow> (py_exc + demotion_result) \<times> 'a trust_scheme" where
  "handle_strip_failure E R now sid s =
    (if registry_get R ''context.package'' = None then (Inr (no_demotion ''context.package not in registry''), s)
     else (case get_effective_wal (caps s) ''context.package'' of
         Inl x \<Rightarrow> (Inl x, s)
       | Inr wal \<Rightarrow>
           if wal = -1 then (Inr (no_demotion ''already_suspended''), s)
           else execute_demotion E R now ''context.package'' (-1) ''strip_failure'' (Some sid) s))"

definition handle_job_failure ::
    "env \<Rightarrow> registry \<Rightarrow> instant \<Rightarrow> string \<Rightarrow> string \<Rightarrow> instant \<Rightarrow> 'a trust_scheme
      \<Rightarrow> (py_exc + demotion_result) \<times> 'a trust_scheme" where
  "handle_job_failure E R now cid sid timestamp s =
    (if is_sentinel cid then (Inr (no_demotion ''sentinel_excluded''), s)
     else if registry_get R cid = None then (Inr (no_demotion ''unregistered_capability''), s)
     else (case record_failure cid timestamp sid (caps s) of
         Inl x \<Rightarrow> (Inl x, s)
       | Inr S1 \<Rightarrow>
         (case get_recent_failure_count now cid S1 of
            Inl x \<Rightarrow> (Inl x, s\<lparr>caps := S1\<rparr>)
          | Inr (count, S2) \<Rightarrow>
              (let s2 = s\<lparr>caps := S2\<rparr> in
               if count < FAILURE_DEMOTION_THRESHOLD then (Inr (no_demotion ''below_threshold''), s2)
               else (case get_effective_wal S2 cid of
                   Inl x \<Rightarrow> (Inl x, s2)
                 | Inr wal \<Rightarrow>
                     if wal \<le> 0 then (Inr (no_demotion ''already_at_floor''), s2)
                     else execute_demotion E R now cid (wal - 1) ''error'' (Some sid) s2)))))"

definition handle_override_demotion ::
    "env \<Rightarrow> registry \<Rightarrow> instant \<Rightarrow> string \<Rightarrow> string \<Rightarrow> string option \<Rightarrow> string \<Rightarrow> 'a trust_scheme
      \<Rightarrow> (py_exc + demotion_result) \<times> 'a trust_scheme" where
  "handle_override_demotion E R now override_type cid prior_failure sid s =
    (if override_type \<notin> {''cancel'', ''redirect''} then (Inr (no_demotion ''not_demotion_override''), s)
     else (case get_effective_wal (caps s) cid of
         Inl x \<Rightarrow> (Inl x, s)
       | Inr wal \<Rightarrow>
           if wal < 1 then (Inr (no_demotion ''wal_below_threshold''), s)
           else if (case prior_failure of None \<Rightarrow> False | Some p \<Rightarrow> is_sentinel p)
             then (Inr (no_demotion ''sentinel_failure_exemption''), s)
           else execute_demotion E R now cid (wal - 1) ''override'' (Some sid) s))"

fun handle_model_change ::
    "env \<Rightarrow> registry \<Rightarrow> instant \<Rightarrow> string option \<Rightarrow> string list \<Rightarrow> 'a trust_scheme
      \<Rightarrow> (py_exc + demotion_result list) \<times> 'a trust_scheme" where
  "handle_model_change E R now sid [] s = (Inr [], s)"
| "handle_model_change E R now sid (cid # cids) s =
    (case get_effective_wal (caps s) cid of
       Inl x \<Rightarrow> (Inl x, s)
     | Inr wal \<Rightarrow>
         if wal = 0 then handle_model_change E R now sid cids s
         else (case execute_demotion E R now cid 0 ''model_change'' sid s of
             (Inl x, s') \<Rightarrow> (Inl x, s')
           | (Inr r, s') \<Rightarrow>
               (case handle_model_change E R now sid cids s' of
                  (Inl x, s'') \<Rightarrow> (Inl x, s'')
                | (Inr rs, s'') \<Rightarrow> (Inr (r # rs), s''))))"

definition handle_approval_decay ::
    "env \<Rightarrow> registry \<Rightarrow> instant \<Rightarrow> string \<Rightarrow> 'a trust_scheme \<Rightarrow> (py_exc + demotion_result) \<times> 'a trust_scheme" where
  "handle_approval_decay E R now cid s =
    (case get_entry cid (caps s) of
       Inl x \<Rightarrow> (Inl x, s)
     | Inr e \<Rightarrow>
        if effective_wal e \<noteq> 3 then (Inr (no_demotion ''not_wal_3''), s)
        else (case approval_score (evaluable_outcomes e) of
            None \<Rightarrow> (Inr (no_demotion ''no_outcomes''), s)
          | Some score \<Rightarrow>
              if score \<ge> 99 / 100 then (Inr (no_demotion ''score_acceptable''), s)
              else execute_demotion E R now cid 2 ''anomaly'' None s))"

section \<open>Promotion\<close>

record promotion_evidence =
  ev_outcomes :: nat
  ev_span_days :: rat
  ev_score :: rat
  ev_edge_cases :: nat

record promotion_check =
  ready :: bool
  pc_capability :: string
  pc_current :: int
  pc_recommended :: int
  pc_evidence :: "promotion_evidence option"
  pc_reason :: string
  pc_notified :: bool
  pc_event_id :: string

definition not_ready :: "string \<Rightarrow> int \<Rightarrow> int \<Rightarrow> promotion_evidence option \<Rightarrow> string \<Rightarrow> promotion_check" where
  "not_ready cid cur nxt ev why = \<lparr>ready = False, pc_capability = cid, pc_current = cur, pc_recommended = nxt,
     pc_evidence = ev, pc_reason = why, pc_notified = False, pc_event_id = []\<rparr>"

definition transition_key :: "int \<Rightarrow> string" where
  "transition_key l = int_str l @ ''_to_'' @ int_str (l + 1)"

definition span_days :: "instant \<Rightarrow> instant \<Rightarrow> rat" where
  "span_days now first = of_int (now - first) / 86400000000"

definition promotion_title :: "string \<Rightarrow> int \<Rightarrow> string" where
  "promotion_title cid l = ''Promotion recommended: '' @ cid @ '' WAL-'' @ int_str l @ '' '' @
     [CHR 0xE2, CHR 0x86, CHR 0x92] @ '' WAL-'' @ int_str (l + 1)"

definition promotion_detail :: "string \<Rightarrow> int \<Rightarrow> promotion_evidence \<Rightarrow> (string, json) dict" where
  "promotion_detail cid l ev =
    [(''type'', JStr ''promotion_recommendation''), (''capability_id'', JStr cid), (''current_level'', JInt l),
     (''recommended_level'', JInt (l + 1)),
     (''evidence'', JObj [(''evaluable_outcomes'', JInt (int (ev_outcomes ev))),
        (''calendar_span_days'', JNum (ev_span_days ev)), (''approval_score'', JNum (ev_score ev)),
        (''strip_failures'', JInt 0), (''cancel_redirect_overrides'', JInt 0)])]"

text \<open>The criteria, in the order of the code: the reason of the first one that fails.\<close>

definition promotion_decision ::
    "instant \<Rightarrow> string \<Rightarrow> capability \<Rightarrow> cap_state \<Rightarrow> promotion_check + promotion_evidence" where
  "promotion_decision now cid c e =
    (let cur = effective_wal e; nxt = cur + 1; no = not_ready cid cur nxt in
     if nxt > max_wal c then Inl (no None ''exceeds_max_wal'')
     else (case map_of (promotion_criteria_of c) (transition_key cur) of
         Some (Some crit) \<Rightarrow>
          (let os = evaluable_outcomes e;
               ev = \<lparr>ev_outcomes = length os, ev_span_days = 0, ev_score = 0, ev_edge_cases = 0\<rparr>
           in if int (length os) < crit_outcomes crit then Inl (no (Some ev) ''insufficient_outcomes'')
              else (case first_job_date e of
                  None \<Rightarrow> Inl (no (Some ev) ''no_first_job_date'')
                | Some first \<Rightarrow>
                   (let span = span_days now first; ev = ev\<lparr>ev_span_days := py_round 1 span\<rparr> in
                    if span < crit_span_days crit then Inl (no (Some ev) ''insufficient_span'')
                    else (case approval_score os of
                        None \<Rightarrow> Inl (no (Some ev) ''no_outcomes_for_score'')
                      | Some score \<Rightarrow>
                         (let ev = ev\<lparr>ev_score := py_round 4 score\<rparr> in
                          if score < crit_score_min crit then Inl (no (Some ev) ''score_below_threshold'')
                          else
                            (let ev = (if crit_edge_min crit > 0 then ev\<lparr>ev_edge_cases := 1\<rparr> else ev) in
                             if crit_zero_incidents crit \<and> last_incident e \<noteq> None
                             then Inl (no (Some ev) ''incident_exists'') else Inr ev))))))
       | _ \<Rightarrow> Inl (no None ''promotion_not_available'')))"

text \<open>The last step: all criteria are met, the recommendation is recorded.\<close>

definition recommend ::
    "env \<Rightarrow> string \<Rightarrow> int \<Rightarrow> promotion_evidence \<Rightarrow> 'a trust_scheme \<Rightarrow> (py_exc + promotion_check) \<times> 'a trust_scheme" where
  "recommend E cid cur evd =
    bind_r (emit E (\<lambda>sp. event_system_notify sp ''promotion_recommendation''
        (promotion_title cid cur) (promotion_detail cid cur evd)))
     (\<lambda>ev. return_r \<lparr>ready = True, pc_capability = cid, pc_current = cur, pc_recommended = cur + 1,
        pc_evidence = Some evd, pc_reason = ''criteria_met'', pc_notified = True, pc_event_id = source_event_id ev\<rparr>)"

definition check_promotion ::
    "env \<Rightarrow> registry \<Rightarrow> instant \<Rightarrow> string \<Rightarrow> 'a trust_scheme \<Rightarrow> (py_exc + promotion_check) \<times> 'a trust_scheme" where
  "check_promotion E R now cid s =
    (case get_entry cid (caps s) of
       Inl x \<Rightarrow> (Inl x, s)
     | Inr e \<Rightarrow>
        if effective_wal e = -1 then (Inr (not_ready cid (-1) 0 None ''suspended''), s)
        else (case registry_get R cid of
            None \<Rightarrow> (Inr (not_ready cid 0 0 None ''unknown_capability''), s)
          | Some c \<Rightarrow>
             (case promotion_decision now cid c e of
                Inl no \<Rightarrow> (Inr no, s)
              | Inr evd \<Rightarrow> recommend E cid (effective_wal e) evd s)))"

definition check_all ::
    "env \<Rightarrow> registry \<Rightarrow> instant \<Rightarrow> 'a trust_scheme \<Rightarrow> (py_exc + promotion_check list) \<times> 'a trust_scheme" where
  "check_all E R now = map_r (check_promotion E R now) (filter (\<lambda>cid. \<not> startswith cid ''_'') (dict_keys R))"


section \<open>Demotion lowers one capability\<close>

definition demoted_entry :: "instant \<Rightarrow> int \<Rightarrow> string option \<Rightarrow> cap_state \<Rightarrow> cap_state" where
  "demoted_entry now l sid e =
    e\<lparr>effective_wal_level := l, cap_status := (if l = -1 then ''suspended'' else ''active''),
      evaluable_outcomes := [], recent_failures := [], first_job_date := None, last_reset := now,
      last_incident := (case sid of Some i \<Rightarrow> if i = [] then last_incident e else Some i | None \<Rightarrow> last_incident e)\<rparr>"

lemma effective_wal_demoted [simp]: "effective_wal (demoted_entry now l sid e) = l"
  by (simp add: effective_wal_def demoted_entry_def)

lemma demoted_entry_ok: "entry_ok e \<Longrightarrow> -1 \<le> l \<Longrightarrow> l \<le> 3 \<Longrightarrow> entry_ok (demoted_entry now l sid e)"
  by (auto simp: entry_ok_def demoted_entry_def)

lemma execute_demotion_effect:
  assumes "execute_demotion E R now cid l trig sid s = (Inr r, s')"
  obtains e where "map_of (caps s) cid = Some e" "map_of (caps s') = (map_of (caps s))(cid \<mapsto> demoted_entry now l sid e)"
    "wf_dict (caps s) \<longrightarrow> wf_dict (caps s')"
    "demoted r" "dem_capability r = cid" "dem_from r = effective_wal e" "dem_to r = l" "dem_trigger r = trig"
    "alog s' = alog s @ [event_wal_demoted (stamp_of E (length (alog s))) cid (capability_name_of R cid)
       (effective_wal e) l trig sid]"
proof (cases "map_of (caps s) cid")
  case None
  then show thesis
    using assms by (simp add: execute_demotion_def read_caps_def get_effective_wal_def get_entry_def bind_r_def)
next
  case (Some e)
  let ?e1 = "if l = -1 then e\<lparr>effective_wal_level := -1, cap_status := ''suspended''\<rparr>
      else e\<lparr>effective_wal_level := l, cap_status := ''active''\<rparr>"
  let ?e2 = "?e1\<lparr>evaluable_outcomes := [], recent_failures := [], first_job_date := None, last_reset := now,
      last_incident := last_incident ?e1\<rparr>"
  let ?S1 = "AList.update cid ?e1 (caps s)"
  let ?S2 = "AList.update cid ?e2 ?S1"
  define S3 where "S3 = (case sid of None \<Rightarrow> ?S2 | Some i \<Rightarrow> if i = [] then ?S2 else
      AList.update cid (?e2\<lparr>last_incident := Some i\<rparr>) ?S2)"
  have 1: "demote cid l (caps s) = Inr ?S1"
    using Some by (simp add: demote_def suspend_def on_entry_def)
  have 2: "reset_counters now cid ?S1 = Inr ?S2" by (simp add: reset_counters_def on_entry_def)
  have 3: "set_incident sid cid ?S2 = Inr S3"
    by (simp add: set_incident_def S3_def on_entry_def split: option.splits)
  have run: "execute_demotion E R now cid l trig sid s =
    bind_r (emit E (\<lambda>sp. event_wal_demoted sp cid (capability_name_of R cid) (effective_wal e) l trig sid)) (\<lambda>ev.
      return_r \<lparr>demoted = True, dem_capability = cid, dem_from = effective_wal e, dem_to = l,
        dem_trigger = trig, dem_reason = [], dem_event_id = source_event_id ev\<rparr>) (s\<lparr>caps := S3\<rparr>)"
    using Some 1 2 3
    by (simp add: execute_demotion_def bind_r_def read_caps_def on_caps_def get_effective_wal_def get_entry_def)
  have m: "map_of S3 = (map_of (caps s))(cid \<mapsto> demoted_entry now l sid e)"
    by (auto simp: S3_def demoted_entry_def fun_eq_iff split: option.splits)
  have w: "wf_dict (caps s) \<Longrightarrow> wf_dict S3" by (auto simp: S3_def split: option.splits)
  show thesis
    by (rule that [OF Some]) (use assms m w in \<open>auto simp: run bind_r_def emit_def Let_def split: sum.splits\<close>)
qed

text \<open>The triggers of a demotion of a single capability.\<close>

datatype demotion_trigger =
    Strip_failure string
  | Job_failure string string instant
  | Override_demotion string string "string option" string
  | Approval_decay string

fun demotion_step ::
    "env \<Rightarrow> registry \<Rightarrow> instant \<Rightarrow> demotion_trigger \<Rightarrow> 'a trust_scheme
      \<Rightarrow> (py_exc + demotion_result) \<times> 'a trust_scheme" where
  "demotion_step E R now (Strip_failure sid) s = handle_strip_failure E R now sid s"
| "demotion_step E R now (Job_failure cid sid ts) s = handle_job_failure E R now cid sid ts s"
| "demotion_step E R now (Override_demotion ty cid prior sid) s = handle_override_demotion E R now ty cid prior sid s"
| "demotion_step E R now (Approval_decay cid) s = handle_approval_decay E R now cid s"

text \<open>Every trigger either leaves all levels alone or runs one demotion to a lower level.\<close>

definition same_levels :: "cap_states \<Rightarrow> cap_states \<Rightarrow> bool" where
  "same_levels S S' \<longleftrightarrow> (\<forall>cid. map_option effective_wal (map_of S' cid) = map_option effective_wal (map_of S cid))"

lemma same_levels_refl [simp]: "same_levels S S"
  by (simp add: same_levels_def)

lemma failure_recorded:
  assumes "record_failure cid ts sid S = Inr S1" and "get_recent_failure_count now cid S1 = Inr (n, S2)"
  shows "same_levels S S2" "states_ok S \<Longrightarrow> states_ok S2"
proof -
  obtain e where e: "map_of S cid = Some e" using assms(1) by (auto simp: record_failure_def on_entry_def split: option.splits)
  have ev: "evict_old_failures now cid S1 = Inr S2"
    using assms(2) by (auto simp: get_recent_failure_count_def get_recent_failures_def get_entry_def map_sum_def
        split: sum.splits option.splits)
  show "same_levels S S2"
    using assms(1) ev e
    by (auto simp: same_levels_def record_failure_def evict_old_failures_def on_entry_def effective_wal_def)
  assume "states_ok S"
  then have "states_ok S1"
    using state_step_ok [of S "Record_failure cid ts sid" S1] assms(1) by (simp add: op_in_range_def)
  then show "states_ok S2"
    using state_step_ok [of S1 "Evict now cid" S2] ev by (simp add: op_in_range_def)
qed

lemma entry_of_effective_wal:
  "get_effective_wal S cid = Inr w \<Longrightarrow> \<exists>e. map_of S cid = Some e \<and> w = effective_wal e"
  by (auto simp: get_effective_wal_def get_entry_def split: option.splits)

lemma demotion_step_cases:
  assumes "demotion_step E R now trig s = (Inr r, s')" and "states_ok (caps s)"
  obtains (none) "\<not> demoted r" "same_levels (caps s) (caps s')" "states_ok (caps s')" "alog s' = alog s"
  | (demote) cid l e sid why t where "same_levels (caps s) (caps t)" "states_ok (caps t)"
      "alog t = alog s" "execute_demotion E R now cid l why sid t = (Inr r, s')"
      "map_of (caps t) cid = Some e" "-1 \<le> l" "l < effective_wal e"
proof (cases trig)
  case (Strip_failure sid)
  show thesis
  proof (cases "demoted r")
    case False
    then show thesis
      using assms none Strip_failure
      by (auto simp: handle_strip_failure_def no_demotion_def split: if_splits sum.splits elim: execute_demotion_effect)
  next
    case True
    then obtain w where w: "get_effective_wal (caps s) ''context.package'' = Inr w" "w \<noteq> -1"
      "execute_demotion E R now ''context.package'' (-1) ''strip_failure'' (Some sid) s = (Inr r, s')"
      using assms(1) Strip_failure by (auto simp: handle_strip_failure_def no_demotion_def split: if_splits sum.splits)
    then obtain e where e: "map_of (caps s) ''context.package'' = Some e" "w = effective_wal e"
      using entry_of_effective_wal by blast
    have "entry_ok e" using assms(2) e(1) by (auto simp: states_ok_def)
    then have "-1 < effective_wal e" using effective_wal_range [of e] w(2) e(2) by simp
    then show thesis using demote [OF _ assms(2) _ w(3) e(1)] by simp
  qed
next
  case (Job_failure cid sid ts)
  show thesis
  proof (cases "is_sentinel cid \<or> registry_get R cid = None")
    case True
    then show thesis
      using assms none Job_failure by (auto simp: handle_job_failure_def no_demotion_def split: if_splits)
  next
    case False
    then obtain S1 n S2 where f: "record_failure cid ts sid (caps s) = Inr S1"
      "get_recent_failure_count now cid S1 = Inr (n, S2)"
      using assms(1) Job_failure by (auto simp: handle_job_failure_def split: sum.splits)
    note S2 = failure_recorded [OF f]
    let ?t = "s\<lparr>caps := S2\<rparr>"
    have t: "same_levels (caps s) (caps ?t)" "states_ok (caps ?t)" "alog ?t = alog s"
      using S2 assms(2) by simp_all
    show thesis
    proof (cases "demoted r")
      case nd: False
      then show thesis
        using assms(1) none [OF nd] Job_failure False f t
        by (auto simp: handle_job_failure_def Let_def split: sum.splits if_splits elim: execute_demotion_effect)
    next
      case True
      then obtain w where w: "get_effective_wal S2 cid = Inr w" "0 < w"
        "execute_demotion E R now cid (w - 1) ''error'' (Some sid) ?t = (Inr r, s')"
        using assms(1) Job_failure False f
        by (auto simp: handle_job_failure_def no_demotion_def Let_def split: sum.splits if_splits)
      obtain e where "map_of S2 cid = Some e" "w = effective_wal e" using entry_of_effective_wal [OF w(1)] by blast
      then show thesis using demote [OF t w(3)] w(2) by simp
    qed
  qed
next
  case (Override_demotion ty cid prior sid)
  show thesis
  proof (cases "demoted r")
    case False
    then show thesis
      using assms none Override_demotion
      by (auto simp: handle_override_demotion_def no_demotion_def split: if_splits sum.splits option.splits
          elim: execute_demotion_effect)
  next
    case True
    then obtain w where w: "get_effective_wal (caps s) cid = Inr w" "1 \<le> w"
      "execute_demotion E R now cid (w - 1) ''override'' (Some sid) s = (Inr r, s')"
      using assms(1) Override_demotion
      by (auto simp: handle_override_demotion_def no_demotion_def split: if_splits sum.splits option.splits)
    obtain e where "map_of (caps s) cid = Some e" "w = effective_wal e" using entry_of_effective_wal [OF w(1)] by blast
    then show thesis using demote [OF _ assms(2) _ w(3)] w(2) by simp
  qed
next
  case (Approval_decay cid)
  show thesis
  proof (cases "demoted r")
    case False
    then show thesis
      using assms none Approval_decay
      by (auto simp: handle_approval_decay_def no_demotion_def split: if_splits sum.splits option.splits
          elim: execute_demotion_effect)
  next
    case True
    then obtain e where e: "get_entry cid (caps s) = Inr e" "effective_wal e = 3"
      "execute_demotion E R now cid 2 ''anomaly'' None s = (Inr r, s')"
      using assms(1) Approval_decay
      by (auto simp: handle_approval_decay_def no_demotion_def split: if_splits sum.splits option.splits)
    then have "map_of (caps s) cid = Some e" by (auto simp: get_entry_def split: option.splits)
    then show thesis using demote [OF _ assms(2) _ e(3)] e(2) by simp
  qed
qed

text \<open>
  A strip failure, a job failure, an override or an approval decay lowers trust and nothing else:
  it either leaves every capability's level as it is and writes no event, or it lowers exactly one
  capability (strictly, to its reported new level), leaves the levels of all others, and appends the
  one \<open>wal.demoted\<close> event that says so. The state stays well formed.
\<close>

theorem demotion_lowers_one:
  assumes "states_ok (caps s)" and "demotion_step E R now trig s = (Inr r, s')"
  shows "states_ok (caps s') \<and>
    (if demoted r then
       map_option effective_wal (map_of (caps s) (dem_capability r)) = Some (dem_from r) \<and>
       map_option effective_wal (map_of (caps s') (dem_capability r)) = Some (dem_to r) \<and>
       -1 \<le> dem_to r \<and> dem_to r < dem_from r \<and>
       (\<forall>cid. cid \<noteq> dem_capability r \<longrightarrow>
          map_option effective_wal (map_of (caps s') cid) = map_option effective_wal (map_of (caps s) cid)) \<and>
       (\<exists>ev. alog s' = alog s @ [ev])
     else same_levels (caps s) (caps s') \<and> alog s' = alog s)"
  using assms(2,1)
proof (cases rule: demotion_step_cases)
  case none
  then show ?thesis by simp
next
  case (demote cid l e sid why t)
  from demote(4) obtain e' where x: "map_of (caps t) cid = Some e'"
    "map_of (caps s') = (map_of (caps t))(cid \<mapsto> demoted_entry now l sid e')"
    "wf_dict (caps t) \<longrightarrow> wf_dict (caps s')" "demoted r" "dem_capability r = cid" "dem_from r = effective_wal e'"
    "dem_to r = l" "alog s' = alog t @ [event_wal_demoted (stamp_of E (length (alog t))) cid (capability_name_of R cid)
       (effective_wal e') l why sid]"
    by (rule execute_demotion_effect)
  have e: "e' = e" using x(1) demote(5) by simp
  have ok: "entry_ok e" using demote(2,5) by (auto simp: states_ok_def)
  have "l \<le> 3" using demote(7) effective_wal_range [OF ok] by simp
  then have "entry_ok (demoted_entry now l sid e')" unfolding e by (intro demoted_entry_ok ok demote(6))
  moreover have "wf_dict (caps s')" using demote(2) x(3) by (simp add: states_ok_def)
  moreover have "\<forall>k v. map_of (caps t) k = Some v \<longrightarrow> entry_ok v" using demote(2) by (simp add: states_ok_def)
  ultimately have "states_ok (caps s')" unfolding states_ok_def x(2) by (metis fun_upd_apply option.inject)
  moreover have "map_option effective_wal (map_of (caps s) cid) = Some (effective_wal e)"
    using demote(1) [unfolded same_levels_def, rule_format, of cid] demote(5) by simp
  moreover have "map_option effective_wal (map_of (caps s') k) = map_option effective_wal (map_of (caps s) k)"
    if "k \<noteq> cid" for k
    using demote(1) [unfolded same_levels_def, rule_format, of k] that by (simp add: x(2))
  ultimately show ?thesis
    using x(4-8) demote(3,6,7) e by (simp add: x(2))
qed


definition sample_trust :: trust where
  "sample_trust = \<lparr>alog = [], caps = [(''route.cloud.claude'', (fresh_cap_state 0)\<lparr>effective_wal_level := 2\<rparr>),
     (''context.package'', fresh_cap_state 0)]\<rparr>"

lemma sample_trust_ok: "states_ok (caps sample_trust)"
  by (auto simp: states_ok_def sample_trust_def entry_ok_def fresh_cap_state_def split: if_splits)

theorem demotion_lowers_one_witness:
  "\<exists>r s'. demotion_step good_env sample_registry 0 (Override_demotion ''cancel'' ''route.cloud.claude'' None ''o'')
      sample_trust = (Inr r, s') \<and> demoted r \<and> dem_to r < dem_from r \<and> states_ok (caps s')"
proof -
  let ?tr = "Override_demotion ''cancel'' ''route.cloud.claude'' None ''o''"
  obtain r s' where d: "demotion_step good_env sample_registry 0 ?tr sample_trust = (Inr r, s')" "demoted r"
    by (simp add: handle_override_demotion_def sample_trust_def get_effective_wal_def get_entry_def effective_wal_def
        fresh_cap_state_def execute_demotion_def bind_r_def read_caps_def on_caps_def demote_def on_entry_def
        reset_counters_def set_incident_def)
  from demotion_lowers_one [OF sample_trust_ok d(1)] show ?thesis using d by auto
qed

text \<open>
  A model change raises a suspended capability: the engine skips only capabilities at level 0, so
  a suspended one (level -1) is "demoted" to level 0 and becomes active again, without the recovery
  through a configuration change that suspension otherwise needs.
\<close>

theorem model_change_lifts_suspension:
  assumes "map_of (caps s) cid = Some e" and "cap_status e = ''suspended''"
    and "outcome_of E (length (alog s)) = Inr ok"
  shows "\<exists>r s'. handle_model_change E R now sid [cid] s = (Inr [r], s') \<and> dem_from r = -1 \<and> dem_to r = 0 \<and>
    get_effective_wal (caps s') cid = Inr 0 \<and> get_status (caps s') cid = Inr ''active''"
proof -
  obtain q s' where x: "execute_demotion E R now cid 0 ''model_change'' sid s = (q, s')" by force
  have "\<exists>r. q = Inr r"
    using x assms
    by (cases sid) (auto simp: execute_demotion_def bind_r_def read_caps_def on_caps_def get_effective_wal_def
        get_entry_def demote_def on_entry_def reset_counters_def set_incident_def emit_def Let_def
        split: sum.splits if_splits)
  then obtain r where r: "q = Inr r" by blast
  from x [unfolded r] obtain e' where "map_of (caps s) cid = Some e'"
    "map_of (caps s') = (map_of (caps s))(cid \<mapsto> demoted_entry now 0 sid e')"
    "dem_from r = effective_wal e'" "dem_to r = 0"
    by (rule execute_demotion_effect)
  then show ?thesis
    using x r assms(1,2)
    by (simp add: get_effective_wal_def get_status_def get_entry_def effective_wal_def demoted_entry_def)
qed

theorem model_change_lifts_suspension_witness:
  "\<exists>r s'. handle_model_change good_env sample_registry 0 None [''context.package''] suspended_packager = (Inr [r], s') \<and>
    dem_from r = -1 \<and> get_effective_wal (caps s') ''context.package'' = Inr 0"
  using model_change_lifts_suspension [of suspended_packager "''context.package''" _ good_env True sample_registry 0 None]
  by (auto simp: suspended_packager_def good_env_def)

section \<open>Promotion is only recommended\<close>

definition criteria_hold :: "instant \<Rightarrow> capability \<Rightarrow> cap_state \<Rightarrow> bool" where
  "criteria_hold now c e \<longleftrightarrow> effective_wal e + 1 \<le> max_wal c \<and>
    (\<exists>crit first score. map_of (promotion_criteria_of c) (transition_key (effective_wal e)) = Some (Some crit) \<and>
       crit_outcomes crit \<le> int (length (evaluable_outcomes e)) \<and> first_job_date e = Some first \<and>
       crit_span_days crit \<le> span_days now first \<and> approval_score (evaluable_outcomes e) = Some score \<and>
       crit_score_min crit \<le> score \<and> (crit_zero_incidents crit \<longrightarrow> last_incident e = None))"

lemma promotion_decision_iff: "(\<exists>ev. promotion_decision now cid c e = Inr ev) \<longleftrightarrow> criteria_hold now c e"
  by (auto simp: promotion_decision_def criteria_hold_def Let_def split: option.splits)

lemma promotion_decision_no: "promotion_decision now cid c e = Inl p \<Longrightarrow> \<not> ready p"
  by (auto simp: promotion_decision_def not_ready_def Let_def split: option.splits if_splits)

text \<open>
  The promotion monitor never changes a level. It reports a capability ready, and emits the one
  recommendation, exactly when the capability is registered, not suspended, below its maximal level,
  and meets the criteria of the next level: enough outcomes, days since the first job, approval score,
  and no recorded incident where the criteria demand that.
\<close>

theorem promotion_only_recommended:
  assumes "check_promotion E R now cid s = (Inr p, s')"
  shows "caps s' = caps s \<and>
    (ready p \<longleftrightarrow> (\<exists>c e. registry_get R cid = Some c \<and> map_of (caps s) cid = Some e \<and> effective_wal e \<noteq> -1 \<and>
       criteria_hold now c e)) \<and>
    (if ready p then \<exists>ev. alog s' = alog s @ [ev] \<and> event_str ev ''event_type'' = ''system.notify'' else alog s' = alog s)"
proof (cases "map_of (caps s) cid")
  case None
  then show ?thesis using assms by (simp add: check_promotion_def recommend_def get_entry_def)
next
  case (Some e)
  show ?thesis
  proof (cases "effective_wal e = -1 \<or> registry_get R cid = None")
    case True
    then show ?thesis using assms Some
      by (auto simp: check_promotion_def recommend_def get_entry_def not_ready_def split: if_splits option.splits)
  next
    case False
    then obtain c where c: "registry_get R cid = Some c" by auto
    show ?thesis
    proof (cases "promotion_decision now cid c e")
      case (Inl no)
      then have "\<not> criteria_hold now c e" using promotion_decision_iff [of now cid c e] by simp
      then show ?thesis using assms Some False c Inl promotion_decision_no [OF Inl]
        by (auto simp: check_promotion_def recommend_def get_entry_def)
    next
      case (Inr ev)
      then have "criteria_hold now c e" using promotion_decision_iff [of now cid c e] by simp
      then show ?thesis using assms Some False c Inr
        by (auto simp: check_promotion_def recommend_def get_entry_def bind_r_def emit_def Let_def event_system_notify_def
            event_str_def split: sum.splits)
    qed
  qed
qed

definition ready_trust :: trust where
  "ready_trust = \<lparr>alog = [], caps = [(''route.cloud.claude'', (fresh_cap_state 0)\<lparr>first_job_date := Some 0,
     evaluable_outcomes := replicate 30 \<lparr>disposition = ''accepted'', outcome_time = Some 0\<rparr>\<rparr>)]\<rparr>"

theorem promotion_only_recommended_witness:
  "\<exists>p s'. check_promotion good_env sample_registry (days 8) ''route.cloud.claude'' ready_trust = (Inr p, s') \<and>
    ready p \<and> caps s' = caps ready_trust"
proof -
  have "registry_get sample_registry ''route.cloud.claude'' = Some sample_cloud"
    by (simp add: registry_get_def sample_registry_def)
  have crit: "criteria_hold (days 8) sample_cloud ((fresh_cap_state 0)\<lparr>first_job_date := Some 0,
     evaluable_outcomes := replicate 30 \<lparr>disposition = ''accepted'', outcome_time = Some 0\<rparr>\<rparr>)"
    by (simp add: criteria_hold_def sample_cloud_def effective_wal_def fresh_cap_state_def transition_key_def
        approval_score_def span_days_def days_def seconds_def score_of_def DISPOSITION_SCORES_def sum_list_replicate
        map_replicate)
  obtain evd where ev: "promotion_decision (days 8) ''route.cloud.claude'' sample_cloud ((fresh_cap_state 0)\<lparr>first_job_date := Some 0,
     evaluable_outcomes := replicate 30 \<lparr>disposition = ''accepted'', outcome_time = Some 0\<rparr>\<rparr>) = Inr evd"
    using crit promotion_decision_iff by blast
  then obtain p s' where p: "check_promotion good_env sample_registry (days 8) ''route.cloud.claude'' ready_trust = (Inr p, s')"
    by (simp add: check_promotion_def recommend_def ready_trust_def get_entry_def effective_wal_def fresh_cap_state_def
        registry_get_def sample_registry_def bind_r_def Let_def)
  have "ready p"
    using promotion_only_recommended [OF p] crit
    by (simp add: registry_get_def sample_registry_def ready_trust_def effective_wal_def fresh_cap_state_def)
  then show ?thesis using promotion_only_recommended [OF p] p by blast
qed

end
