(* ===== verification/Decay.thy ===== *)
theory Decay
  imports Trust
begin

text \<open>
  The temporal decay of trust: \<open>orchestrator/decay_evaluator.py\<close>. The loop of \<open>evaluate_startup\<close> has no
  bound in the code; it is modelled with fuel, and the theorem \<open>decay_startup_terminates\<close> gives the fuel
  that always suffices.
\<close>

record decay_policy =
  window_days :: int
  min_outcomes :: int

record decay_config =
  system_defaults :: "(int, decay_policy) dict"
  capability_overrides :: "(string, (int, decay_policy) dict) dict"
  decay_enabled :: bool

record decay_action =
  da_capability :: string
  da_from :: int
  da_to :: int
  da_in_window :: nat
  da_window_days :: int
  da_min_required :: int

section \<open>Configuration\<close>

text \<open>The raw entries: \<open>window_days\<close> and \<open>min_outcomes\<close> by level key, each 0 when absent.\<close>

type_synonym raw_policy = "(string, int option \<times> int option) dict"

definition LEVEL_KEY_MAP :: "(string \<times> int) list" where
  "LEVEL_KEY_MAP = [(''wal_1'', 1), (''wal_2'', 2), (''wal_3'', 3)]"

fun parse_levels :: "raw_policy \<Rightarrow> (string \<times> int) list \<Rightarrow> py_exc + (int, decay_policy) dict" where
  "parse_levels raw_p [] = Inr []"
| "parse_levels raw_p ((key, level) # rest) =
    (case map_of raw_p key of
       None \<Rightarrow> parse_levels raw_p rest
     | Some (w, m) \<Rightarrow>
        (let window = (case w of None \<Rightarrow> 0 | Some x \<Rightarrow> x); minimum = (case m of None \<Rightarrow> 0 | Some x \<Rightarrow> x) in
         if window \<le> 0 then Inl (ValueError ''window_days must be > 0'')
         else if minimum \<le> 0 then Inl (ValueError ''min_outcomes must be > 0'')
         else map_sum id (\<lambda>ps. (level, \<lparr>window_days = window, min_outcomes = minimum\<rparr>) # ps) (parse_levels raw_p rest)))"

definition parse_policy_dict :: "raw_policy \<Rightarrow> py_exc + (int, decay_policy) dict" where
  "parse_policy_dict raw_p = parse_levels raw_p LEVEL_KEY_MAP"

text \<open>An override may only be stricter than the default of its level.\<close>

definition check_override :: "(int, decay_policy) dict \<Rightarrow> int \<times> decay_policy \<Rightarrow> py_exc option" where
  "check_override defaults lp =
    (case map_of defaults (fst lp) of
       None \<Rightarrow> None
     | Some d \<Rightarrow>
         if window_days (snd lp) > window_days d then Some (ValueError ''window_days exceeds system default'')
         else if min_outcomes (snd lp) < min_outcomes d then Some (ValueError ''min_outcomes below system default'')
         else None)"

fun load_overrides ::
    "(int, decay_policy) dict \<Rightarrow> (string \<times> raw_policy) list \<Rightarrow> py_exc + (string, (int, decay_policy) dict) dict" where
  "load_overrides defaults [] = Inr []"
| "load_overrides defaults ((cid, raw_p) # rest) =
    (case parse_policy_dict raw_p of
       Inl x \<Rightarrow> Inl x
     | Inr ps \<Rightarrow>
        (case first_error (check_override defaults) ps of
           Some x \<Rightarrow> Inl x
         | None \<Rightarrow> map_sum id (\<lambda>os. (cid, ps) # os) (load_overrides defaults rest)))"

definition load_decay_config :: "raw_policy option \<Rightarrow> (string \<times> raw_policy) list \<Rightarrow> py_exc + decay_config" where
  "load_decay_config policy overrides =
    (case policy of
       None \<Rightarrow> Inr \<lparr>system_defaults = [], capability_overrides = [], decay_enabled = False\<rparr>
     | Some raw_p \<Rightarrow>
        (case parse_policy_dict raw_p of
           Inl x \<Rightarrow> Inl x
         | Inr defaults \<Rightarrow>
             map_sum id (\<lambda>os. \<lparr>system_defaults = defaults, capability_overrides = os, decay_enabled = True\<rparr>)
               (load_overrides defaults overrides)))"

section \<open>Evaluation\<close>

definition get_policy :: "decay_config \<Rightarrow> string \<Rightarrow> int \<Rightarrow> decay_policy option" where
  "get_policy cfg cid level =
    (case map_of (capability_overrides cfg) cid of
       Some os \<Rightarrow> (case map_of os level of Some p \<Rightarrow> Some p | None \<Rightarrow> map_of (system_defaults cfg) level)
     | None \<Rightarrow> map_of (system_defaults cfg) level)"

definition count_outcomes_in_window :: "evaluable_outcome list \<Rightarrow> instant \<Rightarrow> nat" where
  "count_outcomes_in_window os cutoff =
    length (filter (\<lambda>oc. case outcome_time oc of None \<Rightarrow> False | Some t \<Rightarrow> t \<ge> cutoff) os)"

definition last_outcome_timestamp :: "evaluable_outcome list \<Rightarrow> instant option" where
  "last_outcome_timestamp os =
    fold (\<lambda>oc latest. case outcome_time oc of
        None \<Rightarrow> latest
      | Some t \<Rightarrow> (case latest of None \<Rightarrow> Some t | Some l \<Rightarrow> if t > l then Some t else latest)) os None"

text \<open>Whether a capability is due: the policy of its level and its outcomes within the window.\<close>

definition decay_due :: "decay_config \<Rightarrow> instant \<Rightarrow> string \<Rightarrow> cap_state \<Rightarrow> (decay_policy \<times> nat) option" where
  "decay_due cfg now cid e =
    (if effective_wal_level e < 1 then None
     else (case get_policy cfg cid (effective_wal_level e) of
         None \<Rightarrow> None
       | Some p \<Rightarrow>
          (let n = count_outcomes_in_window (evaluable_outcomes e) (now - days (window_days p)) in
           if int n \<ge> min_outcomes p then None else Some (p, n))))"

definition decay_one ::
    "env \<Rightarrow> decay_config \<Rightarrow> instant \<Rightarrow> string \<Rightarrow> 'a trust_scheme \<Rightarrow> (py_exc + decay_action list) \<times> 'a trust_scheme"
where
  "decay_one E cfg now cid s =
    (case map_of (caps s) cid of
       None \<Rightarrow> (Inr [], s)
     | Some e \<Rightarrow>
        (case decay_due cfg now cid e of
           None \<Rightarrow> (Inr [], s)
         | Some (p, n) \<Rightarrow>
            (let l = effective_wal_level e in
             bind_r (emit E (\<lambda>sp. event_wal_demoted_temporal_decay sp cid l (window_days p) (int n) (min_outcomes p)
                 (map_option (iso_text E) (last_outcome_timestamp (evaluable_outcomes e))))) (\<lambda>ev.
             bind_r (on_caps (demote cid (l - 1))) (\<lambda>_.
             bind_r (on_caps (reset_counters now cid)) (\<lambda>_.
             return_r [\<lparr>da_capability = cid, da_from = l, da_to = l - 1, da_in_window = n,
               da_window_days = window_days p, da_min_required = min_outcomes p\<rparr>]))) s)))"

fun decay_pass ::
    "env \<Rightarrow> decay_config \<Rightarrow> instant \<Rightarrow> string list \<Rightarrow> 'a trust_scheme \<Rightarrow> (py_exc + decay_action list) \<times> 'a trust_scheme"
where
  "decay_pass E cfg now [] s = (Inr [], s)"
| "decay_pass E cfg now (cid # cids) s =
    (case decay_one E cfg now cid s of
       (Inl x, s') \<Rightarrow> (Inl x, s')
     | (Inr as, s') \<Rightarrow>
        (case decay_pass E cfg now cids s' of (Inl x, s'') \<Rightarrow> (Inl x, s'') | (Inr bs, s'') \<Rightarrow> (Inr (as @ bs), s'')))"

definition evaluate ::
    "env \<Rightarrow> decay_config \<Rightarrow> instant \<Rightarrow> 'a trust_scheme \<Rightarrow> (py_exc + decay_action list) \<times> 'a trust_scheme" where
  "evaluate E cfg now s =
    (if \<not> decay_enabled cfg then (Inr [], s) else decay_pass E cfg now (dict_keys (caps s)) s)"

text \<open>The passes at startup; \<open>nows k\<close> is the clock of the \<open>k\<close>-th pass. \<open>None\<close> means the fuel ran out.\<close>

fun evaluate_startup ::
    "env \<Rightarrow> decay_config \<Rightarrow> (nat \<Rightarrow> instant) \<Rightarrow> nat \<Rightarrow> nat \<Rightarrow> 'a trust_scheme
      \<Rightarrow> ((py_exc + decay_action list) \<times> 'a trust_scheme) option" where
  "evaluate_startup E cfg nows k 0 s = None"
| "evaluate_startup E cfg nows k (Suc fuel) s =
    (case evaluate E cfg (nows k) s of
       (Inl x, s') \<Rightarrow> Some (Inl x, s')
     | (Inr as, s') \<Rightarrow>
         if as = [] then Some (Inr [], s')
         else (case evaluate_startup E cfg nows (Suc k) fuel s' of
             None \<Rightarrow> None
           | Some (Inl x, s'') \<Rightarrow> Some (Inl x, s'')
           | Some (Inr bs, s'') \<Rightarrow> Some (Inr (as @ bs), s'')))"

section \<open>One capability\<close>

definition decayed :: "instant \<Rightarrow> cap_state \<Rightarrow> cap_state" where
  "decayed now e = demoted_entry now (effective_wal_level e - 1) None e"

lemma decay_one_effect:
  assumes "decay_one E cfg now cid s = (Inr as, s')"
  shows "as = [] \<and> s' = s \<and> (\<forall>e. map_of (caps s) cid = Some e \<longrightarrow> decay_due cfg now cid e = None) \<or>
    (\<exists>e a. map_of (caps s) cid = Some e \<and> as = [a] \<and> decay_due cfg now cid e \<noteq> None \<and>
       map_of (caps s') = (map_of (caps s))(cid \<mapsto> decayed now e) \<and> dict_keys (caps s') = dict_keys (caps s))"
proof (cases "\<exists>e p n. map_of (caps s) cid = Some e \<and> decay_due cfg now cid e = Some (p, n)")
  case False
  then show ?thesis
    using assms by (auto simp: decay_one_def split: option.splits)
next
  case True
  then obtain e p n where e: "map_of (caps s) cid = Some e" "decay_due cfg now cid e = Some (p, n)" by blast
  then have l: "effective_wal_level e \<ge> 1" by (auto simp: decay_due_def split: if_splits)
  have mem: "cid \<in> fst ` set (caps s)" using e(1) by (force dest: map_of_SomeD)
  have keys: "dict_keys (AList.update cid v (caps s)) = dict_keys (caps s)" for v
    by (rule keys_update_old [OF mem])
  show ?thesis
    using assms e l
    by (auto simp: decay_one_def bind_r_def emit_def on_caps_def demote_def on_entry_def reset_counters_def
        decayed_def demoted_entry_def keys Let_def fun_eq_iff split: sum.splits)
qed

lemma decay_due_level: "decay_due cfg now cid e \<noteq> None \<Longrightarrow> 1 \<le> effective_wal_level e"
  by (auto simp: decay_due_def split: if_splits)


section \<open>One pass\<close>

text \<open>What passes do to the state: an entry stays, or it loses its outcomes and some levels, not below 0.\<close>

definition decays_to :: "cap_states \<Rightarrow> cap_states \<Rightarrow> bool" where
  "decays_to S S' \<longleftrightarrow> dict_keys S' = dict_keys S \<and>
    (\<forall>cid e. map_of S cid = Some e \<longrightarrow> (\<exists>e'. map_of S' cid = Some e' \<and>
       (e' = e \<or> evaluable_outcomes e' = [] \<and> 0 \<le> effective_wal_level e' \<and>
          effective_wal_level e' < effective_wal_level e)))"

lemma decays_to_refl [simp]: "decays_to S S"
  by (simp add: decays_to_def)

lemma decays_to_trans:
  assumes "decays_to S T" and "decays_to T U"
  shows "decays_to S U"
  unfolding decays_to_def
proof (intro conjI allI impI)
  show "dict_keys U = dict_keys S" using assms by (simp add: decays_to_def)
  fix cid e assume "map_of S cid = Some e"
  then obtain e' where 1: "map_of T cid = Some e'" "e' = e \<or> evaluable_outcomes e' = [] \<and>
      0 \<le> effective_wal_level e' \<and> effective_wal_level e' < effective_wal_level e"
    using assms(1) unfolding decays_to_def by blast
  then obtain e'' where 2: "map_of U cid = Some e''" "e'' = e' \<or> evaluable_outcomes e'' = [] \<and>
      0 \<le> effective_wal_level e'' \<and> effective_wal_level e'' < effective_wal_level e'"
    using assms(2) unfolding decays_to_def by blast
  have "e'' = e \<or> evaluable_outcomes e'' = [] \<and> 0 \<le> effective_wal_level e'' \<and>
      effective_wal_level e'' < effective_wal_level e"
    using 1(2) 2(2) by (elim disjE) auto
  then show "\<exists>e''. map_of U cid = Some e'' \<and> (e'' = e \<or> evaluable_outcomes e'' = [] \<and>
      0 \<le> effective_wal_level e'' \<and> effective_wal_level e'' < effective_wal_level e)"
    using 2(1) by blast
qed

definition total_level :: "cap_states \<Rightarrow> nat" where
  "total_level S = (\<Sum>cid \<in> set (dict_keys S). case map_of S cid of Some e \<Rightarrow> nat (effective_wal_level e) | None \<Rightarrow> 0)"

lemma decay_one_decays:
  assumes "decay_one E cfg now cid s = (Inr as, s')"
  shows "decays_to (caps s) (caps s') \<and> total_level (caps s) = total_level (caps s') + length as"
proof -
  consider "as = []" "s' = s" | e a where "map_of (caps s) cid = Some e" "as = [a]" "decay_due cfg now cid e \<noteq> None"
      "map_of (caps s') = (map_of (caps s))(cid \<mapsto> decayed now e)" "dict_keys (caps s') = dict_keys (caps s)"
    using decay_one_effect [OF assms] by blast
  then show ?thesis
  proof cases
    case 1
    then show ?thesis by simp
  next
    case (2 e a)
    have l: "1 \<le> effective_wal_level e" using 2(3) by (rule decay_due_level)
    have "decays_to (caps s) (caps s')"
      using 2(1,4,5) l by (auto simp: decays_to_def decayed_def demoted_entry_def)
    moreover have "total_level (caps s) = total_level (caps s') + 1"
    proof -
      let ?K = "set (dict_keys (caps s))"
      let ?f = "\<lambda>S c. case map_of S c of Some e \<Rightarrow> nat (effective_wal_level e) | None \<Rightarrow> 0"
      have cid: "cid \<in> ?K" using 2(1) by (force dest: map_of_SomeD)
      have "sum (?f (caps s)) ?K = ?f (caps s) cid + sum (?f (caps s)) (?K - {cid})"
        "sum (?f (caps s')) ?K = ?f (caps s') cid + sum (?f (caps s')) (?K - {cid})"
        by (rule sum.remove [OF _ cid], simp)+
      moreover have "sum (?f (caps s')) (?K - {cid}) = sum (?f (caps s)) (?K - {cid})"
        by (rule sum.cong) (simp_all add: 2(4))
      moreover have "?f (caps s) cid = ?f (caps s') cid + 1"
        using 2(1) l by (simp add: 2(4) decayed_def demoted_entry_def)
      ultimately show ?thesis by (simp add: total_level_def 2(5) del: set_map)
    qed
    ultimately show ?thesis using 2(2) by simp
  qed
qed

lemma decay_pass_decays:
  assumes "decay_pass E cfg now cids s = (Inr as, s')"
  shows "decays_to (caps s) (caps s') \<and> total_level (caps s) = total_level (caps s') + length as \<and>
    (as = [] \<longrightarrow> s' = s \<and> (\<forall>cid \<in> set cids. \<forall>e. map_of (caps s) cid = Some e \<longrightarrow> decay_due cfg now cid e = None))"
  using assms
proof (induction cids arbitrary: s as)
  case (Cons cid cids)
  obtain bs t cs where 1: "decay_one E cfg now cid s = (Inr bs, t)" "decay_pass E cfg now cids t = (Inr cs, s')"
    "as = bs @ cs"
    using Cons.prems by (auto split: prod.splits sum.splits)
  note one = decay_one_decays [OF 1(1)] decay_one_effect [OF 1(1)]
  note rest = Cons.IH [OF 1(2)]
  have "decays_to (caps s) (caps s')" using one(1) rest decays_to_trans by blast
  moreover have "total_level (caps s) = total_level (caps s') + length as" using one(1) rest 1(3) by simp
  moreover have "s' = s \<and> (\<forall>c \<in> set (cid # cids). \<forall>e. map_of (caps s) c = Some e \<longrightarrow> decay_due cfg now c e = None)"
    if "as = []"
  proof -
    have "bs = []" "cs = []" using that 1(3) by simp_all
    then have "t = s" "\<forall>e. map_of (caps s) cid = Some e \<longrightarrow> decay_due cfg now cid e = None" using one(2) by auto
    then show ?thesis using rest \<open>cs = []\<close> by auto
  qed
  ultimately show ?case by blast
qed simp

lemma evaluate_decays:
  assumes "evaluate E cfg now s = (Inr as, s')"
  shows "decays_to (caps s) (caps s') \<and> total_level (caps s) = total_level (caps s') + length as \<and>
    (as = [] \<longrightarrow> s' = s \<and> (decay_enabled cfg \<longrightarrow>
       (\<forall>cid e. map_of (caps s) cid = Some e \<longrightarrow> decay_due cfg now cid e = None)))"
proof (cases "decay_enabled cfg")
  case False
  then show ?thesis using assms by (simp add: evaluate_def)
next
  case True
  then have "decay_pass E cfg now (dict_keys (caps s)) s = (Inr as, s')" using assms by (simp add: evaluate_def)
  moreover have "cid \<in> set (dict_keys (caps s))" if "map_of (caps s) cid = Some e" for cid e
    using that by (force dest: map_of_SomeD)
  ultimately show ?thesis using decay_pass_decays by blast
qed

section \<open>The passes at startup\<close>

lemma evaluate_startup_fuel:
  assumes "total_level (caps s) < fuel"
  shows "evaluate_startup E cfg nows k fuel s \<noteq> None"
  using assms
proof (induction fuel arbitrary: k s)
  case (Suc fuel)
  obtain q s' where e: "evaluate E cfg (nows k) s = (q, s')" by force
  show ?case
  proof (cases q)
    case (Inl x)
    then show ?thesis using e by simp
  next
    case (Inr as)
    show ?thesis
    proof (cases "as = []")
      case True
      then show ?thesis using e Inr by simp
    next
      case False
      then have "total_level (caps s') < fuel"
        using evaluate_decays e Inr Suc.prems by (cases as) fastforce+
      then have "evaluate_startup E cfg nows (Suc k) fuel s' \<noteq> None" by (rule Suc.IH)
      then show ?thesis using e Inr False by (auto split: sum.splits)
    qed
  qed
qed simp

lemma evaluate_startup_fixpoint:
  assumes "evaluate_startup E cfg nows k fuel s = Some (Inr as, s')"
  shows "decays_to (caps s) (caps s') \<and> total_level (caps s) = total_level (caps s') + length as \<and>
    (decay_enabled cfg \<longrightarrow>
      (\<exists>j. \<forall>cid e. map_of (caps s') cid = Some e \<longrightarrow> decay_due cfg (nows j) cid e = None))"
  using assms
proof (induction fuel arbitrary: k s as)
  case (Suc fuel)
  obtain bs t where e: "evaluate E cfg (nows k) s = (Inr bs, t)"
    using Suc.prems by (cases "evaluate E cfg (nows k) s") (auto split: sum.splits)
  show ?case
  proof (cases "bs = []")
    case True
    then have r: "as = []" "s' = t" using Suc.prems e by simp_all
    note ev = evaluate_decays [OF e, unfolded True]
    have "t = s" using ev by blast
    then have "decay_enabled cfg \<longrightarrow>
        (\<exists>j. \<forall>cid e. map_of (caps s') cid = Some e \<longrightarrow> decay_due cfg (nows j) cid e = None)"
      using ev r(2) by blast
    moreover have "decays_to (caps s) (caps s')" using ev r(2) by blast
    moreover have "total_level (caps s) = total_level (caps s') + length as"
      using ev [THEN conjunct2, THEN conjunct1] r by simp
    ultimately show ?thesis by blast
  next
    case False
    then obtain cs where c: "evaluate_startup E cfg nows (Suc k) fuel t = Some (Inr cs, s')" "as = bs @ cs"
      using Suc.prems e
      by (cases "evaluate_startup E cfg nows (Suc k) fuel t") (auto split: sum.splits prod.splits)
    note ih = Suc.IH [OF c(1)] and ev = evaluate_decays [OF e]
    have "decays_to (caps s) (caps s')" using ih ev decays_to_trans by blast
    moreover have "total_level (caps s) = total_level (caps s') + length as"
      using ih [THEN conjunct2, THEN conjunct1] ev [THEN conjunct2, THEN conjunct1] c(2) by simp
    ultimately show ?thesis using ih by blast
  qed
qed simp

text \<open>
  C34: The startup evaluation of temporal decay terminates: a number of passes above the sum of all
  levels suffices, whatever the clock does between the passes and whichever emissions fail.
\<close>

theorem decay_startup_terminates:
  assumes "total_level (caps s) < fuel"
  shows "\<exists>r. evaluate_startup E cfg nows 0 fuel s = Some r"
  using evaluate_startup_fuel [OF assms] by blast

text \<open>
  When it returns normally, no capability gained a level, every demotion is one reported action of
  one level, and (if decay is enabled) no capability is due at the clock of the last pass.
\<close>

theorem decay_startup_fixpoint:
  assumes "evaluate_startup E cfg nows 0 fuel s = Some (Inr as, s')"
  shows "decays_to (caps s) (caps s') \<and> total_level (caps s) = total_level (caps s') + length as \<and>
    (decay_enabled cfg \<longrightarrow>
      (\<exists>j. \<forall>cid e. map_of (caps s') cid = Some e \<longrightarrow> decay_due cfg (nows j) cid e = None))"
  using assms by (rule evaluate_startup_fixpoint)

text \<open>
  The passes overshoot: a demotion clears the outcomes, so the next pass finds an empty window.
  With a policy for every level, a capability that is demoted at all at startup ends at level 0,
  however active it was: not at the level that its recent outcomes warrant.
\<close>

theorem decay_startup_cascades:
  assumes "evaluate_startup E cfg nows 0 fuel s = Some (Inr as, s')" and "decay_enabled cfg" and "states_ok (caps s)"
    and "map_of (caps s) cid = Some e" and "map_of (caps s') cid = Some e'" and "e' \<noteq> e"
    and "\<And>l. 1 \<le> l \<Longrightarrow> l \<le> 3 \<Longrightarrow> \<exists>p. get_policy cfg cid l = Some p \<and> 0 < min_outcomes p"
  shows "effective_wal_level e' = 0"
proof -
  note fp = evaluate_startup_fixpoint [OF assms(1)]
  obtain j where j: "decay_due cfg (nows j) cid e' = None" using fp assms(2,5) by blast
  have d: "evaluable_outcomes e' = []" "0 \<le> effective_wal_level e'" "effective_wal_level e' < effective_wal_level e"
    using fp assms(4-6) unfolding decays_to_def by (metis option.inject)+
  have "effective_wal_level e \<le> 3" using assms(3,4) by (auto simp: states_ok_def entry_ok_def)
  show ?thesis
  proof (rule ccontr)
    assume "effective_wal_level e' \<noteq> 0"
    then have "1 \<le> effective_wal_level e'" using d(2) by simp
    moreover obtain p where "get_policy cfg cid (effective_wal_level e') = Some p" "0 < min_outcomes p"
      using assms(7) [of "effective_wal_level e'"] d(2,3) \<open>effective_wal_level e \<le> 3\<close> calculation by auto
    ultimately show False using j d(1) by (simp add: decay_due_def count_outcomes_in_window_def Let_def)
  qed
qed

section \<open>Witnesses\<close>

definition sample_decay :: decay_config where
  "sample_decay = \<lparr>system_defaults = [(1, \<lparr>window_days = 90, min_outcomes = 1\<rparr>), (2, \<lparr>window_days = 60, min_outcomes = 2\<rparr>),
     (3, \<lparr>window_days = 30, min_outcomes = 5\<rparr>)], capability_overrides = [], decay_enabled = True\<rparr>"

text \<open>Active enough for level 2, but not for level 3.\<close>

definition busy_entry :: cap_state where
  "busy_entry = (fresh_cap_state 0)\<lparr>effective_wal_level := 3,
     evaluable_outcomes := replicate 4 \<lparr>disposition = ''accepted'', outcome_time = Some 0\<rparr>\<rparr>"

definition busy_trust :: trust where
  "busy_trust = \<lparr>alog = [], caps = [(''c'', busy_entry)]\<rparr>"

theorem decay_startup_terminates_witness:
  "\<exists>r. evaluate_startup good_env sample_decay (\<lambda>_. 0) 0 4 busy_trust = Some r"
  by (rule decay_startup_terminates)
    (simp add: busy_trust_def total_level_def busy_entry_def fresh_cap_state_def)

lemma busy_run:
  "\<exists>as s'. evaluate_startup good_env sample_decay (\<lambda>_. 0) 0 4 busy_trust = Some (Inr as, s') \<and>
    (\<exists>e'. map_of (caps s') ''c'' = Some e' \<and> e' \<noteq> busy_entry)"
  by (simp add: busy_trust_def busy_entry_def fresh_cap_state_def evaluate_def decay_one_def decay_due_def
      sample_decay_def get_policy_def count_outcomes_in_window_def days_def seconds_def bind_r_def on_caps_def
      demote_def on_entry_def reset_counters_def good_env_def emit_def eval_nat_numeral Let_def)

theorem decay_startup_fixpoint_witness:
  "\<exists>as s'. evaluate_startup good_env sample_decay (\<lambda>_. 0) 0 4 busy_trust = Some (Inr as, s') \<and>
    decays_to (caps busy_trust) (caps s')"
  using busy_run decay_startup_fixpoint by blast

theorem decay_startup_cascades_witness:
  "\<exists>as s' e'. evaluate_startup good_env sample_decay (\<lambda>_. 0) 0 4 busy_trust = Some (Inr as, s') \<and>
    map_of (caps s') ''c'' = Some e' \<and> effective_wal_level e' = 0"
proof -
  obtain as s' e' where r: "evaluate_startup good_env sample_decay (\<lambda>_. 0) 0 4 busy_trust = Some (Inr as, s')"
    "map_of (caps s') ''c'' = Some e'" "e' \<noteq> busy_entry" using busy_run by blast
  have ok: "states_ok (caps busy_trust)"
    by (simp add: busy_trust_def states_ok_def entry_ok_def busy_entry_def fresh_cap_state_def EVALUABLE_OUTCOMES_MAX_def)
  have pol: "\<exists>p. get_policy sample_decay ''c'' l = Some p \<and> 0 < min_outcomes p" if "1 \<le> l" "l \<le> 3" for l :: int
  proof -
    have "l = 1 \<or> l = 2 \<or> l = 3" using that by arith
    then show ?thesis by (auto simp: get_policy_def sample_decay_def)
  qed
  have "effective_wal_level e' = 0"
    by (rule decay_startup_cascades [OF r(1) _ ok _ r(2,3) pol]) (simp_all add: sample_decay_def busy_trust_def)
  then show ?thesis using r by blast
qed

end
