(* ===== verification/Startup.thy ===== *)
theory Startup
  imports Decay
begin

text \<open>
  The startup sequence: \<open>orchestrator/startup.py\<close>. The parsed configuration files, the hash of the
  configuration and Ollama's answer (model name and digest) are arguments; \<open>hash_state\<close> is the hash of
  the state file. Error texts are tags.
\<close>

record startup_meta =
  last_config_hash :: "string option"
  last_ollama_model :: "string option"
  last_ollama_digest :: "string option"

record startup_state = trust +
  meta :: startup_meta

section \<open>Sensitivity configuration\<close>

record sensitivity_entry =
  sens_class :: string
  sens_hardcoded :: json
  sens_action :: json

text \<open>The entries of \<open>sensitivity.json\<close>; \<open>None\<close> when the file cannot be read or parsed.\<close>

definition validate_sensitivity_config :: "sensitivity_entry list option \<Rightarrow> string list" where
  "validate_sensitivity_config cfg =
    (case cfg of
       None \<Rightarrow> [''Cannot load sensitivity config'']
     | Some classes \<Rightarrow>
        (case List.find (\<lambda>e. sens_class e = ''credential'') classes of
           None \<Rightarrow> [''missing credential class entry'']
         | Some e \<Rightarrow>
             (if sens_hardcoded e \<noteq> JBool True then [''credential class must have hardcoded: true''] else []) @
             (if sens_action e \<noteq> JStr ''strip'' then [''credential class must have action: strip''] else [])))"

section \<open>Reconciliation\<close>

definition reconcile_one ::
    "env \<Rightarrow> instant \<Rightarrow> string \<times> capability \<Rightarrow> 'a trust_scheme \<Rightarrow> (py_exc + nat) \<times> 'a trust_scheme" where
  "reconcile_one E now kc s =
    (let cid = fst kc; desired = desired_wal_level (snd kc) in
     case get_effective_wal (caps s) cid of
       Inl x \<Rightarrow> (Inl x, s)
     | Inr eff \<Rightarrow>
        if desired = eff then (Inr 0, s)
        else if desired > eff then
          bind_r (emit E (\<lambda>sp. event_wal_promoted sp cid (cap_name (snd kc)) eff desired None ''human'')) (\<lambda>ev.
          bind_r (on_caps (set_effective_wal cid desired)) (\<lambda>_.
          bind_r (on_caps (\<lambda>S. if eff = -1 then on_entry cid (\<lambda>e. e\<lparr>cap_status := ''active''\<rparr>) S else Inr S)) (\<lambda>_.
          return_r 1))) s
        else
          bind_r (emit E (\<lambda>sp. event_wal_demoted sp cid (cap_name (snd kc)) eff desired ''manual'' None)) (\<lambda>ev.
          bind_r (on_caps (demote cid desired)) (\<lambda>_.
          bind_r (on_caps (reset_counters now cid)) (\<lambda>_.
          return_r 1))) s)"

definition reconcile ::
    "env \<Rightarrow> instant \<Rightarrow> registry \<Rightarrow> 'a trust_scheme \<Rightarrow> (py_exc + nat) \<times> 'a trust_scheme" where
  "reconcile E now R = bind_r (map_r (reconcile_one E now) R) (\<lambda>ns. return_r (sum_list ns))"

section \<open>The sequence\<close>

record startup_result =
  success :: bool
  errors :: "string list"
  reconciliation_events :: nat

definition startup_failure :: "string list \<Rightarrow> startup_result" where
  "startup_failure es = \<lparr>success = False, errors = es, reconciliation_events = 0\<rparr>"

definition components_loaded :: "string list" where
  "components_loaded = [''audit_log_writer'', ''capability_registry'', ''capability_state'', ''permission_checker'',
    ''demotion_engine'', ''context_packager'']"

definition model_changed :: "startup_meta \<Rightarrow> string option \<times> string option \<Rightarrow> bool" where
  "model_changed m ollama \<longleftrightarrow> last_ollama_model m \<noteq> None \<and> fst ollama \<noteq> None \<and>
    (last_ollama_model m \<noteq> fst ollama \<or> last_ollama_digest m \<noteq> snd ollama)"

definition startup_run ::
    "env \<Rightarrow> (cap_states \<Rightarrow> string) \<Rightarrow> instant \<Rightarrow> registry \<Rightarrow> string \<Rightarrow> sensitivity_entry list option
      \<Rightarrow> string option \<times> string option \<Rightarrow> bool \<Rightarrow> 'a startup_state_scheme
      \<Rightarrow> (py_exc + startup_result) \<times> 'a startup_state_scheme" where
  "startup_run E hash_state now data config_hash sens ollama state_file_exists s =
    (case registry_load data of
       Inl x \<Rightarrow> (Inr (startup_failure [''Registry validation failed'']), s)
     | Inr R \<Rightarrow>
        (if validate_gate_relaxation R \<noteq> [] then (Inr (startup_failure [''gate relaxation'']), s)
         else if validate_sensitivity_config sens \<noteq> [] then (Inr (startup_failure (validate_sensitivity_config sens)), s)
         else
           (let s = (if state_file_exists then s
                     else s\<lparr>caps := initialize_from_registry now R,
                            meta := \<lparr>last_config_hash = None, last_ollama_model = None, last_ollama_digest = None\<rparr>\<rparr>);
                m = meta s
            in bind_r
                 (if last_config_hash m \<noteq> Some config_hash then
                    bind_r (reconcile E now R) (\<lambda>n.
                    bind_r (emit E (\<lambda>sp. event_system_config_change sp (last_config_hash m) config_hash None)) (\<lambda>ev.
                    return_r n))
                  else return_r 0) (\<lambda>n.
               bind_r
                 (if model_changed m ollama then
                    (let affected = filter (\<lambda>c. \<not> startswith c ''_'') (dict_keys R) in
                     bind_r (emit E (\<lambda>sp. event_system_model_change sp (last_ollama_model m) (the (fst ollama)) affected)) (\<lambda>ev.
                     bind_r (handle_model_change E R now (Some (source_event_id ev)) affected) (\<lambda>rs. return_r ())))
                  else return_r ()) (\<lambda>_ s1.
               let s2 = s1\<lparr>meta := \<lparr>last_config_hash = Some config_hash, last_ollama_model = fst ollama,
                      last_ollama_digest = snd ollama\<rparr>\<rparr>
               in bind_r (emit E (\<lambda>sp. event_system_startup sp (Some config_hash) (Some (hash_state (caps s2)))
                      (fst ollama) (snd ollama) (Some components_loaded) None)) (\<lambda>ev.
                  return_r \<lparr>success = True, errors = [], reconciliation_events = n\<rparr>) s2)) s)))"

section \<open>Reconciliation reaches the desired levels\<close>

definition reconciled :: "capability \<Rightarrow> cap_state \<Rightarrow> bool" where
  "reconciled c e \<longleftrightarrow> effective_wal e = desired_wal_level c \<and> cap_status e = ''active''"

lemma reconciled_iff:
  "reconciled c e \<longleftrightarrow> effective_wal_level e = desired_wal_level c \<and> cap_status e = ''active''"
  by (auto simp: reconciled_def effective_wal_def)

lemma reconcile_one_effect:
  assumes "reconcile_one E now (cid, c) s = (Inr n, s')" and "0 \<le> desired_wal_level c"
    and "states_ok (caps s)"
  shows "(\<exists>e'. map_of (caps s') cid = Some e' \<and> reconciled c e' \<and>
      length (evaluable_outcomes e') \<le> EVALUABLE_OUTCOMES_MAX) \<and>
    (\<forall>k. k \<noteq> cid \<longrightarrow> map_of (caps s') k = map_of (caps s) k) \<and> length (alog s') = length (alog s) + n \<and>
    wf_dict (caps s')"
proof -
  obtain eff where "get_effective_wal (caps s) cid = Inr eff"
    using assms(1) by (auto simp: reconcile_one_def Let_def split: sum.splits)
  then obtain e where e: "map_of (caps s) cid = Some e" "eff = effective_wal e" using entry_of_effective_wal by blast
  have g: "get_effective_wal (caps s) cid = Inr (effective_wal e)"
    using e(1) by (simp add: get_effective_wal_def get_entry_def)
  have ok: "entry_ok e" using assms(3) e(1) by (auto simp: states_ok_def)
  have len: "length (evaluable_outcomes e) \<le> EVALUABLE_OUTCOMES_MAX" using ok by (simp add: entry_ok_def)
  have wf: "wf_dict (caps s)" using assms(3) by (simp add: states_ok_def)
  have act: "effective_wal e \<noteq> -1 \<Longrightarrow> cap_status e = ''active''"
    using ok by (auto simp: entry_ok_def effective_wal_def)
  consider "desired_wal_level c = effective_wal e" | "desired_wal_level c > effective_wal e"
    | "desired_wal_level c < effective_wal e" by linarith
  then show ?thesis
  proof cases
    case 1
    then have "cap_status e = ''active''" using act assms(2) by simp
    then show ?thesis using assms(1) 1 e g len wf by (simp add: reconcile_one_def reconciled_def Let_def)
  next
    case 2
    then show ?thesis using assms(1) e(1) g act len wf
      by (auto simp: reconcile_one_def reconciled_iff Let_def bind_r_def emit_def on_caps_def set_effective_wal_def
          on_entry_def split: sum.splits if_splits)
  next
    case 3
    then show ?thesis using assms(1,2) e(1) g wf
      by (auto simp: reconcile_one_def reconciled_iff Let_def bind_r_def emit_def on_caps_def demote_def
          on_entry_def reset_counters_def split: sum.splits if_splits)
  qed
qed


lemma reconcile_one_ok:
  assumes "reconcile_one E now (cid, c) s = (Inr n, s')" and "states_ok (caps s)"
    and "0 \<le> desired_wal_level c" "desired_wal_level c \<le> 3"
  shows "states_ok (caps s')"
  unfolding states_ok_def
proof (intro conjI allI impI)
  note eff = reconcile_one_effect [OF assms(1,3,2)]
  show "wf_dict (caps s')" using eff by blast
  fix k e assume k: "map_of (caps s') k = Some e"
  show "entry_ok e"
  proof (cases "k = cid")
    case True
    then have "reconciled c e" "length (evaluable_outcomes e) \<le> EVALUABLE_OUTCOMES_MAX" using eff k by auto
    then show ?thesis using assms(3,4) by (simp add: reconciled_iff entry_ok_def)
  next
    case False
    then have "map_of (caps s) k = Some e" using eff k by simp
    then show ?thesis using assms(2) by (simp add: states_ok_def)
  qed
qed

lemma reconcile_all:
  assumes "map_r (reconcile_one E now) R s = (Inr ns, s')" and "wf_dict R" and "states_ok (caps s)"
    and "\<forall>kc \<in> set R. 0 \<le> desired_wal_level (snd kc) \<and> desired_wal_level (snd kc) \<le> 3"
  shows "states_ok (caps s') \<and> (\<forall>kc \<in> set R. \<exists>e'. map_of (caps s') (fst kc) = Some e' \<and> reconciled (snd kc) e') \<and>
    (\<forall>k. k \<notin> fst ` set R \<longrightarrow> map_of (caps s') k = map_of (caps s) k) \<and>
    length (alog s') = length (alog s) + sum_list ns"
  using assms
proof (induction R arbitrary: s ns)
  case (Cons kc R)
  obtain cid c where kc: "kc = (cid, c)" by force
  obtain n t ms where 1: "reconcile_one E now (cid, c) s = (Inr n, t)" "map_r (reconcile_one E now) R t = (Inr ms, s')"
    "ns = n # ms"
    using Cons.prems(1) kc by (auto split: prod.splits sum.splits)
  have d: "0 \<le> desired_wal_level c" "desired_wal_level c \<le> 3" using Cons.prems(4) kc by simp_all
  note one = reconcile_one_effect [OF 1(1) d(1) Cons.prems(3)]
  have t: "states_ok (caps t)" using reconcile_one_ok [OF 1(1) Cons.prems(3) d] .
  have ih: "states_ok (caps s')" "\<forall>kc \<in> set R. \<exists>e'. map_of (caps s') (fst kc) = Some e' \<and> reconciled (snd kc) e'"
    "\<forall>k. k \<notin> fst ` set R \<longrightarrow> map_of (caps s') k = map_of (caps t) k" "length (alog s') = length (alog t) + sum_list ms"
    using Cons.IH [OF 1(2) _ t] Cons.prems(2,4) by auto
  have "cid \<notin> fst ` set R" using Cons.prems(2) kc by simp
  then have "map_of (caps s') cid = map_of (caps t) cid" using ih(3) by blast
  moreover have "\<exists>e'. map_of (caps t) cid = Some e' \<and> reconciled c e'" using one [THEN conjunct1] by blast
  ultimately have "\<exists>e'. map_of (caps s') cid = Some e' \<and> reconciled c e'" by simp
  then have "\<forall>kc' \<in> set (kc # R). \<exists>e'. map_of (caps s') (fst kc') = Some e' \<and> reconciled (snd kc') e'"
    using ih(2) kc \<open>map_of (caps s') cid = map_of (caps t) cid\<close> by simp
  moreover have "map_of (caps s') k = map_of (caps s) k" if "k \<notin> fst ` set (kc # R)" for k
  proof -
    have "k \<noteq> cid" "k \<notin> fst ` set R" using that kc by auto
    then have "map_of (caps s') k = map_of (caps t) k" "map_of (caps t) k = map_of (caps s) k"
      using ih(3) one by blast+
    then show ?thesis by simp
  qed
  moreover have "length (alog s') = length (alog s) + sum_list ns"
    using ih(4) one [THEN conjunct2, THEN conjunct2, THEN conjunct1] 1(3) by simp
  ultimately show ?case using ih(1) by blast
qed simp

text \<open>
  After a reconciliation every registered capability is active at exactly its desired level, the
  others are untouched, and the number returned is the number of events it appended.
\<close>

theorem reconcile_reaches_desired:
  assumes "registry_load data = Inr R" and "wf_dict R" and "states_ok (caps s)" and "reconcile E now R s = (Inr n, s')"
  shows "states_ok (caps s') \<and> (\<forall>kc \<in> set R. \<exists>e'. map_of (caps s') (fst kc) = Some e' \<and> reconciled (snd kc) e') \<and>
    (\<forall>k. k \<notin> fst ` set R \<longrightarrow> map_of (caps s') k = map_of (caps s) k) \<and> length (alog s') = length (alog s) + n"
proof -
  have R: "R = data" using assms(1) by (auto simp: registry_load_def split: option.splits)
  have "\<forall>kc \<in> set data. validate_fields (snd kc) = None"
    using assms(1) by (auto simp: registry_load_def first_error_None split: option.splits)
  then have "\<forall>kc \<in> set R. 0 \<le> desired_wal_level (snd kc) \<and> desired_wal_level (snd kc) \<le> 3"
    unfolding R by (metis order_trans validate_fields_None(1,2,3))
  moreover obtain ns where "map_r (reconcile_one E now) R s = (Inr ns, s')" "n = sum_list ns"
    using assms(4) by (auto simp: reconcile_def bind_r_def split: prod.splits sum.splits)
  ultimately show ?thesis using reconcile_all assms(2,3) by blast
qed

text \<open>
  A capability that the configuration adds cannot be started: when the configuration hash has
  changed and a registered capability has no entry in the existing state file, the startup raises
  \<open>KeyError\<close> instead of initialising the entry (the reconciliation only looks levels up).
\<close>

theorem startup_new_capability_raises:
  assumes "registry_load ((cid, c) # R) = Inr ((cid, c) # R)" and "validate_gate_relaxation ((cid, c) # R) = []"
    and "validate_sensitivity_config sens = []" and "last_config_hash (meta s) \<noteq> Some h"
    and "map_of (caps s) cid = None"
  shows "startup_run E hs now ((cid, c) # R) h sens ollama True s = (Inl (unknown_capability cid), s)"
proof -
  have "map_r (reconcile_one E now) ((cid, c) # R) s = (Inl (unknown_capability cid), s)"
    using assms(5) by (simp add: reconcile_one_def get_effective_wal_def get_entry_def)
  then have "reconcile E now ((cid, c) # R) s = (Inl (unknown_capability cid), s)" by (simp add: reconcile_def bind_r_def)
  then show ?thesis using assms(1-4) by (simp add: startup_run_def bind_r_def Let_def)
qed

lemma bind_r_Inr: "bind_r m f s = (Inr v, s') \<longleftrightarrow> (\<exists>x t. m s = (Inr x, t) \<and> f x t = (Inr v, s'))"
  by (auto simp: bind_r_def split: prod.splits sum.splits)

lemma emit_Inr:
  "emit E f s = (Inr ev, s') \<longleftrightarrow> (\<exists>ok. outcome_of E (length (alog s)) = Inr ok) \<and>
    ev = f (stamp_of E (length (alog s))) \<and> s' = s\<lparr>alog := alog s @ [ev]\<rparr>"
  by (auto simp: emit_def Let_def split: sum.splits)

text \<open>
  Only a validated configuration starts: a successful startup has loaded a well-formed registry
  that relaxes no default gate, a sensitivity file that strips credentials, and has ended its audit
  trail with the \<open>system.startup\<close> event.
\<close>

theorem startup_only_validated:
  assumes "startup_run E hs now data h sens ollama ex s = (Inr res, s')" and "success res"
  shows "(\<exists>R. registry_load data = Inr R \<and> validate_gate_relaxation R = []) \<and>
    validate_sensitivity_config sens = [] \<and> last_config_hash (meta s') = Some h \<and>
    alog s' \<noteq> [] \<and> event_str (last (alog s')) ''event_type'' = ''system.startup''"
proof -
  obtain R where R: "registry_load data = Inr R" "validate_gate_relaxation R = []" "validate_sensitivity_config sens = []"
    using assms by (auto simp: startup_run_def startup_failure_def split: sum.splits if_splits)
  have "last_config_hash (meta s') = Some h \<and> alog s' \<noteq> [] \<and>
      event_str (last (alog s')) ''event_type'' = ''system.startup''"
    using assms(1) R
    by (auto simp: startup_run_def Let_def bind_r_Inr emit_Inr event_system_startup_def event_str_def
        simp del: split_paired_Ex split: if_splits)
  then show ?thesis using R by blast
qed

section \<open>Witnesses\<close>

definition sample_sensitivity :: "sensitivity_entry list option" where
  "sample_sensitivity = Some [\<lparr>sens_class = ''credential'', sens_hardcoded = JBool True, sens_action = JStr ''strip''\<rparr>]"

definition old_state :: "startup_state" where
  "old_state = \<lparr>alog = [], caps = [(''route.cloud.claude'', (fresh_cap_state 0)\<lparr>effective_wal_level := 2\<rparr>),
     (''context.package'', (fresh_cap_state 0)\<lparr>effective_wal_level := -1, cap_status := ''suspended''\<rparr>)],
     meta = \<lparr>last_config_hash = Some ''old'', last_ollama_model = None, last_ollama_digest = None\<rparr>\<rparr>"

lemma old_state_ok: "states_ok (caps old_state)"
  by (auto simp: states_ok_def old_state_def entry_ok_def fresh_cap_state_def split: if_splits)

lemma sample_gates_ok: "validate_gate_relaxation sample_registry = []"
  by code_simp

lemma old_state_reconciles: "\<exists>s'. reconcile good_env 5 sample_registry old_state = (Inr 2, s')"
  by (simp add: reconcile_def sample_registry_def reconcile_one_def old_state_def get_effective_wal_def get_entry_def
      effective_wal_def fresh_cap_state_def sample_cloud_def sample_packager_def bind_r_def Let_def on_caps_def demote_def
      on_entry_def reset_counters_def set_effective_wal_def)

theorem reconcile_reaches_desired_witness:
  "\<exists>s'. reconcile good_env 5 sample_registry old_state = (Inr 2, s') \<and> states_ok (caps s') \<and>
    length (alog s') = 2"
proof -
  obtain s' where s': "reconcile good_env 5 sample_registry old_state = (Inr 2, s')" using old_state_reconciles by blast
  have "wf_dict sample_registry" by (simp add: sample_registry_def)
  from reconcile_reaches_desired [OF sample_registry_load this old_state_ok s']
  show ?thesis using s' by (auto simp: old_state_def)
qed

theorem startup_new_capability_raises_witness:
  "startup_run good_env (\<lambda>_. ''h'') 5 sample_registry ''new'' sample_sensitivity (None, None) True
      (old_state\<lparr>caps := []\<rparr>) = (Inl (unknown_capability ''route.cloud.claude''), old_state\<lparr>caps := []\<rparr>)"
  unfolding sample_registry_def
  by (rule startup_new_capability_raises)
    (use sample_registry_load sample_gates_ok in \<open>simp_all add: sample_registry_def validate_sensitivity_config_def
       sample_sensitivity_def old_state_def\<close>)

theorem startup_only_validated_witness:
  "\<exists>res s'. startup_run good_env (\<lambda>_. ''h'') 5 sample_registry ''new'' sample_sensitivity (None, None) True old_state
      = (Inr res, s') \<and> success res \<and> event_str (last (alog s')) ''event_type'' = ''system.startup''"
proof -
  obtain s1 where r: "reconcile good_env 5 sample_registry old_state = (Inr 2, s1)" using old_state_reconciles by blast
  have "validate_sensitivity_config sample_sensitivity = []"
    by (simp add: validate_sensitivity_config_def sample_sensitivity_def)
  then obtain res s' where x: "startup_run good_env (\<lambda>_. ''h'') 5 sample_registry ''new'' sample_sensitivity (None, None)
      True old_state = (Inr res, s')" "success res"
    using r sample_registry_load sample_gates_ok
    by (simp add: startup_run_def bind_r_def Let_def old_state_def model_changed_def)
  from startup_only_validated [OF x] show ?thesis using x by blast
qed

end
