(* ===== verification/Write_Through.thy ===== *)
theory Write_Through
  imports Prelude
begin

text \<open>
  The persistence that the hub's managers share: a value in memory, written through to a row on every
  change, a failing statement only logged, and read back when the manager is built again. The contract
  is the locale \<open>write_through\<close>; it is interpreted for the operational state of the hub, the circuit of a
  route and the outcome of a review.
\<close>

text \<open>The value that the last successful write of a history left in the row.\<close>

fun last_written :: "'v option \<Rightarrow> (bool \<times> 'v) list \<Rightarrow> 'v option" where
  "last_written row [] = row"
| "last_written row ((up, v) # ws) = last_written (if up then Some v else row) ws"

locale write_through =
  fixes inv :: "'s \<Rightarrow> bool" and view :: "'s \<Rightarrow> 'v option" and stored :: "'s \<Rightarrow> 'v option"
    and put :: "bool \<Rightarrow> 'v \<Rightarrow> 's \<Rightarrow> 's" and reopen :: "'s \<Rightarrow> 's" and initial :: "'v option"
  assumes put_inv: "inv s \<Longrightarrow> inv (put up v s)"
    and put_view: "inv s \<Longrightarrow> view (put up v s) = Some v"
    and put_stored: "inv s \<Longrightarrow> stored (put up v s) = (if up then Some v else stored s)"
    and reopen_inv: "inv s \<Longrightarrow> inv (reopen s)"
    and reopen_view: "inv s \<Longrightarrow> view (reopen s) = (case stored s of Some v \<Rightarrow> Some v | None \<Rightarrow> initial)"
    and reopen_stored: "inv s \<Longrightarrow> stored (reopen s) = stored s"
begin

definition puts :: "(bool \<times> 'v) list \<Rightarrow> 's \<Rightarrow> 's" where
  "puts ws s = fold (\<lambda>(up, v). put up v) ws s"

lemma puts_stored: "inv s \<Longrightarrow> inv (puts ws s) \<and> stored (puts ws s) = last_written (stored s) ws"
  unfolding puts_def
  by (induction ws arbitrary: s) (auto simp: put_inv put_stored)

text \<open>A restart brings back the last value whose write succeeded; later ones are lost.\<close>

lemma restart_last_written:
  "inv s \<Longrightarrow> view (reopen (puts ws s)) = (case last_written (stored s) ws of Some v \<Rightarrow> Some v | None \<Rightarrow> initial)"
  by (simp add: puts_stored reopen_view)

lemma restart_keeps: "inv s \<Longrightarrow> view (reopen (put True v s)) = Some v"
  by (simp add: put_inv reopen_view put_stored)

lemma restart_idempotent: "inv s \<Longrightarrow> view (reopen (reopen s)) = view (reopen s)"
  by (simp add: reopen_inv reopen_view reopen_stored)

end

end
