(* ===== verification/Connectivity.thy ===== *)
theory Connectivity
  imports Effects Write_Through
begin

text \<open>
  The circuit breakers of the cloud routes: \<open>orchestrator/connectivity_monitor.py\<close>, and the operational
  state of the hub: \<open>orchestrator/hub_state.py\<close>. The HTTP probe's answer (a status code, or \<open>None\<close> when it
  raised) and the clocks are arguments; events go to the trail through a task that nobody awaits. The
  database rows of the prefix \<open>circuit:\<close> are a dict by route; \<open>up\<close> says whether a statement succeeds.
\<close>

section \<open>Circuit breakers\<close>

datatype circuit_state = CLOSED | OPEN | HALF_OPEN

definition FAILURES_TO_OPEN :: nat where
  "FAILURES_TO_OPEN = 2"

definition SUCCESSES_TO_CLOSED :: nat where
  "SUCCESSES_TO_CLOSED = 3"

record route_health =
  circuit :: circuit_state
  consecutive_failures :: nat
  consecutive_successes :: nat
  last_probe_time :: "instant option"
  last_success_time :: "instant option"
  last_failure_time :: "instant option"

definition fresh_health :: route_health where
  "fresh_health = \<lparr>circuit = CLOSED, consecutive_failures = 0, consecutive_successes = 0,
     last_probe_time = None, last_success_time = None, last_failure_time = None\<rparr>"

record monitor = audit +
  route_ids :: "string list"
  health :: "(string, route_health) dict"
  circuit_db :: "(string, route_health) dict option"

definition load_circuits :: "bool \<Rightarrow> 'a monitor_scheme \<Rightarrow> 'a monitor_scheme" where
  "load_circuits up M =
    (case circuit_db M of
       None \<Rightarrow> M
     | Some rows \<Rightarrow>
         if up then
           M\<lparr>health := map (\<lambda>(rid, rh). (rid, case map_of rows rid of Some r \<Rightarrow> r | None \<Rightarrow> rh)) (health M)\<rparr>
         else M)"

definition new_monitor :: "bool \<Rightarrow> string list \<Rightarrow> (string, route_health) dict option \<Rightarrow> event list \<Rightarrow> monitor" where
  "new_monitor up routes rows trail =
    load_circuits up \<lparr>alog = trail, route_ids = remdups routes,
      health = map (\<lambda>rid. (rid, fresh_health)) (remdups routes), circuit_db = (if up then rows else None)\<rparr>"

definition get_route_health :: "'a monitor_scheme \<Rightarrow> string \<Rightarrow> route_health option" where
  "get_route_health M rid = map_of (health M) rid"

definition is_route_available :: "'a monitor_scheme \<Rightarrow> string \<Rightarrow> bool" where
  "is_route_available M rid =
    (case map_of (health M) rid of None \<Rightarrow> False | Some rh \<Rightarrow> circuit rh \<in> {CLOSED, HALF_OPEN})"

definition get_available_routes :: "'a monitor_scheme \<Rightarrow> string list" where
  "get_available_routes M = map fst (filter (\<lambda>(rid, rh). circuit rh \<in> {CLOSED, HALF_OPEN}) (health M))"

definition last_successful_probe :: "'a monitor_scheme \<Rightarrow> instant option" where
  "last_successful_probe M =
    fold (\<lambda>rh latest. case last_success_time rh of
        None \<Rightarrow> latest
      | Some t \<Rightarrow> (case latest of None \<Rightarrow> Some t | Some l \<Rightarrow> if t > l then Some t else Some l))
      (dict_vals (health M)) None"

definition count_result :: "bool \<Rightarrow> instant \<Rightarrow> route_health \<Rightarrow> route_health" where
  "count_result ok now rh =
    (if ok then rh\<lparr>consecutive_successes := consecutive_successes rh + 1, consecutive_failures := 0,
              last_success_time := Some now\<rparr>
     else rh\<lparr>consecutive_failures := consecutive_failures rh + 1, consecutive_successes := 0,
              last_failure_time := Some now\<rparr>)"

definition next_circuit :: "route_health \<Rightarrow> circuit_state" where
  "next_circuit rh =
    (if consecutive_failures rh \<ge> FAILURES_TO_OPEN then OPEN
     else if consecutive_successes rh \<ge> SUCCESSES_TO_CLOSED then CLOSED
     else if circuit rh = OPEN \<and> consecutive_successes rh \<ge> 1 then HALF_OPEN
     else if circuit rh = CLOSED \<and> consecutive_failures rh = 1 then CLOSED
     else circuit rh)"

definition circuit_text :: "circuit_state \<Rightarrow> string" where
  "circuit_text c = (case c of OPEN \<Rightarrow> ''down'' | CLOSED \<Rightarrow> ''up'' | HALF_OPEN \<Rightarrow> ''degraded'')"

definition on_state_change :: "env \<Rightarrow> int \<Rightarrow> string \<Rightarrow> circuit_state \<Rightarrow> 'a monitor_scheme \<Rightarrow> 'a monitor_scheme" where
  "on_state_change E queued rid new_state M =
    snd (emit E (\<lambda>sp. event_system_connectivity_hub_cloud sp (circuit_text new_state) [rid] queued) M)"

text \<open>\<open>_db_write\<close>: the write-through of one route; \<open>up\<close> says whether the statement succeeds.\<close>

definition circuit_db_write :: "bool \<Rightarrow> string \<Rightarrow> route_health \<Rightarrow> 'a monitor_scheme \<Rightarrow> 'a monitor_scheme" where
  "circuit_db_write up rid rh M =
    M\<lparr>circuit_db := map_option (\<lambda>rows. if up then AList.update rid rh rows else rows) (circuit_db M)\<rparr>"

definition record_result ::
    "env \<Rightarrow> bool \<Rightarrow> int \<Rightarrow> string \<Rightarrow> bool \<Rightarrow> instant \<Rightarrow> 'a monitor_scheme \<Rightarrow> 'a monitor_scheme" where
  "record_result E up queued rid ok now M =
    (case map_of (health M) rid of
       None \<Rightarrow> M
     | Some rh \<Rightarrow>
         (let rh1 = count_result ok now rh;
              rh2 = rh1\<lparr>circuit := next_circuit rh1\<rparr>;
              M1 = circuit_db_write up rid rh2 (M\<lparr>health := AList.update rid rh2 (health M)\<rparr>)
          in if circuit rh2 \<noteq> circuit rh then on_state_change E queued rid (circuit rh2) M1 else M1))"

text \<open>\<open>probe_route\<close>: the HEAD request succeeds when it answers below 500.\<close>

definition probe_ok :: "nat option \<Rightarrow> bool" where
  "probe_ok status = (case status of None \<Rightarrow> False | Some c \<Rightarrow> c < 500)"

definition probe_route ::
    "env \<Rightarrow> bool \<Rightarrow> int \<Rightarrow> string \<Rightarrow> nat option \<Rightarrow> instant \<Rightarrow> 'a monitor_scheme \<Rightarrow> bool \<times> 'a monitor_scheme" where
  "probe_route E up queued rid status now M =
    (if rid \<notin> set (route_ids M) then (False, M)
     else (probe_ok status,
       record_result E up queued rid (probe_ok status) now
         (M\<lparr>health := dict_modify rid (\<lambda>rh. rh\<lparr>last_probe_time := Some now\<rparr>) (health M)\<rparr>)))"

text \<open>
  One round of \<open>_probe_loop\<close>: every route in the order of the configuration; \<open>answer\<close> gives the status of a route's
  probe and its time. An exception of a probe is caught, so the round goes on.
\<close>

definition probe_round ::
    "env \<Rightarrow> bool \<Rightarrow> int \<Rightarrow> (string \<Rightarrow> nat option \<times> instant) \<Rightarrow> 'a monitor_scheme \<Rightarrow> 'a monitor_scheme" where
  "probe_round E up queued answer M =
    fold (\<lambda>rid M. snd (probe_route E up queued rid (fst (answer rid)) (snd (answer rid)) M)) (route_ids M) M"

section \<open>The breaker and the history of probes\<close>

text \<open>
  The specification of Spec 7 Section 2.1 over the whole history of a route's probes, newest first: the
  most recent decisive streak (two failures or three successes in a row) decides.
\<close>

fun last_streak :: "bool list \<Rightarrow> bool option" where
  "last_streak (False # False # h) = Some False"
| "last_streak (True # True # True # h) = Some True"
| "last_streak (b # h) = last_streak h"
| "last_streak [] = None"

fun down_now :: "bool list \<Rightarrow> bool" where
  "down_now (False # False # h) = True"
| "down_now h = False"

definition circuit_spec :: "bool list \<Rightarrow> circuit_state" where
  "circuit_spec h =
    (if last_streak h \<noteq> Some False then CLOSED else if down_now h then OPEN else HALF_OPEN)"

text \<open>The counters are the lengths of the current streak.\<close>

definition health_matches :: "bool list \<Rightarrow> route_health \<Rightarrow> bool" where
  "health_matches h rh \<longleftrightarrow>
    consecutive_successes rh = length (takeWhile id h) \<and>
    consecutive_failures rh = length (takeWhile Not h) \<and> circuit rh = circuit_spec h"

lemma takeWhile_two:
  "2 \<le> length (takeWhile Not h) \<longleftrightarrow> down_now h"
  by (induction h rule: down_now.induct) auto

lemma takeWhile_three:
  "3 \<le> length (takeWhile id h) \<longleftrightarrow> (\<exists>t. h = True # True # True # t)"
  by (cases h; cases "tl h"; cases "tl (tl h)") auto

lemma down_streak: "down_now h \<Longrightarrow> last_streak h = Some False"
  by (induction h rule: down_now.induct) auto

lemma last_streak_True:
  "last_streak (True # h) = (if 2 \<le> length (takeWhile id h) then Some True else last_streak h)"
  by (cases h; cases "tl h") auto

lemma last_streak_False:
  "last_streak (False # h) = (if h \<noteq> [] \<and> \<not> hd h then Some False else last_streak h)"
  by (cases h) auto

lemma health_matches_step:
  assumes "health_matches h rh"
  shows "health_matches (ok # h) ((count_result ok now rh)\<lparr>circuit := next_circuit (count_result ok now rh)\<rparr>)"
proof (cases ok)
  case True
  have "\<not> down_now (True # h)" by simp
  moreover have "down_now h \<Longrightarrow> takeWhile id h = []" by (cases h) auto
  ultimately show ?thesis
    using assms True down_streak [of h]
    by (auto simp: health_matches_def count_result_def next_circuit_def FAILURES_TO_OPEN_def SUCCESSES_TO_CLOSED_def
        circuit_spec_def last_streak_True)
next
  case False
  have d: "down_now (False # h) \<longleftrightarrow> h \<noteq> [] \<and> \<not> hd h" by (cases h) auto
  have t: "1 \<le> length (takeWhile Not h) \<longleftrightarrow> h \<noteq> [] \<and> \<not> hd h" by (cases h) auto
  have n: "down_now h \<Longrightarrow> h \<noteq> [] \<and> \<not> hd h" by (cases h) auto
  show ?thesis
    using assms False d t n
    by (auto simp: health_matches_def count_result_def next_circuit_def FAILURES_TO_OPEN_def SUCCESSES_TO_CLOSED_def
        circuit_spec_def last_streak_False Suc_le_eq)
qed

lemma health_matches_fresh: "health_matches [] fresh_health"
  by (simp add: health_matches_def fresh_health_def circuit_spec_def)

lemma health_matches_probed:
  "health_matches h rh \<Longrightarrow> health_matches h (rh\<lparr>last_probe_time := t\<rparr>)"
  by (simp add: health_matches_def)

text \<open>
  The circuit breaker as a state machine: the moves on the result of a probe. What the counters decide (whether a
  failure trips the circuit, whether a success closes it) is left open here.
\<close>

inductive circuit_move :: "bool \<Rightarrow> circuit_state \<Rightarrow> circuit_state \<Rightarrow> bool" where
  steady: "circuit_move True CLOSED CLOSED"
| forgiven: "circuit_move False CLOSED CLOSED"
| trip: "circuit_move False CLOSED OPEN"
| still_down: "circuit_move False OPEN OPEN"
| recovering: "circuit_move True OPEN HALF_OPEN"
| undecided: "circuit_move ok HALF_OPEN HALF_OPEN"
| recovered: "circuit_move True HALF_OPEN CLOSED"
| relapse: "circuit_move False HALF_OPEN OPEN"

inductive_cases move_from_open [elim!]: "circuit_move ok OPEN c"
inductive_cases move_to_closed [elim!]: "circuit_move ok c CLOSED"

inductive_simps move_success: "circuit_move True c d"
inductive_simps move_failure: "circuit_move False c d"

lemma circuit_moves:
  assumes "health_matches h rh"
  shows "circuit_move ok (circuit rh) (next_circuit (count_result ok now rh))"
proof (cases ok)
  case True
  have "down_now h \<Longrightarrow> takeWhile id h = []" by (cases h) auto
  then show ?thesis
    using assms True
    by (cases "circuit rh") (auto simp: health_matches_def count_result_def next_circuit_def FAILURES_TO_OPEN_def
        SUCCESSES_TO_CLOSED_def circuit_spec_def move_success split: if_splits)
next
  case False
  then show ?thesis
    using assms by (cases "circuit rh") (auto simp: health_matches_def count_result_def next_circuit_def
        FAILURES_TO_OPEN_def SUCCESSES_TO_CLOSED_def circuit_spec_def move_failure split: if_splits)
qed

text \<open>So a route that is down is back only after a success that leaves it half open, and a further one.\<close>

lemma down_then_half_open:
  assumes "health_matches h rh" and "circuit rh = OPEN" and "next_circuit (count_result ok now rh) = c"
  shows "c \<noteq> CLOSED" and "c = HALF_OPEN \<longleftrightarrow> ok"
  using circuit_moves [OF assms(1), of ok now] assms(2,3) by auto

text \<open>Runs of the monitor: probes of any routes in any order, and restarts on the same database.\<close>

datatype monitor_op =
    Probe_op string "nat option" instant int
  | Restart_op

fun monitor_step :: "env \<Rightarrow> string list \<Rightarrow> monitor_op \<Rightarrow> monitor \<Rightarrow> monitor" where
  "monitor_step E routes (Probe_op rid status now queued) M = snd (probe_route E True queued rid status now M)"
| "monitor_step E routes Restart_op M = new_monitor True routes (circuit_db M) (alog M)"

definition run_monitor :: "env \<Rightarrow> string list \<Rightarrow> monitor_op list \<Rightarrow> monitor \<Rightarrow> monitor" where
  "run_monitor E routes ops M = fold (monitor_step E routes) ops M"

text \<open>The results of a route's probes, newest first.\<close>

fun probe_history :: "string \<Rightarrow> monitor_op list \<Rightarrow> bool list \<Rightarrow> bool list" where
  "probe_history rid [] h = h"
| "probe_history rid (Restart_op # ops) h = probe_history rid ops h"
| "probe_history rid (Probe_op r status now queued # ops) h =
    probe_history rid ops (if r = rid then probe_ok status # h else h)"

definition monitor_ok :: "string list \<Rightarrow> (string \<Rightarrow> bool list) \<Rightarrow> monitor \<Rightarrow> bool" where
  "monitor_ok routes hist M \<longleftrightarrow>
    route_ids M = remdups routes \<and> circuit_db M \<noteq> None \<and>
    (\<forall>rid \<in> set routes. \<exists>rh. map_of (health M) rid = Some rh \<and> health_matches (hist rid) rh \<and>
       (case map_of (the (circuit_db M)) rid of Some r \<Rightarrow> r = rh | None \<Rightarrow> hist rid = []))"

lemma map_of_fresh_list:
  "map_of (map (\<lambda>(rid, rh). (rid, f rid rh)) (map (\<lambda>rid. (rid, v)) rs)) rid =
    (if rid \<in> set rs then Some (f rid v) else None)"
  by (induction rs) auto

lemma new_monitor_health:
  "map_of (health (new_monitor True routes (Some rows) trail)) rid =
    (if rid \<in> set routes then Some (case map_of rows rid of Some r \<Rightarrow> r | None \<Rightarrow> fresh_health) else None)"
  by (simp add: new_monitor_def load_circuits_def map_of_fresh_list del: map_map)

lemma new_monitor_fields [simp]:
  "circuit_db (new_monitor True routes (Some rows) trail) = Some rows"
  "route_ids (new_monitor True routes (Some rows) trail) = remdups routes"
  by (simp_all add: new_monitor_def load_circuits_def)

lemma on_state_change_fields [simp]:
  "health (on_state_change E q rid c M) = health M" "circuit_db (on_state_change E q rid c M) = circuit_db M"
  "route_ids (on_state_change E q rid c M) = route_ids M"
  by (simp_all add: on_state_change_def emit_def Let_def split: sum.splits)

lemma monitor_ok_step:
  assumes "monitor_ok routes hist M"
  shows "monitor_ok routes (\<lambda>rid. probe_history rid [op] (hist rid)) (monitor_step E routes op M)"
proof (cases op)
  case Restart_op
  obtain rows where "circuit_db M = Some rows" using assms by (auto simp: monitor_ok_def)
  then show ?thesis
    using assms Restart_op health_matches_fresh
    by (auto simp: monitor_ok_def new_monitor_health split: option.splits)
next
  case (Probe_op r status now queued)
  show ?thesis
  proof (cases "r \<in> set routes")
    case False
    then have "(if r = rid then x else hist rid) = hist rid" if "rid \<in> set routes" for rid x
      using that by auto
    then show ?thesis using assms Probe_op False by (simp add: monitor_ok_def probe_route_def)
  next
    case True
    obtain rows where rows: "circuit_db M = Some rows" using assms by (auto simp: monitor_ok_def)
    obtain rh where rh: "map_of (health M) r = Some rh" "health_matches (hist r) rh"
      using assms True by (auto simp: monitor_ok_def)
    have rid: "r \<in> set (route_ids M)" "route_ids M = remdups routes" using assms True by (auto simp: monitor_ok_def)
    define c where "c = count_result (probe_ok status) now (rh\<lparr>last_probe_time := Some now\<rparr>)"
    define rh' where "rh' = c\<lparr>circuit := next_circuit c\<rparr>"
    have m: "health_matches (probe_ok status # hist r) rh'"
      unfolding rh'_def c_def by (rule health_matches_step [OF health_matches_probed [OF rh(2)]])
    have h: "map_of (health (monitor_step E routes op M)) = (map_of (health M))(r \<mapsto> rh')"
      "circuit_db (monitor_step E routes op M) = Some (AList.update r rh' rows)"
      "route_ids (monitor_step E routes op M) = remdups routes"
      using Probe_op rid rh rows
      by (simp_all add: probe_route_def record_result_def circuit_db_write_def map_of_dict_modify Let_def c_def rh'_def)
    have p: "probe_history rid [op] (hist rid) = (if rid = r then probe_ok status # hist r else hist rid)" for rid
      using Probe_op by auto
    show ?thesis
      using assms m rows unfolding monitor_ok_def h p by auto
  qed
qed

lemma probe_history_Cons: "probe_history rid (op # ops) h = probe_history rid ops (probe_history rid [op] h)"
  by (cases op) auto

lemma monitor_ok_run:
  "monitor_ok routes hist M \<Longrightarrow>
    monitor_ok routes (\<lambda>rid. probe_history rid ops (hist rid)) (run_monitor E routes ops M)"
proof (induction ops arbitrary: hist M)
  case Nil
  then show ?case by (simp add: run_monitor_def)
next
  case (Cons op ops)
  show ?case
    using Cons.IH [OF monitor_ok_step [OF Cons.prems], of op E]
    by (simp add: run_monitor_def probe_history_Cons [of _ op ops])
qed

text \<open>A round of the loop is one probe of every route.\<close>

lemma probe_round_ops:
  "probe_round E True queued answer M =
    run_monitor E routes (map (\<lambda>rid. Probe_op rid (fst (answer rid)) (snd (answer rid)) queued) (route_ids M)) M"
proof -
  have "fold (\<lambda>rid M. snd (probe_route E True queued rid (fst (answer rid)) (snd (answer rid)) M)) rs N =
      run_monitor E routes (map (\<lambda>rid. Probe_op rid (fst (answer rid)) (snd (answer rid)) queued) rs) N" for rs N
    by (induction rs arbitrary: N) (simp_all add: run_monitor_def)
  then show ?thesis by (simp add: probe_round_def)
qed



section \<open>The state of the hub\<close>

datatype hub_state = ACTIVE | SUSPENDED | AWAITING_AUTHORITY

definition hub_text :: "hub_state \<Rightarrow> string" where
  "hub_text h = (case h of ACTIVE \<Rightarrow> ''active'' | SUSPENDED \<Rightarrow> ''suspended'' | AWAITING_AUTHORITY \<Rightarrow> ''awaiting_authority'')"

text \<open>\<open>hub_row\<close>, \<open>beat_row\<close>: the rows \<open>hub:state\<close> and \<open>hub:last_heartbeat\<close> (a wall-clock instant).\<close>

record hub = audit +
  hub_st :: hub_state
  last_beat :: "instant option"
  hub_row :: "hub_state option"
  beat_row :: "instant option"
  has_db :: bool

text \<open>\<open>_load_from_db\<close>, at wall clock \<open>now\<close> and monotonic clock \<open>mono_now\<close>; and the constructor.\<close>

definition hub_load_from_db :: "bool \<Rightarrow> instant \<Rightarrow> instant \<Rightarrow> 'a hub_scheme \<Rightarrow> 'a hub_scheme" where
  "hub_load_from_db up now mono_now H =
    (if \<not> has_db H \<or> \<not> up then H
     else H\<lparr>hub_st := (case hub_row H of Some h \<Rightarrow> h | None \<Rightarrow> hub_st H),
            last_beat := (case beat_row H of Some w \<Rightarrow> Some (mono_now - (now - w)) | None \<Rightarrow> last_beat H)\<rparr>)"

definition new_hub :: "bool \<Rightarrow> instant \<Rightarrow> instant \<Rightarrow> hub_state option \<Rightarrow> instant option \<Rightarrow> event list \<Rightarrow> hub" where
  "new_hub up now mono_now row beat trail =
    hub_load_from_db up now mono_now
      \<lparr>alog = trail, hub_st = ACTIVE, last_beat = None, hub_row = row, beat_row = beat, has_db = up\<rparr>"

lemma new_hub_fields:
  "new_hub up now mono_now row beat trail =
    \<lparr>alog = trail, hub_st = (case row of Some h \<Rightarrow> if up then h else ACTIVE | None \<Rightarrow> ACTIVE),
     last_beat = (case beat of Some w \<Rightarrow> if up then Some (mono_now - (now - w)) else None | None \<Rightarrow> None),
     hub_row = row, beat_row = beat, has_db = up\<rparr>"
  by (simp add: new_hub_def hub_load_from_db_def split: option.split)

definition hub_db_write_state :: "bool \<Rightarrow> 'a hub_scheme \<Rightarrow> 'a hub_scheme" where
  "hub_db_write_state up H = (if has_db H \<and> up then H\<lparr>hub_row := Some (hub_st H)\<rparr> else H)"

text \<open>
  The circuit of a route and the state of the hub are written through to their rows; a new manager
  starts from what the last successful write left.
\<close>

interpretation circuits: write_through
  "\<lambda>M. circuit_db M \<noteq> None \<and> rid \<in> set (route_ids M)" "\<lambda>M. map_of (health M) rid"
  "\<lambda>M. case circuit_db M of Some rows \<Rightarrow> map_of rows rid | None \<Rightarrow> None"
  "\<lambda>up rh M. circuit_db_write up rid rh (M\<lparr>health := AList.update rid rh (health M)\<rparr>)"
  "\<lambda>M. new_monitor True (route_ids M) (circuit_db M) (alog M)" "Some fresh_health" for rid
  by unfold_locales
    (auto simp: circuit_db_write_def new_monitor_def load_circuits_def map_of_map comp_def map_of_map_keys
      split: option.splits)

interpretation hub_mode: write_through has_db "\<lambda>H. Some (hub_st H)" hub_row
  "\<lambda>up h H. hub_db_write_state up (H\<lparr>hub_st := h\<rparr>)"
  "\<lambda>H. new_hub True now m (hub_row H) (beat_row H) (alog H)" "Some ACTIVE" for now m
  by unfold_locales (auto simp: hub_db_write_state_def new_hub_fields split: option.split)

definition is_processing_allowed :: "'a hub_scheme \<Rightarrow> bool" where
  "is_processing_allowed H \<longleftrightarrow> hub_st H = ACTIVE"

definition try_emit :: "env \<Rightarrow> string \<Rightarrow> hub_state \<Rightarrow> hub_state \<Rightarrow> string \<Rightarrow> 'a hub_scheme \<Rightarrow> 'a hub_scheme" where
  "try_emit E host from_state to_state reason H =
    snd (emit E (\<lambda>sp. event_hub_state_change sp (hub_text from_state) (hub_text to_state) reason host) H)"

definition hub_suspend :: "env \<Rightarrow> bool \<Rightarrow> string \<Rightarrow> 'a hub_scheme \<Rightarrow> 'a hub_scheme" where
  "hub_suspend E up host H =
    (if hub_st H = SUSPENDED then H
     else try_emit E host (hub_st H) SUSPENDED ''suspend_command''
       (hub_db_write_state up (H\<lparr>hub_st := SUSPENDED\<rparr>)))"

definition hub_resume :: "env \<Rightarrow> bool \<Rightarrow> string \<Rightarrow> 'a hub_scheme \<Rightarrow> 'a hub_scheme" where
  "hub_resume E up host H =
    (if hub_st H = ACTIVE then H
     else try_emit E host (hub_st H) ACTIVE ''resume_command''
       (hub_db_write_state up (H\<lparr>hub_st := ACTIVE\<rparr>)))"

definition confirm_authority :: "env \<Rightarrow> bool \<Rightarrow> string \<Rightarrow> 'a hub_scheme \<Rightarrow> (string \<times> string) \<times> 'a hub_scheme" where
  "confirm_authority E up host H =
    (if hub_st H = ACTIVE then ((''active'', ''already_active''), H)
     else ((''active'', hub_text (hub_st H)),
       try_emit E host (hub_st H) ACTIVE ''authority_confirmed''
         (hub_db_write_state up (H\<lparr>hub_st := ACTIVE\<rparr>))))"

text \<open>
  \<open>_db_write_heartbeat\<close> stores the wall-clock instant of the last heartbeat, \<open>now\<close> less what has passed
  since on the monotonic clock (it is called only when there is one).
\<close>

definition hub_db_write_heartbeat :: "bool \<Rightarrow> instant \<Rightarrow> instant \<Rightarrow> 'a hub_scheme \<Rightarrow> 'a hub_scheme" where
  "hub_db_write_heartbeat up now mono_now H =
    (case last_beat H of
       Some b \<Rightarrow> if has_db H \<and> up then H\<lparr>beat_row := Some (now - (mono_now - b))\<rparr> else H
     | None \<Rightarrow> H)"

definition record_heartbeat :: "bool \<Rightarrow> instant \<Rightarrow> instant \<Rightarrow> 'a hub_scheme \<Rightarrow> 'a hub_scheme" where
  "record_heartbeat up now mono_now H = hub_db_write_heartbeat up now mono_now (H\<lparr>last_beat := Some mono_now\<rparr>)"

lemma record_heartbeat_fields:
  "record_heartbeat up now mono_now H =
    (let H1 = H\<lparr>last_beat := Some mono_now\<rparr> in
     if has_db H \<and> up then H1\<lparr>beat_row := Some now\<rparr> else H1)"
  by (simp add: record_heartbeat_def hub_db_write_heartbeat_def Let_def)

definition seconds_since_last_heartbeat :: "instant \<Rightarrow> 'a hub_scheme \<Rightarrow> instant option" where
  "seconds_since_last_heartbeat mono_now H = map_option (\<lambda>b. mono_now - b) (last_beat H)"

text \<open>The age of a heartbeat survives a restart, measured by the wall clock.\<close>

lemma heartbeat_survives_restart:
  "has_db H \<Longrightarrow>
    seconds_since_last_heartbeat m' (new_hub True now' m' (hub_row H) (beat_row (record_heartbeat True now m H)) trail) =
      Some (now' - now)"
  by (simp add: new_hub_fields record_heartbeat_fields seconds_since_last_heartbeat_def)

definition startup_self_check :: "int \<Rightarrow> bool \<Rightarrow> instant \<Rightarrow> 'a hub_scheme \<Rightarrow> 'a hub_scheme" where
  "startup_self_check timeout up mono_now H =
    (case seconds_since_last_heartbeat mono_now H of
       None \<Rightarrow> hub_db_write_state up (H\<lparr>hub_st := AWAITING_AUTHORITY\<rparr>)
     | Some e \<Rightarrow>
         if e > timeout * 1000000 then hub_db_write_state up (H\<lparr>hub_st := AWAITING_AUTHORITY\<rparr>) else H)"

text \<open>The hub's commands and a restart (a new manager on the same rows, then the self-check).\<close>

datatype hub_op =
    Suspend_op | Resume_op | Confirm_op
  | Heartbeat_op instant instant
  | Reboot_op instant instant instant

fun hub_step :: "env \<Rightarrow> string \<Rightarrow> int \<Rightarrow> hub_op \<Rightarrow> hub \<Rightarrow> hub" where
  "hub_step E host timeout Suspend_op H = hub_suspend E True host H"
| "hub_step E host timeout Resume_op H = hub_resume E True host H"
| "hub_step E host timeout Confirm_op H = snd (confirm_authority E True host H)"
| "hub_step E host timeout (Heartbeat_op now m) H = record_heartbeat True now m H"
| "hub_step E host timeout (Reboot_op now m m') H =
    startup_self_check timeout True m' (new_hub True now m (hub_row H) (beat_row H) (alog H))"

definition run_hub :: "env \<Rightarrow> string \<Rightarrow> int \<Rightarrow> hub_op list \<Rightarrow> hub \<Rightarrow> hub" where
  "run_hub E host timeout ops H = fold (hub_step E host timeout) ops H"

fun activating :: "hub_op \<Rightarrow> bool" where
  "activating Resume_op = True"
| "activating Confirm_op = True"
| "activating op = False"

definition hub_ok :: "hub \<Rightarrow> bool" where
  "hub_ok H \<longleftrightarrow> has_db H \<and> (hub_row H = Some (hub_st H) \<or> hub_row H = None \<and> hub_st H = ACTIVE)"

lemma alog_irrelevant [simp]:
  "hub_st (try_emit E host a b c H) = hub_st H" "hub_row (try_emit E host a b c H) = hub_row H"
  "has_db (try_emit E host a b c H) = has_db H" "beat_row (try_emit E host a b c H) = beat_row H"
  by (auto simp: try_emit_def emit_def Let_def split: sum.splits)

lemma hub_ok_step: "hub_ok H \<Longrightarrow> hub_ok (hub_step E host timeout op H)"
  by (cases op)
    (auto simp: hub_ok_def hub_suspend_def hub_resume_def confirm_authority_def hub_db_write_state_def record_heartbeat_fields
      startup_self_check_def new_hub_fields seconds_since_last_heartbeat_def Let_def split: option.splits if_splits)

lemma passive_step:
  assumes "hub_ok H" "hub_st H \<noteq> ACTIVE" "\<not> activating op"
  shows "hub_st (hub_step E host timeout op H) \<noteq> ACTIVE"
  using assms
  by (cases op)
    (auto simp: hub_ok_def hub_suspend_def hub_db_write_state_def record_heartbeat_fields
      startup_self_check_def new_hub_fields seconds_since_last_heartbeat_def Let_def split: option.splits if_splits)



end
