(* ===== verification/Sandbox.thy ===== *)
theory Sandbox
  imports Capability_State
begin

text \<open>
  What a worker may do, and the container that enforces it: \<open>orchestrator/runtime_manifest.py\<close> (the
  manifest), \<open>manifest_validator.py\<close> (its ten rules), \<open>sandbox_blueprint.py\<close> and \<open>blueprint_engine.py\<close> (the
  blueprint generated from a validated manifest). Ids and time stamps, drawn by the code, are arguments.
  \<open>urllib.parse.urlparse\<close> is modelled by the parts it yields for a route: scheme, host name and port.
\<close>

section \<open>The manifest\<close>

definition ALLOWED_VOLUME_BASE_PATHS :: "string list" where
  "ALLOWED_VOLUME_BASE_PATHS = [''/work'', ''/inbox'', ''/outbox'', ''/skills'', ''/tmp'']"

definition FORBIDDEN_VOLUME_PATHS :: "string list" where
  "FORBIDDEN_VOLUME_PATHS = [''/'', ''/etc'', ''/proc'', ''/sys'', ''/dev'', ''/boot'', ''/root'', ''/home'']"

definition REQUIRED_DROPPED_CAPABILITIES :: "string list" where
  "REQUIRED_DROPPED_CAPABILITIES = [''MKNOD'', ''NET_RAW'', ''SYS_ADMIN'', ''SYS_PTRACE'']"

definition WORKER_TYPE_MIN_WAL :: "(string, int) dict" where
  "WORKER_TYPE_MIN_WAL = [(''ollama_local'', 0), (''cloud_adapter'', 0), (''tool_executor'', 1)]"

definition AUDIT_LOG_PATH :: string where
  "AUDIT_LOG_PATH = ''/var/drnt/audit''"

record volume_mount =
  vol_path :: string
  vol_mode :: string
  vol_host_path :: string

record network_policy =
  net_egress_allow :: "string list"
  net_deny_all :: bool
  net_ingress :: string

record resource_limits =
  max_memory_mb :: int
  max_cpu_seconds :: int
  max_wall_seconds :: int
  max_disk_mb :: int

record security_policy =
  drop_capabilities :: "string list"
  read_only_root :: bool
  sec_no_new_privileges :: bool
  seccomp_profile :: string

record ceilings =
  ceil_memory_mb :: int
  ceil_wall_seconds :: int

definition default_ceilings :: ceilings where
  "default_ceilings = \<lparr>ceil_memory_mb = 512, ceil_wall_seconds = 300\<rparr>"

record manifest =
  mf_capability :: string
  mf_worker_type :: string
  mf_volumes :: "volume_mount list"
  mf_network :: network_policy
  mf_resources :: resource_limits
  mf_security :: security_policy
  mf_id :: string
  mf_created_at :: string

section \<open>Validation\<close>

record validation_result =
  vr_valid :: bool
  vr_errors :: "string list"
  vr_warnings :: "string list"
  vr_validated_at :: string

record validator =
  v_registry :: registry
  v_states :: cap_states
  v_endpoints :: "(string, string list) dict"
  v_ceilings :: ceilings

text \<open>\<open>'...'\<close> in a message.\<close>

definition quoted :: "string \<Rightarrow> string" where
  "quoted s = [CHR 0x27] @ s @ [CHR 0x27]"

definition check_capability_exists :: "validator \<Rightarrow> manifest \<Rightarrow> string list" where
  "check_capability_exists V m =
    (if registry_get (v_registry V) (mf_capability m) = None
     then [''capability_id '' @ quoted (mf_capability m) @ '' not found in capability registry''] else [])"

definition check_capability_active :: "validator \<Rightarrow> manifest \<Rightarrow> string list" where
  "check_capability_active V m =
    (case get_status (v_states V) (mf_capability m) of
       Inl _ \<Rightarrow> []
     | Inr status \<Rightarrow>
         if status \<noteq> ''active''
         then [''capability '' @ quoted (mf_capability m) @ '' is in state '' @ quoted status @ '', must be '' @ quoted ''active'']
         else [])"

definition check_wal_level :: "validator \<Rightarrow> manifest \<Rightarrow> string list" where
  "check_wal_level V m =
    (case map_of WORKER_TYPE_MIN_WAL (mf_worker_type m) of
       None \<Rightarrow> [''unknown worker_type '' @ quoted (mf_worker_type m)]
     | Some min_wal \<Rightarrow>
         (case get_effective_wal (v_states V) (mf_capability m) of
            Inl _ \<Rightarrow> []
          | Inr wal \<Rightarrow>
              if wal < min_wal
              then [''worker_type '' @ quoted (mf_worker_type m) @ '' requires WAL >= '' @ int_str min_wal @
                '', but capability '' @ quoted (mf_capability m) @ '' has effective WAL '' @ int_str wal]
              else []))"

definition normalized :: "string \<Rightarrow> string" where
  "normalized p = (if p \<noteq> ''/'' then rstrip_char CHR ''/'' p else ''/'')"

definition under_base :: "string \<Rightarrow> string \<Rightarrow> bool" where
  "under_base p base \<longleftrightarrow> p = base \<or> startswith p (base @ ''/'')"

text \<open>The errors of one volume, and its warning.\<close>

definition volume_errors :: "volume_mount \<Rightarrow> string list" where
  "volume_errors vol =
    (let p = normalized (vol_path vol) in
     if p \<in> set FORBIDDEN_VOLUME_PATHS \<or> vol_path vol \<in> set FORBIDDEN_VOLUME_PATHS
     then [''volume path '' @ quoted (vol_path vol) @ '' is a forbidden mount point'']
     else
       (if \<not> list_ex (under_base p) ALLOWED_VOLUME_BASE_PATHS
        then [''volume path '' @ quoted (vol_path vol) @ '' is not under an allowed base path ('' @
          comma_join [''/inbox'', ''/outbox'', ''/skills'', ''/tmp'', ''/work''] @ '')''] else []) @
       (if vol_mode vol = ''rw'' \<and>
           (p = AUDIT_LOG_PATH \<or> startswith p (AUDIT_LOG_PATH @ ''/'') \<or> startswith AUDIT_LOG_PATH (p @ ''/''))
        then [''volume '' @ quoted (vol_path vol) @ '' mounted rw overlaps with audit log path '' @ quoted AUDIT_LOG_PATH]
        else []))"

definition volume_warnings :: "volume_mount \<Rightarrow> string list" where
  "volume_warnings vol =
    (if normalized (vol_path vol) \<notin> set FORBIDDEN_VOLUME_PATHS \<and> vol_path vol \<notin> set FORBIDDEN_VOLUME_PATHS \<and>
        vol_path vol = ''/tmp'' \<and> vol_mode vol = ''rw''
     then [''manifest declares /tmp rw but no cleanup policy''] else [])"

definition check_volumes :: "manifest \<Rightarrow> string list \<times> string list" where
  "check_volumes m = (concat (map volume_errors (mf_volumes m)), concat (map volume_warnings (mf_volumes m)))"

definition check_egress_deny_all :: "manifest \<Rightarrow> string list" where
  "check_egress_deny_all m =
    (if \<not> net_deny_all (mf_network m) then [''egress_deny_all must be True; workers cannot declare open egress''] else [])"

definition authorized_endpoints :: "validator \<Rightarrow> manifest \<Rightarrow> string list" where
  "authorized_endpoints V m = (case map_of (v_endpoints V) (mf_capability m) of Some es \<Rightarrow> es | None \<Rightarrow> [])"

definition check_egress_endpoints :: "validator \<Rightarrow> manifest \<Rightarrow> string list" where
  "check_egress_endpoints V m =
    map (\<lambda>e. ''egress endpoint '' @ quoted e @ '' not authorized for capability '' @ quoted (mf_capability m) @ '' in egress policy'')
      (filter (\<lambda>e. e \<notin> set (authorized_endpoints V m)) (net_egress_allow (mf_network m)))"

definition check_drop_capabilities :: "manifest \<Rightarrow> string list" where
  "check_drop_capabilities m =
    (let dropped = drop_capabilities (mf_security m); missing = filter (\<lambda>c. c \<notin> set dropped) REQUIRED_DROPPED_CAPABILITIES in
     if ''ALL'' \<in> set dropped then []
     else if missing \<noteq> [] then [''drop_capabilities missing required entries: '' @ list_text missing] else [])"

definition check_no_new_privileges :: "manifest \<Rightarrow> string list" where
  "check_no_new_privileges m =
    (if \<not> sec_no_new_privileges (mf_security m)
     then [''no_new_privileges must be True; privilege escalation is not permitted''] else [])"

definition check_memory_ceiling :: "validator \<Rightarrow> manifest \<Rightarrow> string list" where
  "check_memory_ceiling V m =
    (if max_memory_mb (mf_resources m) > ceil_memory_mb (v_ceilings V)
     then [''max_memory_mb ('' @ int_str (max_memory_mb (mf_resources m)) @ '') exceeds system ceiling ('' @
       int_str (ceil_memory_mb (v_ceilings V)) @ '')''] else [])"

definition check_wall_time_ceiling :: "validator \<Rightarrow> manifest \<Rightarrow> string list" where
  "check_wall_time_ceiling V m =
    (if max_wall_seconds (mf_resources m) > ceil_wall_seconds (v_ceilings V)
     then [''max_wall_seconds ('' @ int_str (max_wall_seconds (mf_resources m)) @ '') exceeds system ceiling ('' @
       int_str (ceil_wall_seconds (v_ceilings V)) @ '')''] else [])"

definition validate_manifest :: "string \<Rightarrow> validator \<Rightarrow> manifest \<Rightarrow> validation_result" where
  "validate_manifest now V m =
    (let errs = check_capability_exists V m @ check_capability_active V m @ check_wal_level V m @
           fst (check_volumes m) @ check_egress_deny_all m @ check_egress_endpoints V m @ check_drop_capabilities m @
           check_no_new_privileges m @ check_memory_ceiling V m @ check_wall_time_ceiling V m
     in \<lparr>vr_valid = (errs = []), vr_errors = errs, vr_warnings = snd (check_volumes m), vr_validated_at = now\<rparr>)"

text \<open>A route of the egress configuration: \<open>url\<close> is the scheme, the host name and the port of its endpoint.\<close>

record policy_route =
  pr_url :: "string \<times> string option \<times> int option"
  pr_capabilities :: "string list"
  pr_rpm :: "int option"

text \<open>\<open>parsed.port or (...)\<close>: port 0 counts as none.\<close>

definition route_endpoint :: "policy_route \<Rightarrow> string" where
  "route_endpoint r =
    (case pr_url r of (scheme, host, port) \<Rightarrow>
       (case host of None \<Rightarrow> [] | Some h \<Rightarrow> h) @ '':'' @
       int_str (case port of Some p \<Rightarrow> if p \<noteq> 0 then p else if scheme = ''https'' then 443 else 80
                | None \<Rightarrow> if scheme = ''https'' then 443 else 80))"

text \<open>\<open>if cap_id not in d: d[cap_id] = []; if endpoint not in d[cap_id]: d[cap_id].append(endpoint)\<close>.\<close>

definition add_endpoint :: "string \<Rightarrow> string \<Rightarrow> (string, string list) dict \<Rightarrow> (string, string list) dict" where
  "add_endpoint endpoint cid d =
    (let es = (case map_of d cid of Some es \<Rightarrow> es | None \<Rightarrow> []) in
     AList.update cid (if endpoint \<in> set es then es else es @ [endpoint]) d)"

definition build_egress_endpoints_from_routes :: "policy_route list \<Rightarrow> (string, string list) dict" where
  "build_egress_endpoints_from_routes rs = fold (\<lambda>r. fold (add_endpoint (route_endpoint r)) (pr_capabilities r)) rs []"

section \<open>The blueprint\<close>

record container_mount =
  cm_source :: string
  cm_target :: string
  cm_read_only :: bool

record blueprint =
  bp_id :: string
  bp_manifest_id :: string
  bp_capability :: string
  bp_created_at :: string
  bp_image :: string
  bp_labels :: "(string, string) dict"
  bp_mounts :: "container_mount list"
  bp_network_mode :: string
  bp_egress_allow :: "string list"
  bp_cap_drop :: "string list"
  bp_cap_add :: "string list"
  bp_read_only_rootfs :: bool
  bp_no_new_privileges :: bool
  bp_seccomp_profile_path :: string
  bp_tmpfs_mounts :: "string list"
  bp_memory_limit :: string
  bp_cpu_period :: int
  bp_cpu_quota :: int
  bp_pids_limit :: int
  bp_storage_size :: string

record blueprint_engine =
  be_base_dir :: string
  be_image :: string

definition new_engine :: "string \<Rightarrow> string \<Rightarrow> blueprint_engine" where
  "new_engine base_dir img = \<lparr>be_base_dir = rstrip_char CHR ''/'' base_dir, be_image = img\<rparr>"

definition CAPABILITY_ALLOWLIST :: "(string, string list) dict" where
  "CAPABILITY_ALLOWLIST = [(''cloud_adapter'', [''NET_BIND_SERVICE''])]"

definition build_mounts :: "blueprint_engine \<Rightarrow> manifest \<Rightarrow> container_mount list" where
  "build_mounts B m =
    map (\<lambda>vol. \<lparr>cm_source = be_base_dir B @ vol_host_path vol, cm_target = vol_path vol, cm_read_only = (vol_mode vol = ''ro'')\<rparr>)
      (mf_volumes m)"

definition generate_blueprint ::
    "string \<Rightarrow> string \<Rightarrow> blueprint_engine \<Rightarrow> manifest \<Rightarrow> validation_result \<Rightarrow> py_exc + blueprint" where
  "generate_blueprint blueprint_id now B m vr =
    (if \<not> vr_valid vr then Inl (ValueError (''Cannot generate blueprint for invalid manifest: '' @ list_text (vr_errors vr)))
     else Inr \<lparr>bp_id = blueprint_id, bp_manifest_id = mf_id m, bp_capability = mf_capability m, bp_created_at = now,
       bp_image = be_image B,
       bp_labels = [(''drnt.manifest_id'', mf_id m), (''drnt.capability_id'', mf_capability m),
         (''drnt.worker_type'', mf_worker_type m), (''drnt.created_at'', now)],
       bp_mounts = build_mounts B m,
       bp_network_mode = (if net_egress_allow (mf_network m) \<noteq> [] then ''drnt-sandbox'' else ''none''),
       bp_egress_allow = net_egress_allow (mf_network m),
       bp_cap_drop = [''ALL''],
       bp_cap_add = (case map_of CAPABILITY_ALLOWLIST (mf_worker_type m) of Some cs \<Rightarrow> cs | None \<Rightarrow> []),
       bp_read_only_rootfs = True, bp_no_new_privileges = True, bp_seccomp_profile_path = ''default'',
       bp_tmpfs_mounts = [''/tmp:size=64m,noexec,nosuid''],
       bp_memory_limit = int_str (max_memory_mb (mf_resources m)) @ ''m'', bp_cpu_period = 100000,
       bp_cpu_quota = max_cpu_seconds (mf_resources m) * 100000, bp_pids_limit = 256,
       bp_storage_size = int_str (max_disk_mb (mf_resources m)) @ ''m''\<rparr>)"

section \<open>What a valid manifest guarantees\<close>

text \<open>
  The rules over the code's state in one formula: the capability is registered and, where it has runtime
  state, active at a level its worker type may have; every volume is under an allowed base path; every
  endpoint is authorised; the isolation flags and the ceilings are kept.
\<close>

definition cap_may_work :: "cap_states \<Rightarrow> string \<Rightarrow> int \<Rightarrow> bool" where
  "cap_may_work S cid min_wal \<longleftrightarrow>
    (case map_of S cid of None \<Rightarrow> True | Some e \<Rightarrow> cap_status e = ''active'' \<and> min_wal \<le> effective_wal_level e)"

definition manifest_ok :: "validator \<Rightarrow> manifest \<Rightarrow> bool" where
  "manifest_ok V m \<longleftrightarrow>
    mf_capability m \<in> fst ` set (v_registry V) \<and>
    (\<exists>min_wal. map_of WORKER_TYPE_MIN_WAL (mf_worker_type m) = Some min_wal \<and> cap_may_work (v_states V) (mf_capability m) min_wal) \<and>
    (\<forall>vol \<in> set (mf_volumes m). \<exists>base \<in> set ALLOWED_VOLUME_BASE_PATHS. under_base (normalized (vol_path vol)) base) \<and>
    net_deny_all (mf_network m) \<and> set (net_egress_allow (mf_network m)) \<subseteq> set (authorized_endpoints V m) \<and>
    (''ALL'' \<in> set (drop_capabilities (mf_security m)) \<or> set REQUIRED_DROPPED_CAPABILITIES \<subseteq> set (drop_capabilities (mf_security m))) \<and>
    sec_no_new_privileges (mf_security m) \<and>
    max_memory_mb (mf_resources m) \<le> ceil_memory_mb (v_ceilings V) \<and>
    max_wall_seconds (mf_resources m) \<le> ceil_wall_seconds (v_ceilings V)"

text \<open>
  Rule 3 (forbidden paths) and rule 4 (the audit log) add nothing to the allowed base paths: a path under
  one of these is neither forbidden nor above, at or below the log.
\<close>

lemma base_not_forbidden:
  assumes "base \<in> set ALLOWED_VOLUME_BASE_PATHS" and "under_base p base"
  shows "p \<notin> set FORBIDDEN_VOLUME_PATHS"
  using assms
  by (auto simp: ALLOWED_VOLUME_BASE_PATHS_def FORBIDDEN_VOLUME_PATHS_def under_base_def startswith_def)

lemma base_not_audit:
  assumes "base \<in> set ALLOWED_VOLUME_BASE_PATHS" and "under_base p base"
  shows "p \<noteq> AUDIT_LOG_PATH" "\<not> startswith p (AUDIT_LOG_PATH @ ''/'')" "\<not> startswith AUDIT_LOG_PATH (p @ ''/'')"
  using assms
  by (auto simp: ALLOWED_VOLUME_BASE_PATHS_def AUDIT_LOG_PATH_def under_base_def startswith_def prefix_def)

lemma forbidden_normalized:
  "p \<in> set FORBIDDEN_VOLUME_PATHS \<Longrightarrow> normalized p \<in> set FORBIDDEN_VOLUME_PATHS"
  by (auto simp: FORBIDDEN_VOLUME_PATHS_def normalized_def rstrip_char_def)

lemma volume_errors_Nil:
  "volume_errors vol = [] \<longleftrightarrow> (\<exists>base \<in> set ALLOWED_VOLUME_BASE_PATHS. under_base (normalized (vol_path vol)) base)"
  (is "?l \<longleftrightarrow> ?r")
proof
  show "?l \<Longrightarrow> ?r"
    by (simp add: volume_errors_def Let_def list_ex_iff split: if_splits)
next
  assume ?r
  then obtain base where b: "base \<in> set ALLOWED_VOLUME_BASE_PATHS" "under_base (normalized (vol_path vol)) base" by blast
  then have "list_ex (under_base (normalized (vol_path vol))) ALLOWED_VOLUME_BASE_PATHS" by (auto simp: list_ex_iff)
  with base_not_forbidden [OF b] base_not_audit [OF b] forbidden_normalized show ?l
    by (auto simp: volume_errors_def Let_def)
qed

lemma state_checks_Nil:
  "check_capability_active V m @ check_wal_level V m = [] \<longleftrightarrow>
    (\<exists>min_wal. map_of WORKER_TYPE_MIN_WAL (mf_worker_type m) = Some min_wal \<and> cap_may_work (v_states V) (mf_capability m) min_wal)"
  by (auto simp: check_capability_active_def check_wal_level_def get_status_def get_effective_wal_def get_entry_def
      cap_may_work_def effective_wal_def split: option.splits)

text \<open>
  The validator accepts a manifest exactly when it satisfies the contract \<open>manifest_ok\<close>, in which the
  ten rules are one formula: in particular every mount of an accepted manifest is under an allowed base
  path, its endpoints are authorised for its capability, and it is within the ceilings.
\<close>

lemma manifest_valid_iff: "vr_valid (validate_manifest now V m) \<longleftrightarrow> manifest_ok V m"
proof -
  have "check_capability_exists V m = [] \<longleftrightarrow> mf_capability m \<in> fst ` set (v_registry V)"
    by (simp add: check_capability_exists_def registry_get_def map_of_eq_None_iff)
  moreover have "fst (check_volumes m) = [] \<longleftrightarrow>
      (\<forall>vol \<in> set (mf_volumes m). \<exists>base \<in> set ALLOWED_VOLUME_BASE_PATHS. under_base (normalized (vol_path vol)) base)"
    by (simp add: check_volumes_def volume_errors_Nil)
  moreover have "check_egress_endpoints V m = [] \<longleftrightarrow> set (net_egress_allow (mf_network m)) \<subseteq> set (authorized_endpoints V m)"
    by (auto simp: check_egress_endpoints_def filter_empty_conv)
  moreover have "check_drop_capabilities m = [] \<longleftrightarrow>
      ''ALL'' \<in> set (drop_capabilities (mf_security m)) \<or> set REQUIRED_DROPPED_CAPABILITIES \<subseteq> set (drop_capabilities (mf_security m))"
    by (auto simp: check_drop_capabilities_def Let_def filter_empty_conv)
  moreover have "check_egress_deny_all m = [] \<longleftrightarrow> net_deny_all (mf_network m)"
    "check_no_new_privileges m = [] \<longleftrightarrow> sec_no_new_privileges (mf_security m)"
    "check_memory_ceiling V m = [] \<longleftrightarrow> max_memory_mb (mf_resources m) \<le> ceil_memory_mb (v_ceilings V)"
    "check_wall_time_ceiling V m = [] \<longleftrightarrow> max_wall_seconds (mf_resources m) \<le> ceil_wall_seconds (v_ceilings V)"
    by (auto simp: check_egress_deny_all_def check_no_new_privileges_def check_memory_ceiling_def check_wall_time_ceiling_def)
  moreover have "check_capability_active V m = [] \<and> check_wal_level V m = [] \<and> R \<longleftrightarrow>
      (\<exists>min_wal. map_of WORKER_TYPE_MIN_WAL (mf_worker_type m) = Some min_wal \<and>
        cap_may_work (v_states V) (mf_capability m) min_wal) \<and> R" for R
    using state_checks_Nil [of V m] by auto
  ultimately show ?thesis
    by (simp only: validate_manifest_def manifest_ok_def Let_def validation_result.simps append_is_Nil_conv)
qed

text \<open>The check is on the text of the path: a path that climbs out of its base passes it.\<close>

lemma traversal_accepted:
  "volume_errors \<lparr>vol_path = ''/work/../etc'', vol_mode = ''rw'', vol_host_path = ''/../../../etc''\<rparr> = []"
  by code_simp

end
