(* ===== verification/Rate_Limit.thy ===== *)
theory Rate_Limit
  imports Prelude
begin

text \<open>
  The sliding-window rate limiters: \<open>egress-gateway/rate_limiter.py\<close> (per route) and
  \<open>orchestrator/egress_rate_limiter.py\<close> (per worker). Both keep, for every key, the instants of the
  admitted requests (a \<open>defaultdict\<close>: a missing key is an empty list). What their users rely on is the
  locale \<open>rpm_window\<close>, interpreted for each; the bound on the admitted requests is proved once, in it.
\<close>

type_synonym windows = "(string, instant list) dict"

definition window_of :: "windows \<Rightarrow> string \<Rightarrow> instant list" where
  "window_of w key = (case map_of w key of Some ts \<Rightarrow> ts | None \<Rightarrow> [])"

definition minute :: instant where
  "minute = 60 * 1000000"

definition recent :: "instant \<Rightarrow> instant list \<Rightarrow> instant list" where
  "recent now ts = filter (\<lambda>t. now - minute < t) ts"

section \<open>The limiters\<close>

text \<open>\<open>SlidingWindowRateLimiter\<close>.\<close>

definition sliding_check :: "string \<Rightarrow> int \<Rightarrow> instant \<Rightarrow> windows \<Rightarrow> bool \<times> windows" where
  "sliding_check route_id rpm_limit now w =
    (let w = AList.update route_id (recent now (window_of w route_id)) w in
     if int (length (window_of w route_id)) \<ge> rpm_limit then (False, w)
     else (True, AList.update route_id (window_of w route_id @ [now]) w))"

definition sliding_count :: "string \<Rightarrow> instant \<Rightarrow> windows \<Rightarrow> nat \<times> windows" where
  "sliding_count route_id now w =
    (let w = AList.update route_id (recent now (window_of w route_id)) w in (length (window_of w route_id), w))"

text \<open>\<open>EgressRateLimiter\<close>.\<close>

definition egress_check :: "string \<Rightarrow> int \<Rightarrow> instant \<Rightarrow> windows \<Rightarrow> bool \<times> windows" where
  "egress_check blueprint_id rpm_limit now w =
    (let w = AList.update blueprint_id (recent now (window_of w blueprint_id)) w in
     if int (length (window_of w blueprint_id)) \<ge> rpm_limit then (False, w)
     else (True, AList.update blueprint_id (window_of w blueprint_id @ [now]) w))"

definition egress_count :: "string \<Rightarrow> instant \<Rightarrow> windows \<Rightarrow> nat \<times> windows" where
  "egress_count blueprint_id now w =
    (let w = AList.update blueprint_id (recent now (window_of w blueprint_id)) w in (length (window_of w blueprint_id), w))"

definition egress_reset :: "string \<Rightarrow> windows \<Rightarrow> windows" where
  "egress_reset blueprint_id w = AList.update blueprint_id [] w"

lemma window_of_update [simp]:
  "window_of (AList.update k ts w) k' = (if k' = k then ts else window_of w k')"
  by (simp add: window_of_def)

lemma filter_length_mono:
  "(\<And>x. x \<in> set xs \<Longrightarrow> P x \<Longrightarrow> Q x) \<Longrightarrow> length (filter P xs) \<le> length (filter Q xs)"
  by (induction xs) auto

section \<open>Histories of requests\<close>

text \<open>A request asks for a key with a limit at an instant; the instants at which \<open>key\<close> was admitted.\<close>

type_synonym asking = "string \<times> int \<times> instant"

fun admitted ::
    "(string \<Rightarrow> int \<Rightarrow> instant \<Rightarrow> 'w \<Rightarrow> bool \<times> 'w) \<Rightarrow> string \<Rightarrow> asking list \<Rightarrow> 'w \<Rightarrow> instant list" where
  "admitted check key [] w = []"
| "admitted check key ((k, rpm, now) # qs) w =
    (let (ok, w') = check k rpm now w in
     (if k = key \<and> ok then [now] else []) @ admitted check key qs w')"

definition in_minute :: "instant \<Rightarrow> instant list \<Rightarrow> instant list" where
  "in_minute t ts = filter (\<lambda>x. t - minute < x \<and> x \<le> t) ts"

definition clock_ok :: "instant \<Rightarrow> asking list \<Rightarrow> bool" where
  "clock_ok t qs \<longleftrightarrow> sorted (t # map (\<lambda>q. snd (snd q)) qs)"

definition limits :: "string \<Rightarrow> int \<Rightarrow> asking list \<Rightarrow> bool" where
  "limits key rpm qs \<longleftrightarrow> (\<forall>q \<in> set qs. fst q = key \<longrightarrow> fst (snd q) = rpm)"

text \<open>
  The interface: a request is admitted when fewer than the limit were admitted for its key within the
  last minute; then it is the last entry of that key's window, and no other window changes.
\<close>

locale rpm_window =
  fixes check :: "string \<Rightarrow> int \<Rightarrow> instant \<Rightarrow> 'w \<Rightarrow> bool \<times> 'w"
    and win :: "'w \<Rightarrow> string \<Rightarrow> instant list"
  assumes admits_iff: "fst (check k rpm now w) \<longleftrightarrow> int (length (recent now (win w k))) < rpm"
    and own_window: "win (snd (check k rpm now w)) k = recent now (win w k) @ (if fst (check k rpm now w) then [now] else [])"
    and other_window: "k' \<noteq> k \<Longrightarrow> win (snd (check k rpm now w)) k' = win w k'"
begin

text \<open>
  \<open>past\<close> are the admissions so far, \<open>t\<close> the latest instant: the window holds what of them may still count.
\<close>

definition window_inv :: "string \<Rightarrow> int \<Rightarrow> instant list \<Rightarrow> instant \<Rightarrow> 'w \<Rightarrow> bool" where
  "window_inv key rpm past t w \<longleftrightarrow>
    (\<forall>x \<in> set past. x \<le> t) \<and> recent t past = recent t (win w key) \<and>
    (\<forall>u. int (length (in_minute u past)) \<le> max 0 rpm)"

lemma recent_recent: "t \<le> now \<Longrightarrow> recent now (recent t ts) = recent now ts"
  by (auto simp: recent_def intro!: filter_cong)

lemma window_inv_step:
  assumes i: "window_inv key rpm past t w" and t: "t \<le> now" and q: "k = key \<Longrightarrow> bnd = rpm"
  shows "window_inv key rpm (past @ (if k = key \<and> fst (check k bnd now w) then [now] else [])) now (snd (check k bnd now w))"
proof -
  have le: "\<forall>x \<in> set past. x \<le> now" using i t unfolding window_inv_def by force
  have r: "recent now past = recent now (win w key)"
    using i recent_recent [OF t] unfolding window_inv_def by metis
  have b: "int (length (in_minute u past)) \<le> max 0 rpm" for u using i by (simp add: window_inv_def)
  show ?thesis
  proof (cases "k = key")
    case False
    then show ?thesis using le r b other_window [of key k] by (simp add: window_inv_def)
  next
    case True
    note own = own_window [of key bnd now w] and bnd = q [OF True]
    have now_recent: "recent now [now] = [now]" by (simp add: recent_def minute_def)
    have "recent now (win (snd (check key bnd now w)) key) =
        recent now (past @ (if fst (check key bnd now w) then [now] else []))"
      using own r by (simp add: recent_def)
    moreover have "int (length (in_minute u (past @ [now]))) \<le> max 0 rpm" if ok: "fst (check key bnd now w)" for u
    proof (cases "u < now")
      case True
      then show ?thesis using b [of u] by (simp add: in_minute_def)
    next
      case False
      then have "length (in_minute u past) \<le> length (recent now past)"
        unfolding in_minute_def recent_def by (intro filter_length_mono) (use le in auto)
      moreover have "int (length (recent now past)) < rpm" using ok admits_iff [of key bnd now w] r bnd by simp
      ultimately show ?thesis by (simp add: in_minute_def)
    qed
    ultimately show ?thesis using le b True by (auto simp: window_inv_def)
  qed
qed

lemma admitted_bound:
  assumes "window_inv key rpm past t w" and "clock_ok t qs" and "limits key rpm qs"
  shows "int (length (in_minute u (past @ admitted check key qs w))) \<le> max 0 rpm"
  using assms
proof (induction qs arbitrary: past t w)
  case Nil
  then show ?case by (simp add: window_inv_def)
next
  case (Cons q qs)
  obtain k bnd now where q: "q = (k, bnd, now)" by (metis prod.exhaust)
  obtain ok w' where c: "check k bnd now w = (ok, w')" by fastforce
  have "t \<le> now" and rest: "clock_ok now qs" using Cons.prems(2) q by (simp_all add: clock_ok_def)
  have bnd: "limits key rpm qs" "k = key \<Longrightarrow> bnd = rpm" using Cons.prems(3) q by (auto simp: limits_def)
  have "window_inv key rpm (past @ (if k = key \<and> ok then [now] else [])) now w'"
    using window_inv_step [OF Cons.prems(1) \<open>t \<le> now\<close>, of k bnd] bnd(2) c by simp
  from Cons.IH [OF this rest bnd(1)] show ?case using q c by (simp add: Let_def)
qed

lemma fresh_inv: "recent t (win w key) = [] \<Longrightarrow> window_inv key rpm [] t w"
  by (simp add: window_inv_def in_minute_def recent_def)

end

section \<open>Both limiters are one\<close>

interpretation per_route: rpm_window sliding_check window_of
  by unfold_locales (auto simp: sliding_check_def Let_def)

interpretation per_worker: rpm_window egress_check window_of
  by unfold_locales (auto simp: egress_check_def Let_def)

text \<open>
  A worker never gets more than its limit through. For any sequence of requests of any workers under
  a clock that does not go back, the requests of one worker (whose limit is \<open>rpm\<close>) that its limiter
  admits within any 60 seconds are at most \<open>rpm\<close> (none, when the limit is not positive), whatever the
  other workers ask for and with whatever limits.
\<close>

theorem worker_rate_bound:
  assumes "clock_ok t qs" and "limits blueprint_id rpm qs"
  shows "int (length (in_minute u (admitted egress_check blueprint_id qs []))) \<le> max 0 rpm"
proof -
  have "per_worker.window_inv blueprint_id rpm [] t []"
    by (rule per_worker.fresh_inv) (simp add: window_of_def recent_def)
  from per_worker.admitted_bound [OF this assms] show ?thesis by simp
qed

theorem worker_rate_bound_witness:
  "length (in_minute 2 (admitted egress_check ''a'' [(''a'', 1, 0), (''b'', 5, 1), (''a'', 1, 2)] [])) \<le> 1"
proof -
  have "clock_ok 0 [(''a'', 1, 0), (''b'', 5, 1), (''a'', 1, 2)]" "limits ''a'' 1 [(''a'', 1, 0), (''b'', 5, 1), (''a'', 1, 2)]"
    by (simp_all add: clock_ok_def limits_def)
  from worker_rate_bound [OF this, of 2] show ?thesis by simp
qed

end
