(* ===== verification/Egress_Proxy.thy ===== *)
theory Egress_Proxy
  imports Sandbox Rate_Limit Effects
begin

text \<open>
  The egress side of a worker: the policies per capability (\<open>EgressPolicyStore\<close> of
  \<open>orchestrator/worker_lifecycle.py\<close>) and the proxy that decides on its requests
  (\<open>orchestrator/egress_proxy.py\<close>). The limiter is shared by all workers: its windows are passed through.
\<close>

section \<open>Policies\<close>

record egress_policy =
  ep_capability :: string
  ep_endpoints :: "string list"
  ep_rpm :: int

type_synonym policy_store = "(string, egress_policy) dict"

definition policy_get :: "policy_store \<Rightarrow> string \<Rightarrow> egress_policy option" where
  "policy_get P cid = map_of P cid"

definition add_rpm :: "int \<Rightarrow> string \<Rightarrow> (string, int) dict \<Rightarrow> (string, int) dict" where
  "add_rpm rpm cid d = AList.update cid (max (case map_of d cid of Some n \<Rightarrow> n | None \<Rightarrow> 0) rpm) d"

definition route_rpm :: "policy_route \<Rightarrow> int" where
  "route_rpm r = (case pr_rpm r of Some n \<Rightarrow> n | None \<Rightarrow> 30)"

definition route_tables ::
    "policy_route list \<Rightarrow> (string, string list) dict \<times> (string, int) dict" where
  "route_tables rs =
    fold (\<lambda>r (endpoints, rpms).
        fold (\<lambda>cid (endpoints, rpms). (add_endpoint (route_endpoint r) cid endpoints, add_rpm (route_rpm r) cid rpms))
          (pr_capabilities r) (endpoints, rpms)) rs ([], [])"

definition load_from_routes :: "policy_route list \<Rightarrow> policy_store \<Rightarrow> policy_store" where
  "load_from_routes rs P =
    (case route_tables rs of (endpoints, rpms) \<Rightarrow>
       fold (\<lambda>(cid, es). AList.update cid \<lparr>ep_capability = cid, ep_endpoints = es,
           ep_rpm = (case map_of rpms cid of Some n \<Rightarrow> n | None \<Rightarrow> 30)\<rparr>) endpoints P)"

section \<open>The proxy\<close>

record egress_decision =
  ed_allowed :: bool
  ed_reason :: string
  ed_matched_rule :: "string option"

text \<open>\<open>px_limited\<close>: whether the proxy was given the limiter; \<open>px_durable\<close>: whether it has an audit client.\<close>

record egress_proxy =
  px_blueprint :: blueprint
  px_policy :: egress_policy
  px_ollama_host :: string
  px_ollama_port :: int
  px_limited :: bool
  px_durable :: bool
  px_events :: "event list"

definition denied :: "string \<Rightarrow> egress_decision" where
  "denied why = \<lparr>ed_allowed = False, ed_reason = why, ed_matched_rule = None\<rparr>"

definition authorize :: "instant \<Rightarrow> egress_proxy \<Rightarrow> string \<Rightarrow> int \<Rightarrow> windows \<Rightarrow> egress_decision \<times> windows" where
  "authorize now px target_host target_port w =
    (let target = target_host @ '':'' @ int_str target_port;
         in_blueprint = target \<in> set (bp_egress_allow (px_blueprint px));
         in_policy = target \<in> set (ep_endpoints (px_policy px));
         matched = \<lparr>ed_allowed = True, ed_reason = ''allowlist_match'', ed_matched_rule = Some target\<rparr>
     in
     if bp_network_mode (px_blueprint px) = ''none'' then (denied ''network_mode_none'', w)
     else if target_host = px_ollama_host px \<and> target_port = px_ollama_port px
     then (\<lparr>ed_allowed = True, ed_reason = ''ollama_always_allowed'',
            ed_matched_rule = Some (''ollama:'' @ px_ollama_host px @ '':'' @ int_str (px_ollama_port px))\<rparr>, w)
     else if in_blueprint \<and> in_policy
     then (if px_limited px
           then (case egress_check (bp_id (px_blueprint px)) (ep_rpm (px_policy px)) now w of
                (ok, w) \<Rightarrow> (if ok then matched else denied ''rate_limited'', w))
           else (matched, w))
     else if in_blueprint \<and> \<not> in_policy then (denied ''manifest_allows_but_policy_denies'', w)
     else (denied ''default_deny'', w))"

definition request_event :: "egress_proxy \<Rightarrow> string \<Rightarrow> int \<Rightarrow> egress_decision \<Rightarrow> stamp \<Rightarrow> event" where
  "request_event px target_host target_port d sp =
    (if ed_allowed d
     then event_egress_authorized sp (bp_id (px_blueprint px)) (bp_capability (px_blueprint px)) target_host target_port
       ''egress_check'' (case ed_matched_rule d of Some m \<Rightarrow> m | None \<Rightarrow> [])
     else event_egress_denied sp (bp_id (px_blueprint px)) (bp_capability (px_blueprint px)) target_host target_port
       ''egress_check'' (ed_reason d))"

definition log_request :: "stamp \<Rightarrow> egress_proxy \<Rightarrow> string \<Rightarrow> int \<Rightarrow> egress_decision \<Rightarrow> egress_proxy" where
  "log_request sp px target_host target_port d =
    px\<lparr>px_events := px_events px @ [request_event px target_host target_port d sp]\<rparr>"

text \<open>The event that is appended is the one that is emitted; an exception of the emission leaves it appended.\<close>

definition log_request_durable ::
    "env \<Rightarrow> egress_proxy \<Rightarrow> string \<Rightarrow> int \<Rightarrow> egress_decision \<Rightarrow> 'a audit_scheme \<Rightarrow> (egress_proxy \<times> (py_exc + unit)) \<times> 'a audit_scheme" where
  "log_request_durable E px target_host target_port d s =
    (let sp = stamp_of E (length (alog s)); px' = log_request sp px target_host target_port d in
     if px_durable px
     then (case emit E (request_event px target_host target_port d) s of (r, s') \<Rightarrow> ((px', map_sum id (\<lambda>_. ()) r), s'))
     else ((px', Inr ()), s))"

section \<open>The two tables of endpoints agree\<close>

lemma fold_pair:
  "fold (\<lambda>x (a, b). (f x a, g x b)) xs (a, b) = (fold f xs a, fold g xs b)"
  by (induction xs arbitrary: a b) simp_all

lemma fst_route_tables: "fst (route_tables rs) = build_egress_endpoints_from_routes rs"
proof -
  have "fold (\<lambda>cid (endpoints, rpms). (add_endpoint (route_endpoint r) cid endpoints, add_rpm (route_rpm r) cid rpms))
          (pr_capabilities r) (es, ns) =
        (fold (add_endpoint (route_endpoint r)) (pr_capabilities r) es, fold (add_rpm (route_rpm r)) (pr_capabilities r) ns)"
    for r es ns by (rule fold_pair)
  then have "route_tables rs = fold (\<lambda>r (es, ns). (fold (add_endpoint (route_endpoint r)) (pr_capabilities r) es,
      fold (add_rpm (route_rpm r)) (pr_capabilities r) ns)) rs ([], [])"
    by (simp add: route_tables_def)
  also have "\<dots> = (fold (\<lambda>r. fold (add_endpoint (route_endpoint r)) (pr_capabilities r)) rs [],
      fold (\<lambda>r. fold (add_rpm (route_rpm r)) (pr_capabilities r)) rs [])"
    by (rule fold_pair)
  finally show ?thesis by (simp add: build_egress_endpoints_from_routes_def)
qed

lemma wf_endpoints: "wf_dict (build_egress_endpoints_from_routes rs)"
proof -
  have one: "wf_dict d \<Longrightarrow> wf_dict (fold (add_endpoint e) cids d)" for e cids and d :: "(string, string list) dict"
    by (induction cids arbitrary: d) (simp_all add: add_endpoint_def Let_def)
  have "wf_dict d \<Longrightarrow> wf_dict (fold (\<lambda>r. fold (add_endpoint (route_endpoint r)) (pr_capabilities r)) rs d)" for d
    by (induction rs arbitrary: d) (simp_all add: one)
  then show ?thesis by (simp add: build_egress_endpoints_from_routes_def)
qed

lemma map_of_fold_update:
  "wf_dict es \<Longrightarrow> map_of (fold (\<lambda>(k, v). AList.update k (f k v)) es d) x =
    (case map_of es x of Some v \<Rightarrow> Some (f x v) | None \<Rightarrow> map_of d x)"
proof (induction es arbitrary: d)
  case (Cons e es)
  obtain k v where e: "e = (k, v)" by (cases e)
  have "map_of es k = None" using Cons.prems e by (simp add: map_of_eq_None_iff)
  with Cons e show ?case by (auto split: option.split)
qed simp

text \<open>
  The two readings of the egress routes agree: the endpoints that the policy store gives a capability
  (from which its manifest and its proxy are made) are, for every capability, those that the manifest
  validator authorises it to declare, in the same order and without repetition.
\<close>

lemma policy_tables_agree:
  "map_option ep_endpoints (policy_get (load_from_routes rs []) cid) = map_of (build_egress_endpoints_from_routes rs) cid"
proof -
  obtain es ns where t: "route_tables rs = (es, ns)" by (cases "route_tables rs")
  then have es: "es = build_egress_endpoints_from_routes rs" using fst_route_tables [of rs] by simp
  then have "wf_dict es" using wf_endpoints by simp
  from map_of_fold_update [OF this, where f = "\<lambda>cid es. \<lparr>ep_capability = cid, ep_endpoints = es,
      ep_rpm = (case map_of ns cid of Some n \<Rightarrow> n | None \<Rightarrow> 30)\<rparr>" and d = "[]" and x = cid]
  show ?thesis
    unfolding policy_get_def load_from_routes_def t es by (simp split: option.split)
qed

section \<open>What the proxy allows\<close>

definition endpoint_text :: "string \<Rightarrow> int \<Rightarrow> string" where
  "endpoint_text h p = h @ '':'' @ int_str p"

definition has_room :: "instant \<Rightarrow> egress_proxy \<Rightarrow> windows \<Rightarrow> bool" where
  "has_room now px w \<longleftrightarrow>
    \<not> px_limited px \<or> int (length (recent now (window_of w (bp_id (px_blueprint px))))) < ep_rpm (px_policy px)"

text \<open>
  The proxy allows a request exactly when the container has a network and the target is the local
  Ollama, or an endpoint that both the blueprint and the current policy list, with room in the limiter.
  Nothing else gets through, and a request that is not of this last kind leaves the limiter as it was.
\<close>

theorem egress_allowed_iff:
  "(ed_allowed (fst (authorize now px h p w)) \<longleftrightarrow>
     bp_network_mode (px_blueprint px) \<noteq> ''none'' \<and>
     (h = px_ollama_host px \<and> p = px_ollama_port px \<or>
      endpoint_text h p \<in> set (bp_egress_allow (px_blueprint px)) \<inter> set (ep_endpoints (px_policy px)) \<and> has_room now px w)) \<and>
   (snd (authorize now px h p w) = w \<or>
     snd (authorize now px h p w) = snd (egress_check (bp_id (px_blueprint px)) (ep_rpm (px_policy px)) now w) \<and>
     endpoint_text h p \<in> set (bp_egress_allow (px_blueprint px)) \<inter> set (ep_endpoints (px_policy px)))"
  using per_worker.admits_iff [of "bp_id (px_blueprint px)" "ep_rpm (px_policy px)" now w]
  by (auto simp: authorize_def denied_def endpoint_text_def has_room_def Let_def split: prod.splits)

end
