(* ===== verification/Idempotency.thy ===== *)
theory Idempotency
  imports Write_Through
begin

text \<open>
  Identity of a submission: \<open>orchestrator/source_event.py\<close> and \<open>orchestrator/idempotency_store.py\<close>.

  \<^item> Unicode normalisation to NFC (\<open>nfc\<close>) and SHA-256 (\<open>sha\<close>) are arguments; characters are the code
    points below 256, for which \<open>is_space\<close> is Python's whitespace.
  \<^item> The SQLite file is a record of its tables: \<open>jobs\<close>, and \<open>state\<close> split by its three key prefixes.
    A statement fails when the database is down (\<open>up = False\<close>); the code logs that and goes on.
    The JSON text of a row is the value it encodes.
\<close>

section \<open>Normal form of the input\<close>

definition is_space :: "char \<Rightarrow> bool" where
  "is_space c \<longleftrightarrow> (let n = of_char c :: nat in
     9 \<le> n \<and> n \<le> 13 \<or> 28 \<le> n \<and> n \<le> 32 \<or> n = 133 \<or> n = 160)"

abbreviation blank_char :: char where
  "blank_char \<equiv> CHR '' ''"

lemma is_space_blank [simp]: "is_space blank_char"
  by code_simp

text \<open>\<open>_WHITESPACE_RUN.sub(" ", s)\<close>.\<close>

function collapse_ws :: "string \<Rightarrow> string" where
  "collapse_ws [] = []"
| "collapse_ws (c # cs) =
    (if is_space c then blank_char # collapse_ws (dropWhile is_space cs) else c # collapse_ws cs)"
  by pat_completeness auto
termination
  by (relation "measure length") (auto simp: le_imp_less_Suc length_dropWhile_le)

definition strip_ws :: "string \<Rightarrow> string" where
  "strip_ws s = rev (dropWhile is_space (rev (dropWhile is_space s)))"

definition normalize_raw_input :: "(string \<Rightarrow> string) \<Rightarrow> string \<Rightarrow> string" where
  "normalize_raw_input nfc raw_input = strip_ws (collapse_ws (nfc raw_input))"

text \<open>A string literal of \<open>json.dumps(..., ensure_ascii=False)\<close>.\<close>

definition hex_digit :: "nat \<Rightarrow> char" where
  "hex_digit n = (if n < 10 then char_of (48 + n) else char_of (87 + n))"

definition json_escape :: "char \<Rightarrow> string" where
  "json_escape c =
    (let n = of_char c :: nat in
     if n = 34 then [CHR 0x5C, CHR 0x22]
     else if n = 92 then [CHR 0x5C, CHR 0x5C]
     else if n = 10 then [CHR 0x5C, CHR ''n'']
     else if n = 13 then [CHR 0x5C, CHR ''r'']
     else if n = 9 then [CHR 0x5C, CHR ''t'']
     else if n = 12 then [CHR 0x5C, CHR ''f'']
     else if n = 8 then [CHR 0x5C, CHR ''b'']
     else if n < 32 then [CHR 0x5C, CHR ''u'', CHR ''0'', CHR ''0'', hex_digit (n div 16), hex_digit (n mod 16)]
     else [c])"

definition json_string :: "string \<Rightarrow> string" where
  "json_string s = CHR 0x22 # concat (map json_escape s) @ [CHR 0x22]"

definition intent_canonical :: "string \<Rightarrow> string \<Rightarrow> string" where
  "intent_canonical normalized modality =
    CHR ''{'' # json_string ''input_modality'' @ '':'' @ json_string modality @ '','' @
    json_string ''normalized_raw_input'' @ '':'' @ json_string normalized @ ''}''"

definition compute_intent_equivalence_hash ::
    "(string \<Rightarrow> string) \<Rightarrow> (string \<Rightarrow> string) \<Rightarrow> string \<Rightarrow> string \<Rightarrow> string" where
  "compute_intent_equivalence_hash sha nfc raw_input modality =
    sha (intent_canonical (normalize_raw_input nfc raw_input) modality)"

definition source_event_key :: "string \<Rightarrow> string \<Rightarrow> string" where
  "source_event_key client_source client_source_event_id = client_source @ '':'' @ client_source_event_id"

section \<open>The store\<close>

record idem_record =
  ir_job_id :: string
  ir_created_at :: instant
  ir_status :: string

record review_record =
  payload_identity :: "(string, json) dict"
  outcome_code :: nat
  outcome_body :: "(string, json) dict"
  applied :: bool
  rr_created_at :: instant

record source_event_record =
  sr_job_id :: string
  sr_hash :: string
  sr_client_source :: string
  sr_event_id :: string
  sr_created_at :: instant

text \<open>A row of the table \<open>jobs\<close>; \<open>row_data\<close> is the job its JSON column holds.\<close>

record 'j job_row =
  row_job_id :: string
  row_status :: string
  row_created_at :: instant
  row_idem :: "string option"
  row_data :: 'j

record 'j database =
  jobs_tab :: "'j job_row list"
  idem_tab :: "(string, idem_record) dict"
  review_tab :: "(string, review_record) dict"
  source_tab :: "(string, source_event_record) dict"

record 'j store =
  idem_records :: "(string, idem_record) dict"
  review_records :: "(string, review_record) dict"
  source_records :: "(string, source_event_record) dict"
  db :: "'j database option"

definition DEFAULT_TTL_SECONDS :: int where
  "DEFAULT_TTL_SECONDS = 604800"

text \<open>A write-through statement, skipped when there is no database or it fails.\<close>

definition db_exec :: "bool \<Rightarrow> ('j database \<Rightarrow> 'j database) \<Rightarrow> ('j, 'a) store_scheme \<Rightarrow> ('j, 'a) store_scheme" where
  "db_exec up f S = (case db S of None \<Rightarrow> S | Some D \<Rightarrow> if up then S\<lparr>db := Some (f D)\<rparr> else S)"

definition db_write :: "bool \<Rightarrow> string \<Rightarrow> idem_record \<Rightarrow> ('j, 'a) store_scheme \<Rightarrow> ('j, 'a) store_scheme" where
  "db_write up key rec = db_exec up (\<lambda>D. D\<lparr>idem_tab := AList.update key rec (idem_tab D)\<rparr>)"

definition check_and_store ::
    "bool \<Rightarrow> instant \<Rightarrow> string \<Rightarrow> string \<Rightarrow> ('j, 'a) store_scheme \<Rightarrow> (bool \<times> string option) \<times> ('j, 'a) store_scheme" where
  "check_and_store up now key job_id S =
    (case map_of (idem_records S) key of
       Some r \<Rightarrow> ((False, Some (ir_job_id r)), S)
     | None \<Rightarrow>
         (let r = \<lparr>ir_job_id = job_id, ir_created_at = now, ir_status = ''accepted''\<rparr>
          in ((True, None), db_write up key r (S\<lparr>idem_records := AList.update key r (idem_records S)\<rparr>))))"

definition update_status :: "bool \<Rightarrow> string \<Rightarrow> string \<Rightarrow> ('j, 'a) store_scheme \<Rightarrow> ('j, 'a) store_scheme" where
  "update_status up key status S =
    (case map_of (idem_records S) key of
       None \<Rightarrow> S
     | Some r \<Rightarrow>
         (let r' = r\<lparr>ir_status := status\<rparr>
          in db_write up key r' (S\<lparr>idem_records := AList.update key r' (idem_records S)\<rparr>)))"

definition get_idem :: "string \<Rightarrow> ('j, 'a) store_scheme \<Rightarrow> idem_record option" where
  "get_idem key S = map_of (idem_records S) key"

definition db_delete :: "bool \<Rightarrow> string list \<Rightarrow> ('j, 'a) store_scheme \<Rightarrow> ('j, 'a) store_scheme" where
  "db_delete up ks = db_exec up (\<lambda>D. D\<lparr>idem_tab := filter (\<lambda>(k, r). k \<notin> set ks) (idem_tab D)\<rparr>)"

definition db_write_review :: "bool \<Rightarrow> string \<Rightarrow> review_record \<Rightarrow> ('j, 'a) store_scheme \<Rightarrow> ('j, 'a) store_scheme" where
  "db_write_review up key r = db_exec up (\<lambda>D. D\<lparr>review_tab := AList.update key r (review_tab D)\<rparr>)"

definition expired_keys :: "int \<Rightarrow> instant \<Rightarrow> ('j, 'a) store_scheme \<Rightarrow> string list" where
  "expired_keys ttl now S =
    map fst (filter (\<lambda>(k, r). now - ir_created_at r > ttl * 1000000) (idem_records S))"

definition purge_expired :: "bool \<Rightarrow> int \<Rightarrow> instant \<Rightarrow> ('j, 'a) store_scheme \<Rightarrow> nat \<times> ('j, 'a) store_scheme" where
  "purge_expired up ttl now S =
    (let ks = expired_keys ttl now S in
     (length ks,
      db_delete up ks
        (S\<lparr>idem_records := filter (\<lambda>(k, r). k \<notin> set ks) (idem_records S)\<rparr>)))"

definition store_review_outcome ::
    "bool \<Rightarrow> string \<Rightarrow> review_record \<Rightarrow> ('j, 'a) store_scheme \<Rightarrow> ('j, 'a) store_scheme" where
  "store_review_outcome up key r S =
    db_write_review up key r
      (S\<lparr>review_records := AList.update key r (review_records S)\<rparr>)"

definition get_review_outcome :: "string \<Rightarrow> ('j, 'a) store_scheme \<Rightarrow> review_record option" where
  "get_review_outcome key S = map_of (review_records S) key"

section \<open>Restart\<close>

text \<open>A key is stale when no job in a state other than delivered or failed carries it.\<close>

definition key_live :: "'j job_row list \<Rightarrow> idem_record \<Rightarrow> bool" where
  "key_live rows r \<longleftrightarrow> list_ex (\<lambda>row. row_job_id row = ir_job_id r \<and> row_status row \<notin> {''delivered'', ''failed''}) rows"

definition purge_terminal_keys :: "bool \<Rightarrow> ('j, 'a) store_scheme \<Rightarrow> nat \<times> ('j, 'a) store_scheme" where
  "purge_terminal_keys up S =
    (case db S of
       None \<Rightarrow> (0, S)
     | Some D \<Rightarrow>
         if up then
           (length (filter (\<lambda>(k, r). \<not> key_live (jobs_tab D) r) (idem_tab D)),
            S\<lparr>db := Some (D\<lparr>idem_tab := filter (\<lambda>(k, r). key_live (jobs_tab D) r) (idem_tab D)\<rparr>)\<rparr>)
         else (0, S))"

definition load_from_db :: "bool \<Rightarrow> ('j, 'a) store_scheme \<Rightarrow> ('j, 'a) store_scheme" where
  "load_from_db up S =
    (let S1 = snd (purge_terminal_keys up S) in
     case db S1 of
       None \<Rightarrow> S1
     | Some D \<Rightarrow>
         if up then
           S1\<lparr>idem_records := idem_tab D, review_records := review_tab D, source_records := source_tab D\<rparr>
         else S1)"

definition new_store :: "bool \<Rightarrow> 'j database option \<Rightarrow> 'j store" where
  "new_store up D =
    load_from_db up \<lparr>idem_records = [], review_records = [], source_records = [],
      db = (if up then D else None)\<rparr>"

text \<open>The outcome of a review is written through to its row and read back.\<close>

interpretation review_rows: write_through "\<lambda>S. db S \<noteq> None" "get_review_outcome key"
  "\<lambda>S. case db S of Some D \<Rightarrow> map_of (review_tab D) key | None \<Rightarrow> None"
  "\<lambda>up r S. store_review_outcome up key r S" "\<lambda>S. new_store True (db S)" None for key
  by unfold_locales
    (auto simp: store_review_outcome_def db_write_review_def db_exec_def get_review_outcome_def new_store_def load_from_db_def
      purge_terminal_keys_def split: option.splits)


section \<open>Source events\<close>

definition db_try_insert_source_event ::
    "bool \<Rightarrow> string \<Rightarrow> source_event_record \<Rightarrow> ('j, 'a) store_scheme \<Rightarrow> bool \<times> ('j, 'a) store_scheme" where
  "db_try_insert_source_event up key r S =
    (case db S of
       None \<Rightarrow> (False, S)
     | Some D \<Rightarrow>
         if up \<and> map_of (source_tab D) key = None
         then (True, S\<lparr>db := Some (D\<lparr>source_tab := AList.update key r (source_tab D)\<rparr>)\<rparr>)
         else (False, S))"

definition db_read_source_event :: "bool \<Rightarrow> string \<Rightarrow> ('j, 'a) store_scheme \<Rightarrow> source_event_record option" where
  "db_read_source_event up key S =
    (case db S of None \<Rightarrow> None | Some D \<Rightarrow> if up then map_of (source_tab D) key else None)"

definition check_and_store_source_event ::
    "bool \<Rightarrow> instant \<Rightarrow> string \<Rightarrow> string \<Rightarrow> string \<Rightarrow> string \<Rightarrow> ('j, 'a) store_scheme
      \<Rightarrow> (string \<times> source_event_record) \<times> ('j, 'a) store_scheme" where
  "check_and_store_source_event up now client_source event_id job_id intent_hash S =
    (let key = source_event_key client_source event_id;
         r = \<lparr>sr_job_id = job_id, sr_hash = intent_hash, sr_client_source = client_source,
              sr_event_id = event_id, sr_created_at = now\<rparr>;
         (inserted, S1) = db_try_insert_source_event up key r S
     in if inserted then ((''new'', r), S1\<lparr>source_records := AList.update key r (source_records S1)\<rparr>)
        else
          (case (case db_read_source_event up key S1 of
                   Some e \<Rightarrow> Some e | None \<Rightarrow> map_of (source_records S1) key) of
             Some e \<Rightarrow>
               ((if sr_hash e = intent_hash then ''equivalent'' else ''conflict'', e),
                S1\<lparr>source_records := AList.update key e (source_records S1)\<rparr>)
           | None \<Rightarrow> ((''new'', r), S1\<lparr>source_records := AList.update key r (source_records S1)\<rparr>)))"

definition db_delete_source_event ::
    "bool \<Rightarrow> string \<Rightarrow> string \<Rightarrow> ('j, 'a) store_scheme \<Rightarrow> ('j, 'a) store_scheme" where
  "db_delete_source_event up key job_id =
    db_exec up (\<lambda>D. D\<lparr>source_tab := filter (\<lambda>(k, r). \<not> (k = key \<and> sr_job_id r = job_id)) (source_tab D)\<rparr>)"

definition release_source_event ::
    "bool \<Rightarrow> string \<Rightarrow> string \<Rightarrow> string \<Rightarrow> ('j, 'a) store_scheme \<Rightarrow> ('j, 'a) store_scheme" where
  "release_source_event up client_source event_id job_id S =
    (let key = source_event_key client_source event_id;
         S1 = (case map_of (source_records S) key of
                 Some e \<Rightarrow> if sr_job_id e = job_id
                           then S\<lparr>source_records := AList.delete key (source_records S)\<rparr> else S
               | None \<Rightarrow> S)
     in db_delete_source_event up key job_id S1)"

definition get_source_event ::
    "bool \<Rightarrow> string \<Rightarrow> string \<Rightarrow> ('j, 'a) store_scheme \<Rightarrow> source_event_record option \<times> ('j, 'a) store_scheme" where
  "get_source_event up client_source event_id S =
    (let key = source_event_key client_source event_id in
     case map_of (source_records S) key of
       Some r \<Rightarrow> (Some r, S)
     | None \<Rightarrow>
         (case db_read_source_event up key S of
            Some r \<Rightarrow> (Some r, S\<lparr>source_records := AList.update key r (source_records S)\<rparr>)
          | None \<Rightarrow> (None, S)))"

section \<open>Intent equivalence\<close>

text \<open>The words of an input, and the reference form: the words separated by one space.\<close>

function words :: "string \<Rightarrow> string list" where
  "words [] = []"
| "words (c # cs) =
    (if is_space c then words cs
     else (c # takeWhile (\<lambda>x. \<not> is_space x) cs) # words (dropWhile (\<lambda>x. \<not> is_space x) cs))"
  by pat_completeness auto
termination
  by (relation "measure length") (auto simp: le_imp_less_Suc length_dropWhile_le)

fun unwords :: "string list \<Rightarrow> string" where
  "unwords [] = []"
| "unwords [w] = w"
| "unwords (w # v # ws) = w @ blank_char # unwords (v # ws)"

definition word_ok :: "string \<Rightarrow> bool" where
  "word_ok w \<longleftrightarrow> w \<noteq> [] \<and> list_all (\<lambda>c. \<not> is_space c) w"

lemma word_ok_takeWhile: "\<not> is_space c \<Longrightarrow> word_ok (c # takeWhile (\<lambda>x. \<not> is_space x) cs)"
  by (induction cs) (auto simp: word_ok_def)

lemma words_ok: "list_all word_ok (words s)"
proof (induction s rule: words.induct)
  case (2 c cs)
  then show ?case by (cases "is_space c") (simp_all add: word_ok_takeWhile)
qed simp

lemma words_dropWhile [simp]: "words (dropWhile is_space s) = words s"
  by (induction s) auto

lemma words_app:
  assumes "word_ok w" and "rest = [] \<or> is_space (hd rest)"
  shows "words (w @ rest) = w # words rest"
proof -
  obtain c cs where w: "w = c # cs" "\<not> is_space c" "list_all (\<lambda>c. \<not> is_space c) cs"
    using assms(1) by (cases w) (auto simp: word_ok_def)
  have "takeWhile (\<lambda>x. \<not> is_space x) (cs @ rest) = cs" "dropWhile (\<lambda>x. \<not> is_space x) (cs @ rest) = rest"
    using w(3) assms(2) by (induction cs) (cases rest; auto)+
  then show ?thesis using w by simp
qed

lemma words_unwords: "list_all word_ok ws \<Longrightarrow> words (unwords ws) = ws"
proof (induction ws rule: unwords.induct)
  case (2 w)
  then show ?case using words_app [of w "[]"] by simp
next
  case (3 w v ws)
  then show ?case using words_app [of w "blank_char # unwords (v # ws)"] by simp
qed simp

lemma collapse_ws_word: "list_all (\<lambda>c. \<not> is_space c) w \<Longrightarrow> collapse_ws (w @ s) = w @ collapse_ws s"
  by (induction w) auto

definition starts_blank :: "string \<Rightarrow> string" where
  "starts_blank s = (if s \<noteq> [] \<and> is_space (hd s) then [blank_char] else [])"

definition ends_blank :: "string \<Rightarrow> string" where
  "ends_blank s = (if s \<noteq> [] \<and> is_space (last s) then [blank_char] else [])"

lemma starts_blank_word: "word_ok w \<Longrightarrow> starts_blank (w @ s) = []"
  by (cases w) (auto simp: starts_blank_def word_ok_def)

lemma unwords_Cons: "ws \<noteq> [] \<Longrightarrow> unwords (w # ws) = w @ blank_char # unwords ws"
  by (cases ws) auto

lemma words_empty_iff: "words s = [] \<longleftrightarrow> list_all is_space s"
  by (induction s rule: words.induct) auto

lemma last_dropWhile: "\<not> list_all P s \<Longrightarrow> last (dropWhile P s) = last s"
  by (induction s) auto

lemma collapse_ws_words:
  "collapse_ws s = (if words s = [] then starts_blank s else starts_blank s @ unwords (words s) @ ends_blank s)"
proof (induction s rule: length_induct)
  case (1 s)
  show ?case
  proof (cases s)
    case (Cons c cs)
    show ?thesis
    proof (cases "is_space c")
      case True
      define d where "d = dropWhile is_space cs"
      have IH: "collapse_ws d = (if words d = [] then starts_blank d else starts_blank d @ unwords (words d) @ ends_blank d)"
        using 1 Cons by (simp add: d_def le_imp_less_Suc length_dropWhile_le)
      have w: "words s = words d" using Cons True by (simp add: d_def)
      have sd: "starts_blank d = []"
        using hd_dropWhile [of is_space cs] by (auto simp: starts_blank_def d_def)
      have ed: "words d \<noteq> [] \<Longrightarrow> ends_blank d = ends_blank s"
        using Cons w words_empty_iff [of s] last_dropWhile [of is_space cs] True
        by (auto simp: ends_blank_def d_def words_empty_iff list_all_iff split: if_splits)
      show ?thesis using Cons True IH w sd ed by (simp add: starts_blank_def d_def [symmetric])
    next
      case False
      define w where "w = takeWhile (\<lambda>x. \<not> is_space x) s"
      define r where "r = dropWhile (\<lambda>x. \<not> is_space x) s"
      have s: "s = w @ r" by (simp add: w_def r_def)
      have ok: "word_ok w"
        using Cons False word_ok_takeWhile [of c cs] by (simp add: w_def)
      have r: "r = [] \<or> is_space (hd r)"
        using hd_dropWhile [of "\<lambda>x. \<not> is_space x" s] by (auto simp: r_def)
      have "length r < length s" using ok s by (cases w) (auto simp: word_ok_def)
      then have IH: "collapse_ws r = (if words r = [] then starts_blank r else starts_blank r @ unwords (words r) @ ends_blank r)"
        using 1 by blast
      have e: "words s = w # words r" using words_app [OF ok r] s by simp
      have c: "collapse_ws s = w @ collapse_ws r" using collapse_ws_word ok s by (simp add: word_ok_def)
      have lw: "\<not> is_space (last w)" using ok by (auto simp: word_ok_def list_all_iff)
      show ?thesis
      proof (cases "r = []")
        case True
        then show ?thesis using e c s lw ok starts_blank_word [OF ok, of "[]"]
          by (simp add: ends_blank_def word_ok_def)
      next
        case rne: False
        then have sb: "starts_blank r = [blank_char]" and eb: "ends_blank r = ends_blank s"
          using r s by (auto simp: starts_blank_def ends_blank_def)
        show ?thesis
        proof (cases "words r = []")
          case True
          then have "is_space (last r)" using rne by (auto simp: words_empty_iff list_all_iff)
          then have "ends_blank s = [blank_char]" using rne s by (simp add: ends_blank_def)
          then show ?thesis using True e c IH sb starts_blank_word [OF ok, of r] s by simp
        next
          case False
          then show ?thesis using e c IH sb eb starts_blank_word [OF ok, of r] s by (simp add: unwords_Cons)
        qed
      qed
    qed
  qed (simp add: starts_blank_def)
qed

lemma unwords_edges:
  assumes "list_all word_ok ws" and "ws \<noteq> []"
  shows "unwords ws \<noteq> [] \<and> \<not> is_space (hd (unwords ws)) \<and> \<not> is_space (last (unwords ws))"
  using assms
proof (induction ws rule: unwords.induct)
  case (2 w)
  then show ?case by (cases w) (auto simp: word_ok_def list_all_iff)
next
  case (3 w v ws)
  then show ?case by (cases w) (auto simp: word_ok_def)
qed simp

lemma strip_ws_core:
  assumes "list_all is_space a" "list_all is_space b" "u \<noteq> []" "\<not> is_space (hd u)" "\<not> is_space (last u)"
  shows "strip_ws (a @ u @ b) = u"
proof -
  have "dropWhile is_space (a @ u @ b) = u @ b"
    using assms by (cases u) (auto simp: dropWhile_append2 list_all_iff)
  moreover have "dropWhile is_space (rev b @ rev u) = dropWhile is_space (rev u)"
    using assms(2) by (intro dropWhile_append2) (simp add: list_all_iff)
  moreover have "dropWhile is_space (rev u) = rev u"
    using assms by (cases u rule: rev_cases) auto
  ultimately show ?thesis by (simp add: strip_ws_def)
qed

lemma normalize_words: "normalize_raw_input nfc s = unwords (words (nfc s))"
proof (cases "words (nfc s) = []")
  case True
  then show ?thesis
    by (simp add: normalize_raw_input_def collapse_ws_words starts_blank_def strip_ws_def)
next
  case False
  have "list_all is_space (starts_blank t)" "list_all is_space (ends_blank t)" for t
    by (simp_all add: starts_blank_def ends_blank_def)
  then show ?thesis
    using False unwords_edges [OF words_ok False]
    by (simp add: normalize_raw_input_def collapse_ws_words strip_ws_core)
qed

lemma normalize_eq_iff:
  "normalize_raw_input nfc s = normalize_raw_input nfc t \<longleftrightarrow> words (nfc s) = words (nfc t)"
  using words_unwords [OF words_ok] unfolding normalize_words by metis

text \<open>The canonical text determines its two fields: the escapes form a prefix code.\<close>

definition hex_value :: "char \<Rightarrow> nat" where
  "hex_value c = (let n = of_char c :: nat in if n < 58 then n - 48 else n - 87)"

fun json_unescape :: "string \<Rightarrow> (char \<times> string) option" where
  "json_unescape [] = None"
| "json_unescape (c # s) =
    (if c \<noteq> CHR 0x5C then Some (c, s)
     else (case s of
       [] \<Rightarrow> None
     | e # t \<Rightarrow>
         if e = CHR 0x22 \<or> e = CHR 0x5C then Some (e, t)
         else if e = CHR ''n'' then Some (CHR 0x0A, t)
         else if e = CHR ''r'' then Some (CHR 0x0D, t)
         else if e = CHR ''t'' then Some (CHR 0x09, t)
         else if e = CHR ''f'' then Some (CHR 0x0C, t)
         else if e = CHR ''b'' then Some (CHR 0x08, t)
         else Some (char_of (16 * hex_value (t ! 2) + hex_value (t ! 3)), drop 4 t)))"

lemma char_codes:
  "char_of (34::nat) = CHR 0x22" "char_of (92::nat) = CHR 0x5C" "char_of (10::nat) = CHR 0x0A"
  "char_of (13::nat) = CHR 0x0D" "char_of (9::nat) = CHR 0x09" "char_of (12::nat) = CHR 0x0C"
  "char_of (8::nat) = CHR 0x08"
  by code_simp+

lemma hex_value_digit: "n < 16 \<Longrightarrow> hex_value (hex_digit n) = n"
  by (simp add: hex_value_def hex_digit_def Let_def)

lemma json_unescape_escape: "json_unescape (json_escape c @ x) = Some (c, x)"
proof -
  have e: "c = char_of n" if "of_char c = n" for n :: nat
    using that by (metis char_of_char)
  consider "of_char c = (34::nat)" | "of_char c = (92::nat)" | "of_char c = (10::nat)" | "of_char c = (13::nat)"
    | "of_char c = (9::nat)" | "of_char c = (12::nat)" | "of_char c = (8::nat)"
    | (ctrl) "of_char c < (32::nat)" "of_char c \<notin> {34::nat, 92, 10, 13, 9, 12, 8}"
    | (plain) "32 \<le> (of_char c :: nat)" "of_char c \<notin> {34::nat, 92}"
    by fastforce
  then show ?thesis
  proof cases
    case ctrl
    define n where "n = (of_char c :: nat)"
    have "hex_value (hex_digit (n div 16)) = n div 16" "hex_value (hex_digit (n mod 16)) = n mod 16"
      using ctrl by (auto intro!: hex_value_digit simp: n_def)
    moreover have "char_of n = c" by (simp add: n_def)
    moreover have "json_escape c = [CHR 0x5C, CHR ''u'', CHR ''0'', CHR ''0'', hex_digit (n div 16), hex_digit (n mod 16)]"
      using ctrl by (simp add: json_escape_def n_def Let_def)
    ultimately show ?thesis by simp
  next
    case plain
    then have "c \<noteq> CHR 0x5C" by auto
    then show ?thesis using plain by (auto simp: json_escape_def Let_def)
  qed (auto dest!: e simp: json_escape_def Let_def char_codes)
qed

lemma json_escape_eq:
  assumes "json_escape c @ x = json_escape d @ y"
  shows "c = d \<and> x = y"
proof -
  have "Some (c, x) = json_unescape (json_escape c @ x)" by (rule json_unescape_escape [symmetric])
  also have "\<dots> = json_unescape (json_escape d @ y)" by (rule arg_cong [OF assms])
  also have "\<dots> = Some (d, y)" by (rule json_unescape_escape)
  finally show ?thesis by blast
qed

lemma json_escape_not_quote: "json_escape c @ x \<noteq> CHR 0x22 # y"
proof
  assume a: "json_escape c @ x = CHR 0x22 # y"
  have "json_unescape (CHR 0x22 # y) = Some (CHR 0x22, y)" by simp
  then have "c = CHR 0x22" using json_unescape_escape [of c x] a by simp
  then show False using a by (simp add: json_escape_def Let_def)
qed

lemma json_string_eq:
  assumes "concat (map json_escape s) @ CHR 0x22 # x = concat (map json_escape t) @ CHR 0x22 # y"
  shows "s = t \<and> x = y"
  using assms
proof (induction s arbitrary: t)
  case Nil
  show ?case
  proof (cases t)
    case (Cons d ds)
    then show ?thesis using Nil json_escape_not_quote [of d "concat (map json_escape ds) @ CHR 0x22 # y" x] by simp
  qed (use Nil in simp)
next
  case (Cons c s)
  show ?case
  proof (cases t)
    case Nil
    then show ?thesis
      using Cons.prems json_escape_not_quote [of c "concat (map json_escape s) @ CHR 0x22 # x" y] by simp
  next
    case t: (Cons d ds)
    have "c = d \<and> concat (map json_escape s) @ CHR 0x22 # x = concat (map json_escape ds) @ CHR 0x22 # y"
      using Cons.prems t by (intro json_escape_eq) simp
    then show ?thesis using Cons.IH t by blast
  qed
qed

lemma json_string_app:
  assumes "json_string s @ x = json_string t @ y"
  shows "s = t \<and> x = y"
  by (rule json_string_eq) (use assms in \<open>simp add: json_string_def\<close>)

lemma intent_canonical_inj:
  assumes "intent_canonical a m = intent_canonical b n"
  shows "a = b \<and> m = n"
proof -
  have "json_string m @ '','' @ json_string ''normalized_raw_input'' @ '':'' @ json_string a @ ''}''
    = json_string n @ '','' @ json_string ''normalized_raw_input'' @ '':'' @ json_string b @ ''}''"
    using assms by (simp only: intent_canonical_def list.inject same_append_eq simp_thms)
  note eq = json_string_app [OF this]
  have "json_string a @ ''}'' = json_string b @ ''}''"
    using eq [THEN conjunct2] by (simp only: same_append_eq)
  from json_string_app [OF this] eq [THEN conjunct1] show ?thesis by (intro conjI) (erule conjunct1)
qed

text \<open>
  Intent equivalence is what the specification of the normal form says: two submissions get the same
  intent hash exactly when they have the same modality and, after NFC, the same words in the same
  order, whatever whitespace separates or surrounds them; unless SHA-256 collides on the two texts.
\<close>

theorem intent_hash_same_words:
  assumes "sha (intent_canonical (normalize_raw_input nfc s) m) = sha (intent_canonical (normalize_raw_input nfc t) n)
    \<Longrightarrow> intent_canonical (normalize_raw_input nfc s) m = intent_canonical (normalize_raw_input nfc t) n"
  shows "compute_intent_equivalence_hash sha nfc s m = compute_intent_equivalence_hash sha nfc t n
    \<longleftrightarrow> words (nfc s) = words (nfc t) \<and> m = n"
proof -
  have "compute_intent_equivalence_hash sha nfc s m = compute_intent_equivalence_hash sha nfc t n
    \<longleftrightarrow> intent_canonical (normalize_raw_input nfc s) m = intent_canonical (normalize_raw_input nfc t) n"
    unfolding compute_intent_equivalence_hash_def by (rule iffI, erule assms, erule arg_cong)
  also have "\<dots> \<longleftrightarrow> normalize_raw_input nfc s = normalize_raw_input nfc t \<and> m = n"
    by (rule iffI, erule intent_canonical_inj, simp)
  finally show ?thesis by (simp add: normalize_eq_iff)
qed

theorem intent_hash_same_words_witness:
  "compute_intent_equivalence_hash id id ''  remind   me '' ''text'' = compute_intent_equivalence_hash id id ''remind me'' ''text'' \<and>
   compute_intent_equivalence_hash id id ''remind me'' ''text'' \<noteq> compute_intent_equivalence_hash id id ''remind him'' ''text''"
proof
  have w: "words ''  remind   me '' = [''remind'', ''me'']" "words ''remind me'' = [''remind'', ''me'']"
    "words ''remind him'' = [''remind'', ''him'']"
    by code_simp+
  show "compute_intent_equivalence_hash id id ''  remind   me '' ''text'' = compute_intent_equivalence_hash id id ''remind me'' ''text''"
    using w by (subst intent_hash_same_words) simp_all
  show "compute_intent_equivalence_hash id id ''remind me'' ''text'' \<noteq> compute_intent_equivalence_hash id id ''remind him'' ''text''"
    using w by (subst intent_hash_same_words) simp_all
qed

section \<open>Several processes on one database\<close>

text \<open>
  Orchestrator processes, each with its own memory, that share the SQLite file. An operation of a
  member runs on its memory and the shared tables; the store's lock and SQLite make it atomic.
\<close>

record 'j cluster =
  members :: "nat \<Rightarrow> 'j store"
  shared :: "'j database"

definition on_member :: "nat \<Rightarrow> ('j store \<Rightarrow> 'b \<times> 'j store) \<Rightarrow> 'j cluster \<Rightarrow> 'b \<times> 'j cluster" where
  "on_member p f C =
    (let (v, S) = f ((members C p)\<lparr>db := Some (shared C)\<rparr>) in
     (v, C\<lparr>members := (members C)(p := S), shared := (case db S of Some D \<Rightarrow> D | None \<Rightarrow> shared C)\<rparr>))"

datatype source_op =
    Check_source nat bool instant string string string string
  | Release_source nat bool string string string
  | Get_source nat bool string string
  | Restart_store nat

fun source_step :: "source_op \<Rightarrow> 'j cluster \<Rightarrow> (string \<times> source_event_record) option \<times> 'j cluster" where
  "source_step (Check_source p up now cs e j h) C =
    on_member p (\<lambda>S. let (v, S') = check_and_store_source_event up now cs e j h S in (Some v, S')) C"
| "source_step (Release_source p up cs e j) C = on_member p (\<lambda>S. (None, release_source_event up cs e j S)) C"
| "source_step (Get_source p up cs e) C =
    on_member p (\<lambda>S. let (v, S') = get_source_event up cs e S in (map_option (Pair ''found'') v, S')) C"
| "source_step (Restart_store p) C = on_member p (\<lambda>S. (None, new_store True (db S))) C"

definition run_source :: "source_op list \<Rightarrow> 'j cluster \<Rightarrow> 'j cluster" where
  "run_source ops C = fold (\<lambda>op C. snd (source_step op C)) ops C"

text \<open>The operation is not the release of job \<open>j\<close>'s reservation of the key.\<close>

fun no_release :: "string \<Rightarrow> string \<Rightarrow> source_op \<Rightarrow> bool" where
  "no_release key j (Release_source p up cs e j') = (source_event_key cs e \<noteq> key \<or> j' \<noteq> j)"
| "no_release key j op = True"

lemma map_of_filter_kept:
  assumes "map_of d k = Some v" and "P (k, v)"
  shows "map_of (filter P d) k = Some v"
  using assms by (induction d) (auto split: if_splits)

definition reserved :: "string \<Rightarrow> source_event_record \<Rightarrow> 'j cluster \<Rightarrow> bool" where
  "reserved key r C \<longleftrightarrow> map_of (source_tab (shared C)) key = Some r"

lemma reserved_step:
  assumes "reserved key r C" and "no_release key (sr_job_id r) op"
  shows "reserved key r (snd (source_step op C))"
proof (cases op)
  case (Check_source p up now cs e j h)
  then show ?thesis
    using assms(1)
    by (auto simp: on_member_def reserved_def check_and_store_source_event_def db_try_insert_source_event_def Let_def
        split: option.splits if_splits)
next
  case (Release_source p up cs e j)
  then show ?thesis
    using assms
    by (auto simp: on_member_def reserved_def release_source_event_def db_delete_source_event_def db_exec_def Let_def
        intro!: map_of_filter_kept split: option.splits)
next
  case (Get_source p up cs e)
  then show ?thesis
    using assms(1) by (auto simp: on_member_def reserved_def get_source_event_def Let_def split: option.splits)
next
  case (Restart_store p)
  then show ?thesis
    using assms(1) by (simp add: on_member_def reserved_def new_store_def load_from_db_def purge_terminal_keys_def Let_def)
qed

lemma reserved_run:
  assumes "reserved key r C" and "list_all (no_release key (sr_job_id r)) ops"
  shows "reserved key r (run_source ops C)"
  using assms
  by (induction ops arbitrary: C) (auto simp: run_source_def intro: reserved_step)

lemma new_reserves:
  assumes "source_step (Check_source p True t cs e j h) C = (Some (''new'', r), C1)"
  shows "reserved (source_event_key cs e) r C1 \<and> sr_job_id r = j \<and> sr_hash r = h"
  using assms
  by (auto simp: on_member_def reserved_def check_and_store_source_event_def db_try_insert_source_event_def
      db_read_source_event_def Let_def split: option.splits if_splits prod.splits)

lemma reserved_answer:
  assumes "reserved (source_event_key cs e) r C"
  shows "fst (source_step (Check_source q True t cs e j h) C) =
      Some (if sr_hash r = h then ''equivalent'' else ''conflict'', r) \<and>
    source_tab (shared (snd (source_step (Check_source q True t cs e j h) C))) = source_tab (shared C)"
  using assms
  by (simp add: on_member_def reserved_def check_and_store_source_event_def db_try_insert_source_event_def
      db_read_source_event_def Let_def)


definition two_members :: "nat cluster" where
  "two_members = \<lparr>members = (\<lambda>_. new_store True None),
     shared = \<lparr>jobs_tab = [], idem_tab = [], review_tab = [], source_tab = []\<rparr>\<rparr>"


section \<open>Keys across a restart\<close>

lemma stored_key_answers:
  assumes "check_and_store up now key j S = ((True, None), S1)"
  shows "fst (check_and_store up' now' key j' S1) = (False, Some j)"
  using assms
  by (auto simp: check_and_store_def db_write_def db_exec_def Let_def split: option.splits if_splits)

lemma restart_keeps_live_keys:
  assumes "db S = Some D" and "map_of (idem_tab D) key = Some r" and "wf_dict (idem_tab D)"
  shows "map_of (idem_records (load_from_db True S)) key = (if key_live (jobs_tab D) r then Some r else None)"
proof (cases "key_live (jobs_tab D) r")
  case True
  then show ?thesis using assms map_of_filter_kept [of "idem_tab D" key r "\<lambda>(k, r). key_live (jobs_tab D) r"]
    by (simp add: load_from_db_def purge_terminal_keys_def)
next
  case False
  have "map_of (filter (\<lambda>(k, r). key_live (jobs_tab D) r) (idem_tab D)) key = None"
  proof (rule ccontr)
    assume "map_of (filter (\<lambda>(k, r). key_live (jobs_tab D) r) (idem_tab D)) key \<noteq> None"
    then obtain b where "map_of (filter (\<lambda>(k, r). key_live (jobs_tab D) r) (idem_tab D)) key = Some b" by blast
    from map_of_SomeD [OF this] have "(key, b) \<in> set (idem_tab D)" "key_live (jobs_tab D) b" by simp_all
    then show False using map_of_is_SomeI [OF assms(3), of key b] assms(2) False by simp
  qed
  then show ?thesis using assms False by (simp add: load_from_db_def purge_terminal_keys_def)
qed

text \<open>
  A reservation that SQLite refused is forgotten. When the insert of a first submission fails (the
  failure is logged and the reservation kept in memory only), the same process answers the next
  submission of the source event, with the database back, as new for the second job: the insert is
  tried before the memory is consulted, so the event is executed twice.
\<close>

theorem failed_insert_duplicates:
  assumes "db S = Some D" and "map_of (source_tab D) (source_event_key cs e) = None"
    and "map_of (source_records S) (source_event_key cs e) = None"
    and "check_and_store_source_event False t cs e j h S = ((st1, r1), S1)"
    and "check_and_store_source_event True t' cs e j' h S1 = ((st2, r2), S2)"
  shows "st1 = ''new'' \<and> sr_job_id r1 = j \<and> st2 = ''new'' \<and> sr_job_id r2 = j'"
  using assms
  by (auto simp: check_and_store_source_event_def db_try_insert_source_event_def db_read_source_event_def Let_def)

definition after_failed_insert :: "nat store" where
  "after_failed_insert = snd (check_and_store_source_event False 1 ''watch_app'' ''e'' ''job-a'' ''h''
     (new_store True (Some (shared two_members))))"

theorem failed_insert_duplicates_witness:
  "fst (fst (check_and_store_source_event True 2 ''watch_app'' ''e'' ''job-b'' ''h'' after_failed_insert)) = ''new'' \<and>
   sr_job_id (snd (fst (check_and_store_source_event True 2 ''watch_app'' ''e'' ''job-b'' ''h'' after_failed_insert))) = ''job-b''"
proof -
  let ?S = "new_store True (Some (shared two_members))"
  let ?c = "check_and_store_source_event False 1 ''watch_app'' ''e'' ''job-a'' ''h'' ?S"
  let ?d = "check_and_store_source_event True 2 ''watch_app'' ''e'' ''job-b'' ''h'' (snd ?c)"
  have "fst (fst ?d) = ''new'' \<and> sr_job_id (snd (fst ?d)) = ''job-b''"
    using failed_insert_duplicates [of ?S "shared two_members" "''watch_app''" "''e''" 1 "''job-a''" "''h''"
        "fst (fst ?c)" "snd (fst ?c)" "snd ?c" 2 "''job-b''" "fst (fst ?d)" "snd (fst ?d)" "snd ?d"]
    by (simp add: two_members_def new_store_def load_from_db_def purge_terminal_keys_def)
  then show ?thesis by (simp add: after_failed_insert_def)
qed

end
