(* ===== verification/Text_Numbers.thy ===== *)
theory Text_Numbers
  imports Idempotency
begin

text \<open>
  Reading integers from text as Python does, and the round trip with their printed form.
\<close>

text \<open>\<open>int(s)\<close>: blanks around, a sign, digits with single underscores between them.\<close>

fun int_digits :: "bool \<Rightarrow> int \<Rightarrow> string \<Rightarrow> int option" where
  "int_digits after_digit acc [] = (if after_digit then Some acc else None)"
| "int_digits after_digit acc (c # cs) =
    (let n = of_char c :: nat in
     if 48 \<le> n \<and> n \<le> 57 then int_digits True (acc * 10 + int (n - 48)) cs
     else if c = CHR ''_'' \<and> after_digit then int_digits False acc cs
     else None)"

definition py_int :: "string \<Rightarrow> int option" where
  "py_int s =
    (case strip_ws s of
       c # cs \<Rightarrow>
         if c = CHR ''-'' then map_option uminus (int_digits False 0 cs)
         else if c = CHR ''+'' then int_digits False 0 cs
         else int_digits False 0 (c # cs)
     | [] \<Rightarrow> None)"

section \<open>Reading what was printed\<close>

lemma digit_code: "n < 10 \<Longrightarrow> (of_char (char_of (48 + n :: nat)) :: nat) = 48 + n"
  by simp

lemma int_digits_nat_str:
  "int_digits ad acc (nat_str n @ rest) = int_digits True (acc * 10 ^ length (nat_str n) + int n) rest"
proof (induction n arbitrary: ad acc rest rule: nat_str.induct)
  case (1 n)
  show ?case
  proof (cases "n < 10")
    case True
    then show ?thesis by (subst (1 2) nat_str.simps) (simp add: Let_def)
  next
    case False
    have str: "nat_str n = nat_str (n div 10) @ [char_of (48 + n mod 10)]"
      using False by (subst nat_str.simps) simp
    have "int_digits ad acc (nat_str n @ rest) =
        int_digits True (acc * 10 ^ length (nat_str (n div 10)) + int (n div 10)) (char_of (48 + n mod 10) # rest)"
      using 1 [OF False, of ad acc "char_of (48 + n mod 10) # rest"] unfolding str by simp
    also have "\<dots> = int_digits True ((acc * 10 ^ length (nat_str (n div 10)) + int (n div 10)) * 10 + int (n mod 10)) rest"
      using mod_less_divisor [of 10 n] by (simp add: Let_def del: mod_less_divisor)
    also have "(acc * 10 ^ length (nat_str (n div 10)) + int (n div 10)) * 10 + int (n mod 10) =
        acc * 10 ^ length (nat_str n) + int n"
      unfolding str by (simp add: algebra_simps zdiv_int zmod_int)
    finally show ?thesis .
  qed
qed

lemma nat_str_digits: "\<forall>c \<in> set (nat_str n). (48::nat) \<le> of_char c \<and> of_char c \<le> (57::nat)"
proof (induction n rule: nat_str.induct)
  case (1 n)
  show ?case
  proof (cases "n < 10")
    case True
    then show ?thesis by (subst nat_str.simps) simp
  next
    case False
    then have "nat_str n = nat_str (n div 10) @ [char_of (48 + n mod 10)]" by (subst nat_str.simps) simp
    with 1 [OF False] show ?thesis by simp
  qed
qed

lemma nat_str_not_Nil [simp]: "nat_str n \<noteq> []"
  by (subst nat_str.simps) simp

lemma dropWhile_none: "list_all (\<lambda>c. \<not> P c) s \<Longrightarrow> dropWhile P s = s"
  by (cases s) simp_all

lemma strip_ws_solid: "list_all (\<lambda>c. \<not> is_space c) s \<Longrightarrow> strip_ws s = s"
  by (simp add: strip_ws_def dropWhile_none)

definition number_char :: "char \<Rightarrow> bool" where
  "number_char c \<longleftrightarrow> (48::nat) \<le> of_char c \<and> of_char c \<le> (57::nat) \<or> c = CHR ''-''"

lemma number_char_solid: "number_char c \<Longrightarrow> \<not> is_space c"
  by (auto simp: number_char_def is_space_def Let_def)

lemma number_char_lower: "number_char c \<Longrightarrow> lower_char c = c"
  by (auto simp: number_char_def lower_char_def Let_def)

lemma int_str_chars: "list_all number_char (int_str i)"
  using nat_str_digits by (auto simp: int_str_def number_char_def list_all_iff)

lemma int_str_solid: "list_all (\<lambda>c. \<not> is_space c) (int_str i)"
  using int_str_chars [of i] by (auto simp: list_all_iff dest: number_char_solid)

lemma py_int_int_str: "py_int (int_str i) = Some i"
proof -
  have strip: "strip_ws (int_str i) = int_str i" by (rule strip_ws_solid) (rule int_str_solid)
  have digits: "int_digits False 0 (nat_str n) = Some (int n)" for n
    using int_digits_nat_str [of False 0 n "[]"] by simp
  show ?thesis
  proof (cases "i < 0")
    case True
    then show ?thesis using digits [of "nat (- i)"] strip unfolding py_int_def by (simp add: int_str_def)
  next
    case False
    then obtain c cs where n: "nat_str (nat i) = c # cs" by (cases "nat_str (nat i)") auto
    have "c \<noteq> CHR ''-''" "c \<noteq> CHR ''+''"
      using nat_str_digits [of "nat i"] n by auto
    with False digits [of "nat i"] strip n show ?thesis unfolding py_int_def by (simp add: int_str_def)
  qed
qed

end
