(* ===== verification/Worker_Proxy.thy ===== *)
theory Worker_Proxy
  imports Text_Numbers
begin

text \<open>
  The worker proxy, the only holder of the Docker socket: \<open>worker-proxy/registry.py\<close> (its allowlist),
  \<open>models.py\<close> (validation of a container request) and \<open>main.py\<close> (the life of one container, and the sweep
  for orphans). Docker is an argument: what each of its calls answers. The proxy's own part is the list of
  the calls it makes. A request body is modelled after JSON decoding and type coercion: a field is
  \<open>None\<close> when the body leaves it out, and \<open>rb_extra\<close> lists the keys that are no fields. As in pydantic,
  field validators see given values only, never defaults.
\<close>

section \<open>Memory limits\<close>

text \<open>\<open>parse_mem_bytes\<close>; \<open>None\<close> for its \<open>ValueError\<close>.\<close>

definition MEM_MULTIPLIERS :: "(char, int) dict" where
  "MEM_MULTIPLIERS = [(CHR ''k'', 1024), (CHR ''m'', 1024 * 1024), (CHR ''g'', 1024 * 1024 * 1024)]"

definition parse_mem_bytes :: "string \<Rightarrow> int option" where
  "parse_mem_bytes value =
    (let v = map lower_char (strip_ws value) in
     if v = [] then None
     else (case map_of MEM_MULTIPLIERS (last v) of
         Some k \<Rightarrow> map_option (\<lambda>i. i * k) (py_int (butlast v))
       | None \<Rightarrow> if (48::nat) \<le> of_char (last v) \<and> of_char (last v) \<le> (57::nat) then py_int v else None))"

section \<open>The allowlist\<close>

record registry_caps =
  mem_limit_max :: string
  pids_limit_max :: int
  wall_timeout_max :: int

record proxy_registry =
  approved_images :: "string list"
  allowed_networks :: "string list"
  allowed_volume_names :: "string list"
  reg_caps :: registry_caps

datatype registry_error =
    Registry_missing
  | Registry_unreadable
  | Registry_not_object
  | Registry_no_list string
  | Registry_no_images
  | Registry_caps_no_object
  | Registry_bad_caps

definition string_list :: "json \<Rightarrow> string list option" where
  "string_list j = (case j of
      JArr xs \<Rightarrow> those (map (\<lambda>x. case x of JStr s \<Rightarrow> Some s | _ \<Rightarrow> None) xs)
    | _ \<Rightarrow> None)"

definition require_list :: "(string \<times> json) list \<Rightarrow> string \<Rightarrow> registry_error + string list" where
  "require_list raw k = (case string_list (get_or raw k (JArr [])) of Some xs \<Rightarrow> Inr xs | None \<Rightarrow> Inl (Registry_no_list k))"

text \<open>\<open>int(value)\<close> and \<open>str(value)\<close> of a decoded value; \<open>text\<close> is \<open>str\<close> of a float, a list or an object.\<close>

definition json_int :: "json \<Rightarrow> int option" where
  "json_int j = (case j of
      JInt i \<Rightarrow> Some i
    | JBool b \<Rightarrow> Some (if b then 1 else 0)
    | JNum r \<Rightarrow> Some (if r < 0 then - floor (- r) else floor r)
    | JStr s \<Rightarrow> py_int s
    | _ \<Rightarrow> None)"

definition json_str :: "(json \<Rightarrow> string) \<Rightarrow> json \<Rightarrow> string" where
  "json_str text j = (case j of
      JStr s \<Rightarrow> s
    | JInt i \<Rightarrow> int_str i
    | JBool b \<Rightarrow> if b then ''True'' else ''False''
    | JNull \<Rightarrow> ''None''
    | _ \<Rightarrow> text j)"

definition load_caps :: "(json \<Rightarrow> string) \<Rightarrow> json \<Rightarrow> registry_error + registry_caps" where
  "load_caps text j = (case j of
      JObj d \<Rightarrow>
        (case (json_int (get_or d ''pids_limit_max'' (JInt 512)), json_int (get_or d ''wall_timeout_max'' (JInt 3600))) of
           (Some p, Some w) \<Rightarrow>
             Inr \<lparr>mem_limit_max = json_str text (get_or d ''mem_limit_max'' (JStr ''4g'')), pids_limit_max = p,
               wall_timeout_max = w\<rparr>
         | _ \<Rightarrow> Inl Registry_bad_caps)
    | _ \<Rightarrow> Inl Registry_caps_no_object)"

text \<open>The file: missing, unreadable (or no JSON), or its value.\<close>

definition load_registry :: "(json \<Rightarrow> string) \<Rightarrow> json option option \<Rightarrow> registry_error + proxy_registry" where
  "load_registry text content =
    (case content of
       None \<Rightarrow> Inl Registry_missing
     | Some None \<Rightarrow> Inl Registry_unreadable
     | Some (Some (JObj raw)) \<Rightarrow>
         (case require_list raw ''approved_images'' of Inl e \<Rightarrow> Inl e
          | Inr images \<Rightarrow> (case require_list raw ''allowed_networks'' of Inl e \<Rightarrow> Inl e
          | Inr networks \<Rightarrow> (case require_list raw ''allowed_volume_names'' of Inl e \<Rightarrow> Inl e
          | Inr volumes \<Rightarrow>
              if images = [] then Inl Registry_no_images
              else (case load_caps text (get_or raw ''caps'' (JObj [])) of Inl e \<Rightarrow> Inl e
                | Inr cs \<Rightarrow> Inr \<lparr>approved_images = images, allowed_networks = networks, allowed_volume_names = volumes,
                    reg_caps = cs\<rparr>))))
     | Some (Some _) \<Rightarrow> Inl Registry_not_object)"

section \<open>Requests\<close>

type_synonym volumes = "(string, (string, string) dict) dict"

record run_body =
  rb_image :: "string option"
  rb_name :: "string option"
  rb_labels :: "(string, string) dict option"
  rb_environment :: "(string, string) dict option"
  rb_volumes :: "volumes option"
  rb_security_opt :: "string list option"
  rb_mem_limit :: "string option"
  rb_pids_limit :: "int option"
  rb_cap_drop :: "string list option"
  rb_read_only :: "bool option"
  rb_tmpfs :: "(string, string) dict option"
  rb_network_mode :: "string option"
  rb_network :: "string option"
  rb_wall_timeout :: "int option"
  rb_extra :: "string list"

record run_request =
  rq_image :: string
  rq_name :: string
  rq_labels :: "(string, string) dict"
  rq_environment :: "(string, string) dict"
  rq_volumes :: volumes
  rq_security_opt :: "string list"
  rq_mem_limit :: string
  rq_pids_limit :: int
  rq_cap_drop :: "string list"
  rq_read_only :: bool
  rq_tmpfs :: "(string, string) dict"
  rq_network_mode :: "string option"
  rq_network :: "string option"
  rq_wall_timeout :: int

definition SANDBOX_BASE_PATH :: string where
  "SANDBOX_BASE_PATH = ''/var/drnt/workers/''"

definition given :: "'a option \<Rightarrow> 'a \<Rightarrow> 'a" where
  "given x d = (case x of Some v \<Rightarrow> v | None \<Rightarrow> d)"

text \<open>The errors of the fields, and the request with its defaults.\<close>

definition field_errors :: "run_body \<Rightarrow> string list" where
  "field_errors b =
    (if rb_image b = None then [''image: Field required''] else []) @
    (if rb_name b = None then [''name: Field required''] else []) @
    (case rb_security_opt b of Some v \<Rightarrow>
       if ''no-new-privileges'' \<notin> set v then [''security_opt must contain '' @ py_repr ''no-new-privileges''] else [] | None \<Rightarrow> []) @
    (case rb_cap_drop b of Some v \<Rightarrow>
       if ''ALL'' \<notin> set v then [''cap_drop must contain '' @ py_repr ''ALL'' @ '' (default-deny)''] else [] | None \<Rightarrow> []) @
    (case rb_read_only b of Some v \<Rightarrow> if \<not> v then [''read_only must be True''] else [] | None \<Rightarrow> []) @
    (case rb_network_mode b of Some v \<Rightarrow>
       if v \<noteq> ''none'' then [''network_mode must be '' @ py_repr ''none'' @ '' or unset, got '' @ py_repr v] else [] | None \<Rightarrow> []) @
    map (\<lambda>k. k @ '': Extra inputs are not permitted'') (rb_extra b)"

definition with_defaults :: "run_body \<Rightarrow> run_request" where
  "with_defaults b = \<lparr>rq_image = given (rb_image b) [], rq_name = given (rb_name b) [], rq_labels = given (rb_labels b) [],
     rq_environment = given (rb_environment b) [], rq_volumes = given (rb_volumes b) [],
     rq_security_opt = given (rb_security_opt b) [], rq_mem_limit = given (rb_mem_limit b) ''256m'',
     rq_pids_limit = given (rb_pids_limit b) 64, rq_cap_drop = given (rb_cap_drop b) [''ALL''],
     rq_read_only = given (rb_read_only b) True, rq_tmpfs = given (rb_tmpfs b) [],
     rq_network_mode = rb_network_mode b, rq_network = rb_network b, rq_wall_timeout = given (rb_wall_timeout b) 300\<rparr>"

definition volume_source_ok :: "proxy_registry \<Rightarrow> string \<Rightarrow> bool" where
  "volume_source_ok R src \<longleftrightarrow> startswith src SANDBOX_BASE_PATH \<or> src \<in> set (allowed_volume_names R)"

text \<open>\<open>_enforce_registry_allowlist\<close>: the first rule that fails.\<close>

definition network_error :: "proxy_registry \<Rightarrow> run_request \<Rightarrow> string option" where
  "network_error R q =
    (case rq_network_mode q of
       None \<Rightarrow>
         (case rq_network q of
            None \<Rightarrow> Some (''either network_mode='' @ py_repr ''none'' @ '' or network must be set'')
          | Some n \<Rightarrow> if n \<notin> set (allowed_networks R) then Some (''network '' @ py_repr n @ '' not in allowed_networks registry'') else None)
     | Some _ \<Rightarrow> if rq_network q \<noteq> None then Some (''network must be unset when network_mode='' @ py_repr ''none'') else None)"

definition limits_error :: "proxy_registry \<Rightarrow> run_request \<Rightarrow> string option" where
  "limits_error R q =
    (case (parse_mem_bytes (rq_mem_limit q), parse_mem_bytes (mem_limit_max (reg_caps R))) of
       (Some mem, Some mem_max) \<Rightarrow>
         if mem > mem_max
         then Some (''mem_limit '' @ py_repr (rq_mem_limit q) @ '' exceeds cap '' @ py_repr (mem_limit_max (reg_caps R)))
         else if rq_pids_limit q > pids_limit_max (reg_caps R)
         then Some (''pids_limit '' @ int_str (rq_pids_limit q) @ '' exceeds cap '' @ int_str (pids_limit_max (reg_caps R)))
         else if rq_wall_timeout q > wall_timeout_max (reg_caps R)
         then Some (''wall_timeout '' @ int_str (rq_wall_timeout q) @ '' exceeds cap '' @ int_str (wall_timeout_max (reg_caps R)))
         else None
     | _ \<Rightarrow> Some ''mem_limit parse error'')"

definition registry_error_of :: "proxy_registry \<Rightarrow> run_request \<Rightarrow> string option" where
  "registry_error_of R q =
    (if rq_image q \<notin> set (approved_images R) then Some (''image '' @ py_repr (rq_image q) @ '' not in approved_images registry'')
     else (case network_error R q of
         Some msg \<Rightarrow> Some msg
       | None \<Rightarrow>
           (case find (\<lambda>src. \<not> volume_source_ok R src) (dict_keys (rq_volumes q)) of
              Some src \<Rightarrow> Some (''volume source '' @ py_repr src @ '' not under '' @ SANDBOX_BASE_PATH @ '' and not in allowed_volume_names'')
            | None \<Rightarrow>
                (case limits_error R q of
                   Some msg \<Rightarrow> Some msg
                 | None \<Rightarrow>
                     if map_of (rq_labels q) ''drnt.role'' \<noteq> Some ''worker''
                     then Some (''labels must contain drnt.role='' @ py_repr ''worker'') else None))))"

definition validate_request :: "proxy_registry \<Rightarrow> run_body \<Rightarrow> string list + run_request" where
  "validate_request R b =
    (if field_errors b \<noteq> [] then Inl (field_errors b)
     else (case registry_error_of R (with_defaults b) of Some msg \<Rightarrow> Inl [msg] | None \<Rightarrow> Inr (with_defaults b)))"

section \<open>One container\<close>

definition SANDBOX_CONTAINER_PATH :: string where
  "SANDBOX_CONTAINER_PATH = ''/var/drnt/workers''"

definition translate_path :: "string \<Rightarrow> string \<Rightarrow> string" where
  "translate_path base src =
    (if startswith src (SANDBOX_CONTAINER_PATH @ ''/'') then base @ drop (length SANDBOX_CONTAINER_PATH) src
     else if src = SANDBOX_CONTAINER_PATH then base else src)"

definition translate_volumes :: "string option \<Rightarrow> volumes \<Rightarrow> volumes" where
  "translate_volumes base vs =
    (case base of
       None \<Rightarrow> vs
     | Some b \<Rightarrow> if b = [] then vs else fold (\<lambda>(src, cfg). AList.update (translate_path b src) cfg) vs [])"

text \<open>What Docker raises, and the calls the proxy makes.\<close>

datatype docker_exc = Docker_timeout | Image_not_found | Docker_error string

datatype docker_call =
    Create run_request
  | Start string
  | Await string int
  | Kill string
  | Logs string
  | Remove string

record docker =
  on_create :: "docker_exc + string"
  on_start :: "docker_exc option"
  on_wait :: "docker_exc + int option"
  on_logs :: "docker_exc + string"

record run_response =
  rs_container_id :: "string option"
  rs_exit_code :: int
  rs_status :: string
  rs_logs :: "string option"

text \<open>
  The arguments of \<open>containers.create\<close>: the fields of the request with the volumes translated; an empty
  \<open>network_mode\<close> or \<open>network\<close> is not passed, and a network only without a mode.
\<close>

definition create_args :: "string option \<Rightarrow> run_request \<Rightarrow> run_request" where
  "create_args base q =
    (let m = (if rq_network_mode q = Some [] then None else rq_network_mode q);
         n = (if m \<noteq> None \<or> rq_network q = Some [] then None else rq_network q)
     in q\<lparr>rq_volumes := translate_volumes base (rq_volumes q), rq_network_mode := m, rq_network := n\<rparr>)"

text \<open>The answer of an exception that ends the run: \<open>timeout\<close>, 404 or 500.\<close>

definition ended_by :: "string option \<Rightarrow> docker_exc \<Rightarrow> int + run_response" where
  "ended_by cid x = (case x of
      Docker_timeout \<Rightarrow> Inr \<lparr>rs_container_id = cid, rs_exit_code = -1, rs_status = ''timeout'', rs_logs = None\<rparr>
    | Image_not_found \<Rightarrow> Inl 404
    | Docker_error _ \<Rightarrow> Inl 500)"

definition run_container :: "docker \<Rightarrow> string option \<Rightarrow> run_request \<Rightarrow> (int + run_response) \<times> docker_call list" where
  "run_container D base q =
    (let create = Create (create_args base q) in
     case on_create D of
       Inl x \<Rightarrow> (ended_by None x, [create])
     | Inr cid \<Rightarrow>
         (case on_start D of
            Some x \<Rightarrow> (ended_by (Some cid) x, [create, Start cid, Remove cid])
          | None \<Rightarrow>
              (case on_wait D of
                 Inl Docker_timeout \<Rightarrow>
                   (Inr \<lparr>rs_container_id = Some cid, rs_exit_code = -1, rs_status = ''timeout'', rs_logs = None\<rparr>,
                    [create, Start cid, Await cid (rq_wall_timeout q), Kill cid, Remove cid])
               | Inl x \<Rightarrow> (ended_by (Some cid) x, [create, Start cid, Await cid (rq_wall_timeout q), Remove cid])
               | Inr code \<Rightarrow>
                   (let exit_code = (case code of Some c \<Rightarrow> c | None \<Rightarrow> -1) in
                    if exit_code \<noteq> 0
                    then ((case on_logs D of
                             Inl x \<Rightarrow> ended_by (Some cid) x
                           | Inr logs \<Rightarrow> Inr \<lparr>rs_container_id = Some cid, rs_exit_code = exit_code, rs_status = ''failed'', rs_logs = Some logs\<rparr>),
                          [create, Start cid, Await cid (rq_wall_timeout q), Logs cid, Remove cid])
                    else (Inr \<lparr>rs_container_id = Some cid, rs_exit_code = exit_code, rs_status = ''completed'', rs_logs = None\<rparr>,
                          [create, Start cid, Await cid (rq_wall_timeout q), Remove cid])))))"

text \<open>\<open>POST /containers/run\<close>: 422 without any call to Docker, or the run.\<close>

definition post_run :: "docker \<Rightarrow> string option \<Rightarrow> proxy_registry \<Rightarrow> run_body \<Rightarrow> (int + run_response) \<times> docker_call list" where
  "post_run D base R b =
    (case validate_request R b of Inl _ \<Rightarrow> (Inl 422, []) | Inr q \<Rightarrow> run_container D base q)"

section \<open>Images and single containers\<close>

text \<open>
  \<open>GET /images/{name}\<close>, \<open>GET /containers/{id}/logs\<close> and \<open>DELETE /containers/{id}\<close>: one call to find the
  object, then one on it. The answer is a status or a value, with the calls made on the container.
\<close>

datatype lookup_exc = Object_not_found | Lookup_failed

definition lookup_status :: "lookup_exc \<Rightarrow> int" where
  "lookup_status x = (case x of Object_not_found \<Rightarrow> 404 | Lookup_failed \<Rightarrow> 500)"

definition check_image :: "lookup_exc option \<Rightarrow> int + bool" where
  "check_image found = (case found of None \<Rightarrow> Inr True | Some Object_not_found \<Rightarrow> Inr False | Some Lookup_failed \<Rightarrow> Inl 500)"

definition get_container_logs :: "lookup_exc option \<Rightarrow> lookup_exc + string \<Rightarrow> string \<Rightarrow> (int + string) \<times> docker_call list" where
  "get_container_logs found logs cid =
    (case found of
       Some x \<Rightarrow> (Inl (lookup_status x), [])
     | None \<Rightarrow> (case logs of Inl x \<Rightarrow> Inl (lookup_status x) | Inr l \<Rightarrow> Inr l, [Logs cid]))"

definition remove_container :: "lookup_exc option \<Rightarrow> lookup_exc option \<Rightarrow> string \<Rightarrow> (int + string) \<times> docker_call list" where
  "remove_container found removed cid =
    (case found of
       Some x \<Rightarrow> (Inl (lookup_status x), [])
     | None \<Rightarrow> (case removed of Some x \<Rightarrow> Inl (lookup_status x) | None \<Rightarrow> Inr cid, [Remove cid]))"

section \<open>Orphans\<close>

text \<open>
  The stopped worker containers that Docker lists, each with the text of its end and whether its removal
  succeeds; \<open>seconds_of\<close> is \<open>strptime\<close> of a time without its fraction.
\<close>

record stopped =
  st_id :: string
  st_finished_at :: string
  st_removable :: bool

definition finished_text :: "string \<Rightarrow> string" where
  "finished_text s = filter (\<lambda>c. c \<noteq> CHR ''Z'') (map (\<lambda>c. if c = CHR ''T'' then CHR '' '' else c) (takeWhile (\<lambda>c. c \<noteq> CHR ''.'') s))"

definition gc_due :: "(string \<Rightarrow> rat option) \<Rightarrow> rat \<Rightarrow> rat \<Rightarrow> stopped \<Rightarrow> bool" where
  "gc_due seconds_of max_age now c \<longleftrightarrow>
    st_finished_at c \<noteq> [] \<and> (case seconds_of (finished_text (st_finished_at c)) of Some t \<Rightarrow> now - t \<ge> max_age | None \<Rightarrow> False)"

definition gc_sweep :: "(string \<Rightarrow> rat option) \<Rightarrow> rat \<Rightarrow> rat \<Rightarrow> stopped list option \<Rightarrow> nat \<times> docker_call list" where
  "gc_sweep seconds_of max_age now listed =
    (case listed of
       None \<Rightarrow> (0, [])
     | Some cs \<Rightarrow>
         (let due = filter (gc_due seconds_of max_age now) cs
          in (length (filter st_removable due), map (\<lambda>c. Remove (st_id c)) due)))"

text \<open>
  The background loop sleeps and sweeps; its rounds (the clock and what Docker lists, or \<open>None\<close> when that
  fails) are the argument. A failed sweep does not end it.
\<close>

fun gc_loop :: "(string \<Rightarrow> rat option) \<Rightarrow> rat \<Rightarrow> (rat \<times> stopped list option) list \<Rightarrow> docker_call list" where
  "gc_loop seconds_of max_age [] = []"
| "gc_loop seconds_of max_age ((now, listed) # rounds) =
    snd (gc_sweep seconds_of max_age now listed) @ gc_loop seconds_of max_age rounds"

section \<open>Start\<close>

text \<open>\<open>resolve_host_sandbox_base\<close>: the cached base, or the mount point Docker reports (\<open>None\<close> when it raises).\<close>

definition resolve_host_sandbox_base :: "string option \<Rightarrow> string option \<Rightarrow> string option" where
  "resolve_host_sandbox_base cached mountpoint = (case cached of Some b \<Rightarrow> Some b | None \<Rightarrow> mountpoint)"

text \<open>
  \<open>lifespan\<close>: the registry first, whose failure ends the start; then the host base. Before that
  \<open>get_active\<close> raises, and so does the validation of any request.
\<close>

definition proxy_lifespan ::
    "(json \<Rightarrow> string) \<Rightarrow> json option option \<Rightarrow> string option \<Rightarrow> registry_error + proxy_registry \<times> string option" where
  "proxy_lifespan str file mountpoint =
    map_sum id (\<lambda>R. (R, resolve_host_sandbox_base None mountpoint)) (load_registry str file)"

definition get_active :: "proxy_registry option \<Rightarrow> py_exc + proxy_registry" where
  "get_active active = (case active of None \<Rightarrow> Inl RuntimeError | Some R \<Rightarrow> Inr R)"

text \<open>\<open>GET /health\<close>: 503 when the ping raises.\<close>

definition proxy_health :: "bool \<Rightarrow> int \<times> json" where
  "proxy_health pinged = (if pinged then (200, JObj [(''status'', JStr ''ok'')]) else (503, JNull))"

text \<open>What the loop removes is due in the round that removes it.\<close>

lemma gc_loop_due:
  "Remove cid \<in> set (gc_loop seconds_of max_age rounds) \<Longrightarrow>
    \<exists>now cs c. (now, Some cs) \<in> set rounds \<and> c \<in> set cs \<and> st_id c = cid \<and> gc_due seconds_of max_age now c"
proof (induction rounds)
  case (Cons q rounds)
  obtain now listed where q: "q = (now, listed)" by (cases q)
  show ?case
  proof (cases "Remove cid \<in> set (snd (gc_sweep seconds_of max_age now listed))")
    case True
    then show ?thesis by (auto simp: q gc_sweep_def Let_def split: option.splits)
  next
    case False
    then show ?thesis using Cons by (auto simp: q)
  qed
qed simp

text \<open>\<open>parse_mem_bytes(f"{i}m")\<close>.\<close>

lemma parse_mem_megabytes: "parse_mem_bytes (int_str i @ ''m'') = Some (i * 1048576)"
proof -
  have "strip_ws (int_str i @ ''m'') = int_str i @ ''m''"
    by (rule strip_ws_solid) (use int_str_solid [of i] in \<open>simp add: is_space_def Let_def\<close>)
  moreover have "map lower_char (int_str i) = int_str i"
    by (rule map_idI) (use int_str_chars [of i] in \<open>auto simp: list_all_iff intro: number_char_lower\<close>)
  moreover have "lower_char CHR ''m'' = CHR ''m''" by (simp add: lower_char_def)
  ultimately show ?thesis
    by (simp add: parse_mem_bytes_def Let_def py_int_int_str MEM_MULTIPLIERS_def)
qed

section \<open>What the proxy lets through\<close>

text \<open>The rules, on the request with its defaults.\<close>

definition request_ok :: "proxy_registry \<Rightarrow> run_request \<Rightarrow> bool" where
  "request_ok R q \<longleftrightarrow>
    rq_image q \<in> set (approved_images R) \<and> ''ALL'' \<in> set (rq_cap_drop q) \<and> rq_read_only q \<and>
    (rq_network_mode q = Some ''none'' \<and> rq_network q = None \<or>
     rq_network_mode q = None \<and> (\<exists>n \<in> set (allowed_networks R). rq_network q = Some n)) \<and>
    (\<forall>src \<in> fst ` set (rq_volumes q). volume_source_ok R src) \<and>
    (\<exists>mem mem_max. parse_mem_bytes (rq_mem_limit q) = Some mem \<and>
       parse_mem_bytes (mem_limit_max (reg_caps R)) = Some mem_max \<and> mem \<le> mem_max) \<and>
    rq_pids_limit q \<le> pids_limit_max (reg_caps R) \<and> rq_wall_timeout q \<le> wall_timeout_max (reg_caps R) \<and>
    map_of (rq_labels q) ''drnt.role'' = Some ''worker''"

lemma registry_error_None:
  "registry_error_of R q = None \<longleftrightarrow>
    rq_image q \<in> set (approved_images R) \<and> network_error R q = None \<and>
    (\<forall>src \<in> fst ` set (rq_volumes q). volume_source_ok R src) \<and> limits_error R q = None \<and>
    map_of (rq_labels q) ''drnt.role'' = Some ''worker''"
proof (cases "find (\<lambda>src. \<not> volume_source_ok R src) (dict_keys (rq_volumes q))")
  case None
  then have "\<forall>src \<in> fst ` set (rq_volumes q). volume_source_ok R src" by (simp add: find_None_iff)
  with None show ?thesis by (auto simp: registry_error_of_def split: option.splits if_splits)
next
  case (Some src)
  then have "src \<in> fst ` set (rq_volumes q)" "\<not> volume_source_ok R src"
    by (auto simp: find_Some_iff)
  with Some show ?thesis by (auto simp: registry_error_of_def split: option.splits if_splits)
qed

lemma limits_error_None:
  "limits_error R q = None \<longleftrightarrow>
    (\<exists>mem mem_max. parse_mem_bytes (rq_mem_limit q) = Some mem \<and>
       parse_mem_bytes (mem_limit_max (reg_caps R)) = Some mem_max \<and> mem \<le> mem_max) \<and>
    rq_pids_limit q \<le> pids_limit_max (reg_caps R) \<and> rq_wall_timeout q \<le> wall_timeout_max (reg_caps R)"
  by (auto simp: limits_error_def split: option.splits if_splits)

definition body_complete :: "run_body \<Rightarrow> bool" where
  "body_complete b \<longleftrightarrow> rb_image b \<noteq> None \<and> rb_name b \<noteq> None \<and> rb_extra b = [] \<and>
    (\<forall>v. rb_security_opt b = Some v \<longrightarrow> ''no-new-privileges'' \<in> set v)"

lemma field_errors_Nil:
  "field_errors b = [] \<longleftrightarrow> body_complete b \<and>
    ''ALL'' \<in> set (rq_cap_drop (with_defaults b)) \<and> rq_read_only (with_defaults b) \<and>
    (rb_network_mode b = None \<or> rb_network_mode b = Some ''none'')"
  by (auto simp: field_errors_def body_complete_def with_defaults_def given_def split: option.splits)

lemma network_error_None:
  "rq_network_mode q = None \<or> rq_network_mode q = Some ''none'' \<Longrightarrow>
    network_error R q = None \<longleftrightarrow>
      rq_network_mode q = Some ''none'' \<and> rq_network q = None \<or>
      rq_network_mode q = None \<and> (\<exists>n \<in> set (allowed_networks R). rq_network q = Some n)"
  by (auto simp: network_error_def split: option.splits if_splits)

lemma validate_request_iff:
  "validate_request R b = Inr q \<longleftrightarrow> q = with_defaults b \<and> body_complete b \<and> request_ok R q"
proof -
  have mode: "rq_network_mode (with_defaults b) = rb_network_mode b" by (simp add: with_defaults_def)
  show ?thesis
  proof (cases "rb_network_mode b = None \<or> rb_network_mode b = Some ''none''")
    case True
    then have "network_error R (with_defaults b) = None \<longleftrightarrow>
      rq_network_mode (with_defaults b) = Some ''none'' \<and> rq_network (with_defaults b) = None \<or>
      rq_network_mode (with_defaults b) = None \<and> (\<exists>n \<in> set (allowed_networks R). rq_network (with_defaults b) = Some n)"
      by (intro network_error_None) (simp add: mode)
    then have r: "request_ok R (with_defaults b) \<longleftrightarrow> registry_error_of R (with_defaults b) = None \<and>
        ''ALL'' \<in> set (rq_cap_drop (with_defaults b)) \<and> rq_read_only (with_defaults b)"
      unfolding request_ok_def registry_error_None limits_error_None by argo
    show ?thesis
      using True by (cases "registry_error_of R (with_defaults b)") (auto simp: validate_request_def r field_errors_Nil)
  next
    case False
    then have "field_errors b \<noteq> []" by (simp add: field_errors_Nil)
    then show ?thesis using False mode by (auto simp: validate_request_def request_ok_def)
  qed
qed

section \<open>Every container is removed\<close>

text \<open>The container a call is about.\<close>

definition call_on :: "docker_call \<Rightarrow> string option" where
  "call_on c = (case c of Create _ \<Rightarrow> None | Start cid \<Rightarrow> Some cid | Await cid _ \<Rightarrow> Some cid | Kill cid \<Rightarrow> Some cid
    | Logs cid \<Rightarrow> Some cid | Remove cid \<Rightarrow> Some cid)"

text \<open>
  A refused request makes no call to Docker. An accepted one creates one container; whatever Docker
  answers to starting it, waiting for it, killing it and reading its logs, every later call is about that
  container, and the last one removes it.
\<close>

theorem container_removed:
  "case validate_request R b of
     Inl _ \<Rightarrow> snd (post_run D base R b) = []
   | Inr q \<Rightarrow>
       (case on_create D of
          Inl _ \<Rightarrow> snd (post_run D base R b) = [Create (create_args base q)]
        | Inr cid \<Rightarrow> \<exists>mid. snd (post_run D base R b) = Create (create_args base q) # mid @ [Remove cid] \<and>
            list_all (\<lambda>c. call_on c = Some cid) mid)"
proof (cases "validate_request R b")
  case (Inr q)
  show ?thesis
  proof (cases "on_create D")
    case created: (Inr cid)
    have "Remove cid = last (snd (run_container D base q)) \<and> butlast (snd (run_container D base q)) \<noteq> [] \<and>
        hd (snd (run_container D base q)) = Create (create_args base q) \<and>
        list_all (\<lambda>c. call_on c = Some cid) (tl (butlast (snd (run_container D base q))))"
      using created
      by (auto simp: run_container_def call_on_def Let_def split: sum.splits option.splits docker_exc.splits if_splits)
    then have "snd (run_container D base q) =
        Create (create_args base q) # tl (butlast (snd (run_container D base q))) @ [Remove cid]"
      by (metis append_butlast_last_id append_Cons butlast.simps(1) hd_append list.collapse)
    then show ?thesis
      using Inr created \<open>_ \<and> _\<close> by (auto simp: post_run_def)
  qed (use Inr in \<open>simp add: post_run_def run_container_def Let_def\<close>)
qed (simp add: post_run_def)

section \<open>What the rules miss\<close>

definition sample_body :: run_body where
  "sample_body = \<lparr>rb_image = Some ''w'', rb_name = Some ''n'', rb_labels = Some [(''drnt.role'', ''worker'')], rb_environment = None,
     rb_volumes = None, rb_security_opt = Some [''no-new-privileges''], rb_mem_limit = None, rb_pids_limit = None,
     rb_cap_drop = None, rb_read_only = None, rb_tmpfs = None, rb_network_mode = Some ''none'', rb_network = None,
     rb_wall_timeout = None, rb_extra = []\<rparr>"

definition sample_proxy :: proxy_registry where
  "sample_proxy = \<lparr>approved_images = [''w''], allowed_networks = [''drnt-sandbox''], allowed_volume_names = [],
     reg_caps = \<lparr>mem_limit_max = ''4g'', pids_limit_max = 512, wall_timeout_max = 3600\<rparr>\<rparr>"

text \<open>
  A body that leaves \<open>security_opt\<close> out is accepted with an empty list; so are a bind mount that climbs out of
  the sandbox directory, and the values -1 that Docker reads as no limit.
\<close>

lemma omitted_security_opt_accepted:
  "map_sum id rq_security_opt (validate_request sample_proxy (sample_body\<lparr>rb_security_opt := None\<rparr>)) = Inr []"
  by code_simp

lemma climbing_volume_accepted:
  "map_sum id (map fst \<circ> rq_volumes) (validate_request sample_proxy
      (sample_body\<lparr>rb_volumes := Some [(''/var/drnt/workers/../../../run/docker.sock'', [(''bind'', ''/s'')])]\<rparr>)) =
    Inr [''/var/drnt/workers/../../../run/docker.sock'']"
  by code_simp

lemma negative_limits_accepted:
  "map_sum id rq_pids_limit (validate_request sample_proxy
      (sample_body\<lparr>rb_mem_limit := Some ''-1'', rb_pids_limit := Some (-1)\<rparr>)) = Inr (-1)"
  by code_simp

end
