(* ===== verification/Worker_Lifecycle.thy ===== *)
theory Worker_Lifecycle
  imports Egress_Proxy Worker_Proxy Permission
begin

text \<open>
  A job's worker from preparation to teardown: \<open>orchestrator/worker_lifecycle.py\<close>, \<open>worker_context.py\<close> and
  \<open>worker_executor.py\<close>, composed with the validator, the blueprint engine, the egress proxy and the worker
  proxy. The ids, time stamps and clock readings the code draws are arguments, as are the file system of the
  sandbox directory and the answer to the request that is posted to the worker proxy. The messages of the
  executor leave out the texts of answers and of library exceptions.
\<close>

section \<open>State\<close>

record worker_context =
  wc_worker_id :: string
  wc_job_id :: string
  wc_manifest :: manifest
  wc_validation :: validation_result
  wc_blueprint :: blueprint
  wc_egress_proxy :: egress_proxy
  wc_created_at :: string
  wc_status :: string

record workers = trust +
  wk_contexts :: "(string, worker_context) dict"
  wk_started :: "(string, instant) dict"
  wk_windows :: windows

record lifecycle =
  lc_validator :: validator
  lc_engine :: blueprint_engine
  lc_registry :: registry
  lc_policies :: policy_store
  lc_states :: "cap_states option"
  lc_has_executor :: bool
  lc_seccomp :: "string option"

text \<open>What one preparation draws: ids, time stamps and the monotonic clock.\<close>

record drawn =
  dw_manifest_id :: string
  dw_blueprint_id :: string
  dw_worker_id :: string
  dw_manifest_at :: string
  dw_validated_at :: string
  dw_blueprint_at :: string
  dw_context_at :: string
  dw_clock :: instant

section \<open>Preparation\<close>

definition build_manifest :: "lifecycle \<Rightarrow> drawn \<Rightarrow> string \<Rightarrow> capability \<Rightarrow> manifest" where
  "build_manifest L F cid cap =
    \<lparr>mf_capability = cid,
     mf_worker_type = (if cid = ''route.local'' \<or> provider_dependencies cap = [] then ''ollama_local'' else ''cloud_adapter''),
     mf_volumes =
       [\<lparr>vol_path = ''/work'', vol_mode = ''rw'', vol_host_path = ''/work/'' @ cid\<rparr>,
        \<lparr>vol_path = ''/tmp'', vol_mode = ''rw'', vol_host_path = ''/tmp/'' @ cid\<rparr>],
     mf_network = \<lparr>net_egress_allow = (case policy_get (lc_policies L) cid of Some p \<Rightarrow> ep_endpoints p | None \<Rightarrow> []),
       net_deny_all = True, net_ingress = ''none''\<rparr>,
     mf_resources = \<lparr>max_memory_mb = 256, max_cpu_seconds = 60, max_wall_seconds = 120, max_disk_mb = 100\<rparr>,
     mf_security = \<lparr>drop_capabilities = [''ALL''], read_only_root = True, sec_no_new_privileges = True, seccomp_profile = ''default''\<rparr>,
     mf_id = dw_manifest_id F, mf_created_at = dw_manifest_at F\<rparr>"

definition fail_preparation ::
    "env \<Rightarrow> string \<Rightarrow> string \<Rightarrow> string \<Rightarrow> 'a workers_scheme \<Rightarrow> (py_exc + 'b) \<times> 'a workers_scheme" where
  "fail_preparation E job_id cid err =
    bind_r (emit E (\<lambda>sp. event_worker_preparation_failed sp job_id cid err)) (\<lambda>_. raise_r (PreparationError err))"

text \<open>The status check: \<open>Some err\<close> when the capability may not prepare a worker.\<close>

definition status_error :: "lifecycle \<Rightarrow> string \<Rightarrow> string option" where
  "status_error L cid =
    (case lc_states L of
       None \<Rightarrow> None
     | Some S \<Rightarrow>
         (case get_status S cid of
            Inl _ \<Rightarrow> Some (''capability '' @ quoted cid @ '' has no runtime state'')
          | Inr status \<Rightarrow>
              if status \<noteq> ''active'' then Some (''capability '' @ quoted cid @ '' is '' @ status @ '', cannot prepare worker'') else None))"

definition manifest_event :: "manifest \<Rightarrow> string \<Rightarrow> validation_result \<Rightarrow> stamp \<Rightarrow> event" where
  "manifest_event m cid vr sp =
    event_manifest_validated sp (mf_id m) cid (mf_worker_type m) (vr_valid vr) (int (length (vr_errors vr)))
      (int (length (vr_warnings vr))) (if vr_valid vr then None else Some (vr_errors vr))"

definition blueprint_event :: "blueprint \<Rightarrow> string \<Rightarrow> string \<Rightarrow> stamp \<Rightarrow> event" where
  "blueprint_event bp mid cid sp =
    event_blueprint_created sp (bp_id bp) mid cid (bp_network_mode bp) (int (length (bp_mounts bp)))
      (int (length (bp_cap_drop bp))) (bp_memory_limit bp)"

definition prepared_event :: "worker_context \<Rightarrow> string \<Rightarrow> stamp \<Rightarrow> event" where
  "prepared_event ctx cid sp =
    event_worker_prepared sp (wc_worker_id ctx) (wc_job_id ctx) cid (bp_id (wc_blueprint ctx)) (mf_id (wc_manifest ctx))"

definition worker_policy :: "lifecycle \<Rightarrow> string \<Rightarrow> egress_policy" where
  "worker_policy L cid = (case policy_get (lc_policies L) cid of
      Some p \<Rightarrow> p | None \<Rightarrow> \<lparr>ep_capability = cid, ep_endpoints = [], ep_rpm = 30\<rparr>)"

definition new_context :: "lifecycle \<Rightarrow> drawn \<Rightarrow> string \<Rightarrow> string \<Rightarrow> manifest \<Rightarrow> validation_result \<Rightarrow> blueprint \<Rightarrow> worker_context" where
  "new_context L F job_id cid m vr bp =
    \<lparr>wc_worker_id = dw_worker_id F, wc_job_id = job_id, wc_manifest = m, wc_validation = vr, wc_blueprint = bp,
     wc_egress_proxy = \<lparr>px_blueprint = bp, px_policy = worker_policy L cid, px_ollama_host = ''127.0.0.1'', px_ollama_port = 11434,
       px_limited = (ep_rpm (worker_policy L cid) > 0), px_durable = True, px_events = []\<rparr>,
     wc_created_at = dw_context_at F, wc_status = ''prepared''\<rparr>"

definition activate :: "drawn \<Rightarrow> worker_context \<Rightarrow> 'a workers_scheme \<Rightarrow> 'a workers_scheme" where
  "activate F ctx s = s\<lparr>wk_contexts := AList.update (wc_worker_id ctx) ctx (wk_contexts s),
     wk_started := AList.update (wc_worker_id ctx) (dw_clock F) (wk_started s)\<rparr>"

text \<open>Steps 4 to 6, of a validated manifest.\<close>

definition prepare_sandbox ::
    "env \<Rightarrow> lifecycle \<Rightarrow> drawn \<Rightarrow> string \<Rightarrow> string \<Rightarrow> manifest \<Rightarrow> validation_result \<Rightarrow> 'a workers_scheme \<Rightarrow>
     (py_exc + worker_context) \<times> 'a workers_scheme" where
  "prepare_sandbox E L F job_id cid m vr =
    (case generate_blueprint (dw_blueprint_id F) (dw_blueprint_at F) (lc_engine L) m vr of
       Inl (ValueError e) \<Rightarrow> fail_preparation E job_id cid (''blueprint generation failed: '' @ e)
     | Inl x \<Rightarrow> raise_r x
     | Inr bp \<Rightarrow>
         bind_r (emit E (blueprint_event bp (mf_id m) cid)) (\<lambda>_ s.
           let ctx = new_context L F job_id cid m vr bp in
           bind_r (emit E (prepared_event ctx cid)) (\<lambda>_. return_r ctx) (activate F ctx s)))"

definition prepare_worker ::
    "env \<Rightarrow> lifecycle \<Rightarrow> drawn \<Rightarrow> string \<Rightarrow> string option \<Rightarrow> 'a workers_scheme \<Rightarrow> (py_exc + worker_context) \<times> 'a workers_scheme" where
  "prepare_worker E L F job_id capability_id =
    (case capability_id of
       None \<Rightarrow> fail_preparation E job_id ''unknown'' ''job has no governing_capability_id''
     | Some cid \<Rightarrow>
         if cid = [] then fail_preparation E job_id ''unknown'' ''job has no governing_capability_id''
         else (case registry_get (lc_registry L) cid of
             None \<Rightarrow> fail_preparation E job_id cid (''capability '' @ quoted cid @ '' not found in registry'')
           | Some cap \<Rightarrow>
               (case status_error L cid of
                  Some err \<Rightarrow> fail_preparation E job_id cid err
                | None \<Rightarrow>
                    (let m = build_manifest L F cid cap; vr = validate_manifest (dw_validated_at F) (lc_validator L) m in
                     bind_r (emit E (manifest_event m cid vr)) (\<lambda>_.
                       if \<not> vr_valid vr
                       then fail_preparation E job_id cid (''manifest validation failed: '' @ list_text (vr_errors vr))
                       else prepare_sandbox E L F job_id cid m vr)))))"

section \<open>Execution\<close>

text \<open>
  \<open>WorkerExecutor\<close>. \<open>result.json\<close> is missing, not readable, or a result whose fields may be absent; the
  request to the worker proxy fails to connect, fails otherwise, or is answered with a status and a body.
\<close>

record result_file =
  rf_status :: "string option"
  rf_result :: "string option"
  rf_tokens_in :: "int option"
  rf_tokens_out :: "int option"
  rf_model :: "string option"
  rf_error :: "string option"

datatype result_state = No_result | Bad_result | Result result_file

datatype post_result =
    Connect_error
  | Post_failed
  | Answer int run_response

record worker_result =
  wr_success :: bool
  wr_text :: string
  wr_tokens_in :: int
  wr_tokens_out :: int
  wr_latency :: int
  wr_model :: string
  wr_error :: "string option"
  wr_exit_code :: int
  wr_container_id :: "string option"

record outside =
  wo_slot :: bool
  wo_dir_ok :: bool
  wo_write_ok :: bool
  wo_post :: "run_body \<Rightarrow> post_result \<times> docker_call list"
  wo_result :: result_state
  wo_latency :: int
  wo_dump :: "result_file \<Rightarrow> string"
  wo_exc_text :: "py_exc \<Rightarrow> string"
  wo_base_dir :: string
  wo_ollama_url :: string

definition failed_result :: "int \<Rightarrow> string \<Rightarrow> int \<Rightarrow> string option \<Rightarrow> worker_result" where
  "failed_result latency err code cid = \<lparr>wr_success = False, wr_text = [], wr_tokens_in = 0, wr_tokens_out = 0,
     wr_latency = latency, wr_model = [], wr_error = Some err, wr_exit_code = code, wr_container_id = cid\<rparr>"

definition sandbox_dir :: "string \<Rightarrow> string \<Rightarrow> string \<Rightarrow> string" where
  "sandbox_dir base job_id worker_id = base @ ''/'' @ job_id @ ''_'' @ worker_id"

text \<open>\<open>entry.partition(":")\<close>.\<close>

definition tmpfs_entry :: "string \<Rightarrow> string \<times> string" where
  "tmpfs_entry e = (takeWhile (\<lambda>c. c \<noteq> CHR '':'') e, drop 1 (dropWhile (\<lambda>c. c \<noteq> CHR '':'') e))"

text \<open>The body that is posted, from the blueprint and the manifest of the context.\<close>

definition request_body :: "lifecycle \<Rightarrow> outside \<Rightarrow> worker_context \<Rightarrow> run_body" where
  "request_body L O0 ctx =
    (let bp = wc_blueprint ctx; job_id = wc_job_id ctx; worker_id = wc_worker_id ctx;
         cid = mf_capability (wc_manifest ctx); dir = sandbox_dir (wo_base_dir O0) job_id worker_id;
         seccomp = (if bp_seccomp_profile_path bp \<noteq> [] then lc_seccomp L else None) in
     \<lparr>rb_image = Some (bp_image bp),
      rb_name = Some (''drnt-worker-'' @ take 12 job_id @ ''-'' @ take 8 worker_id),
      rb_labels = Some [(''drnt.worker_id'', worker_id), (''drnt.job_id'', job_id), (''drnt.capability_id'', cid), (''drnt.role'', ''worker'')],
      rb_environment = Some [(''OLLAMA_URL'', wo_ollama_url O0), (''DRNT_WORKER_ID'', worker_id), (''DRNT_JOB_ID'', job_id),
        (''DRNT_CAPABILITY'', cid)],
      rb_volumes = Some [(dir @ ''/inbox'', [(''bind'', ''/inbox''), (''mode'', ''ro'')]),
        (dir @ ''/outbox'', [(''bind'', ''/outbox''), (''mode'', ''rw'')])],
      rb_security_opt = Some (''no-new-privileges'' # (case seccomp of Some p \<Rightarrow> if p \<noteq> [] then [''seccomp='' @ p] else [] | None \<Rightarrow> [])),
      rb_mem_limit = Some (bp_memory_limit bp),
      rb_pids_limit = Some (bp_pids_limit bp),
      rb_cap_drop = Some [''ALL''],
      rb_read_only = Some True,
      rb_tmpfs = Some (fold (\<lambda>e. case tmpfs_entry e of (m, opts) \<Rightarrow> AList.update m opts) (bp_tmpfs_mounts bp) []),
      rb_network_mode = (if bp_network_mode bp = ''none'' then Some ''none'' else None),
      rb_network = (if bp_network_mode bp = ''none'' then None else Some (bp_network_mode bp)),
      rb_wall_timeout = Some (max_wall_seconds (mf_resources (wc_manifest ctx))),
      rb_extra = []\<rparr>)"

definition worker_note :: "outside \<Rightarrow> string" where
  "worker_note O0 = (case wo_result O0 of Result rf \<Rightarrow> '', worker_result: '' @ wo_dump O0 rf | _ \<Rightarrow> [])"

text \<open>The result of a run that the worker proxy answered.\<close>

definition read_answer :: "outside \<Rightarrow> int \<Rightarrow> run_response \<Rightarrow> py_exc + worker_result" where
  "read_answer O0 wall rs =
    (let cid = rs_container_id rs; code = rs_exit_code rs; lat = wo_latency O0 in
     if rs_status rs = ''timeout''
     then Inr (failed_result lat (''Container timed out after '' @ int_str wall @ ''s'' @ worker_note O0) (-1) cid)
     else if rs_status rs = ''failed''
     then Inr (failed_result lat (''Container failed. exit_code='' @ int_str code @ '', logs: '' @
       (case rs_logs rs of Some l \<Rightarrow> l | None \<Rightarrow> ''None'') @ worker_note O0) code cid)
     else (case wo_result O0 of
         No_result \<Rightarrow> Inr (failed_result lat (''No result.json produced. exit_code='' @ int_str code) code cid)
       | Bad_result \<Rightarrow> Inl (ExecutionError ''Failed to execute worker container'')
       | Result rf \<Rightarrow>
           Inr \<lparr>wr_success = (rf_status rf = Some ''success'' \<and> code = 0),
             wr_text = (case rf_result rf of Some t \<Rightarrow> t | None \<Rightarrow> []),
             wr_tokens_in = (case rf_tokens_in rf of Some n \<Rightarrow> n | None \<Rightarrow> 0),
             wr_tokens_out = (case rf_tokens_out rf of Some n \<Rightarrow> n | None \<Rightarrow> 0), wr_latency = lat,
             wr_model = (case rf_model rf of Some m \<Rightarrow> m | None \<Rightarrow> []), wr_error = rf_error rf, wr_exit_code = code,
             wr_container_id = cid\<rparr>))"

definition execute_sync :: "outside \<Rightarrow> run_body \<Rightarrow> int \<Rightarrow> (py_exc + worker_result) \<times> docker_call list" where
  "execute_sync O0 body wall =
    (if \<not> wo_dir_ok O0 then (Inl OSError, [])
     else if \<not> wo_write_ok O0 then (Inl (ExecutionError ''Failed to execute worker container''), [])
     else (case wo_post O0 body of
         (Connect_error, calls) \<Rightarrow> (Inl (ExecutionError ''Worker proxy unreachable''), calls)
       | (Post_failed, calls) \<Rightarrow> (Inl (ExecutionError ''Failed to execute worker container''), calls)
       | (Answer status rs, calls) \<Rightarrow>
           if status \<ge> 500 then (Inl (ExecutionError (''Sidecar error '' @ int_str status)), calls)
           else if status \<ge> 400 then (Inl (ExecutionError (''Sidecar request error '' @ int_str status)), calls)
           else (read_answer O0 wall rs, calls)))"

text \<open>\<open>WorkerExecutor.execute\<close>: no slot within the time limit is a failed result.\<close>

definition execute_task :: "outside \<Rightarrow> run_body \<Rightarrow> int \<Rightarrow> (py_exc + worker_result) \<times> docker_call list" where
  "execute_task O0 body wall =
    (if \<not> wo_slot O0 then (Inr (failed_result 0 ''max concurrent workers reached'' 0 None), []) else execute_sync O0 body wall)"

definition completed_event :: "worker_context \<Rightarrow> worker_result \<Rightarrow> stamp \<Rightarrow> event" where
  "completed_event ctx r sp =
    event_worker_execution_completed sp (wc_worker_id ctx) (wc_job_id ctx) (mf_capability (wc_manifest ctx))
      (case wr_container_id r of Some c \<Rightarrow> if c \<noteq> [] then c else ''unknown'' | None \<Rightarrow> ''unknown'') (wr_exit_code r) (wr_success r)
      (wr_latency r) (wr_tokens_in r) (wr_tokens_out r) (wr_error r)"

definition crashed_event :: "worker_context \<Rightarrow> string \<Rightarrow> stamp \<Rightarrow> event" where
  "crashed_event ctx err sp =
    event_worker_execution_completed sp (wc_worker_id ctx) (wc_job_id ctx) (mf_capability (wc_manifest ctx))
      ''unknown'' (-1) False 0 0 0 (Some err)"

text \<open>\<open>try: m except Exception as x: h x\<close>.\<close>

definition catch_r :: "('s \<Rightarrow> (py_exc + 'a) \<times> 's) \<Rightarrow> (py_exc \<Rightarrow> 's \<Rightarrow> (py_exc + 'a) \<times> 's) \<Rightarrow> 's \<Rightarrow> (py_exc + 'a) \<times> 's" where
  "catch_r m h s = (case m s of (Inl x, s') \<Rightarrow> h x s' | (Inr v, s') \<Rightarrow> (Inr v, s'))"

definition run_task ::
    "env \<Rightarrow> worker_context \<Rightarrow> py_exc + worker_result \<Rightarrow> 'a workers_scheme \<Rightarrow> (py_exc + worker_result) \<times> 'a workers_scheme" where
  "run_task E ctx outcome =
    (case outcome of
       Inl x \<Rightarrow> raise_r x
     | Inr r \<Rightarrow>
         bind_r (emit E (completed_event ctx r)) (\<lambda>_.
           if \<not> wr_success r
           then raise_r (ExecutionError (''worker execution failed: '' @ (case wr_error r of Some e \<Rightarrow> e | None \<Rightarrow> ''None'')))
           else return_r r))"

definition task_failed ::
    "env \<Rightarrow> outside \<Rightarrow> worker_context \<Rightarrow> py_exc \<Rightarrow> 'a workers_scheme \<Rightarrow> (py_exc + worker_result) \<times> 'a workers_scheme" where
  "task_failed E O0 ctx x =
    (case x of
       PreparationError _ \<Rightarrow> raise_r x
     | ExecutionError _ \<Rightarrow> raise_r x
     | _ \<Rightarrow> bind_r (emit E (crashed_event ctx (wo_exc_text O0 x))) (\<lambda>_.
         raise_r (PreparationError (''unexpected error during worker execution: '' @ wo_exc_text O0 x))))"

text \<open>
  The handler, with the calls to Docker that it causes; the prompt and the model only reach \<open>task.json\<close>.
\<close>

definition execute_in_worker ::
    "env \<Rightarrow> lifecycle \<Rightarrow> outside \<Rightarrow> worker_context \<Rightarrow> string \<Rightarrow> 'a workers_scheme \<Rightarrow>
     ((py_exc + worker_result) \<times> 'a workers_scheme) \<times> docker_call list" where
  "execute_in_worker E L O0 ctx task_type s =
    (if \<not> lc_has_executor L then ((Inl (PreparationError ''no worker_executor configured''), s), [])
     else
       (case emit E (\<lambda>sp. event_worker_execution_started sp (wc_worker_id ctx) (wc_job_id ctx) (mf_capability (wc_manifest ctx))
              ''pending'' (bp_image (wc_blueprint ctx)) task_type) s of
          (Inl x, s') \<Rightarrow> ((Inl x, s'), [])
        | (Inr _, s') \<Rightarrow>
            (case execute_task O0 (request_body L O0 ctx) (max_wall_seconds (mf_resources (wc_manifest ctx))) of
               (outcome, calls) \<Rightarrow> (catch_r (run_task E ctx outcome) (task_failed E O0 ctx) s', calls))))"

section \<open>Teardown\<close>

definition duration_seconds :: "instant \<Rightarrow> instant option \<Rightarrow> rat" where
  "duration_seconds now started = (case started of Some t \<Rightarrow> of_int (now - t) / 1000000 | None \<Rightarrow> 0)"

definition teardown_worker ::
    "env \<Rightarrow> instant \<Rightarrow> worker_context \<Rightarrow> 'a workers_scheme \<Rightarrow> (py_exc + worker_context) \<times> 'a workers_scheme" where
  "teardown_worker E now ctx s =
    (let evs = px_events (wc_egress_proxy ctx);
         denied = length (filter (\<lambda>e. event_str e ''event_type'' = ''egress.denied'') evs) in
     bind_r (emit E (\<lambda>sp. event_worker_teardown sp (wc_worker_id ctx) (wc_job_id ctx) (int (length evs)) (int denied)
         (py_round 3 (duration_seconds now (map_of (wk_started s) (wc_worker_id ctx))))))
       (\<lambda>_ s. (Inr (ctx\<lparr>wc_status := ''completed''\<rparr>),
         s\<lparr>wk_windows := egress_reset (bp_id (wc_blueprint ctx)) (wk_windows s),
           wk_contexts := AList.delete (wc_worker_id ctx) (wk_contexts s),
           wk_started := AList.delete (wc_worker_id ctx) (wk_started s)\<rparr>)) s)"

section \<open>What a preparation does\<close>

lemma fail_preparation_not_Inr [simp]: "fail_preparation E job_id cid err s \<noteq> (Inr v, s')"
  by (auto simp: fail_preparation_def elim!: bind_r_cases)

lemma generate_blueprint_Inr:
  "generate_blueprint i now B m vr = Inr bp \<Longrightarrow>
    vr_valid vr \<and> bp_id bp = i \<and> bp_image bp = be_image B \<and>
    bp_network_mode bp = (if net_egress_allow (mf_network m) \<noteq> [] then ''drnt-sandbox'' else ''none'') \<and>
    bp_egress_allow bp = net_egress_allow (mf_network m) \<and>
    bp_memory_limit bp = int_str (max_memory_mb (mf_resources m)) @ ''m'' \<and> bp_pids_limit bp = 256 \<and>
    bp_tmpfs_mounts bp = [''/tmp:size=64m,noexec,nosuid''] \<and> bp_seccomp_profile_path bp = ''default''"
  by (auto simp: generate_blueprint_def split: if_splits)

lemma generate_blueprint_valid: "vr_valid vr \<Longrightarrow> \<exists>bp. generate_blueprint i now B m vr = Inr bp"
  by (simp add: generate_blueprint_def)

lemma prepare_sandbox_Inr:
  assumes "prepare_sandbox E L F job_id cid m vr s = (Inr ctx, s')"
  obtains bp where "generate_blueprint (dw_blueprint_id F) (dw_blueprint_at F) (lc_engine L) m vr = Inr bp"
    "ctx = new_context L F job_id cid m vr bp"
    "s' = activate F ctx (s\<lparr>alog := recorded [blueprint_event bp (mf_id m) cid, prepared_event ctx cid] E s\<rparr>)"
proof (cases "generate_blueprint (dw_blueprint_id F) (dw_blueprint_at F) (lc_engine L) m vr")
  case (Inl x)
  then show thesis using assms by (cases x) (auto simp: prepare_sandbox_def generate_blueprint_def split: if_splits)
next
  case (Inr bp)
  let ?ctx = "new_context L F job_id cid m vr bp"
  obtain v t where 1: "emit E (blueprint_event bp (mf_id m) cid) s = (Inr v, t)"
    and 2: "bind_r (emit E (prepared_event ?ctx cid)) (\<lambda>_. return_r ?ctx) (activate F ?ctx t) = (Inr ctx, s')"
    using assms Inr unfolding prepare_sandbox_def by (auto simp: Let_def elim!: bind_r_cases)
  from 2 obtain v' where 3: "emit E (prepared_event ?ctx cid) (activate F ?ctx t) = (Inr v', s')" and ctx: "ctx = ?ctx"
    by (auto elim!: bind_r_cases)
  show thesis
    using that [OF Inr ctx] emit_recorded [OF 1] emit_recorded [OF 3] ctx by (simp add: activate_def recorded_def)
qed

lemma prepare_worker_Inr:
  assumes "prepare_worker E L F job_id copt s = (Inr ctx, s')"
  obtains cid cap m vr bp where "copt = Some cid" "registry_get (lc_registry L) cid = Some cap" "status_error L cid = None"
    "m = build_manifest L F cid cap" "vr = validate_manifest (dw_validated_at F) (lc_validator L) m" "vr_valid vr"
    "generate_blueprint (dw_blueprint_id F) (dw_blueprint_at F) (lc_engine L) m vr = Inr bp"
    "ctx = new_context L F job_id cid m vr bp"
    "s' = activate F ctx (s\<lparr>alog := recorded [manifest_event m cid vr, blueprint_event bp (mf_id m) cid, prepared_event ctx cid] E s\<rparr>)"
proof -
  obtain cid cap where copt: "copt = Some cid" and cap: "registry_get (lc_registry L) cid = Some cap" and st: "status_error L cid = None"
    using assms unfolding prepare_worker_def by (auto split: option.splits if_splits)
  let ?m = "build_manifest L F cid cap"
  let ?vr = "validate_manifest (dw_validated_at F) (lc_validator L) ?m"
  obtain v t where 1: "emit E (manifest_event ?m cid ?vr) s = (Inr v, t)" and ok: "vr_valid ?vr"
    and 2: "prepare_sandbox E L F job_id cid ?m ?vr t = (Inr ctx, s')"
    using assms copt cap st unfolding prepare_worker_def
    by (auto simp: Let_def elim!: bind_r_cases split: if_splits)
  from 2 obtain bp where "generate_blueprint (dw_blueprint_id F) (dw_blueprint_at F) (lc_engine L) ?m ?vr = Inr bp"
    "ctx = new_context L F job_id cid ?m ?vr bp"
    "s' = activate F ctx (t\<lparr>alog := recorded [blueprint_event bp (mf_id ?m) cid, prepared_event ctx cid] E t\<rparr>)"
    by (rule prepare_sandbox_Inr)
  then show thesis
    using that [OF copt cap st refl refl ok] emit_recorded [OF 1] by (simp add: recorded_def activate_def)
qed

section \<open>The container of a prepared worker\<close>

text \<open>The worker proxy as the executor sees it.\<close>

definition proxy_post :: "docker \<Rightarrow> string option \<Rightarrow> proxy_registry \<Rightarrow> run_body \<Rightarrow> post_result \<times> docker_call list" where
  "proxy_post D base R b =
    (case post_run D base R b of
       (Inl status, calls) \<Rightarrow>
         (Answer status \<lparr>rs_container_id = None, rs_exit_code = -1, rs_status = [], rs_logs = None\<rparr>, calls)
     | (Inr rs, calls) \<Rightarrow> (Answer 200 rs, calls))"

text \<open>The confinement of a container that is created for a worker of job \<open>job_id\<close>.\<close>

definition confined :: "lifecycle \<Rightarrow> proxy_registry \<Rightarrow> string option \<Rightarrow> string \<Rightarrow> run_request \<Rightarrow> bool" where
  "confined L R base dir a \<longleftrightarrow>
    rq_image a = be_image (lc_engine L) \<and> rq_image a \<in> set (approved_images R) \<and>
    rq_cap_drop a = [''ALL''] \<and> rq_read_only a \<and> ''no-new-privileges'' \<in> set (rq_security_opt a) \<and>
    (rq_network_mode a = Some ''none'' \<and> rq_network a = None \<or>
     rq_network_mode a = None \<and> rq_network a = Some ''drnt-sandbox'' \<and> ''drnt-sandbox'' \<in> set (allowed_networks R)) \<and>
    rq_mem_limit a = ''256m'' \<and> rq_pids_limit a = 256 \<and> rq_wall_timeout a = 120 \<and>
    rq_tmpfs a = [(''/tmp'', ''size=64m,noexec,nosuid'')] \<and>
    rq_volumes a = translate_volumes base
      [(dir @ ''/inbox'', [(''bind'', ''/inbox''), (''mode'', ''ro'')]), (dir @ ''/outbox'', [(''bind'', ''/outbox''), (''mode'', ''rw'')])]"

lemma memory_text: "int_str 256 = ''256''"
  by code_simp

lemma request_confined:
  assumes "generate_blueprint i now (lc_engine L) m vr = Inr bp" and "wc_blueprint ctx = bp" and "wc_manifest ctx = m"
    and "max_memory_mb (mf_resources m) = 256" and "max_wall_seconds (mf_resources m) = 120"
    and q: "validate_request R (request_body L O0 ctx) = Inr q"
  shows "confined L R base (sandbox_dir (wo_base_dir O0) (wc_job_id ctx) (wc_worker_id ctx)) (create_args base q)"
proof -
  note bp = generate_blueprint_Inr [OF assms(1)]
  have q: "q = with_defaults (request_body L O0 ctx)" and ok: "request_ok R q"
    using assms(6) unfolding validate_request_iff by blast+
  have tmp: "tmpfs_entry ''/tmp:size=64m,noexec,nosuid'' = (''/tmp'', ''size=64m,noexec,nosuid'')" by code_simp
  have "rq_network_mode q = (if bp_network_mode bp = ''none'' then Some ''none'' else None)"
    "rq_network q = (if bp_network_mode bp = ''none'' then None else Some (bp_network_mode bp))"
    using assms(2) by (simp_all add: q with_defaults_def request_body_def Let_def)
  with bp ok have net: "rq_network_mode q = Some ''none'' \<and> rq_network q = None \<or>
      rq_network_mode q = None \<and> rq_network q = Some ''drnt-sandbox'' \<and> ''drnt-sandbox'' \<in> set (allowed_networks R)"
    unfolding request_ok_def by (auto split: if_splits)
  have fields: "rq_image q = bp_image bp" "rq_cap_drop q = [''ALL'']" "rq_read_only q" "''no-new-privileges'' \<in> set (rq_security_opt q)"
    "rq_mem_limit q = bp_memory_limit bp" "rq_pids_limit q = bp_pids_limit bp" "rq_wall_timeout q = 120"
    "rq_tmpfs q = [(''/tmp'', ''size=64m,noexec,nosuid'')]"
    "rq_volumes q = [(sandbox_dir (wo_base_dir O0) (wc_job_id ctx) (wc_worker_id ctx) @ ''/inbox'', [(''bind'', ''/inbox''), (''mode'', ''ro'')]),
        (sandbox_dir (wo_base_dir O0) (wc_job_id ctx) (wc_worker_id ctx) @ ''/outbox'', [(''bind'', ''/outbox''), (''mode'', ''rw'')])]"
    using assms(2,3,5) bp tmp by (simp_all add: q with_defaults_def request_body_def given_def Let_def)
  have "bp_image bp \<in> set (approved_images R)" using ok fields(1) unfolding request_ok_def by simp
  moreover have "bp_memory_limit bp = ''256m''" using bp assms(4) memory_text by simp
  moreover have "rq_network_mode q \<noteq> Some []" "rq_network q \<noteq> Some []" using net by auto
  ultimately show ?thesis
    using fields net bp unfolding confined_def create_args_def by (auto simp: Let_def)
qed

lemma execute_calls:
  assumes "wo_post O0 = proxy_post D base R" and "c \<in> set (snd (execute_in_worker E L O0 ctx task_type s))"
  shows "c \<in> set (snd (post_run D base R (request_body L O0 ctx)))"
proof -
  have "snd (execute_task O0 b wall) = [] \<or> snd (execute_task O0 b wall) = snd (post_run D base R b)" for b wall
    using assms(1)
    by (auto simp: execute_task_def execute_sync_def proxy_post_def split: prod.splits sum.splits post_result.splits)
  then show ?thesis
    using assms(2) unfolding execute_in_worker_def
    by (auto split: if_splits prod.splits sum.splits) (metis empty_iff list.set(1) snd_conv)+
qed

lemma post_run_create:
  assumes "Create a \<in> set (snd (post_run D base R b))"
  obtains q where "validate_request R b = Inr q" "a = create_args base q"
  using assms
  by (auto simp: post_run_def run_container_def Let_def split: sum.splits option.splits docker_exc.splits if_splits)

text \<open>
  C9: Whatever the configuration, the policies and the state, every container that Docker is asked to
  create for a prepared worker is confined: an approved image, no capability, no new privileges, a
  read-only root, no network or only the internal \<open>drnt-sandbox\<close>, 256 MB, 256 processes, 120 seconds, and
  no mount but the inbox (read only) and the outbox of the job's own directory.
\<close>

theorem worker_container_confined:
  assumes "prepare_worker E L F job_id cid s = (Inr ctx, s')" and "wo_post O0 = proxy_post D base R"
    and "Create a \<in> set (snd (execute_in_worker E' L O0 ctx task_type t))"
  shows "confined L R base (sandbox_dir (wo_base_dir O0) job_id (dw_worker_id F)) a"
proof -
  obtain c cap m vr bp where m: "m = build_manifest L F c cap"
    and bp: "generate_blueprint (dw_blueprint_id F) (dw_blueprint_at F) (lc_engine L) m vr = Inr bp"
    and ctx: "ctx = new_context L F job_id c m vr bp"
    using prepare_worker_Inr [OF assms(1)] by metis
  obtain q where q: "validate_request R (request_body L O0 ctx) = Inr q" "a = create_args base q"
    using post_run_create [OF execute_calls [OF assms(2,3)]] .
  have "wc_blueprint ctx = bp" "wc_manifest ctx = m" "max_memory_mb (mf_resources m) = 256" "max_wall_seconds (mf_resources m) = 120"
    and ids: "wc_job_id ctx = job_id" "wc_worker_id ctx = dw_worker_id F"
    unfolding ctx m by (simp_all add: new_context_def build_manifest_def)
  from request_confined [OF bp this(1-4) q(1), of base] show ?thesis unfolding q(2) ids .
qed

section \<open>When a preparation succeeds\<close>

text \<open>
  The wiring of \<open>main.py\<close>: the validator and the lifecycle share the registry and the capability state, the
  validator's endpoints and the policies come from the same routes, and the ceilings are the defaults.
\<close>

definition wired :: "policy_route list \<Rightarrow> lifecycle \<Rightarrow> bool" where
  "wired rs L \<longleftrightarrow>
    v_registry (lc_validator L) = lc_registry L \<and> lc_states L = Some (v_states (lc_validator L)) \<and>
    v_endpoints (lc_validator L) = build_egress_endpoints_from_routes rs \<and> lc_policies L = load_from_routes rs [] \<and>
    v_ceilings (lc_validator L) = default_ceilings"

lemma fail_preparation_writes:
  "writes_all E \<Longrightarrow> fail_preparation E job_id cid err s =
    (Inl (PreparationError err), s\<lparr>alog := recorded [\<lambda>sp. event_worker_preparation_failed sp job_id cid err] E s\<rparr>)"
  by (simp add: fail_preparation_def emit_writes)

definition ready :: "lifecycle \<Rightarrow> string \<Rightarrow> bool" where
  "ready L cid \<longleftrightarrow> cid \<noteq> [] \<and> registry_get (lc_registry L) cid \<noteq> None \<and>
    (\<exists>e. map_of (v_states (lc_validator L)) cid = Some e \<and> cap_status e = ''active'' \<and> 0 \<le> effective_wal_level e)"

lemma status_error_wired:
  "wired rs L \<Longrightarrow> status_error L cid = None \<longleftrightarrow>
    (\<exists>e. map_of (v_states (lc_validator L)) cid = Some e \<and> cap_status e = ''active'')"
  by (auto simp: wired_def status_error_def get_status_def get_entry_def split: option.splits)

lemma under_base_self: "under_base p p"
  by (simp add: under_base_def)

lemma standard_volumes:
  "under_base (normalized ''/work'') ''/work''" "under_base (normalized ''/tmp'') ''/tmp''"
  "''/work'' \<in> set ALLOWED_VOLUME_BASE_PATHS" "''/tmp'' \<in> set ALLOWED_VOLUME_BASE_PATHS"
  by code_simp+

lemma built_manifest_ok:
  assumes w: "wired rs L" and cap: "registry_get (lc_registry L) cid = Some cap"
    and e: "map_of (v_states (lc_validator L)) cid = Some e" "cap_status e = ''active''"
  shows "vr_valid (validate_manifest now (lc_validator L) (build_manifest L F cid cap)) \<longleftrightarrow> 0 \<le> effective_wal_level e"
proof -
  let ?m = "build_manifest L F cid cap"
  have m: "mf_capability ?m = cid" "net_deny_all (mf_network ?m)" "''ALL'' \<in> set (drop_capabilities (mf_security ?m))"
    "sec_no_new_privileges (mf_security ?m)" "max_memory_mb (mf_resources ?m) = 256" "max_wall_seconds (mf_resources ?m) = 120"
    "net_egress_allow (mf_network ?m) = (case policy_get (lc_policies L) cid of Some p \<Rightarrow> ep_endpoints p | None \<Rightarrow> [])"
    by (simp_all add: build_manifest_def)
  have reg: "cid \<in> fst ` set (v_registry (lc_validator L))"
    using cap w unfolding registry_get_def wired_def by (metis map_of_eq_None_iff option.distinct(1))
  have wal: "map_of WORKER_TYPE_MIN_WAL (mf_worker_type ?m) = Some 0"
    by (simp add: build_manifest_def WORKER_TYPE_MIN_WAL_def)
  have may: "cap_may_work (v_states (lc_validator L)) cid 0 \<longleftrightarrow> 0 \<le> effective_wal_level e"
    using e by (simp add: cap_may_work_def)
  have vols: "\<forall>vol \<in> set (mf_volumes ?m). \<exists>base \<in> set ALLOWED_VOLUME_BASE_PATHS. under_base (normalized (vol_path vol)) base"
    using standard_volumes by (auto simp: build_manifest_def)
  have "set (net_egress_allow (mf_network ?m)) \<subseteq> set (authorized_endpoints (lc_validator L) ?m)"
  proof (cases "policy_get (lc_policies L) cid")
    case (Some p)
    then have "map_of (build_egress_endpoints_from_routes rs) cid = Some (ep_endpoints p)"
      using policy_tables_agree [of rs cid] w by (simp add: wired_def)
    then show ?thesis using Some w unfolding m(1,7) authorized_endpoints_def wired_def by simp
  qed (simp add: m(7))
  with m reg wal may vols w show ?thesis
    unfolding manifest_valid_iff manifest_ok_def by (simp add: wired_def default_ceilings_def)
qed

text \<open>
  As \<open>main.py\<close> wires the parts, a worker is prepared exactly for a registered capability that is active
  at a level of 0 or more. Then the validated manifest, the blueprint and the worker are recorded, in this
  order, and the context is registered with its start time. In every other case the preparation ends in a
  \<open>WorkerPreparationError\<close> whose record fails the job, and nothing but the trail has changed.
\<close>

theorem preparation_outcome:
  assumes "wired rs L" and "writes_all E"
  shows "if ready L cid
    then \<exists>cap bp. registry_get (lc_registry L) cid = Some cap \<and>
      (let m = build_manifest L F cid cap; vr = validate_manifest (dw_validated_at F) (lc_validator L) m;
           ctx = new_context L F job_id cid m vr bp in
       prepare_worker E L F job_id (Some cid) s =
         (Inr ctx, activate F ctx (s\<lparr>alog := recorded [manifest_event m cid vr, blueprint_event bp (mf_id m) cid, prepared_event ctx cid] E s\<rparr>)))
    else \<exists>err pre cid'. prepare_worker E L F job_id (Some cid) s =
      (Inl (PreparationError err),
       s\<lparr>alog := recorded (pre @ [\<lambda>sp. event_worker_preparation_failed sp job_id cid' err]) E s\<rparr>)"
proof (cases "cid \<noteq> [] \<and> registry_get (lc_registry L) cid \<noteq> None \<and> status_error L cid = None")
  case False
  then have "\<not> ready L cid" using status_error_wired [OF assms(1)] unfolding ready_def by blast
  moreover have "\<exists>err cid'. prepare_worker E L F job_id (Some cid) s =
      (Inl (PreparationError err), s\<lparr>alog := recorded ([] @ [\<lambda>sp. event_worker_preparation_failed sp job_id cid' err]) E s\<rparr>)"
    using False assms(2) by (auto simp: prepare_worker_def fail_preparation_writes split: option.splits)
  ultimately show ?thesis by (simp only: if_False) blast
next
  case True
  then obtain cap e where cap: "registry_get (lc_registry L) cid = Some cap"
    and e: "map_of (v_states (lc_validator L)) cid = Some e" "cap_status e = ''active''"
    using status_error_wired [OF assms(1)] by blast
  let ?m = "build_manifest L F cid cap"
  let ?vr = "validate_manifest (dw_validated_at F) (lc_validator L) ?m"
  have ready: "ready L cid \<longleftrightarrow> vr_valid ?vr"
    using built_manifest_ok [OF assms(1) cap e] True e unfolding ready_def by simp
  have run: "prepare_worker E L F job_id (Some cid) s =
      (let s1 = s\<lparr>alog := recorded [manifest_event ?m cid ?vr] E s\<rparr> in
       if \<not> vr_valid ?vr then fail_preparation E job_id cid (''manifest validation failed: '' @ list_text (vr_errors ?vr)) s1
       else prepare_sandbox E L F job_id cid ?m ?vr s1)"
    using True cap by (simp add: prepare_worker_def Let_def emit_writes [OF assms(2)])
  show ?thesis
  proof (cases "vr_valid ?vr")
    case False
    with run have "prepare_worker E L F job_id (Some cid) s =
      (Inl (PreparationError (''manifest validation failed: '' @ list_text (vr_errors ?vr))),
       s\<lparr>alog := recorded ([manifest_event ?m cid ?vr] @ [\<lambda>sp. event_worker_preparation_failed sp job_id cid
         (''manifest validation failed: '' @ list_text (vr_errors ?vr))]) E s\<rparr>)"
      by (simp add: Let_def fail_preparation_writes [OF assms(2)] recorded_after)
    with False ready show ?thesis by (simp only: if_False) blast
  next
    case valid: True
    then obtain bp where bp: "generate_blueprint (dw_blueprint_id F) (dw_blueprint_at F) (lc_engine L) ?m ?vr = Inr bp"
      using generate_blueprint_valid by blast
    have "prepare_worker E L F job_id (Some cid) s =
      (Inr (new_context L F job_id cid ?m ?vr bp), activate F (new_context L F job_id cid ?m ?vr bp)
        (s\<lparr>alog := recorded [manifest_event ?m cid ?vr, blueprint_event bp (mf_id ?m) cid,
           prepared_event (new_context L F job_id cid ?m ?vr bp) cid] E s\<rparr>))"
      using run valid bp
      by (simp add: Let_def prepare_sandbox_def emit_writes [OF assms(2)] recorded_after activate_def recorded_def)
    with valid ready cap show ?thesis unfolding Let_def by auto
  qed
qed

section \<open>A worker that comes and goes\<close>

lemma delete_fresh: "k \<notin> fst ` set d \<Longrightarrow> AList.delete k (AList.update k v d) = d"
  by (induction d) auto

text \<open>
  Teardown undoes a preparation. When the worker's id is fresh and the teardown is recorded, the active
  contexts and start times are again those before the preparation, whatever the worker asked for in
  between; its window of the limiter is empty, and no other worker's window has changed.
\<close>

theorem teardown_undoes_preparation:
  assumes "prepare_worker E L F job_id cid s = (Inr ctx, s1)"
    and "dw_worker_id F \<notin> fst ` set (wk_contexts s)" and "dw_worker_id F \<notin> fst ` set (wk_started s)"
    and "wk_contexts t = wk_contexts s1" and "wk_started t = wk_started s1"
    and "wc_worker_id ctx' = wc_worker_id ctx" and "wc_blueprint ctx' = wc_blueprint ctx"
    and "teardown_worker E' now ctx' t = (Inr done_ctx, t')"
  shows "wk_contexts t' = wk_contexts s \<and> wk_started t' = wk_started s \<and> wc_status done_ctx = ''completed'' \<and>
    (\<forall>k. window_of (wk_windows t') k = (if k = dw_blueprint_id F then [] else window_of (wk_windows t) k))"
proof (rule prepare_worker_Inr [OF assms(1)])
  fix c cap m vr bp
  assume bp: "generate_blueprint (dw_blueprint_id F) (dw_blueprint_at F) (lc_engine L) m vr = Inr bp"
    and ctx: "ctx = new_context L F job_id c m vr bp"
    and s1: "s1 = activate F ctx (s\<lparr>alog := recorded [manifest_event m c vr, blueprint_event bp (mf_id m) c, prepared_event ctx c] E s\<rparr>)"
  have ids: "wc_worker_id ctx = dw_worker_id F" "bp_id (wc_blueprint ctx) = dw_blueprint_id F"
    using ctx generate_blueprint_Inr [OF bp] by (simp_all add: new_context_def)
  then have maps: "wk_contexts s1 = AList.update (dw_worker_id F) ctx (wk_contexts s)"
      "wk_started s1 = AList.update (dw_worker_id F) (dw_clock F) (wk_started s)"
    unfolding s1 by (simp_all add: activate_def)
  show ?thesis
    using assms(8) maps assms(2-7) ids unfolding teardown_worker_def Let_def
    by (auto elim!: bind_r_cases dest!: emit_recorded simp: delete_fresh egress_reset_def)
qed

section \<open>Printed and parsed\<close>

text \<open>
  The memory limit survives its way to Docker's side: the text that the blueprint engine prints is
  read by the worker proxy as exactly that many megabytes, so that the proxy's cap is checked against the
  manifest's number.
\<close>

theorem memory_limit_roundtrip:
  assumes "generate_blueprint i now B m vr = Inr bp"
  shows "parse_mem_bytes (bp_memory_limit bp) = Some (max_memory_mb (mf_resources m) * 1048576)"
  using generate_blueprint_Inr [OF assms] parse_mem_megabytes by simp

text \<open>The registry that serves the standard worker.\<close>

definition proxy_serves :: "proxy_registry \<Rightarrow> string \<Rightarrow> bool" where
  "proxy_serves R img \<longleftrightarrow>
    img \<in> set (approved_images R) \<and> ''drnt-sandbox'' \<in> set (allowed_networks R) \<and>
    (\<exists>mem_max \<ge> 268435456. parse_mem_bytes (mem_limit_max (reg_caps R)) = Some mem_max) \<and>
    256 \<le> pids_limit_max (reg_caps R) \<and> 120 \<le> wall_timeout_max (reg_caps R)"

lemma request_accepted:
  assumes "prepare_worker E L F job_id cid s = (Inr ctx, s')" and "proxy_serves R (be_image (lc_engine L))"
    and "wo_base_dir O0 = ''/var/drnt/workers''"
  shows "validate_request R (request_body L O0 ctx) = Inr (with_defaults (request_body L O0 ctx))"
proof -
  obtain c cap m vr bp where m: "m = build_manifest L F c cap"
    and bp: "generate_blueprint (dw_blueprint_id F) (dw_blueprint_at F) (lc_engine L) m vr = Inr bp"
    and ctx: "ctx = new_context L F job_id c m vr bp"
    using prepare_worker_Inr [OF assms(1)] by metis
  note b = generate_blueprint_Inr [OF bp]
  have w: "wc_blueprint ctx = bp" "wc_manifest ctx = m" using ctx by (simp_all add: new_context_def)
  have lim: "max_memory_mb (mf_resources m) = 256" "max_wall_seconds (mf_resources m) = 120" by (simp_all add: m build_manifest_def)
  let ?q = "with_defaults (request_body L O0 ctx)"
  have mem: "parse_mem_bytes (rq_mem_limit ?q) = Some 268435456"
    using b lim w parse_mem_megabytes [of 256] by (simp add: with_defaults_def request_body_def given_def Let_def)
  have vols: "\<forall>src \<in> fst ` set (rq_volumes ?q). volume_source_ok R src"
    using assms(3)
    by (simp add: with_defaults_def request_body_def given_def Let_def volume_source_ok_def startswith_def sandbox_dir_def
        SANDBOX_BASE_PATH_def)
  have net: "rq_network_mode ?q = Some ''none'' \<and> rq_network ?q = None \<or>
      rq_network_mode ?q = None \<and> (\<exists>n \<in> set (allowed_networks R). rq_network ?q = Some n)"
    using b w assms(2) by (auto simp: with_defaults_def request_body_def Let_def proxy_serves_def)
  have rest: "rq_image ?q = be_image (lc_engine L)" "rq_cap_drop ?q = [''ALL'']" "rq_read_only ?q" "rq_pids_limit ?q = 256"
    "rq_wall_timeout ?q = 120" "map_of (rq_labels ?q) ''drnt.role'' = Some ''worker''" "body_complete (request_body L O0 ctx)"
    using b w lim by (simp_all add: with_defaults_def request_body_def given_def Let_def body_complete_def)
  have "request_ok R ?q"
    using mem vols net rest assms(2) unfolding request_ok_def proxy_serves_def by auto
  with rest(7) show ?thesis unfolding validate_request_iff by blast
qed

text \<open>
  C29: The two sides of the sandbox fit together: the request the executor posts for a prepared worker passes
  every rule of a worker proxy that approves the image and the network and whose caps admit the standard
  limits. Only with these does a job reach a container at all.
\<close>

theorem worker_request_accepted:
  assumes "prepare_worker E L F job_id cid s = (Inr ctx, s')" and "proxy_serves R (be_image (lc_engine L))"
    and "wo_base_dir O0 = ''/var/drnt/workers''"
  shows "validate_request R (request_body L O0 ctx) = Inr (with_defaults (request_body L O0 ctx))"
  using assms by (rule request_accepted)

section \<open>What is missed\<close>

text \<open>
  A route with limit 0 gives a policy without a limiter: every request to its endpoints is allowed.
\<close>

lemma zero_rate_unlimited:
  assumes "policy_get (lc_policies L) cid = Some p" and "ep_rpm p \<le> 0"
    and "bp_network_mode bp \<noteq> ''none''" and "endpoint_text h port \<in> set (bp_egress_allow bp) \<inter> set (ep_endpoints p)"
  shows "ed_allowed (fst (authorize now (wc_egress_proxy (new_context L F job_id cid m vr bp)) h port w))"
  using assms by (simp add: authorize_def new_context_def worker_policy_def endpoint_text_def Let_def)

text \<open>
  The context is registered before its record is written: when that record fails, the caller gets an
  exception and no context, but the worker stays registered.
\<close>

lemma failed_record_leaks_context:
  assumes "generate_blueprint (dw_blueprint_id F) (dw_blueprint_at F) (lc_engine L) m vr = Inr bp"
    and "outcome_of E (length (alog s)) = Inr ok" and "outcome_of E (Suc (length (alog s))) = Inl x"
  shows "\<exists>s'. prepare_sandbox E L F job_id cid m vr s = (Inl x, s') \<and> map_of (wk_contexts s') (dw_worker_id F) \<noteq> None"
  using assms by (simp add: prepare_sandbox_def bind_r_def emit_def Let_def activate_def new_context_def)

section \<open>A concrete worker\<close>

definition sample_routes :: "policy_route list" where
  "sample_routes = [\<lparr>pr_url = (''https'', Some ''h'', None), pr_capabilities = [''route.cloud.claude''], pr_rpm = None\<rparr>]"

definition sample_lifecycle :: lifecycle where
  "sample_lifecycle =
    \<lparr>lc_validator = \<lparr>v_registry = sample_registry, v_states = initialize_from_registry 0 sample_registry,
       v_endpoints = build_egress_endpoints_from_routes sample_routes, v_ceilings = default_ceilings\<rparr>,
     lc_engine = new_engine ''/var/drnt/workers/'' ''w'', lc_registry = sample_registry,
     lc_policies = load_from_routes sample_routes [], lc_states = Some (initialize_from_registry 0 sample_registry),
     lc_has_executor = True, lc_seccomp = None\<rparr>"

definition sample_drawn :: drawn where
  "sample_drawn = \<lparr>dw_manifest_id = ''m'', dw_blueprint_id = ''b'', dw_worker_id = ''k'', dw_manifest_at = ''t'', dw_validated_at = ''t'',
     dw_blueprint_at = ''t'', dw_context_at = ''t'', dw_clock = 5\<rparr>"

definition sample_workers :: workers where
  "sample_workers = \<lparr>alog = [], caps = [], wk_contexts = [], wk_started = [], wk_windows = []\<rparr>"

definition sample_prepared :: "(py_exc + worker_context) \<times> workers" where
  "sample_prepared = prepare_worker good_env sample_lifecycle sample_drawn ''j'' (Some ''route.cloud.claude'') sample_workers"

lemma sample_ready: "ready sample_lifecycle ''route.cloud.claude''"
  by (simp add: ready_def sample_lifecycle_def sample_registry_def registry_get_def initialize_from_registry_def fresh_cap_state_def)

lemma sample_isl: "isl (fst sample_prepared) = False"
  by code_simp

definition sample_worker :: worker_context where
  "sample_worker = projr (fst sample_prepared)"

lemma sample_run:
  "prepare_worker good_env sample_lifecycle sample_drawn ''j'' (Some ''route.cloud.claude'') sample_workers = (Inr sample_worker, snd sample_prepared)"
  using sample_isl unfolding sample_worker_def by (cases "fst sample_prepared") (simp_all add: sample_prepared_def prod_eq_iff)

definition sample_docker :: docker where
  "sample_docker = \<lparr>on_create = Inr ''id'', on_start = None, on_wait = Inr (Some 0), on_logs = Inr []\<rparr>"

definition sample_outside :: outside where
  "sample_outside = \<lparr>wo_slot = True, wo_dir_ok = True, wo_write_ok = True, wo_post = proxy_post sample_docker None sample_proxy,
     wo_result = No_result, wo_latency = 3, wo_dump = (\<lambda>_. []), wo_exc_text = (\<lambda>_. []), wo_base_dir = ''/var/drnt/workers'',
     wo_ollama_url = ''http://ollama''\<rparr>"

theorem worker_container_confined_witness:
  "list_ex (\<lambda>c. case c of Create a \<Rightarrow> confined sample_lifecycle sample_proxy None ''/var/drnt/workers/j_k'' a | _ \<Rightarrow> False)
    (snd (execute_in_worker good_env sample_lifecycle sample_outside sample_worker ''text_generation'' sample_workers))"
proof -
  let ?calls = "snd (execute_in_worker good_env sample_lifecycle sample_outside sample_worker ''text_generation'' sample_workers)"
  have "list_ex (\<lambda>c. case c of Create a \<Rightarrow> True | _ \<Rightarrow> False) ?calls" by code_simp
  then obtain c where "c \<in> set ?calls" "case c of Create a \<Rightarrow> True | _ \<Rightarrow> False" unfolding list_ex_iff by blast
  moreover obtain a where "c = Create a" using \<open>case c of Create a \<Rightarrow> True | _ \<Rightarrow> False\<close> by (cases c) simp_all
  ultimately have a: "Create a \<in> set ?calls" by simp
  have "wo_post sample_outside = proxy_post sample_docker None sample_proxy" by (simp add: sample_outside_def)
  from worker_container_confined [OF sample_run this a]
  have "confined sample_lifecycle sample_proxy None ''/var/drnt/workers/j_k'' a"
    by (simp add: sample_outside_def sandbox_dir_def sample_drawn_def)
  with a show ?thesis by (force simp: list_ex_iff)
qed

lemma sample_wired: "wired sample_routes sample_lifecycle"
  by (simp add: wired_def sample_lifecycle_def)

theorem preparation_outcome_witness:
  "map_of (wk_contexts (snd sample_prepared)) ''k'' = Some sample_worker \<and> length (alog (snd sample_prepared)) = 3"
proof -
  let ?L = sample_lifecycle and ?c = "''route.cloud.claude''"
  obtain m vr bp recs where p: "sample_prepared = (Inr (new_context ?L sample_drawn ''j'' ?c m vr bp),
        activate sample_drawn (new_context ?L sample_drawn ''j'' ?c m vr bp) (sample_workers\<lparr>alog := recs\<rparr>))"
    and n: "length recs = 3"
    using preparation_outcome [OF sample_wired good_env_writes, of ?c sample_drawn "''j''" sample_workers] sample_ready
    unfolding sample_prepared_def Let_def by (auto simp: length_recorded sample_workers_def)
  have w: "sample_worker = new_context ?L sample_drawn ''j'' ?c m vr bp"
    unfolding sample_worker_def p by simp
  show ?thesis unfolding p w by (simp add: n activate_def) (simp add: new_context_def sample_drawn_def)
qed

theorem teardown_undoes_preparation_witness:
  "wk_contexts (snd (teardown_worker good_env 9 sample_worker (snd sample_prepared))) = [] \<and>
   wk_contexts (snd sample_prepared) \<noteq> []"
proof -
  obtain d t where t: "teardown_worker good_env 9 sample_worker (snd sample_prepared) = (Inr d, t)"
    by (simp add: teardown_worker_def Let_def)
  from teardown_undoes_preparation [OF sample_run _ _ refl refl refl refl t]
  have "wk_contexts t = []" by (simp add: sample_workers_def)
  moreover have "wk_contexts (snd sample_prepared) \<noteq> []" by code_simp
  ultimately show ?thesis using t by simp
qed

theorem memory_limit_roundtrip_witness:
  "map_sum id (parse_mem_bytes \<circ> bp_memory_limit) (generate_blueprint ''b'' ''t'' (new_engine ''/v'' ''w'')
     (build_manifest sample_lifecycle sample_drawn ''c'' sample_cloud)
     \<lparr>vr_valid = True, vr_errors = [], vr_warnings = [], vr_validated_at = ''t''\<rparr>) = Inr (Some 268435456)"
proof -
  let ?m = "build_manifest sample_lifecycle sample_drawn ''c'' sample_cloud"
  obtain bp where bp: "generate_blueprint ''b'' ''t'' (new_engine ''/v'' ''w'') ?m
     \<lparr>vr_valid = True, vr_errors = [], vr_warnings = [], vr_validated_at = ''t''\<rparr> = Inr bp"
    by (simp add: generate_blueprint_def)
  from memory_limit_roundtrip [OF this] bp show ?thesis by (simp add: build_manifest_def)
qed

theorem worker_request_accepted_witness:
  "\<not> isl (validate_request sample_proxy (request_body sample_lifecycle sample_outside sample_worker))"
proof -
  have "parse_mem_bytes ''4g'' = Some 4294967296" by code_simp
  then have "proxy_serves sample_proxy (be_image (lc_engine sample_lifecycle))"
    by (simp add: proxy_serves_def sample_proxy_def sample_lifecycle_def new_engine_def)
  moreover have "wo_base_dir sample_outside = ''/var/drnt/workers''" by (simp add: sample_outside_def)
  ultimately show ?thesis using worker_request_accepted [OF sample_run] by simp
qed

end
