(* ===== verification/Context_Packager.thy ===== *)
theory Context_Packager
  imports Worker_Lifecycle "HOL-Library.Product_Lexorder"
begin

text \<open>
  The context packager (\<open>orchestrator/context_packager.py\<close>): it finds sensitive spans in a cloud-bound prompt,
  merges them, replaces them, stores the context object and records what it did. A compiled pattern of
  the configuration is the function that yields the spans of its matches (\<open>finditer\<close>); \<open>compile\<close> is
  \<open>re.compile\<close>, \<open>None\<close> for an invalid pattern. Ids and time stamps are arguments, as are SHA-256 and \<open>json.dumps\<close>.
\<close>

section \<open>Configuration\<close>

definition ACTION_PRECEDENCE :: "(string, nat) dict" where
  "ACTION_PRECEDENCE = [(''strip'', 0), (''generalize'', 1), (''pass'', 2)]"

definition precedence :: "string \<Rightarrow> nat" where
  "precedence a = (case map_of ACTION_PRECEDENCE a of Some n \<Rightarrow> n | None \<Rightarrow> 2)"

record sens_pattern =
  sp_finditer :: "string \<Rightarrow> (nat \<times> nat) list"
  sp_class :: string
  sp_action :: string
  sp_hardcoded :: bool
  sp_source :: string

record sens_config =
  default_action :: string
  patterns :: "sens_pattern list"
  allowlists :: "(string, string list) dict"

record class_def =
  cd_class :: string
  cd_action :: string
  cd_hardcoded :: bool
  cd_allowlist :: "string list"
  cd_patterns :: "string list"

definition class_patterns :: "(string \<Rightarrow> (string \<Rightarrow> (nat \<times> nat) list) option) \<Rightarrow> class_def \<Rightarrow> sens_pattern list" where
  "class_patterns compile d =
    concat (map (\<lambda>p. case compile p of
        None \<Rightarrow> []
      | Some f \<Rightarrow> [\<lparr>sp_finditer = f, sp_class = cd_class d, sp_action = cd_action d, sp_hardcoded = cd_hardcoded d, sp_source = p\<rparr>])
      (cd_patterns d))"

definition load_sensitivity ::
    "(string \<Rightarrow> (string \<Rightarrow> (nat \<times> nat) list) option) \<Rightarrow> string option \<Rightarrow> class_def list \<Rightarrow> sens_config" where
  "load_sensitivity compile dflt ds =
    \<lparr>default_action = (case dflt of Some a \<Rightarrow> a | None \<Rightarrow> ''strip''),
     patterns = concat (map (class_patterns compile) ds),
     allowlists = fold (\<lambda>d. if cd_allowlist d \<noteq> [] then AList.update (cd_class d) (cd_allowlist d) else id) ds []\<rparr>"

section \<open>Scanning\<close>

record span =
  sn_start :: nat
  sn_end :: nat
  sn_class :: string
  sn_action :: string
  sn_source :: string
  sn_text :: string

text \<open>\<open>text[i:j]\<close> for \<open>0 <= i\<close>.\<close>

definition slice :: "nat \<Rightarrow> nat \<Rightarrow> string \<Rightarrow> string" where
  "slice i j s = drop i (take j s)"

definition pattern_spans :: "sens_config \<Rightarrow> string \<Rightarrow> sens_pattern \<Rightarrow> span list" where
  "pattern_spans C s p =
    (let allowed = (case map_of (allowlists C) (sp_class p) of Some xs \<Rightarrow> xs | None \<Rightarrow> []) in
     map (\<lambda>(i, j). \<lparr>sn_start = i, sn_end = j, sn_class = sp_class p, sn_action = sp_action p, sn_source = sp_source p,
         sn_text = slice i j s\<rparr>)
       (filter (\<lambda>(i, j). slice i j s \<notin> set allowed) (sp_finditer p s)))"

definition scan_text :: "sens_config \<Rightarrow> string \<Rightarrow> span list" where
  "scan_text C s = concat (map (pattern_spans C s) (patterns C))"

section \<open>Merging\<close>

definition absorb :: "span \<Rightarrow> span \<Rightarrow> span" where
  "absorb prev sn =
    (let p = (if precedence (sn_action sn) < precedence (sn_action prev)
              then prev\<lparr>sn_action := sn_action sn, sn_class := sn_class sn, sn_source := sn_source sn\<rparr> else prev)
     in p\<lparr>sn_end := max (sn_end prev) (sn_end sn)\<rparr>)"

fun merge_from :: "span \<Rightarrow> span list \<Rightarrow> span list" where
  "merge_from prev [] = [prev]"
| "merge_from prev (sn # sns) =
    (if sn_start sn < sn_end prev then merge_from (absorb prev sn) sns else prev # merge_from sn sns)"

definition merge_overlapping :: "span list \<Rightarrow> span list" where
  "merge_overlapping sns =
    (case sort_key (\<lambda>sn. (sn_start sn, precedence (sn_action sn))) sns of [] \<Rightarrow> [] | sn # rest \<Rightarrow> merge_from sn rest)"

section \<open>Replacing\<close>

definition generalize_location :: "string \<Rightarrow> string" where
  "generalize_location m =
    (if CHR ''-'' \<in> set m
     then take 3 (takeWhile (\<lambda>c. c \<noteq> CHR ''-'') m) @ ''XX'' @ ''-'' @
       replicate (length (drop 1 (dropWhile (\<lambda>c. c \<noteq> CHR ''-'') m))) CHR ''X''
     else take 3 m @ ''XX'')"

text \<open>\<open>s.split(c)\<close> for one character.\<close>

fun split_on :: "char \<Rightarrow> string \<Rightarrow> string list" where
  "split_on c [] = [[]]"
| "split_on c (x # xs) =
    (if x = c then [] # split_on c xs else (case split_on c xs of y # ys \<Rightarrow> (x # y) # ys | [] \<Rightarrow> [[x]]))"

definition generalize_date :: "string \<Rightarrow> py_exc + string" where
  "generalize_date m =
    (if CHR ''-'' \<in> set m \<and> length m = 10 \<and> m ! 4 = CHR ''-'' then Inr (take 4 m)
     else if CHR ''/'' \<in> set m
     then (case split_on CHR ''/'' m of
         [a, b, year_part] \<Rightarrow>
           if length year_part = 2
           then (case py_int year_part of
               None \<Rightarrow> Inl (ValueError ''invalid literal for int() with base 10'')
             | Some y \<Rightarrow> Inr (if y < 70 then int_str (2000 + y) else int_str (1900 + y)))
           else Inr year_part
       | _ \<Rightarrow> Inr m)
     else Inr m)"

definition redacted :: "span \<Rightarrow> string" where
  "redacted sn = ''[REDACTED:'' @ sn_class sn @ '']''"

definition apply_transform :: "span \<Rightarrow> py_exc + string" where
  "apply_transform sn =
    (if sn_action sn = ''strip'' then Inr (redacted sn)
     else if sn_action sn = ''generalize''
     then (if sn_class sn = ''location'' then Inr (generalize_location (sn_text sn))
           else if sn_class sn = ''date'' then generalize_date (sn_text sn)
           else Inr (redacted sn))
     else Inr (sn_text sn))"

text \<open>The loop over the merged spans, from position \<open>last_end\<close>.\<close>

fun assemble :: "string \<Rightarrow> nat \<Rightarrow> span list \<Rightarrow> py_exc + string" where
  "assemble s last_end [] = Inr (drop last_end s)"
| "assemble s last_end (sn # sns) =
    (case apply_transform sn of
       Inl x \<Rightarrow> Inl x
     | Inr r \<Rightarrow> map_sum id (\<lambda>out. slice last_end (sn_start sn) s @ r @ out) (assemble s (sn_end sn) sns))"

definition transform_text :: "string \<Rightarrow> span list \<Rightarrow> py_exc + string \<times> span list" where
  "transform_text s sns =
    (if sns = [] then Inr (s, [])
     else (let merged = merge_overlapping sns in map_sum id (\<lambda>out. (out, merged)) (assemble s 0 merged)))"

section \<open>Packaging\<close>

record package =
  pk_id :: string
  pk_payload :: string
  pk_hash :: string

record packager = workers +
  context_store :: "(string, json) dict"

record package_request =
  pq_job_id :: string
  pq_input :: string
  pq_model :: string
  pq_route :: string
  pq_capability :: string
  pq_wal :: int

definition context_object ::
    "string \<Rightarrow> string \<Rightarrow> string \<Rightarrow> package_request \<Rightarrow> string \<Rightarrow> string \<Rightarrow> span list \<Rightarrow> json" where
  "context_object cid field_id now q payload payload_hash marked =
    JObj [(''context_package_id'', JStr cid), (''job_id'', JStr (pq_job_id q)),
      (''governing_capability_id'', JStr (pq_capability q)), (''governing_wal_level'', JInt (pq_wal q)),
      (''context_package_wal_level'', JInt (pq_wal q)), (''effective_packaging_level'', JInt (min (pq_wal q) (pq_wal q))),
      (''target_model'', JStr (pq_model q)), (''route_id'', JStr (pq_route q)),
      (''task_specification'', JObj [(''request_category'', JNull), (''parsed_intent'', JNull), (''output_format'', JNull),
        (''prompt_template_id'', JNull), (''prompt_template_version'', JNull)]),
      (''retrieved_candidates'', JArr []),
      (''eligible_context_fields'', JArr [JObj [(''field_id'', JStr field_id), (''field_name'', JStr ''user_input''),
        (''source_type'', JStr ''user_input''), (''source_id'', JNull),
        (''sensitivity_class'', JStr (case marked of sn # _ \<Rightarrow> sn_class sn | [] \<Rightarrow> ''none'')),
        (''classification_status'', JStr (if marked \<noteq> [] then ''matched'' else ''safe_none'')),
        (''shareability'', JStr ''cloud_eligible''), (''confidence'', JNum 1), (''content'', JStr payload),
        (''content_hash'', JStr payload_hash)]]),
      (''assembled_payload'', JStr payload), (''assembled_payload_hash'', JStr payload_hash),
      (''token_estimate'', JInt (int (length payload div 4))), (''created_at'', JStr now)]"

definition strip_event :: "string \<Rightarrow> string \<Rightarrow> string \<Rightarrow> span \<Rightarrow> stamp \<Rightarrow> event" where
  "strip_event cid job_id field_id sn sp =
    event_context_strip_detail sp cid job_id field_id ''user_input'' (int (sn_start sn)) (int (sn_end sn)) (sn_class sn)
      (if sn_action sn = ''strip'' then ''stripped'' else ''generalized'')
      (''Matched '' @ sn_class sn @ '' pattern: '' @ sn_source sn)"

text \<open>\<open>ids\<close> are the package id and the field id; \<open>store_ok\<close> says whether the file can be written.\<close>

definition package_context ::
    "env \<Rightarrow> (string \<Rightarrow> string) \<Rightarrow> (json \<Rightarrow> string) \<Rightarrow> bool \<Rightarrow> sens_config \<Rightarrow> string \<times> string \<Rightarrow> string \<Rightarrow> package_request \<Rightarrow>
     'a packager_scheme \<Rightarrow> (py_exc + package) \<times> 'a packager_scheme" where
  "package_context E sha256 dumps store_ok C ids now q s =
    (case ids of (cid, field_id) \<Rightarrow>
      (case transform_text (pq_input q) (scan_text C (pq_input q)) of
         Inl x \<Rightarrow> (Inl x, s)
       | Inr (payload, marked) \<Rightarrow>
           (let h = sha256 payload; ob = context_object cid field_id now q payload h marked in
            if \<not> store_ok then (Inl OSError, s)
            else bind_r (emit E (\<lambda>sp. event_context_packaged sp cid (pq_job_id q)
                   (if marked = [] then [field_id] else []) (if marked \<noteq> [] then [field_id] else [])
                   (int (length payload div 4)) h (sha256 (dumps ob))))
                 (\<lambda>_. bind_r (map_r (\<lambda>sn. emit E (strip_event cid (pq_job_id q) field_id sn)) marked)
                 (\<lambda>_. return_r \<lparr>pk_id = cid, pk_payload = payload, pk_hash = h\<rparr>))
                 (s\<lparr>context_store := AList.update cid ob (context_store s)\<rparr>))))"

section \<open>What merging keeps\<close>

definition covers :: "span \<Rightarrow> nat \<Rightarrow> bool" where
  "covers sn i \<longleftrightarrow> sn_start sn \<le> i \<and> i < sn_end sn"

definition covered :: "span list \<Rightarrow> nat \<Rightarrow> bool" where
  "covered sns i \<longleftrightarrow> (\<exists>sn \<in> set sns. covers sn i)"

text \<open>Spans of matches: within the text and not empty.\<close>

definition spans_in :: "nat \<Rightarrow> span list \<Rightarrow> bool" where
  "spans_in n sns \<longleftrightarrow> (\<forall>sn \<in> set sns. sn_start sn < sn_end sn \<and> sn_end sn \<le> n)"

text \<open>In order and disjoint.\<close>

definition chain :: "span list \<Rightarrow> bool" where
  "chain sns \<longleftrightarrow> sorted_wrt (\<lambda>a b. sn_end a \<le> sn_start b) sns"

lemma absorb_simps [simp]:
  "sn_start (absorb prev sn) = sn_start prev" "sn_end (absorb prev sn) = max (sn_end prev) (sn_end sn)"
  "precedence (sn_action (absorb prev sn)) = min (precedence (sn_action prev)) (precedence (sn_action sn))"
  by (simp_all add: absorb_def Let_def)

lemma merge_covers:
  assumes "sorted (map sn_start (prev # sns))" and "sn \<in> set (prev # sns)" and "covers sn i"
  shows "\<exists>m \<in> set (merge_from prev sns). covers m i \<and> precedence (sn_action m) \<le> precedence (sn_action sn)"
  using assms
proof (induction prev sns arbitrary: sn rule: merge_from.induct)
  case (2 prev s sns)
  show ?case
  proof (cases "sn_start s < sn_end prev")
    case True
    have st: "sorted (map sn_start (absorb prev s # sns))" using 2 by simp
    show ?thesis
    proof (cases "sn \<in> set sns")
      case True
      then show ?thesis using 2(1) [OF \<open>_ < _\<close> st] \<open>sn_start s < sn_end prev\<close> 2(5) by auto
    next
      case False
      then have "sn = prev \<or> sn = s" using 2 by simp
      then have "covers (absorb prev s) i" "precedence (sn_action (absorb prev s)) \<le> precedence (sn_action sn)"
        using 2 by (auto simp: covers_def)
      moreover from this(1) obtain m where "m \<in> set (merge_from (absorb prev s) sns)" "covers m i"
          "precedence (sn_action m) \<le> precedence (sn_action (absorb prev s))"
        using 2(1) [OF True st] by (metis list.set_intros(1))
      ultimately show ?thesis using True by (auto intro: order_trans)
    qed
  next
    case False
    then show ?thesis using 2 by auto
  qed
qed auto

lemma merge_exact:
  assumes "sorted (map sn_start (prev # sns))" and "m \<in> set (merge_from prev sns)" and "covers m i"
  shows "covered (prev # sns) i"
  using assms
proof (induction prev sns rule: merge_from.induct)
  case (2 prev s sns)
  show ?case
  proof (cases "sn_start s < sn_end prev")
    case True
    then have "covered (absorb prev s # sns) i" using 2 by simp
    then show ?thesis using True by (auto simp: covered_def covers_def)
  next
    case False
    then show ?thesis using 2 by (auto simp: covered_def)
  qed
qed (auto simp: covered_def)

lemma merge_start: "sorted (map sn_start (prev # sns)) \<Longrightarrow> m \<in> set (merge_from prev sns) \<Longrightarrow> sn_start prev \<le> sn_start m"
proof (induction prev sns rule: merge_from.induct)
  case (2 prev s sns)
  show ?case
  proof (cases "sn_start s < sn_end prev")
    case True
    then show ?thesis using 2(1) [OF True] 2(3,4) by simp
  next
    case False
    then show ?thesis using 2(2) [OF False] 2(3,4) by auto
  qed
qed simp

lemma merge_chain:
  assumes "sorted (map sn_start (prev # sns))" and "spans_in n (prev # sns)"
  shows "chain (merge_from prev sns) \<and> spans_in n (merge_from prev sns)"
  using assms
proof (induction prev sns rule: merge_from.induct)
  case (2 prev s sns)
  show ?case
  proof (cases "sn_start s < sn_end prev")
    case True
    have st: "sorted (map sn_start (absorb prev s # sns))" using 2(3) by simp
    have si: "spans_in n (absorb prev s # sns)" using 2(4) by (auto simp: spans_in_def max_def)
    show ?thesis using 2(1) [OF True st si] True by simp
  next
    case False
    have st: "sorted (map sn_start (s # sns))" using 2(3) by simp
    have si: "spans_in n (s # sns)" using 2(4) by (simp add: spans_in_def)
    have "\<forall>m \<in> set (merge_from s sns). sn_end prev \<le> sn_start m"
      using merge_start [OF st] False by (meson le_trans not_less)
    moreover note 2(2) [OF False st si]
    moreover have "sn_start prev < sn_end prev \<and> sn_end prev \<le> n" using 2(4) by (simp add: spans_in_def)
    ultimately show ?thesis using False by (simp add: chain_def spans_in_def)
  qed
qed (simp_all add: chain_def)

lemma sorted_starts: "sorted (map sn_start (sort_key (\<lambda>sn. (sn_start sn, precedence (sn_action sn))) sns))"
proof -
  have "sorted (map (\<lambda>sn. (sn_start sn, precedence (sn_action sn))) (sort_key (\<lambda>sn. (sn_start sn, precedence (sn_action sn))) sns))"
    by simp
  then show ?thesis unfolding sorted_map by (rule sorted_wrt_mono_rel [rotated]) auto
qed

lemma merge_overlapping_spec:
  assumes "spans_in n sns"
  shows "chain (merge_overlapping sns)" "spans_in n (merge_overlapping sns)"
    "covered (merge_overlapping sns) i = covered sns i"
    "sn \<in> set sns \<Longrightarrow> covers sn i \<Longrightarrow>
      \<exists>m \<in> set (merge_overlapping sns). covers m i \<and> precedence (sn_action m) \<le> precedence (sn_action sn)"
proof -
  let ?s = "sort_key (\<lambda>sn. (sn_start sn, precedence (sn_action sn))) sns"
  have set: "set ?s = set sns" by simp
  have all: "chain (merge_overlapping sns) \<and> spans_in n (merge_overlapping sns) \<and>
      covered (merge_overlapping sns) i = covered sns i \<and>
      (sn \<in> set sns \<longrightarrow> covers sn i \<longrightarrow>
        (\<exists>m \<in> set (merge_overlapping sns). covers m i \<and> precedence (sn_action m) \<le> precedence (sn_action sn)))"
  proof (cases ?s)
    case Nil
    then have "sns = []" using set by simp
    then show ?thesis using Nil by (simp add: merge_overlapping_def chain_def spans_in_def)
  next
    case (Cons prev rest)
    have m: "merge_overlapping sns = merge_from prev rest" using Cons by (simp add: merge_overlapping_def)
    have st: "sorted (map sn_start (prev # rest))" using sorted_starts [of sns] Cons by simp
    have sets: "set (prev # rest) = set sns" using set Cons by simp
    then have si: "spans_in n (prev # rest)" using assms unfolding spans_in_def by simp
    have c: "covered (prev # rest) i = covered sns i" using sets by (simp add: covered_def)
    show ?thesis
      unfolding m
    proof (intro conjI impI)
      show "chain (merge_from prev rest)" "spans_in n (merge_from prev rest)" using merge_chain [OF st si] by simp_all
      show "covered (merge_from prev rest) i = covered sns i"
        using merge_covers [OF st, unfolded sets] merge_exact [OF st, of _ i] c unfolding covered_def by meson
      show "\<exists>m \<in> set (merge_from prev rest). covers m i \<and> precedence (sn_action m) \<le> precedence (sn_action sn)"
        if "sn \<in> set sns" "covers sn i"
        using merge_covers [OF st, unfolded sets] that by blast
    qed
  qed
  show "chain (merge_overlapping sns)" "spans_in n (merge_overlapping sns)" "covered (merge_overlapping sns) i = covered sns i"
    "sn \<in> set sns \<Longrightarrow> covers sn i \<Longrightarrow>
      \<exists>m \<in> set (merge_overlapping sns). covers m i \<and> precedence (sn_action m) \<le> precedence (sn_action sn)"
    using all by blast+
qed

section \<open>The text that goes out\<close>

text \<open>
  Position by position: a character outside the spans is kept, one inside is left out, and a replacement
  stands where its span begins.
\<close>

definition replacements :: "span list \<Rightarrow> nat \<Rightarrow> string" where
  "replacements sns i = concat (map (\<lambda>sn. projr (apply_transform sn)) (filter (\<lambda>sn. sn_start sn = i) sns))"

definition rendered_at :: "string \<Rightarrow> span list \<Rightarrow> nat \<Rightarrow> string" where
  "rendered_at s sns i = replacements sns i @ (if covered sns i then [] else [s ! i])"

definition rendered :: "string \<Rightarrow> span list \<Rightarrow> string" where
  "rendered s sns = concat (map (rendered_at s sns) [0..<length s])"

lemma replacements_Cons:
  "replacements (sn # sns) i = (if sn_start sn = i then projr (apply_transform sn) else []) @ replacements sns i"
  by (simp add: replacements_def)

lemma covered_Cons: "covered (sn # sns) i \<longleftrightarrow> covers sn i \<or> covered sns i"
  by (simp add: covered_def)

lemma slice_nth: "j \<le> length s \<Longrightarrow> i \<le> j \<Longrightarrow> slice i j s = map (\<lambda>k. s ! k) [i..<j]"
  by (auto simp: slice_def intro!: nth_equalityI)

lemma split_upt: "i \<le> j \<Longrightarrow> j \<le> k \<Longrightarrow> [i..<k] = [i..<j] @ [j..<k]"
  by (metis le_add_diff_inverse upt_add_eq_append)

lemma concat_single: "(\<And>k. k \<in> set xs \<Longrightarrow> f k = [g k]) \<Longrightarrow> concat (map f xs) = map g xs"
  by (induction xs) simp_all

lemma concat_empty: "(\<And>k. k \<in> set xs \<Longrightarrow> f k = []) \<Longrightarrow> concat (map f xs) = []"
  by (induction xs) simp_all

lemma assemble_rendered:
  assumes "assemble s l sns = Inr out" and "chain sns" and "spans_in (length s) sns" and "\<And>sn. sn \<in> set sns \<Longrightarrow> l \<le> sn_start sn"
    and "l \<le> length s"
  shows "out = concat (map (rendered_at s sns) [l..<length s])"
  using assms
proof (induction sns arbitrary: l out)
  case Nil
  have "drop l s = map (\<lambda>k. s ! k) [l..<length s]" using slice_nth [of "length s" s l] Nil.prems(5) by (simp add: slice_def)
  then show ?case
    using Nil by (subst concat_single [where g = "\<lambda>k. s ! k"]) (simp_all add: rendered_at_def replacements_def covered_def)
next
  case (Cons sn sns)
  obtain r where r: "apply_transform sn = Inr r" using Cons.prems(1) by (cases "apply_transform sn") auto
  obtain rest where rest: "assemble s (sn_end sn) sns = Inr rest" and out: "out = slice l (sn_start sn) s @ r @ rest"
    using Cons.prems(1) r by (cases "assemble s (sn_end sn) sns") auto
  have b: "l \<le> sn_start sn" "sn_start sn < sn_end sn" "sn_end sn \<le> length s" and later: "\<And>m. m \<in> set sns \<Longrightarrow> sn_end sn \<le> sn_start m"
    using Cons.prems(2-4) by (auto simp: spans_in_def chain_def)
  have IH: "rest = concat (map (rendered_at s sns) [sn_end sn..<length s])"
    by (rule Cons.IH [OF rest]) (use Cons.prems(2,3) b later in \<open>auto simp: chain_def spans_in_def\<close>)
  have none: "replacements sns i = []" "\<not> covered sns i" if "i < sn_end sn" for i
    using later that by (fastforce simp: replacements_def covered_def covers_def filter_empty_conv)+
  have before: "concat (map (rendered_at s (sn # sns)) [l..<sn_start sn]) = slice l (sn_start sn) s"
    using b by (subst slice_nth, simp, simp, intro concat_single)
      (simp add: rendered_at_def replacements_Cons covered_Cons none, simp add: covers_def)
  have at: "rendered_at s (sn # sns) (sn_start sn) = r"
    using b r by (simp add: rendered_at_def replacements_Cons covered_Cons none covers_def)
  have inside: "concat (map (rendered_at s (sn # sns)) [Suc (sn_start sn)..<sn_end sn]) = []"
    using b by (intro concat_empty) (simp add: rendered_at_def replacements_Cons covered_Cons none covers_def)
  have behind: "map (rendered_at s (sn # sns)) [sn_end sn..<length s] = map (rendered_at s sns) [sn_end sn..<length s]"
    using b by (auto simp: rendered_at_def replacements_Cons covered_Cons covers_def)
  have "[l..<length s] = [l..<sn_start sn] @ sn_start sn # [Suc (sn_start sn)..<sn_end sn] @ [sn_end sn..<length s]"
    using b split_upt [of l "sn_start sn" "length s"] split_upt [of "sn_start sn" "sn_end sn" "length s"]
    by (simp add: upt_conv_Cons)
  then show ?case
    unfolding out IH by (simp only: map_append concat_append list.map concat.simps before at inside behind append_Nil append_assoc)
qed

lemma transform_text_spec:
  assumes "transform_text s sns = Inr (out, marked)" and "spans_in (length s) sns"
  shows "marked = merge_overlapping sns" "out = rendered s marked"
proof -
  have "merge_overlapping [] = []" by (simp add: merge_overlapping_def)
  then show a: "marked = merge_overlapping sns"
    using assms(1) by (cases "assemble s 0 (merge_overlapping sns)") (auto simp: transform_text_def Let_def split: if_splits)
  show "out = rendered s marked"
  proof (cases "sns = []")
    case True
    then have "out = s" "marked = []" using assms(1) by (simp_all add: transform_text_def)
    then show ?thesis
      unfolding rendered_def by (subst concat_single [where g = "\<lambda>k. s ! k"])
        (simp_all add: rendered_at_def replacements_def covered_def map_nth)
  next
    case False
    then have "assemble s 0 marked = Inr out"
      using assms(1) a by (cases "assemble s 0 (merge_overlapping sns)") (auto simp: transform_text_def Let_def)
    from assemble_rendered [OF this] show ?thesis
      using merge_overlapping_spec(1,2) [OF assms(2)] a by (simp add: rendered_def)
  qed
qed

section \<open>What a package promises\<close>

definition patterns_in :: "sens_config \<Rightarrow> string \<Rightarrow> bool" where
  "patterns_in C s \<longleftrightarrow> (\<forall>p \<in> set (patterns C). \<forall>(i, j) \<in> set (sp_finditer p s). i < j \<and> j \<le> length s)"

lemma scan_spans_in: "patterns_in C s \<Longrightarrow> spans_in (length s) (scan_text C s)"
  by (fastforce simp: patterns_in_def spans_in_def scan_text_def pattern_spans_def Let_def)

lemma strip_precedence: "precedence a \<le> precedence ''strip'' \<longleftrightarrow> a = ''strip''"
  by (simp add: precedence_def ACTION_PRECEDENCE_def)

definition packaged_event ::
    "(string \<Rightarrow> string) \<Rightarrow> (json \<Rightarrow> string) \<Rightarrow> string \<Rightarrow> string \<Rightarrow> string \<Rightarrow> package_request \<Rightarrow> string \<Rightarrow> span list \<Rightarrow> stamp \<Rightarrow> event" where
  "packaged_event sha256 dumps cid field_id now q payload marked sp =
    event_context_packaged sp cid (pq_job_id q) (if marked = [] then [field_id] else []) (if marked \<noteq> [] then [field_id] else [])
      (int (length payload div 4)) (sha256 payload)
      (sha256 (dumps (context_object cid field_id now q payload (sha256 payload) marked)))"

lemma package_context_Inr:
  assumes "package_context E sha256 dumps store_ok C (cid, field_id) now q s = (Inr pk, s')"
  obtains payload marked where "transform_text (pq_input q) (scan_text C (pq_input q)) = Inr (payload, marked)"
    "pk = \<lparr>pk_id = cid, pk_payload = payload, pk_hash = sha256 payload\<rparr>"
    "s' = s\<lparr>context_store := AList.update cid (context_object cid field_id now q payload (sha256 payload) marked) (context_store s),
      alog := recorded (packaged_event sha256 dumps cid field_id now q payload marked #
        map (strip_event cid (pq_job_id q) field_id) marked) E s\<rparr>"
proof -
  obtain payload marked where t: "transform_text (pq_input q) (scan_text C (pq_input q)) = Inr (payload, marked)" and store_ok
    using assms by (auto simp: package_context_def Let_def split: sum.splits if_splits)
  let ?s = "s\<lparr>context_store := AList.update cid (context_object cid field_id now q payload (sha256 payload) marked) (context_store s)\<rparr>"
  from assms t \<open>store_ok\<close>
  have "bind_r (emit E (packaged_event sha256 dumps cid field_id now q payload marked))
      (\<lambda>_. bind_r (map_r (\<lambda>sn. emit E (strip_event cid (pq_job_id q) field_id sn)) marked)
        (\<lambda>_. return_r \<lparr>pk_id = cid, pk_payload = payload, pk_hash = sha256 payload\<rparr>)) ?s = (Inr pk, s')"
    by (simp add: package_context_def Let_def packaged_event_def [abs_def])
  then obtain v u ws where 1: "emit E (packaged_event sha256 dumps cid field_id now q payload marked) ?s = (Inr v, u)"
    and 2: "map_r (\<lambda>sn. emit E (strip_event cid (pq_job_id q) field_id sn)) marked u = (Inr ws, s')"
    and pk: "pk = \<lparr>pk_id = cid, pk_payload = payload, pk_hash = sha256 payload\<rparr>"
    by (auto elim!: bind_r_cases)
  from map_r_emit [OF 2] emit_recorded [OF 1] show thesis
    using that [OF t pk] by (simp add: recorded_def)
qed

text \<open>
  C12: No sensitive text goes out. When a package is returned, its payload is the input rendered with some
  marked spans: every character outside them is kept, in order, every one inside is dropped, and each
  span's replacement stands in its place. The marked positions are exactly those a pattern matched outside
  its allowlist, each in a span at least as restrictive as that pattern demands; a text matched by a
  \<open>strip\<close> pattern lies in a span that is replaced by its redaction mark.
\<close>

theorem package_redacts:
  assumes "patterns_in C (pq_input q)"
    and "package_context E sha256 dumps store_ok C (cid, field_id) now q s = (Inr pk, s')"
  shows "\<exists>marked. pk_payload pk = rendered (pq_input q) marked \<and>
    (\<forall>i. covered marked i \<longleftrightarrow> covered (scan_text C (pq_input q)) i) \<and>
    (\<forall>sn \<in> set (scan_text C (pq_input q)). \<forall>i. covers sn i \<longrightarrow>
      (\<exists>m \<in> set marked. covers m i \<and> precedence (sn_action m) \<le> precedence (sn_action sn) \<and>
        (sn_action sn = ''strip'' \<longrightarrow> apply_transform m = Inr (redacted m))))"
proof (rule package_context_Inr [OF assms(2)])
  fix payload marked
  assume t: "transform_text (pq_input q) (scan_text C (pq_input q)) = Inr (payload, marked)"
    and pk: "pk = \<lparr>pk_id = cid, pk_payload = payload, pk_hash = sha256 payload\<rparr>"
  note spans = scan_spans_in [OF assms(1)]
  note m = transform_text_spec [OF t spans]
  have "pk_payload pk = rendered (pq_input q) marked" using m(2) pk by simp
  moreover have "\<forall>i. covered marked i \<longleftrightarrow> covered (scan_text C (pq_input q)) i"
    using merge_overlapping_spec(3) [OF spans] m(1) by simp
  moreover have "\<exists>mm \<in> set marked. covers mm i \<and> precedence (sn_action mm) \<le> precedence (sn_action sn) \<and>
      (sn_action sn = ''strip'' \<longrightarrow> apply_transform mm = Inr (redacted mm))"
    if sn: "sn \<in> set (scan_text C (pq_input q))" "covers sn i" for sn i
  proof -
    obtain mm where mm: "mm \<in> set marked" "covers mm i" "precedence (sn_action mm) \<le> precedence (sn_action sn)"
      using merge_overlapping_spec(4) [OF spans sn] m(1) by blast
    then have "sn_action sn = ''strip'' \<longrightarrow> sn_action mm = ''strip''" using strip_precedence by metis
    then have "sn_action sn = ''strip'' \<longrightarrow> apply_transform mm = Inr (redacted mm)" by (simp add: apply_transform_def)
    with mm show ?thesis by blast
  qed
  ultimately show ?thesis by blast
qed

text \<open>A concrete run: two overlapping matches, one to strip and one to generalize.\<close>

definition sample_sensitivity :: sens_config where
  "sample_sensitivity = load_sensitivity
    (\<lambda>p. if p = ''zip'' then Some (\<lambda>_. [(3, 8)]) else if p = ''id'' then Some (\<lambda>_. [(6, 11)]) else None) None
    [\<lparr>cd_class = ''location'', cd_action = ''generalize'', cd_hardcoded = False, cd_allowlist = [], cd_patterns = [''zip'', ''('']\<rparr>,
     \<lparr>cd_class = ''financial'', cd_action = ''strip'', cd_hardcoded = True, cd_allowlist = [], cd_patterns = [''id'']\<rparr>]"

definition sample_package_request :: package_request where
  "sample_package_request = \<lparr>pq_job_id = ''j'', pq_input = ''at 31543-6789 go'', pq_model = ''m'', pq_route = ''r'',
     pq_capability = ''c'', pq_wal = 0\<rparr>"

definition sample_packaged :: "(py_exc + package) \<times> packager" where
  "sample_packaged = package_context good_env id (\<lambda>_. []) True sample_sensitivity (''p'', ''f'') ''t'' sample_package_request
     \<lparr>alog = [], caps = [], wk_contexts = [], wk_started = [], wk_windows = [], context_store = []\<rparr>"

theorem package_redacts_witness:
  "\<exists>pk marked. fst sample_packaged = Inr pk \<and> pk_payload pk = ''at [REDACTED:financial]89 go'' \<and>
    pk_payload pk = rendered ''at 31543-6789 go'' marked"
proof -
  have run: "map_sum id pk_payload (fst sample_packaged) = Inr ''at [REDACTED:financial]89 go''" by code_simp
  obtain pk s' where p: "sample_packaged = (Inr pk, s')"
    using run by (metis isl_map_sum isl_def sum.disc(2) sum.collapse(2) prod.collapse)
  have "patterns_in sample_sensitivity (pq_input sample_package_request)"
    by (simp add: patterns_in_def sample_sensitivity_def load_sensitivity_def class_patterns_def sample_package_request_def)
  from package_redacts [OF this p [unfolded sample_packaged_def]]
  obtain marked where "pk_payload pk = rendered ''at 31543-6789 go'' marked" by (auto simp: sample_package_request_def)
  moreover have "pk_payload pk = ''at [REDACTED:financial]89 go''" using run unfolding p by simp
  ultimately show ?thesis unfolding p by auto
qed

end
