(* ===== verification/Coroutine.thy ===== *)
theory Coroutine
  imports Effects
begin

text \<open>
  Asynchronous handlers. The orchestrator runs its handlers as tasks of one event loop: between two
  awaits a task runs alone, at an await the others may run. A handler is a \<open>co\<close>: it reads the state
  (\<open>Get\<close>), writes it (\<open>Put\<close>), awaits a durable emission (\<open>Emit\<close>, whose outcome the rest receives) or
  awaits something else (\<open>Wait\<close>, enabled when its condition holds: a lock, a queue, a poll, or, with
  \<open>\<lambda>_. True\<close>, another coroutine whose answer is an argument of the model). \<open>run\<close> executes one handler
  alone; \<open>resume\<close> and \<open>reachable\<close> interleave several in any order.
\<close>

section \<open>Handlers\<close>

datatype ('s, 'a) co =
    Ret 'a
  | Exc py_exc
  | Get "'s \<Rightarrow> ('s, 'a) co"
  | Put 's "('s, 'a) co"
  | Emit "stamp \<Rightarrow> event" "py_exc + event \<Rightarrow> ('s, 'a) co"
  | Wait "'s \<Rightarrow> bool" "('s, 'a) co"

primrec co_bind :: "('s, 'a) co \<Rightarrow> ('a \<Rightarrow> ('s, 'b) co) \<Rightarrow> ('s, 'b) co" where
  "co_bind (Ret a) f = f a"
| "co_bind (Exc x) f = Exc x"
| "co_bind (Get k) f = Get (\<lambda>s. co_bind (k s) f)"
| "co_bind (Put s c) f = Put s (co_bind c f)"
| "co_bind (Emit b k) f = Emit b (\<lambda>r. co_bind (k r) f)"
| "co_bind (Wait p c) f = Wait p (co_bind c f)"

text \<open>\<open>try: c except Exception as x: h x\<close>.\<close>

primrec co_catch :: "('s, 'a) co \<Rightarrow> (py_exc \<Rightarrow> ('s, 'a) co) \<Rightarrow> ('s, 'a) co" where
  "co_catch (Ret a) h = Ret a"
| "co_catch (Exc x) h = h x"
| "co_catch (Get k) h = Get (\<lambda>s. co_catch (k s) h)"
| "co_catch (Put s c) h = Put s (co_catch c h)"
| "co_catch (Emit b k) h = Emit b (\<lambda>r. co_catch (k r) h)"
| "co_catch (Wait p c) h = Wait p (co_catch c h)"

definition co_seq :: "('s, unit) co \<Rightarrow> ('s, 'b) co \<Rightarrow> ('s, 'b) co" where
  "co_seq c d = co_bind c (\<lambda>_. d)"

definition modify :: "('s \<Rightarrow> 's) \<Rightarrow> ('s, unit) co" where
  "modify f = Get (\<lambda>s. Put (f s) (Ret ()))"

definition pause :: "('s, unit) co" where
  "pause = Wait (\<lambda>_. True) (Ret ())"

text \<open>\<open>await emit_durable(event)\<close>, with the event as its value.\<close>

definition emit_c :: "(stamp \<Rightarrow> event) \<Rightarrow> ('s, event) co" where
  "emit_c b = Emit b (\<lambda>r. case r of Inl x \<Rightarrow> Exc x | Inr ev \<Rightarrow> Ret ev)"

text \<open>\<open>await emit_best_effort(event)\<close>, which swallows its failures.\<close>

definition emit_quiet :: "(stamp \<Rightarrow> event) \<Rightarrow> ('s, unit) co" where
  "emit_quiet b = Emit b (\<lambda>r. Ret ())"

section \<open>One handler alone\<close>

text \<open>\<open>None\<close> when the handler waits for something that never comes.\<close>

primrec run :: "env \<Rightarrow> ('x audit_scheme, 'a) co \<Rightarrow> 'x audit_scheme \<Rightarrow> ((py_exc + 'a) \<times> 'x audit_scheme) option" where
  "run E (Ret a) s = Some (Inr a, s)"
| "run E (Exc x) s = Some (Inl x, s)"
| "run E (Get k) s = run E (k s) s"
| "run E (Put t c) s = run E c t"
| "run E (Emit b k) s = run E (k (fst (emit E b s))) (snd (emit E b s))"
| "run E (Wait p c) s = (if p s then run E c s else None)"

lemma run_bind:
  "run E (co_bind c f) s =
    (case run E c s of
       None \<Rightarrow> None
     | Some (Inl x, t) \<Rightarrow> Some (Inl x, t)
     | Some (Inr v, t) \<Rightarrow> run E (f v) t)"
  by (induction c arbitrary: s) auto

lemma run_catch:
  "run E (co_catch c h) s =
    (case run E c s of
       None \<Rightarrow> None
     | Some (Inl x, t) \<Rightarrow> run E (h x) t
     | Some (Inr v, t) \<Rightarrow> Some (Inr v, t))"
  by (induction c arbitrary: s) auto

lemma run_modify [simp]: "run E (modify f) s = Some (Inr (), f s)"
  by (simp add: modify_def)

lemma run_pause [simp]: "run E pause s = Some (Inr (), s)"
  by (simp add: pause_def)

lemma run_emit_c: "run E (emit_c b) s = Some (emit E b s)"
  by (cases "emit E b s") (auto simp: emit_c_def split: sum.splits)

lemma run_emit_quiet: "run E (emit_quiet b) s = Some (Inr (), snd (emit E b s))"
  by (simp add: emit_quiet_def)

lemma run_seq:
  "run E (co_seq c d) s =
    (case run E c s of
       None \<Rightarrow> None
     | Some (Inl x, t) \<Rightarrow> Some (Inl x, t)
     | Some (Inr v, t) \<Rightarrow> run E d t)"
  by (simp add: co_seq_def run_bind)

section \<open>Interleaving\<close>

text \<open>A task runs to its next await; an emission that it awaits is a step of its own.\<close>

primrec advance :: "('s, 'a) co \<Rightarrow> 's \<Rightarrow> ('s, 'a) co \<times> 's" where
  "advance (Ret a) s = (Ret a, s)"
| "advance (Exc x) s = (Exc x, s)"
| "advance (Get k) s = advance (k s) s"
| "advance (Put t c) s = advance c t"
| "advance (Emit b k) s = (Emit b k, s)"
| "advance (Wait p c) s = (Wait p c, s)"

fun resume :: "env \<Rightarrow> ('x audit_scheme, 'a) co \<Rightarrow> 'x audit_scheme \<Rightarrow> ('x audit_scheme, 'a) co \<times> 'x audit_scheme" where
  "resume E (Emit b k) s = (k (fst (emit E b s)), snd (emit E b s))"
| "resume E (Wait p c) s = (if p s then advance c s else (Wait p c, s))"
| "resume E c s = advance c s"

text \<open>
  The tasks and the state reached from \<open>s0\<close>. The \<open>i\<close>-th task started is one of \<open>H i\<close>, and starts at any time.
\<close>

inductive reachable ::
    "env \<Rightarrow> (nat \<Rightarrow> ('x audit_scheme, 'a) co set) \<Rightarrow> 'x audit_scheme \<Rightarrow> ('x audit_scheme, 'a) co list \<Rightarrow> 'x audit_scheme \<Rightarrow> bool"
  for E H s0 where
  start: "reachable E H s0 [] s0"
| spawn: "reachable E H s0 cs s \<Longrightarrow> c \<in> H (length cs) \<Longrightarrow> reachable E H s0 (cs @ [c]) s"
| step: "reachable E H s0 cs s \<Longrightarrow> i < length cs \<Longrightarrow> resume E (cs ! i) s = (c', s')
    \<Longrightarrow> reachable E H s0 (cs[i := c']) s'"

section \<open>Rely and guarantee\<close>

text \<open>
  \<open>safe R G Q c s\<close>: run from \<open>s\<close>, with the other tasks changing the state only as the rely \<open>R\<close> allows while
  \<open>c\<close> awaits, every change that \<open>c\<close> makes is one that the guarantee \<open>G\<close> allows, and the value that it
  returns, or the exception it raises, satisfies \<open>Q\<close>.
\<close>

primrec safe :: "('x audit_scheme \<Rightarrow> 'x audit_scheme \<Rightarrow> bool) \<Rightarrow> ('x audit_scheme \<Rightarrow> 'x audit_scheme \<Rightarrow> bool)
    \<Rightarrow> (py_exc + 'a \<Rightarrow> 'x audit_scheme \<Rightarrow> bool) \<Rightarrow> ('x audit_scheme, 'a) co \<Rightarrow> 'x audit_scheme \<Rightarrow> bool" where
  "safe R G Q (Ret a) s \<longleftrightarrow> Q (Inr a) s"
| "safe R G Q (Exc x) s \<longleftrightarrow> Q (Inl x) s"
| "safe R G Q (Get k) s \<longleftrightarrow> safe R G Q (k s) s"
| "safe R G Q (Put t c) s \<longleftrightarrow> G s t \<and> safe R G Q c t"
| "safe R G Q (Emit b k) s \<longleftrightarrow>
    (\<forall>t sp. R s t \<longrightarrow>
      (let ev = b sp; t' = t\<lparr>alog := alog t @ [ev]\<rparr> in
       G t t' \<and> (\<forall>u. R t' u \<longrightarrow> safe R G Q (k (Inr ev)) u \<and> (\<forall>x. safe R G Q (k (Inl x)) u))))"
| "safe R G Q (Wait p c) s \<longleftrightarrow> (\<forall>t. R s t \<longrightarrow> p t \<longrightarrow> safe R G Q c t)"

text \<open>A task at an await: safe under what the others may do (its final value aside).\<close>

definition parked :: "('x audit_scheme \<Rightarrow> 'x audit_scheme \<Rightarrow> bool) \<Rightarrow> ('x audit_scheme \<Rightarrow> 'x audit_scheme \<Rightarrow> bool)
    \<Rightarrow> ('x audit_scheme, 'a) co \<Rightarrow> 'x audit_scheme \<Rightarrow> bool" where
  "parked R G c s \<longleftrightarrow> (\<forall>t. R s t \<longrightarrow> safe R G (\<lambda>_ _. True) c t)"

definition preorder_rel :: "('s \<Rightarrow> 's \<Rightarrow> bool) \<Rightarrow> bool" where
  "preorder_rel R \<longleftrightarrow> (\<forall>s. R s s) \<and> (\<forall>s t u. R s t \<longrightarrow> R t u \<longrightarrow> R s u)"

lemma preorder_refl: "preorder_rel R \<Longrightarrow> R s s"
  by (simp add: preorder_rel_def)

lemma preorder_trans: "preorder_rel R \<Longrightarrow> R s t \<Longrightarrow> R t u \<Longrightarrow> R s u"
  unfolding preorder_rel_def by blast

lemma safe_EmitD:
  assumes "safe R G Q (Emit b k) s" and "R s t"
  shows "G t (t\<lparr>alog := alog t @ [b sp]\<rparr>)"
    and "\<And>u. R (t\<lparr>alog := alog t @ [b sp]\<rparr>) u \<Longrightarrow> safe R G Q (k (Inr (b sp))) u"
    and "\<And>u x. R (t\<lparr>alog := alog t @ [b sp]\<rparr>) u \<Longrightarrow> safe R G Q (k (Inl x)) u"
  using assms unfolding safe.simps Let_def by blast+

lemma safe_EmitI:
  assumes "\<And>t sp. R s t \<Longrightarrow> G t (t\<lparr>alog := alog t @ [b sp]\<rparr>)"
    and "\<And>t sp u r. R s t \<Longrightarrow> R (t\<lparr>alog := alog t @ [b sp]\<rparr>) u \<Longrightarrow> r = Inr (b sp) \<or> (\<exists>x. r = Inl x) \<Longrightarrow> safe R G Q (k r) u"
  shows "safe R G Q (Emit b k) s"
  using assms unfolding safe.simps Let_def by blast

lemma safe_weaken: "safe R G Q c s \<Longrightarrow> (\<And>a t. Q a t \<Longrightarrow> Q' a t) \<Longrightarrow> safe R G Q' c s"
proof (induction c arbitrary: s)
  case (Emit b k)
  show ?case
  proof (rule safe_EmitI)
    fix t sp
    assume "R s t"
    then show "G t (t\<lparr>alog := alog t @ [b sp]\<rparr>)" using safe_EmitD(1) [OF Emit.prems(1)] by blast
    fix u and r :: "py_exc + event"
    assume "R (t\<lparr>alog := alog t @ [b sp]\<rparr>) u" "r = Inr (b sp) \<or> (\<exists>x. r = Inl x)"
    then have "safe R G Q (k r) u" using safe_EmitD(2,3) [OF Emit.prems(1) \<open>R s t\<close>] by blast
    then show "safe R G Q' (k r) u" using Emit.IH [OF rangeI] Emit.prems(2) by blast
  qed
qed auto

lemma advance_safe:
  assumes "safe R G Q c s" and R: "preorder_rel R" and G: "preorder_rel G"
  shows "G s (snd (advance c s)) \<and> parked R G (fst (advance c s)) (snd (advance c s))"
  using assms(1)
proof (induction c arbitrary: s)
  case (Ret a)
  then show ?case by (simp add: preorder_refl [OF G] parked_def)
next
  case (Put t c)
  then show ?case using preorder_trans [OF G, of s t] by simp
next
  case (Emit b k)
  have "safe R G Q (Emit b k) t" if "R s t" for t
    using Emit.prems preorder_trans [OF R that] unfolding safe.simps by blast
  then have "safe R G (\<lambda>_ _. True) (Emit b k) t" if "R s t" for t
    by (rule safe_weaken [OF _ TrueI]) (rule that)
  then show ?case using preorder_refl [OF G] by (simp add: parked_def del: safe.simps)
next
  case (Wait p c)
  have "safe R G Q (Wait p c) t" if "R s t" for t
    using Wait.prems preorder_trans [OF R that] unfolding safe.simps by blast
  then have "safe R G (\<lambda>_ _. True) (Wait p c) t" if "R s t" for t
    by (rule safe_weaken [OF _ TrueI]) (rule that)
  then show ?case using preorder_refl [OF G] by (simp add: parked_def del: safe.simps)
qed (simp_all add: preorder_refl [OF G] parked_def)

lemma resume_safe:
  assumes "parked R G c s" and R: "preorder_rel R" and G: "preorder_rel G" and "resume E c s = (c', s')"
  shows "G s s' \<and> parked R G c' s'"
proof -
  have s: "safe R G (\<lambda>_ _. True) c s" using assms(1) preorder_refl [OF R] by (simp add: parked_def)
  note adv = advance_safe [OF _ R G]
  show ?thesis
  proof (cases c)
    case (Emit b k)
    obtain r t where e: "emit E b s = (r, t)" by fastforce
    then obtain sp where t: "t = s\<lparr>alog := alog s @ [b sp]\<rparr>" "r = Inr (b sp) \<or> (\<exists>x. r = Inl x)"
      by (cases rule: emit_cases) auto
    have eq: "c' = k r" "s' = t" using assms(4) Emit e by auto
    note d = safe_EmitD [OF s [unfolded Emit] preorder_refl [OF R], of sp]
    have "parked R G (k r) t" unfolding parked_def using d(2,3) t by blast
    then show ?thesis using d(1) t(1) eq by simp
  next
    case (Wait p d)
    show ?thesis
    proof (cases "p s")
      case True
      then have "safe R G (\<lambda>_ _. True) d s" using s Wait preorder_refl [OF R] by auto
      then show ?thesis using adv [of _ d s] assms(4) Wait True by simp
    qed (use assms(1,4) Wait preorder_refl [OF G] in auto)
  next
    case (Get k)
    then show ?thesis using adv [OF s] assms(4) by simp
  next
    case (Put t d)
    then show ?thesis using adv [OF s] assms(4) by simp
  qed (use assms(1,4) preorder_refl [OF G] in \<open>auto simp: parked_def\<close>)
qed

text \<open>
  The rule of parallel composition: when the guarantee of every task is within the rely of every other,
  then whatever the number of tasks and the schedule, all changes are guaranteed ones; \<open>T\<close> is what they
  have in common.
\<close>

lemma reachable_guarantee:
  assumes "reachable E H s0 cs s"
    and H: "\<And>i c t. c \<in> H i \<Longrightarrow> T s0 t \<Longrightarrow> safe (R i) (G i) (\<lambda>_ _. True) c t"
    and pre: "\<And>i. preorder_rel (R i)" "\<And>i. preorder_rel (G i)" "preorder_rel T"
    and comp: "\<And>i j s t. i \<noteq> j \<Longrightarrow> G i s t \<Longrightarrow> R j s t"
    and T: "\<And>i s t. G i s t \<Longrightarrow> T s t" "\<And>i s t. R i s t \<Longrightarrow> T s t"
  shows "T s0 s \<and> (\<forall>i < length cs. parked (R i) (G i) (cs ! i) s)"
  using assms(1)
proof (induction rule: reachable.induct)
  case start
  then show ?case using preorder_refl [OF pre(3)] by simp
next
  case (spawn cs s c)
  have "T s0 t" if "R (length cs) s t" for t
    using T(2) [OF that] spawn.IH preorder_trans [OF pre(3)] by blast
  then have "parked (R (length cs)) (G (length cs)) c s"
    unfolding parked_def using H [OF spawn.hyps(2)] by blast
  then show ?case using spawn.IH by (auto simp: nth_append less_Suc_eq)
next
  case (step cs s i c' s')
  have "parked (R i) (G i) (cs ! i) s" using step.IH step.hyps(2) by blast
  note r = resume_safe [OF this pre(1) pre(2) step.hyps(3)]
  have "parked (R j) (G j) (cs ! j) s'" if "j < length cs" "j \<noteq> i" for j
  proof -
    have "R j s s'" using comp [of i j] r that by blast
    then show ?thesis
      using step.IH that preorder_trans [OF pre(1)] unfolding parked_def by blast
  qed
  moreover have "T s0 s'" using r T(1) step.IH preorder_trans [OF pre(3)] by blast
  ultimately show ?case using r step.hyps(2) by (auto simp: nth_list_update)
qed

lemma safe_bind:
  assumes "safe R G Q' c s" and "\<And>a t. Q' (Inr a) t \<Longrightarrow> safe R G Q (f a) t" and "\<And>x t. Q' (Inl x) t \<Longrightarrow> Q (Inl x) t"
  shows "safe R G Q (co_bind c f) s"
  using assms(1)
proof (induction c arbitrary: s)
  case (Emit b k)
  show ?case
    unfolding co_bind.simps
  proof (rule safe_EmitI)
    fix t sp
    assume "R s t"
    then show "G t (t\<lparr>alog := alog t @ [b sp]\<rparr>)" using safe_EmitD(1) [OF Emit.prems] by blast
    fix u and r :: "py_exc + event"
    assume "R (t\<lparr>alog := alog t @ [b sp]\<rparr>) u" "r = Inr (b sp) \<or> (\<exists>x. r = Inl x)"
    then have "safe R G Q' (k r) u" using safe_EmitD(2,3) [OF Emit.prems \<open>R s t\<close>] by blast
    then show "safe R G Q (co_bind (k r) f) u" using Emit.IH [OF rangeI] by blast
  qed
qed (use assms(2,3) in auto)

lemma safe_catch:
  assumes "safe R G Q' c s" and "\<And>x t. Q' (Inl x) t \<Longrightarrow> safe R G Q (h x) t" and "\<And>a t. Q' (Inr a) t \<Longrightarrow> Q (Inr a) t"
  shows "safe R G Q (co_catch c h) s"
  using assms(1)
proof (induction c arbitrary: s)
  case (Emit b k)
  show ?case
    unfolding co_catch.simps
  proof (rule safe_EmitI)
    fix t sp
    assume "R s t"
    then show "G t (t\<lparr>alog := alog t @ [b sp]\<rparr>)" using safe_EmitD(1) [OF Emit.prems] by blast
    fix u and r :: "py_exc + event"
    assume "R (t\<lparr>alog := alog t @ [b sp]\<rparr>) u" "r = Inr (b sp) \<or> (\<exists>x. r = Inl x)"
    then have "safe R G Q' (k r) u" using safe_EmitD(2,3) [OF Emit.prems \<open>R s t\<close>] by blast
    then show "safe R G Q (co_catch (k r) h) u" using Emit.IH [OF rangeI] by blast
  qed
qed (use assms(2,3) in auto)

end
