(* ===== verification/Job_State.thy ===== *)
theory Job_State
  imports Context_Packager Idempotency Coroutine
begin

text \<open>
  The state of the job manager (\<open>orchestrator/job_manager.py\<close>, \<open>orchestrator/models.py\<close>,
  \<open>orchestrator/override_types.py\<close>) and the steps its handlers share: reading and writing a job,
  persisting it, drawing an identifier or the time. A job object is the entry of the dict \<open>_jobs\<close>
  under its id; no entry is ever replaced by another object, so a handler that holds the object sees
  every later change. Timestamps are instants. \<open>uuid_of\<close> and \<open>clock\<close> give the \<open>n\<close>-th draw of the state's
  tick counter, and \<open>db_up\<close> whether the SQLite statement at that tick succeeds.
\<close>

section \<open>Jobs\<close>

datatype job_status =
    Submitted | Classified | Dispatched | Response_received | Delivered | Failed | Revoked
  | Proposal_ready | Closed_no_action

definition status_text :: "job_status \<Rightarrow> string" where
  "status_text x = (case x of
      Submitted \<Rightarrow> ''submitted'' | Classified \<Rightarrow> ''classified'' | Dispatched \<Rightarrow> ''dispatched''
    | Response_received \<Rightarrow> ''response_received'' | Delivered \<Rightarrow> ''delivered'' | Failed \<Rightarrow> ''failed''
    | Revoked \<Rightarrow> ''revoked'' | Proposal_ready \<Rightarrow> ''proposal_ready'' | Closed_no_action \<Rightarrow> ''closed_no_action'')"

record job =
  j_id :: string
  j_raw_input :: string
  j_modality :: string
  j_device :: string
  j_status :: job_status
  j_created_at :: instant
  j_classified_at :: "instant option"
  j_dispatched_at :: "instant option"
  j_response_at :: "instant option"
  j_delivered_at :: "instant option"
  j_category :: "string option"
  j_routing :: "string option"
  j_models :: "string list option"
  j_capability :: "string option"
  j_result :: "string option"
  j_result_id :: "string option"
  j_error :: "string option"
  j_parent :: "string option"
  j_revoked_at :: "instant option"
  j_override :: "string option"
  j_failing :: "string option"
  j_wal :: "int option"
  j_idem_key :: "string option"
  j_recovery_count :: nat
  j_proposal_id :: "string option"
  j_response_hash :: "string option"
  j_confidence :: "rat option"
  j_review :: "string option"
  j_client_source :: "string option"
  j_client_event :: "string option"
  j_client_time :: "string option"
  j_intent_hash :: "string option"

text \<open>A job with the defaults of the dataclass.\<close>

definition new_job :: "string \<Rightarrow> string \<Rightarrow> string \<Rightarrow> string \<Rightarrow> instant \<Rightarrow> job" where
  "new_job jid raw_input modality device created =
    \<lparr>j_id = jid, j_raw_input = raw_input, j_modality = modality, j_device = device, j_status = Submitted,
     j_created_at = created, j_classified_at = None, j_dispatched_at = None, j_response_at = None,
     j_delivered_at = None, j_category = None, j_routing = None, j_models = None, j_capability = None,
     j_result = None, j_result_id = None, j_error = None, j_parent = None, j_revoked_at = None,
     j_override = None, j_failing = None, j_wal = None, j_idem_key = None, j_recovery_count = 0,
     j_proposal_id = None, j_response_hash = None, j_confidence = None, j_review = None,
     j_client_source = None, j_client_event = None, j_client_time = None, j_intent_hash = None\<rparr>"

definition TERMINAL_STATES :: "job_status list" where
  "TERMINAL_STATES = [Delivered, Failed, Revoked]"

definition TERMINAL_REVIEW_DECISIONS :: "string list" where
  "TERMINAL_REVIEW_DECISIONS = [''approve'', ''edit'', ''reject'', ''decline_to_act'']"

definition CONDITIONAL_DEMOTION_TYPES :: "string list" where
  "CONDITIONAL_DEMOTION_TYPES = [''cancel'', ''redirect'']"

definition is_sentinel_failure :: "string option \<Rightarrow> bool" where
  "is_sentinel_failure c = (case c of None \<Rightarrow> False
     | Some x \<Rightarrow> x \<in> {''egress_config'', ''egress_connectivity'', ''worker_sandbox''})"

text \<open>\<open>job.review_decision in _TERMINAL_REVIEW_DECISIONS\<close>.\<close>

definition resolved :: "job \<Rightarrow> bool" where
  "resolved j \<longleftrightarrow> (case j_review j of None \<Rightarrow> False | Some d \<Rightarrow> d \<in> set TERMINAL_REVIEW_DECISIONS)"

section \<open>The state\<close>

definition EVENT_QUEUE_BOUND :: nat where
  "EVENT_QUEUE_BOUND = 256"

record jobs_state = packager +
  jobs :: "(string, job) dict"
  idem :: "job store"
  job_db :: bool
  queue :: "string list"
  held_locks :: "string list"
  results_dir :: "(string, string) dict"
  contexts :: "(string, worker_context) dict"
  ticks :: nat

record world =
  base :: env
  uuid_of :: "nat \<Rightarrow> string"
  clock :: "nat \<Rightarrow> instant"
  db_up :: "nat \<Rightarrow> bool"
  sha :: "string \<Rightarrow> string"
  nfc :: "string \<Rightarrow> string"

type_synonym 'a task = "(jobs_state, 'a) co"

definition draw :: "nat task" where
  "draw = Get (\<lambda>s. Put (s\<lparr>ticks := Suc (ticks s)\<rparr>) (Ret (ticks s)))"

definition uuid7 :: "world \<Rightarrow> string task" where
  "uuid7 W = co_bind draw (\<lambda>n. Ret (uuid_of W n))"

definition now :: "world \<Rightarrow> instant task" where
  "now W = co_bind draw (\<lambda>n. Ret (clock W n))"

text \<open>The attributes of the job object (the entry always exists when a handler uses it).\<close>

definition job_of :: "jobs_state \<Rightarrow> string \<Rightarrow> job" where
  "job_of s jid = (case map_of (jobs s) jid of Some j \<Rightarrow> j | None \<Rightarrow> new_job jid [] [] [] 0)"

definition with_job :: "string \<Rightarrow> (job \<Rightarrow> 'a task) \<Rightarrow> 'a task" where
  "with_job jid f = Get (\<lambda>s. f (job_of s jid))"

definition put_job :: "job \<Rightarrow> jobs_state \<Rightarrow> jobs_state" where
  "put_job j s = s\<lparr>jobs := AList.update (j_id j) j (jobs s)\<rparr>"

definition set_job :: "string \<Rightarrow> (job \<Rightarrow> job) \<Rightarrow> unit task" where
  "set_job jid f = modify (\<lambda>s. s\<lparr>jobs := dict_modify jid f (jobs s)\<rparr>)"

section \<open>Persistence\<close>

definition job_row_of :: "job \<Rightarrow> job job_row" where
  "job_row_of j = \<lparr>row_job_id = j_id j, row_status = status_text (j_status j), row_created_at = j_created_at j,
     row_idem = j_idem_key j, row_data = j\<rparr>"

text \<open>
  \<open>INSERT OR REPLACE\<close>: the rows that conflict on the primary key or on the UNIQUE column
  \<open>idempotency_key\<close> (where NULLs never conflict) go.
\<close>

definition insert_or_replace :: "job \<Rightarrow> job database \<Rightarrow> job database" where
  "insert_or_replace j D =
    D\<lparr>jobs_tab := filter (\<lambda>r. row_job_id r \<noteq> j_id j \<and> (j_idem_key j = None \<or> row_idem r \<noteq> j_idem_key j)) (jobs_tab D)
        @ [job_row_of j]\<rparr>"

definition persist_in :: "bool \<Rightarrow> string \<Rightarrow> jobs_state \<Rightarrow> jobs_state" where
  "persist_in up jid s =
    (if job_db s then s\<lparr>idem := db_exec up (insert_or_replace (job_of s jid)) (idem s)\<rparr> else s)"

definition persist_job :: "world \<Rightarrow> string \<Rightarrow> unit task" where
  "persist_job W jid = co_bind draw (\<lambda>n. modify (persist_in (db_up W n) jid))"

text \<open>\<open>_load_jobs_from_db\<close>: the jobs that are not delivered, failed or revoked come back to memory.\<close>

definition load_jobs_from_db :: "bool \<Rightarrow> jobs_state \<Rightarrow> jobs_state" where
  "load_jobs_from_db up s =
    (case db (idem s) of
       Some D \<Rightarrow>
         if job_db s \<and> up then
           s\<lparr>jobs := fold (\<lambda>r. AList.update (row_job_id r) (row_data r))
               (filter (\<lambda>r. row_status r \<notin> {''delivered'', ''failed'', ''revoked''}) (jobs_tab D)) (jobs s)\<rparr>
         else s
     | None \<Rightarrow> s)"

text \<open>A restart: new process memory on the same database file, if there is one.\<close>

definition restart :: "bool \<Rightarrow> jobs_state \<Rightarrow> jobs_state" where
  "restart up s =
    load_jobs_from_db up (s\<lparr>jobs := [], idem := new_store up (db (idem s)), job_db := (up \<and> db (idem s) \<noteq> None),
      queue := [], held_locks := [], contexts := []\<rparr>)"

definition load_job_by_id :: "bool \<Rightarrow> string \<Rightarrow> jobs_state \<Rightarrow> job option" where
  "load_job_by_id up jid s =
    (if job_db s \<and> up then
       (case db (idem s) of
          Some D \<Rightarrow> map_option row_data (List.find (\<lambda>r. row_job_id r = jid) (jobs_tab D))
        | None \<Rightarrow> None)
     else None)"

text \<open>\<open>self._jobs.get(id) or self._load_job_by_id(id)\<close>.\<close>

definition find_job :: "world \<Rightarrow> string \<Rightarrow> job option task" where
  "find_job W jid = co_bind draw (\<lambda>n. Get (\<lambda>s. Ret
     (case map_of (jobs s) jid of Some j \<Rightarrow> Some j | None \<Rightarrow> load_job_by_id (db_up W n) jid s)))"

definition write_result :: "string \<Rightarrow> string \<Rightarrow> unit task" where
  "write_result rid content = modify (\<lambda>s. s\<lparr>results_dir := AList.update rid content (results_dir s)\<rparr>)"

text \<open>\<open>put_nowait\<close>; \<open>False\<close> when the queue is full.\<close>

definition enqueue :: "string \<Rightarrow> bool task" where
  "enqueue jid = Get (\<lambda>s. if length (queue s) < EVENT_QUEUE_BOUND
     then Put (s\<lparr>queue := queue s @ [jid]\<rparr>) (Ret True) else Ret False)"

text \<open>A state operation of another component, without an await.\<close>

definition store_op :: "(job store \<Rightarrow> 'a \<times> job store) \<Rightarrow> 'a task" where
  "store_op f = Get (\<lambda>s. case f (idem s) of (v, S) \<Rightarrow> Put (s\<lparr>idem := S\<rparr>) (Ret v))"

section \<open>Running the shared steps\<close>

lemma run_draw [simp]: "run E draw s = Some (Inr (ticks s), s\<lparr>ticks := Suc (ticks s)\<rparr>)"
  by (simp add: draw_def)

lemma run_uuid7 [simp]: "run E (uuid7 W) s = Some (Inr (uuid_of W (ticks s)), s\<lparr>ticks := Suc (ticks s)\<rparr>)"
  by (simp add: uuid7_def run_bind)

lemma run_now [simp]: "run E (now W) s = Some (Inr (clock W (ticks s)), s\<lparr>ticks := Suc (ticks s)\<rparr>)"
  by (simp add: now_def run_bind)

lemma run_with_job [simp]: "run E (with_job jid f) s = run E (f (job_of s jid)) s"
  by (simp add: with_job_def)

lemma run_set_job [simp]: "run E (set_job jid f) s = Some (Inr (), s\<lparr>jobs := dict_modify jid f (jobs s)\<rparr>)"
  by (simp add: set_job_def)

lemma run_persist_job [simp]:
  "run E (persist_job W jid) s =
    Some (Inr (), persist_in (db_up W (ticks s)) jid (s\<lparr>ticks := Suc (ticks s)\<rparr>))"
  by (simp add: persist_job_def run_bind)

lemma run_write_result [simp]:
  "run E (write_result rid t) s = Some (Inr (), s\<lparr>results_dir := AList.update rid t (results_dir s)\<rparr>)"
  by (simp add: write_result_def)

lemma run_enqueue:
  "run E (enqueue jid) s =
    (if length (queue s) < EVENT_QUEUE_BOUND then Some (Inr True, s\<lparr>queue := queue s @ [jid]\<rparr>)
     else Some (Inr False, s))"
  by (simp add: enqueue_def)

lemma persist_in_fields [simp]:
  "jobs (persist_in up jid s) = jobs s" "alog (persist_in up jid s) = alog s" "queue (persist_in up jid s) = queue s"
  "caps (persist_in up jid s) = caps s" "ticks (persist_in up jid s) = ticks s"
  "held_locks (persist_in up jid s) = held_locks s" "contexts (persist_in up jid s) = contexts s"
  "results_dir (persist_in up jid s) = results_dir s" "job_db (persist_in up jid s) = job_db s"
  by (simp_all add: persist_in_def)

lemma job_of_ticks [simp]: "job_of (s\<lparr>ticks := n\<rparr>) jid = job_of s jid"
  by (simp add: job_of_def)

lemma job_of_persist [simp]: "job_of (persist_in up k s) jid = job_of s jid"
  by (simp add: job_of_def)

lemma job_of_other_fields [simp]:
  "job_of (s\<lparr>alog := l\<rparr>) jid = job_of s jid" "job_of (s\<lparr>queue := q\<rparr>) jid = job_of s jid"
  "job_of (s\<lparr>idem := S\<rparr>) jid = job_of s jid" "job_of (s\<lparr>held_locks := h\<rparr>) jid = job_of s jid"
  "job_of (s\<lparr>contexts := c\<rparr>) jid = job_of s jid" "job_of (s\<lparr>results_dir := r\<rparr>) jid = job_of s jid"
  "job_of (s\<lparr>caps := k\<rparr>) jid = job_of s jid"
  by (simp_all add: job_of_def)

lemma job_of_modify:
  "map_of (jobs s) jid = Some j \<Longrightarrow>
    job_of (s\<lparr>jobs := dict_modify k f (jobs s)\<rparr>) jid = (if k = jid then f j else j)"
  by (simp add: job_of_def map_of_dict_modify)

end
