(* ===== verification/Job_Submit.thy ===== *)
theory Job_Submit
  imports Job_State
begin

text \<open>
  Submission: \<open>submit_job\<close>, \<open>_create_job\<close>, \<open>_await_job_loadable\<close> and the per-source-event lock of
  \<open>orchestrator/job_manager.py\<close>. The bodies of the 409 and 503 answers are a function of the original
  job's id, which the exceptions \<open>IntentConflict\<close> and \<open>ConsistencyPending\<close> carry.
\<close>

section \<open>Operations\<close>

text \<open>The tail of \<open>_create_job\<close>: record the submission, store the job, queue it.\<close>

definition store_new_job ::
    "world \<Rightarrow> string \<Rightarrow> string \<Rightarrow> string \<Rightarrow> string \<Rightarrow> string \<Rightarrow> string option \<Rightarrow> string option \<Rightarrow> string option
      \<Rightarrow> string option \<Rightarrow> job task" where
  "store_new_job W jid key raw_input modality device client_source event_id client_time intent =
    co_bind (now W) (\<lambda>t.
    co_bind (emit_c (\<lambda>sp. event_job_submitted sp jid raw_input modality device client_source event_id
      client_time intent)) (\<lambda>ev.
    co_seq (modify (put_job ((new_job jid raw_input modality device t)
      \<lparr>j_idem_key := Some key, j_client_source := client_source, j_client_event := event_id,
       j_client_time := client_time, j_intent_hash := intent\<rparr>)))
    (co_seq (persist_job W jid)
    (co_bind (enqueue jid) (\<lambda>ok.
     if ok then with_job jid Ret
     else co_seq (set_job jid (\<lambda>j. j\<lparr>j_status := Failed, j_error := Some ''pipeline_queue_full''\<rparr>))
          (co_seq (persist_job W jid) (Exc QueueFull)))))))"

definition create_job ::
    "world \<Rightarrow> string \<Rightarrow> string \<Rightarrow> string \<Rightarrow> string \<Rightarrow> string \<Rightarrow> string option \<Rightarrow> string option \<Rightarrow> string option
      \<Rightarrow> string option \<Rightarrow> job task" where
  "create_job W jid key raw_input modality device client_source event_id client_time intent =
    co_bind draw (\<lambda>n.
    co_bind (store_op (check_and_store (db_up W n) (clock W n) key jid)) (\<lambda>(is_new, existing).
    Get (\<lambda>s. case (if is_new then None else map_of (jobs s) (the existing)) of
        Some j \<Rightarrow> Ret j
      | None \<Rightarrow> store_new_job W jid key raw_input modality device client_source event_id client_time intent)))"

fun await_job_loadable :: "world \<Rightarrow> nat \<Rightarrow> string \<Rightarrow> job option task" where
  "await_job_loadable W 0 jid = Ret None"
| "await_job_loadable W (Suc n) jid =
    co_seq pause (co_bind (find_job W jid) (\<lambda>found.
      case found of Some j \<Rightarrow> Ret (Some j) | None \<Rightarrow> await_job_loadable W n jid))"

definition release_lock :: "string \<Rightarrow> unit task" where
  "release_lock key = modify (\<lambda>s. s\<lparr>held_locks := remove1 key (held_locks s)\<rparr>)"

text \<open>\<open>async with self._source_event_lock(key)\<close>.\<close>

definition with_lock :: "string \<Rightarrow> 'a task \<Rightarrow> 'a task" where
  "with_lock key c =
    Wait (\<lambda>s. key \<notin> set (held_locks s))
      (co_seq (modify (\<lambda>s. s\<lparr>held_locks := key # held_locks s\<rparr>))
        (co_catch (co_bind c (\<lambda>v. co_seq (release_lock key) (Ret v))) (\<lambda>x. co_seq (release_lock key) (Exc x))))"

definition submit_source ::
    "world \<Rightarrow> string \<Rightarrow> string \<Rightarrow> string \<Rightarrow> string \<Rightarrow> string \<Rightarrow> string option \<Rightarrow> string \<Rightarrow> job task" where
  "submit_source W raw_input modality device client_source event_id client_time intent =
    co_bind (uuid7 W) (\<lambda>candidate.
    co_bind draw (\<lambda>n.
    co_bind (store_op (check_and_store_source_event (db_up W n) (clock W n) client_source event_id candidate intent)) (\<lambda>(status, r).
    if status = ''equivalent'' then
      co_bind (find_job W (sr_job_id r)) (\<lambda>found.
      co_bind (case found of Some j \<Rightarrow> Ret (Some j) | None \<Rightarrow> await_job_loadable W 5 (sr_job_id r)) (\<lambda>found.
      case found of
        Some j \<Rightarrow> Ret j
      | None \<Rightarrow>
          co_seq (emit_quiet (\<lambda>sp. event_source_event_divergence sp (sr_job_id r) client_source event_id))
            (Exc (ConsistencyPending (sr_job_id r)))))
    else if status = ''conflict'' then
      co_bind (emit_c (\<lambda>sp. event_source_event_conflict sp (sr_job_id r) client_source event_id (sr_hash r) intent))
        (\<lambda>ev. Exc (IntentConflict (sr_job_id r)))
    else
      co_bind (uuid7 W) (\<lambda>key.
      co_catch (create_job W candidate key raw_input modality device (Some client_source) (Some event_id) client_time (Some intent))
        (\<lambda>x. co_bind draw (\<lambda>n. Get (\<lambda>s.
           if map_of (jobs s) candidate = None \<and> load_job_by_id (db_up W n) candidate s = None
           then co_bind draw (\<lambda>m.
                co_seq (store_op (\<lambda>S. ((), release_source_event (db_up W m) client_source event_id candidate S))) (Exc x))
           else Exc x)))))))"

definition submit_job ::
    "world \<Rightarrow> string \<Rightarrow> string \<Rightarrow> string \<Rightarrow> string option \<Rightarrow> string option \<Rightarrow> string option \<Rightarrow> string option \<Rightarrow> job task" where
  "submit_job W raw_input modality device key client_source event_id client_time =
    (case (client_source, event_id) of
       (Some src, Some ev) \<Rightarrow>
         with_lock (source_event_key src ev)
           (submit_source W raw_input modality device src ev client_time
             (compute_intent_equivalence_hash (sha W) (nfc W) raw_input modality))
     | _ \<Rightarrow>
         co_bind (case key of None \<Rightarrow> uuid7 W | Some k \<Rightarrow> Ret k) (\<lambda>k.
         co_bind (uuid7 W) (\<lambda>jid.
         create_job W jid k raw_input modality device None None client_time None)))"

section \<open>Creation is fail-closed\<close>

lemma run_store_op: "run E (store_op f) s = Some (Inr (fst (f (idem s))), s\<lparr>idem := snd (f (idem s))\<rparr>)"
  by (simp add: store_op_def split: prod.splits)

lemma check_and_store_cases:
  obtains (known) r where "map_of (idem_records S) key = Some r"
      "check_and_store up t key jid S = ((False, Some (ir_job_id r)), S)"
  | (fresh) S' where "map_of (idem_records S) key = None" "check_and_store up t key jid S = ((True, None), S')"
      "map_option jobs_tab (db S') = map_option jobs_tab (db S)" "source_records S' = source_records S"
      "map_option source_tab (db S') = map_option source_tab (db S)"
proof (cases "map_of (idem_records S) key")
  case None
  then show thesis
    by (intro fresh [of "snd (check_and_store up t key jid S)"])
      (auto simp: check_and_store_def db_write_def db_exec_def Let_def split: option.splits)
next
  case (Some r)
  then show thesis by (intro known [of r]) (simp_all add: check_and_store_def)
qed

text \<open>What a creation did: it returned the job of a known key, or it recorded and queued a new one.\<close>

definition created :: "string \<Rightarrow> jobs_state \<Rightarrow> job \<Rightarrow> jobs_state \<Rightarrow> bool" where
  "created jid s j s' \<longleftrightarrow>
    map_of (jobs s') = (map_of (jobs s))(jid \<mapsto> j) \<and> j_id j = jid \<and> j_status j = Submitted \<and>
    queue s' = queue s @ [jid] \<and> length (queue s') \<le> EVENT_QUEUE_BOUND \<and>
    (\<exists>ev. alog s' = alog s @ [ev] \<and> event_str ev ''event_type'' = ''job.submitted'' \<and> event_str ev ''job_id'' = jid)"

lemma event_submitted_str:
  "event_str (event_job_submitted sp jid a b c d e f g) ''event_type'' = ''job.submitted''"
  "event_str (event_job_submitted sp jid a b c d e f g) ''job_id'' = jid"
  by (simp_all add: event_str_def event_job_submitted_def)

definition unchanged :: "jobs_state \<Rightarrow> jobs_state \<Rightarrow> bool" where
  "unchanged s s' \<longleftrightarrow> jobs s' = jobs s \<and> queue s' = queue s \<and>
    map_option jobs_tab (db (idem s')) = map_option jobs_tab (db (idem s))"

definition queue_full :: "string \<Rightarrow> jobs_state \<Rightarrow> jobs_state \<Rightarrow> bool" where
  "queue_full jid s s' \<longleftrightarrow>
    \<not> length (queue s) < EVENT_QUEUE_BOUND \<and> queue s' = queue s \<and>
    map_of (jobs s') = (map_of (jobs s))(jid \<mapsto> job_of s' jid) \<and> j_id (job_of s' jid) = jid \<and>
    j_status (job_of s' jid) = Failed \<and> j_error (job_of s' jid) = Some ''pipeline_queue_full''"

definition create_outcome :: "string \<Rightarrow> jobs_state \<Rightarrow> py_exc + job \<Rightarrow> jobs_state \<Rightarrow> bool" where
  "create_outcome jid s r s' \<longleftrightarrow>
    (case r of
       Inr j \<Rightarrow> (unchanged s s' \<and> alog s' = alog s \<and> (\<exists>k. map_of (jobs s) k = Some j)) \<or> created jid s j s'
     | Inl x \<Rightarrow> unchanged s s' \<or> (x = QueueFull \<and> queue_full jid s s'))"

lemma emit_split:
  "emit E f s = (case outcome_of E (length (alog s)) of
      Inl x \<Rightarrow> (Inl x, s\<lparr>alog := alog s @ [f (stamp_of E (length (alog s)))]\<rparr>)
    | Inr ok \<Rightarrow> (Inr (f (stamp_of E (length (alog s)))), s\<lparr>alog := alog s @ [f (stamp_of E (length (alog s)))]\<rparr>))"
  by (simp add: emit_def Let_def)

lemma unchanged_check:
  assumes "check_and_store up t key jid (idem s) = (v, S')"
  shows "unchanged s (s\<lparr>ticks := n, idem := S'\<rparr>)"
  using assms by (cases rule: check_and_store_cases [of "idem s" key up t jid]) (auto simp: unchanged_def)

lemma store_new_job_run:
  assumes "run E (store_new_job W jid key raw_input modality device cs ce ct ih) s = Some (r, s')"
  shows "(case r of Inr j \<Rightarrow> created jid s j s' | Inl x \<Rightarrow> unchanged s s' \<or> (x = QueueFull \<and> queue_full jid s s'))"
proof (cases "outcome_of E (length (alog s))")
  case (Inl x)
  then show ?thesis
    using assms by (auto simp: store_new_job_def run_bind run_emit_c emit_split unchanged_def)
next
  case (Inr ok)
  then show ?thesis
    using assms
    by (auto simp: store_new_job_def run_bind run_seq run_emit_c run_enqueue emit_split event_submitted_str
        created_def queue_full_def put_job_def new_job_def job_of_def map_of_dict_modify split: if_splits)
qed

lemma outcome_transfer:
  assumes "jobs t = jobs s" "queue t = queue s" "alog t = alog s"
    "map_option jobs_tab (db (idem t)) = map_option jobs_tab (db (idem s))"
  shows "created jid t j s' = created jid s j s'" "unchanged t s' = unchanged s s'" "queue_full jid t s' = queue_full jid s s'"
    "create_outcome jid t r s' = create_outcome jid s r s'"
  using assms by (auto simp: created_def unchanged_def queue_full_def create_outcome_def split: sum.splits)

lemma create_job_run:
  assumes "run E (create_job W jid key raw_input modality device cs ce ct ih) s = Some (r, s')"
  shows "create_outcome jid s r s'"
proof -
  obtain b ex S' where c: "check_and_store (db_up W (ticks s)) (clock W (ticks s)) key jid (idem s) = ((b, ex), S')"
    by (metis prod.exhaust)
  define s1 where "s1 = s\<lparr>ticks := Suc (ticks s), idem := S'\<rparr>"
  have u: "unchanged s s1" unfolding s1_def by (rule unchanged_check [OF c])
  have run: "run E (create_job W jid key raw_input modality device cs ce ct ih) s =
    run E (case (if b then None else map_of (jobs s) (the ex)) of
        Some j \<Rightarrow> Ret j
      | None \<Rightarrow> store_new_job W jid key raw_input modality device cs ce ct ih) s1"
    using c by (simp add: create_job_def run_bind run_store_op s1_def)
  show ?thesis
  proof (cases "if b then None else map_of (jobs s) (the ex)")
    case (Some j)
    then have "r = Inr j" "s' = s1" "\<exists>k. map_of (jobs s) k = Some j"
      using assms run by (auto split: if_splits)
    then show ?thesis using u by (simp add: create_outcome_def s1_def)
  next
    case None
    then have "run E (store_new_job W jid key raw_input modality device cs ce ct ih) s1 = Some (r, s')"
      using assms run by simp
    from store_new_job_run [OF this] have "create_outcome jid s1 r s'"
      by (auto simp: create_outcome_def split: sum.splits)
    then show ?thesis using u outcome_transfer(4) [of s1 s jid r s'] by (simp add: unchanged_def s1_def)
  qed
qed

text \<open>
  A submission without a source event is fail-closed. It returns either the job that its
  idempotency key already names, having changed and recorded nothing, or a new submitted job that is
  in memory, at the end of the queue (never more than 256 long) and preceded by its durable
  \<open>job.submitted\<close> record; when it raises, no job was stored and nothing queued, unless the queue was full,
  and then the job is stored as failed.
\<close>

lemma submit_fail_closed:
  assumes "run E (submit_job W raw_input modality device key None None client_time) s = Some (r, s')"
  shows "create_outcome (uuid_of W (case key of None \<Rightarrow> Suc (ticks s) | Some k \<Rightarrow> ticks s)) s r s'"
proof (cases key)
  case None
  let ?s = "s\<lparr>ticks := Suc (Suc (ticks s))\<rparr>"
  have "create_outcome (uuid_of W (Suc (ticks s))) ?s r s'"
    using assms None by (intro create_job_run) (simp add: submit_job_def run_bind)
  then show ?thesis using None outcome_transfer(4) [of ?s s] by simp
next
  case (Some k)
  let ?s = "s\<lparr>ticks := Suc (ticks s)\<rparr>"
  have "create_outcome (uuid_of W (ticks s)) ?s r s'"
    using assms Some by (intro create_job_run) (simp add: submit_job_def run_bind)
  then show ?thesis using Some outcome_transfer(4) [of ?s s] by simp
qed

section \<open>A source event runs once\<close>

definition source_owner :: "jobs_state \<Rightarrow> string \<Rightarrow> source_event_record option" where
  "source_owner s key =
    (case db (idem s) of Some D \<Rightarrow> map_of (source_tab D) key | None \<Rightarrow> map_of (source_records (idem s)) key)"

definition loadable :: "jobs_state \<Rightarrow> string \<Rightarrow> job option" where
  "loadable s jid = (case map_of (jobs s) jid of Some j \<Rightarrow> Some j | None \<Rightarrow> load_job_by_id True jid s)"

lemma source_owner_other [simp]:
  "source_owner (s\<lparr>ticks := n\<rparr>) key = source_owner s key"
  "source_owner (s\<lparr>held_locks := h\<rparr>) key = source_owner s key"
  "source_owner (s\<lparr>alog := l\<rparr>) key = source_owner s key"
  by (simp_all add: source_owner_def cong: option.case_cong)

lemma source_owner_same: "idem s' = idem s \<Longrightarrow> source_owner s' key = source_owner s key"
  by (simp add: source_owner_def cong: option.case_cong)

lemma loadable_ticks [simp]: "loadable (s\<lparr>ticks := n\<rparr>) jid = loadable s jid"
  by (simp add: loadable_def load_job_by_id_def cong: option.case_cong)

lemma run_find_job:
  "db_up W (ticks s) \<Longrightarrow> run E (find_job W jid) s = Some (Inr (loadable s jid), s\<lparr>ticks := Suc (ticks s)\<rparr>)"
  by (simp add: find_job_def run_bind loadable_def load_job_by_id_def split: option.splits)

lemma run_await_job_loadable:
  assumes "\<And>n. db_up W n" and "loadable s jid = None"
  shows "run E (await_job_loadable W n jid) s = Some (Inr None, s\<lparr>ticks := ticks s + n\<rparr>)"
  using assms(2)
  by (induction n arbitrary: s) (auto simp: run_seq run_bind run_find_job assms(1))

lemma run_with_lock:
  "run E (with_lock key c) s =
    (if key \<in> set (held_locks s) then None
     else case run E c (s\<lparr>held_locks := key # held_locks s\<rparr>) of
        None \<Rightarrow> None
      | Some (r, t) \<Rightarrow> Some (r, t\<lparr>held_locks := remove1 key (held_locks t)\<rparr>))"
  by (auto simp: with_lock_def run_seq run_catch run_bind release_lock_def split: option.splits sum.splits)

lemma owned_check:
  assumes "source_owner s (source_event_key src ev) = Some r"
  obtains S' where
    "check_and_store_source_event True t src ev jid h (idem s) =
      ((if sr_hash r = h then ''equivalent'' else ''conflict'', r), S')"
    "db S' = db (idem s)" "map_of (source_records S') (source_event_key src ev) = Some r"
proof (cases "db (idem s)")
  case None
  then show thesis
    using assms
    by (intro that [of "snd (check_and_store_source_event True t src ev jid h (idem s))"])
      (auto simp: source_owner_def check_and_store_source_event_def db_try_insert_source_event_def
        db_read_source_event_def Let_def)
next
  case (Some D)
  then show thesis
    using assms
    by (intro that [of "snd (check_and_store_source_event True t src ev jid h (idem s))"])
      (auto simp: source_owner_def check_and_store_source_event_def db_try_insert_source_event_def
        db_read_source_event_def Let_def)
qed

lemma event_conflict_str:
  "event_str (event_source_event_conflict sp jid a b c d) ''event_type'' = ''source_event.conflict''"
  by (simp add: event_str_def event_source_event_conflict_def)

definition replay_outcome ::
    "jobs_state \<Rightarrow> source_event_record \<Rightarrow> bool \<Rightarrow> py_exc + job \<Rightarrow> jobs_state \<Rightarrow> bool" where
  "replay_outcome s r same_intent res s' \<longleftrightarrow>
    (if same_intent then
       (case loadable s (sr_job_id r) of
          Some j \<Rightarrow> res = Inr j \<and> alog s' = alog s
        | None \<Rightarrow> res = Inl (ConsistencyPending (sr_job_id r)))
     else (\<exists>x. res = Inl x) \<and> event_str (last (alog s')) ''event_type'' = ''source_event.conflict'' \<and>
       length (alog s') = Suc (length (alog s)))"

lemma replay_outcome_same:
  assumes "\<And>jid. loadable s0 jid = loadable s jid" "alog s0 = alog s" "alog s' = alog t"
  shows "replay_outcome s r b res s' = replay_outcome s0 r b res t"
  using assms by (simp add: replay_outcome_def cong: option.case_cong)

lemma submit_source_owned:
  assumes run: "run E (submit_source W raw_input modality device src ev client_time h) s = Some (res, s')"
    and up: "\<And>n. db_up W n" and own: "source_owner s (source_event_key src ev) = Some r"
  shows "unchanged s s' \<and> source_owner s' (source_event_key src ev) = Some r \<and> held_locks s' = held_locks s \<and>
    replay_outcome s r (sr_hash r = h) res s'"
proof -
  obtain S' where c: "check_and_store_source_event True (clock W (Suc (ticks s))) src ev (uuid_of W (ticks s)) h (idem s) =
      ((if sr_hash r = h then ''equivalent'' else ''conflict'', r), S')" "db S' = db (idem s)"
      "map_of (source_records S') (source_event_key src ev) = Some r"
    using owned_check [OF own] by blast
  define s1 where "s1 = s\<lparr>ticks := Suc (Suc (ticks s)), idem := S'\<rparr>"
  have s1: "jobs s1 = jobs s" "queue s1 = queue s" "alog s1 = alog s" "db (idem s1) = db (idem s)"
    "held_locks s1 = held_locks s" "loadable s1 jid = loadable s jid" for jid
    using c(2) by (simp_all add: s1_def loadable_def load_job_by_id_def cong: option.case_cong)
  have o1: "source_owner s1 (source_event_key src ev) = Some r"
    using own c(2,3) by (simp add: source_owner_def s1_def split: option.splits)
  have start: "run E (submit_source W raw_input modality device src ev client_time h) s =
     run E (if sr_hash r = h then
        co_bind (find_job W (sr_job_id r)) (\<lambda>found.
        co_bind (case found of Some j \<Rightarrow> Ret (Some j) | None \<Rightarrow> await_job_loadable W 5 (sr_job_id r)) (\<lambda>found.
        case found of
          Some j \<Rightarrow> Ret j
        | None \<Rightarrow>
            co_seq (emit_quiet (\<lambda>sp. event_source_event_divergence sp (sr_job_id r) src ev))
              (Exc (ConsistencyPending (sr_job_id r)))))
      else co_bind (emit_c (\<lambda>sp. event_source_event_conflict sp (sr_job_id r) src ev (sr_hash r) h))
        (\<lambda>ev. Exc (IntentConflict (sr_job_id r)))) s1"
    using c(1) up by (simp add: submit_source_def run_bind run_store_op s1_def)
  show ?thesis
  proof (cases "sr_hash r = h")
    case True
    show ?thesis
    proof (cases "loadable s (sr_job_id r)")
      case (Some j)
      then have "res = Inr j" "s' = s1\<lparr>ticks := Suc (ticks s1)\<rparr>"
        using run start True up by (simp_all add: run_bind run_find_job s1)
      then show ?thesis using True Some s1 o1 by (simp add: unchanged_def replay_outcome_def)
    next
      case None
      have "res = Inl (ConsistencyPending (sr_job_id r))"
        "jobs s' = jobs s1" "queue s' = queue s1" "idem s' = idem s1" "held_locks s' = held_locks s1"
        using run start True up None
        by (auto simp: run_bind run_seq run_find_job run_await_job_loadable run_emit_quiet emit_split s1 split: sum.splits)
      then show ?thesis using True None s1 o1 by (simp add: unchanged_def replay_outcome_def source_owner_same [of s' s1])
    qed
  next
    case False
    have "(\<exists>x. res = Inl x) \<and> s' = s1\<lparr>alog := alog s1 @
        [event_source_event_conflict (stamp_of E (length (alog s1))) (sr_job_id r) src ev (sr_hash r) h]\<rparr>"
      using run start False by (auto simp: run_bind run_emit_c emit_split split: sum.splits)
    then show ?thesis
      using False s1 o1 by (auto simp: unchanged_def replay_outcome_def event_conflict_str)
  qed
qed


section \<open>Concrete runs\<close>

definition sample_world :: world where
  "sample_world = \<lparr>base = good_env, uuid_of = (\<lambda>n. CHR ''u'' # replicate n CHR ''x''), clock = int, db_up = (\<lambda>_. True),
     sha = id, nfc = id\<rparr>"

definition empty_db :: "job database" where
  "empty_db = \<lparr>jobs_tab = [], idem_tab = [], review_tab = [], source_tab = []\<rparr>"

definition empty_jobs :: "job database option \<Rightarrow> jobs_state" where
  "empty_jobs D =
    \<lparr>alog = [], caps = [], wk_contexts = [], wk_started = [], wk_windows = [], context_store = [], jobs = [],
     idem = \<lparr>idem_records = [], review_records = [], source_records = [], db = D\<rparr>,
     job_db = (D \<noteq> None), queue = [], held_locks = [], results_dir = [], contexts = [], ticks = 0\<rparr>"

lemma submit_fail_closed_witness:
  "\<exists>j s'. run good_env (submit_job sample_world ''hi'' ''text'' ''phone'' (Some ''k'') None None None) (empty_jobs (Some empty_db))
      = Some (Inr j, s') \<and> queue s' = [''u''] \<and> created ''u'' (empty_jobs (Some empty_db)) j s'"
proof -
  obtain r s' where r: "run good_env (submit_job sample_world ''hi'' ''text'' ''phone'' (Some ''k'') None None None)
      (empty_jobs (Some empty_db)) = Some (r, s')" "queue s' = [''u'']" "\<exists>j. r = Inr j"
    by (simp add: submit_job_def create_job_def store_new_job_def run_bind run_seq run_store_op run_emit_c run_enqueue
        empty_jobs_def empty_db_def sample_world_def check_and_store_def db_write_def db_exec_def Let_def
        EVENT_QUEUE_BOUND_def put_job_def persist_in_def)
  from submit_fail_closed [OF r(1)] have "create_outcome ''u'' (empty_jobs (Some empty_db)) r s'"
    by (simp add: sample_world_def empty_jobs_def)
  then show ?thesis using r by (auto simp: create_outcome_def unchanged_def empty_jobs_def)
qed

definition owned_state :: jobs_state where
  "owned_state = (empty_jobs (Some (empty_db\<lparr>source_tab :=
     [(''watch_app:e1'', \<lparr>sr_job_id = ''j0'', sr_hash = ''other'', sr_client_source = ''watch_app'', sr_event_id = ''e1'',
        sr_created_at = 0\<rparr>)]\<rparr>)))"


end
