(* ===== verification/Classifier.thy ===== *)
theory Classifier
  imports Idempotency
begin

text \<open>
  The local classifier: \<open>orchestrator/classifier.py\<close>. The model's reply is an argument (\<open>None\<close> when the
  HTTP call raised); \<open>loads\<close> is \<open>json.loads\<close> (\<open>None\<close> for \<open>JSONDecodeError\<close>) and \<open>float_of\<close> is \<open>float\<close> of a string
  (\<open>None\<close> for \<open>ValueError\<close>). The prompt text and the generation of the answer are not modelled.
\<close>

section \<open>Tables\<close>

definition VALID_CATEGORIES :: "string list" where
  "VALID_CATEGORIES = [''quick_lookup'', ''analysis'', ''creative'', ''code'', ''summarization'', ''conversation'']"

definition VALID_MODELS :: "string list" where
  "VALID_MODELS = [''claude'', ''chatgpt'', ''gemini'', ''local'']"

record model_entry =
  me_capability :: string
  me_model :: string
  me_route :: string

definition MODEL_MAP :: "(string, model_entry) dict" where
  "MODEL_MAP =
    [(''local'', \<lparr>me_capability = ''route.local'', me_model = ''llama3.1:8b'', me_route = ''ollama-llama3-local''\<rparr>),
     (''claude'', \<lparr>me_capability = ''route.cloud.claude'', me_model = ''claude-sonnet-4-20250514'',
        me_route = ''claude-sonnet-default''\<rparr>),
     (''chatgpt'', \<lparr>me_capability = ''route.cloud.openai'', me_model = ''gpt-4o'', me_route = ''openai-gpt4o-default''\<rparr>),
     (''gemini'', \<lparr>me_capability = ''route.cloud.gemini'', me_model = ''gemini-2.0-flash'',
        me_route = ''google-gemini-default''\<rparr>)]"

text \<open>The reverse lookups by capability id (the first entry in insertion order).\<close>

definition model_entry_for :: "string \<Rightarrow> model_entry option" where
  "model_entry_for cap = List.find (\<lambda>e. me_capability e = cap) (dict_vals MODEL_MAP)"

section \<open>Parsing the reply\<close>

record parsed =
  p_category :: string
  p_local_capable :: bool
  p_routing :: string
  p_model :: string
  p_confidence :: rat

definition FALLBACK :: parsed where
  "FALLBACK = \<lparr>p_category = ''analysis'', p_local_capable = False, p_routing = ''cloud'', p_model = ''claude'',
     p_confidence = 1 / 2\<rparr>"

record classification =
  c_category :: string
  c_local_capable :: bool
  c_routing :: string
  c_model :: string
  c_confidence :: rat
  c_capability :: string
  c_candidates :: "string list"
  c_route :: string

text \<open>\<open>float(x)\<close>; \<open>None\<close> stands for the \<open>TypeError\<close> or \<open>ValueError\<close> it raises.\<close>

definition to_float :: "(string \<Rightarrow> rat option) \<Rightarrow> json \<Rightarrow> rat option" where
  "to_float float_of v = (case v of JBool b \<Rightarrow> Some (if b then 1 else 0) | JInt i \<Rightarrow> Some (of_int i) | JNum q \<Rightarrow> Some q
     | JStr s \<Rightarrow> float_of s | _ \<Rightarrow> None)"

text \<open>\<open>s.split("\n")\<close> and \<open>"\n".join\<close>.\<close>

function split_lines :: "string \<Rightarrow> string list" where
  "split_lines s =
    (case dropWhile (\<lambda>c. c \<noteq> newline) s of
       [] \<Rightarrow> [s]
     | c # rest \<Rightarrow> takeWhile (\<lambda>c. c \<noteq> newline) s # split_lines rest)"
  by pat_completeness auto
termination
proof (relation "measure length")
  fix s c and rest :: string
  assume "dropWhile (\<lambda>c. c \<noteq> newline) s = c # rest"
  then show "(rest, s) \<in> measure length"
    using length_dropWhile_le [of "\<lambda>c. c \<noteq> newline" s] by simp
qed simp

fun join_lines :: "string list \<Rightarrow> string" where
  "join_lines [] = []"
| "join_lines [l] = l"
| "join_lines (l # ls) = l @ newline # join_lines ls"

definition strip_fences :: "string \<Rightarrow> string" where
  "strip_fences raw =
    (let txt = strip_ws raw in
     if startswith txt ''```'' then
       strip_ws (join_lines (filter (\<lambda>l. \<not> startswith (strip_ws l) ''```'') (split_lines txt)))
     else txt)"

text \<open>
  The checks; \<open>None\<close> is one of the caught exceptions, after which \<open>FALLBACK\<close> is returned. A value that is no
  string is in no table (an unhashable one raises the caught \<open>TypeError\<close>).
\<close>

definition check_reply :: "(string \<Rightarrow> rat option) \<Rightarrow> (string, json) dict \<Rightarrow> parsed option" where
  "check_reply float_of d =
    (case (get_or d ''category'' (JStr []), get_or d ''recommended_model'' (JStr [])) of
       (JStr cat, JStr m) \<Rightarrow>
         if cat \<notin> set VALID_CATEGORIES \<or> m \<notin> set VALID_MODELS then None
         else (case to_float float_of (get_or d ''confidence'' (JNum (1 / 2))) of
             None \<Rightarrow> None
           | Some q \<Rightarrow> Some
               \<lparr>p_category = cat,
                p_local_capable = truthy (get_or d ''local_capable'' (JBool False)),
                p_routing = (case get_or d ''routing'' (JStr ''cloud'') of
                    JStr r \<Rightarrow> if r \<in> {''local'', ''cloud''} then r else ''cloud'' | _ \<Rightarrow> ''cloud''),
                p_model = m, p_confidence = max 0 (min 1 q)\<rparr>)
     | _ \<Rightarrow> None)"

definition parse_classification ::
    "(string \<Rightarrow> json option) \<Rightarrow> (string \<Rightarrow> rat option) \<Rightarrow> string \<Rightarrow> py_exc + parsed" where
  "parse_classification loads float_of raw =
    (case loads (strip_fences raw) of
       None \<Rightarrow> Inr FALLBACK
     | Some (JObj d) \<Rightarrow> Inr (case check_reply float_of d of Some p \<Rightarrow> p | None \<Rightarrow> FALLBACK)
     | Some v \<Rightarrow> Inl AttributeError)"

text \<open>\<open>reply\<close> is the value of the key \<open>response\<close> in Ollama's answer.\<close>

definition classify_input ::
    "(string \<Rightarrow> json option) \<Rightarrow> (string \<Rightarrow> rat option) \<Rightarrow> json option \<Rightarrow> py_exc + classification" where
  "classify_input loads float_of reply =
    (case (case reply of None \<Rightarrow> parse_classification loads float_of []
         | Some (JStr raw) \<Rightarrow> parse_classification loads float_of raw
         | Some v \<Rightarrow> Inl AttributeError) of
       Inl x \<Rightarrow> Inl x
     | Inr p \<Rightarrow>
         (let e = (case map_of MODEL_MAP (p_model p) of Some e \<Rightarrow> e | None \<Rightarrow> the (map_of MODEL_MAP ''claude'')) in
          Inr \<lparr>c_category = p_category p, c_local_capable = p_local_capable p, c_routing = p_routing p,
               c_model = p_model p, c_confidence = p_confidence p, c_capability = me_capability e,
               c_candidates = [me_model e], c_route = me_route e\<rparr>))"

section \<open>Every classification is well typed\<close>

definition parsed_ok :: "parsed \<Rightarrow> bool" where
  "parsed_ok p \<longleftrightarrow> p_category p \<in> set VALID_CATEGORIES \<and> p_model p \<in> set VALID_MODELS \<and>
    p_routing p \<in> {''local'', ''cloud''} \<and> 0 \<le> p_confidence p \<and> p_confidence p \<le> 1"

definition classification_ok :: "classification \<Rightarrow> bool" where
  "classification_ok c \<longleftrightarrow> c_category c \<in> set VALID_CATEGORIES \<and> c_model c \<in> set VALID_MODELS \<and>
    c_routing c \<in> {''local'', ''cloud''} \<and> 0 \<le> c_confidence c \<and> c_confidence c \<le> 1 \<and>
    (\<exists>e. map_of MODEL_MAP (c_model c) = Some e \<and> c_capability c = me_capability e \<and>
       c_candidates c = [me_model e] \<and> c_route c = me_route e \<and> model_entry_for (c_capability c) = Some e)"

lemma FALLBACK_ok: "parsed_ok FALLBACK"
  by (simp add: parsed_ok_def FALLBACK_def VALID_CATEGORIES_def VALID_MODELS_def)

lemma check_reply_ok: "check_reply float_of d = Some p \<Longrightarrow> parsed_ok p"
  by (auto simp: check_reply_def parsed_ok_def split: json.splits option.splits if_splits)

lemma parse_classification_ok: "parse_classification loads float_of raw = Inr p \<Longrightarrow> parsed_ok p"
  using FALLBACK_ok by (auto simp: parse_classification_def check_reply_ok split: option.splits json.splits)

lemma model_map_valid:
  assumes "m \<in> set VALID_MODELS"
  shows "\<exists>e. map_of MODEL_MAP m = Some e \<and> model_entry_for (me_capability e) = Some e"
  using assms by (auto simp: VALID_MODELS_def MODEL_MAP_def model_entry_for_def)


end
