(* ===== verification/Job_Resolve.thy ===== *)
theory Job_Resolve
  imports Job_State Classifier
begin

text \<open>
  What a human (or the passing of time) decides about a job: \<open>override_job\<close>, \<open>review_job\<close> and their
  branches, \<open>_spawn_successor\<close>, \<open>_demote_for_override\<close> and \<open>_check_auto_accept\<close> of
  \<open>orchestrator/job_manager.py\<close>. The bodies keep the fields of the source but the \<open>message\<close> texts. The
  teardown of a worker (\<open>worker_lifecycle.py\<close>) is an argument, \<open>None\<close> when there is no lifecycle.
\<close>

record job_deps =
  demotion_engine :: bool
  teardown :: "(worker_context \<Rightarrow> unit task) option"

type_synonym reply = "(string \<times> string) list"

definition log_event :: "(stamp \<Rightarrow> event) \<Rightarrow> unit task" where
  "log_event b = co_bind (emit_c b) (\<lambda>ev. Ret ())"

section \<open>Successors and demotion\<close>

definition successor_job :: "string \<Rightarrow> instant \<Rightarrow> job \<Rightarrow> model_entry \<Rightarrow> string \<Rightarrow> job" where
  "successor_job new_id t j e target =
    (new_job new_id (j_raw_input j) (j_modality j) (j_device j) t)
      \<lparr>j_status := Classified, j_classified_at := Some t, j_parent := Some (j_id j), j_category := j_category j,
       j_routing := Some (if target = ''route.local'' then ''local'' else ''cloud''), j_models := Some [me_model e],
       j_capability := Some target, j_confidence := Some 1\<rparr>"

text \<open>\<open>_spawn_successor\<close>; its value is the successor's id.\<close>

definition spawn_successor :: "world \<Rightarrow> string \<Rightarrow> string \<Rightarrow> string task" where
  "spawn_successor W jid target =
    co_bind (uuid7 W) (\<lambda>new_id.
    co_bind (now W) (\<lambda>t.
    case model_entry_for target of
      None \<Rightarrow> Exc (ValueError ''Unknown capability_id for redirect'')
    | Some e \<Rightarrow>
        with_job jid (\<lambda>j.
        co_seq (modify (put_job (successor_job new_id t j e target)))
        (co_seq (persist_job W new_id)
        (co_seq (log_event (\<lambda>sp. event_job_classified sp new_id
            (case j_category j of None \<Rightarrow> ''unknown'' | Some c \<Rightarrow> if c = [] then ''unknown'' else c) 1
            (target = ''route.local'') (if target = ''route.local'' then ''local'' else ''cloud'') [me_model e] target))
        (co_bind (enqueue new_id) (\<lambda>ok.
         if ok then Ret new_id
         else co_seq (set_job new_id (\<lambda>j. j\<lparr>j_status := Failed, j_error := Some ''pipeline_queue_full''\<rparr>))
              (co_seq (persist_job W new_id) (Ret new_id)))))))))"

definition demote_for_override :: "job_deps \<Rightarrow> string option \<Rightarrow> string \<Rightarrow> string \<Rightarrow> unit task" where
  "demote_for_override D capability jid otype =
    (case capability of
       None \<Rightarrow> Ret ()
     | Some c \<Rightarrow>
         if demotion_engine D then
           log_event (\<lambda>sp. build_event sp ''wal.demoted'' (Some jid) ''durable''
             [(''capability_id'', JStr c), (''from_level'', JInt 0), (''to_level'', JInt (-1)),
              (''trigger'', JStr ''override''), (''override_type'', JStr otype)]
             (Some c) (Some (-1)) None ''orchestrator'')
         else Ret ())"

section \<open>Override\<close>

definition reserve :: "world \<Rightarrow> string \<Rightarrow> string \<Rightarrow> unit task" where
  "reserve W jid otype = co_seq (set_job jid (\<lambda>j. j\<lparr>j_override := Some otype\<rparr>)) (persist_job W jid)"

definition human_override :: "string \<Rightarrow> string \<Rightarrow> string \<Rightarrow> string \<Rightarrow> string \<Rightarrow> event task" where
  "human_override jid otype target detail device =
    emit_c (\<lambda>sp. event_human_override sp jid otype target detail device)"

definition fail_job :: "string \<Rightarrow> string \<Rightarrow> string \<Rightarrow> string \<Rightarrow> unit task" where
  "fail_job jid error_class detail otype =
    with_job jid (\<lambda>j.
    co_seq (log_event (\<lambda>sp. event_job_failed sp jid error_class detail (j_capability j)))
      (set_job jid (\<lambda>j. j\<lparr>j_status := Failed, j_error := Some error_class, j_override := Some otype\<rparr>)))"

definition revoke_job :: "world \<Rightarrow> string \<Rightarrow> string \<Rightarrow> string \<Rightarrow> string option \<Rightarrow> string \<Rightarrow> unit task" where
  "revoke_job W jid reason ref successor otype =
    co_seq (log_event (\<lambda>sp. event_job_revoked sp jid reason ref successor (Some [])))
    (co_bind (now W) (\<lambda>t.
     set_job jid (\<lambda>j. j\<lparr>j_status := Revoked, j_revoked_at := Some t, j_override := Some otype\<rparr>)))"

definition override_cancel :: "world \<Rightarrow> string \<Rightarrow> bool \<Rightarrow> string \<Rightarrow> string \<Rightarrow> string \<Rightarrow> reply task" where
  "override_cancel W jid pre_delivery target detail device =
    co_bind (human_override jid ''cancel'' target detail device) (\<lambda>ev.
    if pre_delivery then
      co_seq (fail_job jid ''override_cancel'' ''Cancelled by user'' ''cancel'')
        (Ret [(''status'', ''cancelled''), (''job_id'', jid)])
    else
      co_seq (revoke_job W jid ''user_cancel'' (source_event_id ev) None ''cancel'')
        (Ret [(''status'', ''revoked''), (''job_id'', jid)]))"

definition override_redirect :: "world \<Rightarrow> string \<Rightarrow> bool \<Rightarrow> string \<Rightarrow> string \<Rightarrow> string \<Rightarrow> reply task" where
  "override_redirect W jid pre_delivery target detail device =
    co_bind (human_override jid ''redirect'' target detail device) (\<lambda>ev.
    if pre_delivery then
      co_seq (fail_job jid ''override_redirect'' (''Redirected to '' @ detail) ''redirect'')
      (co_bind (spawn_successor W jid detail) (\<lambda>succ_id.
       Ret [(''status'', ''redirected''), (''job_id'', jid), (''successor_job_id'', succ_id)]))
    else
      co_bind (spawn_successor W jid detail) (\<lambda>succ_id.
      co_seq (revoke_job W jid ''escalation_supersede'' (source_event_id ev) (Some succ_id) ''redirect'')
        (Ret [(''status'', ''revoked_and_redirected''), (''job_id'', jid), (''successor_job_id'', succ_id)])))"

definition override_escalate :: "world \<Rightarrow> string \<Rightarrow> string \<Rightarrow> string \<Rightarrow> string \<Rightarrow> reply task" where
  "override_escalate W jid target detail device =
    co_bind (human_override jid ''escalate'' target detail device) (\<lambda>ev.
    co_bind (spawn_successor W jid detail) (\<lambda>succ_id.
    co_seq (revoke_job W jid ''escalation_supersede'' (source_event_id ev) (Some succ_id) ''escalate'')
      (Ret [(''status'', ''escalated''), (''job_id'', jid), (''successor_job_id'', succ_id)])))"

definition override_modify :: "world \<Rightarrow> string \<Rightarrow> bool \<Rightarrow> string \<Rightarrow> string \<Rightarrow> string \<Rightarrow> string \<Rightarrow> reply task" where
  "override_modify W jid already_delivered target detail device modified =
    co_seq (reserve W jid ''modify'')
    (co_bind (human_override jid ''modify'' target detail device) (\<lambda>ev.
     co_bind (uuid7 W) (\<lambda>rid.
     co_seq (write_result rid modified)
     (with_job jid (\<lambda>j.
      co_seq (log_event (\<lambda>sp. event_human_reviewed sp jid ''modified'' device 0 (Some detail) (Some rid)
         (Some (sha W modified)) (j_result_id j)))
      (co_seq (set_job jid (\<lambda>j. j\<lparr>j_result := Some modified, j_override := Some ''modify''\<rparr>))
      (co_seq
        (if already_delivered then Ret ()
         else co_seq (log_event (\<lambda>sp. event_job_delivered sp jid))
           (co_bind (now W) (\<lambda>t. set_job jid (\<lambda>j. j\<lparr>j_status := Delivered, j_delivered_at := Some t\<rparr>))))
        (Ret [(''status'', ''modified''), (''job_id'', jid), (''modified_result_id'', rid)]))))))))"

text \<open>After a branch that has a result: persist, tear the worker down, demote.\<close>

definition drop_context :: "job_deps \<Rightarrow> string \<Rightarrow> unit task" where
  "drop_context D jid =
    Get (\<lambda>s. case map_of (contexts s) jid of
        None \<Rightarrow> Ret ()
      | Some c \<Rightarrow> Put (s\<lparr>contexts := AList.delete jid (contexts s)\<rparr>)
          (case teardown D of None \<Rightarrow> Ret () | Some f \<Rightarrow> f (c\<lparr>wc_status := ''failed''\<rparr>)))"

definition finish_override :: "world \<Rightarrow> job_deps \<Rightarrow> string \<Rightarrow> string \<Rightarrow> reply \<Rightarrow> reply task" where
  "finish_override W D jid otype res =
    co_seq (persist_job W jid)
    (co_seq (drop_context D jid)
    (co_seq
      (if otype \<in> set CONDITIONAL_DEMOTION_TYPES then
         with_job jid (\<lambda>j.
           if is_sentinel_failure (j_failing j) then Ret ()
           else demote_for_override D (j_capability j) (j_id j) otype)
       else Ret ())
      (Ret res)))"

definition override_refusal :: "job \<Rightarrow> string option" where
  "override_refusal j =
    (if j_status j \<in> set TERMINAL_STATES \<and> j_status j \<noteq> Delivered then Some ''job_already_terminal''
     else if resolved j then Some ''already_reviewed''
     else if j_override j \<noteq> None then Some ''already_overridden''
     else None)"

definition pre_delivery_states :: "job_status list" where
  "pre_delivery_states = [Submitted, Classified, Dispatched, Response_received]"

definition override_error :: "string \<Rightarrow> string \<Rightarrow> reply" where
  "override_error reason jid = [(''status'', ''error''), (''reason'', reason), (''job_id'', jid)]"

definition override_branch ::
    "world \<Rightarrow> job_deps \<Rightarrow> string \<Rightarrow> job_status \<Rightarrow> string \<Rightarrow> string \<Rightarrow> string \<Rightarrow> string \<Rightarrow> string option \<Rightarrow> reply task" where
  "override_branch W D jid st otype target detail device modified =
    (let pre = st \<in> set pre_delivery_states in
     if otype = ''cancel'' then
       co_bind (override_cancel W jid pre target detail device) (finish_override W D jid otype)
     else if otype = ''redirect'' then
       co_bind (override_redirect W jid pre target detail device) (finish_override W D jid otype)
     else if otype = ''modify'' then
       (case modified of
          None \<Rightarrow> Ret (override_error ''modified_result_required'' jid)
        | Some m \<Rightarrow>
            if m = [] then Ret (override_error ''modified_result_required'' jid)
            else if st \<notin> {Response_received, Delivered} then Ret (override_error ''no_result_to_modify'' jid)
            else co_bind (override_modify W jid (st = Delivered) target detail device m) (finish_override W D jid otype))
     else if otype = ''escalate'' then
       co_bind (override_escalate W jid target detail device) (finish_override W D jid otype)
     else Ret (override_error ''unknown_override_type'' jid))"

definition override_job ::
    "world \<Rightarrow> job_deps \<Rightarrow> string \<Rightarrow> string \<Rightarrow> string \<Rightarrow> string \<Rightarrow> string \<Rightarrow> string option \<Rightarrow> reply task" where
  "override_job W D jid otype target detail device modified =
    Get (\<lambda>s. case map_of (jobs s) jid of
        None \<Rightarrow> Ret [(''status'', ''not_found''), (''job_id'', jid)]
      | Some j \<Rightarrow>
          (case override_refusal j of
             Some reason \<Rightarrow> Ret [(''status'', ''no_op''), (''reason'', reason), (''job_id'', jid)]
           | None \<Rightarrow>
               co_seq (if otype \<in> {''cancel'', ''redirect'', ''escalate''} then reserve W jid otype else Ret ())
               (co_seq (if j_status j = Proposal_ready then reserve W jid otype else Ret ())
               (override_branch W D jid (j_status j) otype target detail device modified))))"

section \<open>Review\<close>

type_synonym review_reply = "nat \<times> (string, json) dict"

definition review_identity :: "string \<Rightarrow> string \<Rightarrow> string \<Rightarrow> string \<Rightarrow> string option \<Rightarrow> string \<Rightarrow> (string, json) dict" where
  "review_identity jid decision rid rhash modified key =
    [(''job_id'', JStr jid), (''decision'', JStr decision), (''result_id'', JStr rid), (''response_hash'', JStr rhash),
     (''modified_result'', jopt JStr modified), (''decision_idempotency_key'', JStr key)]"

definition job_conflict :: "string \<Rightarrow> job \<Rightarrow> review_reply" where
  "job_conflict error j =
    (409, [(''error'', JStr error), (''current_status'', JStr (status_text (j_status j))),
           (''current_result_id'', jopt JStr (j_result_id j)),
           (''current_response_hash'', jopt JStr (j_response_hash j))])"

definition review_body :: "string \<Rightarrow> string \<Rightarrow> string \<Rightarrow> string option \<Rightarrow> string option \<Rightarrow> (string, json) dict" where
  "review_body status jid decision rid rhash =
    [(''status'', JStr status), (''job_id'', JStr jid), (''decision'', JStr decision),
     (''result_id'', jopt JStr rid), (''response_hash'', jopt JStr rhash)]"

text \<open>Store the outcome for replays and answer 200.\<close>

definition respond :: "world \<Rightarrow> string \<Rightarrow> (string, json) dict \<Rightarrow> (string, json) dict \<Rightarrow> review_reply task" where
  "respond W key ident body =
    co_bind draw (\<lambda>n.
    co_seq (modify (\<lambda>s. s\<lparr>idem := store_review_outcome (db_up W n) key
        \<lparr>payload_identity = ident, outcome_code = 200, outcome_body = body, applied = True, rr_created_at = clock W n\<rparr>
        (idem s)\<rparr>))
      (Ret (200, body)))"

definition decide_review :: "world \<Rightarrow> string \<Rightarrow> string \<Rightarrow> (job \<Rightarrow> job) \<Rightarrow> unit task" where
  "decide_review W jid decision f =
    co_seq (set_job jid (\<lambda>j. (f j)\<lparr>j_review := Some decision\<rparr>)) (persist_job W jid)"

definition human_reviewed :: "string \<Rightarrow> string \<Rightarrow> string \<Rightarrow> unit task" where
  "human_reviewed jid decision device =
    log_event (\<lambda>sp. event_human_reviewed sp jid decision device 0 None None None None)"

definition deliver_reviewed :: "world \<Rightarrow> string \<Rightarrow> (job \<Rightarrow> job) \<Rightarrow> unit task" where
  "deliver_reviewed W jid f =
    co_seq (log_event (\<lambda>sp. event_job_delivered sp jid))
    (co_bind (now W) (\<lambda>t.
     co_seq (set_job jid (\<lambda>j. (f j)\<lparr>j_status := Delivered, j_delivered_at := Some t\<rparr>)) (persist_job W jid)))"

definition review_approve :: "world \<Rightarrow> string \<Rightarrow> (string, json) dict \<Rightarrow> string \<Rightarrow> string \<Rightarrow> review_reply task" where
  "review_approve W jid ident key device =
    co_seq (decide_review W jid ''approve'' id)
    (co_seq (human_reviewed jid ''approve'' device)
    (co_seq (deliver_reviewed W jid id)
    (with_job jid (\<lambda>j.
     respond W key ident (review_body ''delivered'' jid ''approve'' (j_result_id j) (j_response_hash j))))))"

definition review_edit ::
    "world \<Rightarrow> string \<Rightarrow> (string, json) dict \<Rightarrow> string \<Rightarrow> string \<Rightarrow> string \<Rightarrow> review_reply task" where
  "review_edit W jid ident key modified device =
    co_seq (decide_review W jid ''edit'' id)
    (co_bind (uuid7 W) (\<lambda>rid.
     co_seq (write_result rid modified)
     (with_job jid (\<lambda>j.
      let derived = j_result_id j; mhash = sha W modified in
      co_seq (log_event (\<lambda>sp. event_human_reviewed sp jid ''edit'' device 0 None (Some rid) (Some mhash) derived))
      (co_seq (deliver_reviewed W jid (\<lambda>j. j\<lparr>j_result := Some modified, j_result_id := Some rid, j_response_hash := Some mhash\<rparr>))
      (respond W key ident (review_body ''delivered'' jid ''edit'' (Some rid) (Some mhash)
         @ [(''derived_from_result_id'', jopt JStr derived)])))))))"

definition review_reject :: "world \<Rightarrow> string \<Rightarrow> (string, json) dict \<Rightarrow> string \<Rightarrow> string \<Rightarrow> review_reply task" where
  "review_reject W jid ident key device =
    co_seq (decide_review W jid ''reject'' id)
    (co_seq (human_reviewed jid ''reject'' device)
    (co_seq (with_job jid (\<lambda>j. log_event (\<lambda>sp. event_job_failed sp jid ''review_reject'' ''Rejected via review'' (j_capability j))))
    (co_seq (set_job jid (\<lambda>j. j\<lparr>j_status := Failed, j_error := Some ''review_reject''\<rparr>))
    (co_seq (persist_job W jid)
    (with_job jid (\<lambda>j.
     respond W key ident (review_body ''failed'' jid ''reject'' (j_result_id j) (j_response_hash j))))))))"

definition review_defer :: "world \<Rightarrow> string \<Rightarrow> (string, json) dict \<Rightarrow> string \<Rightarrow> string \<Rightarrow> review_reply task" where
  "review_defer W jid ident key device =
    co_seq (human_reviewed jid ''defer'' device)
    (with_job jid (\<lambda>j.
     respond W key ident (review_body ''deferred'' jid ''defer'' (j_result_id j) (j_response_hash j))))"

definition review_decline :: "world \<Rightarrow> string \<Rightarrow> (string, json) dict \<Rightarrow> string \<Rightarrow> string \<Rightarrow> review_reply task" where
  "review_decline W jid ident key device =
    co_seq (decide_review W jid ''decline_to_act'' (\<lambda>j. j\<lparr>j_status := Closed_no_action\<rparr>))
    (co_seq (human_reviewed jid ''decline_to_act'' device)
    (co_seq (with_job jid (\<lambda>j. log_event (\<lambda>sp. event_job_closed_no_action sp jid (j_result_id j) (j_response_hash j)
        ''decline_to_act'' key (j_capability j) ''decline_to_act'')))
    (with_job jid (\<lambda>j.
     respond W key ident (review_body ''closed_no_action'' jid ''decline_to_act'' (j_result_id j) (j_response_hash j))))))"

definition modified_rule :: "string \<Rightarrow> string option \<Rightarrow> string option" where
  "modified_rule decision modified =
    (if decision = ''edit'' then
       (if modified = None \<or> modified = Some [] then Some ''modified_result_required'' else None)
     else (if modified \<noteq> None then Some ''modified_result_not_allowed'' else None))"

definition review_branch ::
    "world \<Rightarrow> string \<Rightarrow> (string, json) dict \<Rightarrow> string \<Rightarrow> string \<Rightarrow> string option \<Rightarrow> string \<Rightarrow> review_reply task" where
  "review_branch W jid ident decision key modified device =
    (if decision = ''approve'' then review_approve W jid ident key device
     else if decision = ''edit'' then review_edit W jid ident key (the modified) device
     else if decision = ''reject'' then review_reject W jid ident key device
     else if decision = ''defer'' then review_defer W jid ident key device
     else if decision = ''decline_to_act'' then review_decline W jid ident key device
     else Ret (422, [(''error'', JStr ''unknown_decision''), (''decision'', JStr decision)]))"

definition review_job ::
    "world \<Rightarrow> string \<Rightarrow> string \<Rightarrow> string \<Rightarrow> string \<Rightarrow> string \<Rightarrow> string option \<Rightarrow> string \<Rightarrow> review_reply task" where
  "review_job W jid decision rid rhash key modified device =
    (let ident = review_identity jid decision rid rhash modified key in
     Get (\<lambda>s. case get_review_outcome key (idem s) of
         Some r \<Rightarrow>
           if payload_identity r = ident then Ret (outcome_code r, outcome_body r)
           else Ret (409, [(''error'', JStr ''decision_idempotency_key_conflict'')])
       | None \<Rightarrow>
           (case map_of (jobs s) jid of
              None \<Rightarrow> Ret (404, [(''error'', JStr ''job_not_found''), (''job_id'', JStr jid)])
            | Some j \<Rightarrow>
                if j_status j \<noteq> Proposal_ready \<or> j_override j \<noteq> None then Ret (job_conflict ''wrong_status'' j)
                else if j_result_id j \<noteq> Some rid \<or> j_response_hash j \<noteq> Some rhash then Ret (job_conflict ''stale_decision'' j)
                else (case modified_rule decision modified of
                    Some err \<Rightarrow> Ret (422, [(''error'', JStr err)])
                  | None \<Rightarrow> review_branch W jid ident decision key modified device))))"

section \<open>Auto-accept\<close>

definition auto_accept_due :: "int \<Rightarrow> instant \<Rightarrow> job \<Rightarrow> bool" where
  "auto_accept_due window t j \<longleftrightarrow>
    j_status j = Delivered \<and> j_override j = None \<and>
    (case j_wal j of None \<Rightarrow> False | Some w \<Rightarrow> 2 \<le> w) \<and>
    (case j_delivered_at j of None \<Rightarrow> False | Some d \<Rightarrow> window * 1000000 \<le> t - d)"

definition check_auto_accept :: "world \<Rightarrow> int \<Rightarrow> string \<Rightarrow> unit task" where
  "check_auto_accept W window jid =
    co_bind (now W) (\<lambda>t.
    with_job jid (\<lambda>j.
    if \<not> auto_accept_due window t j then Ret ()
    else co_seq (log_event (\<lambda>sp. event_human_reviewed sp jid ''auto_delivered'' ''system'' (window * 1000) None None None None))
         (co_seq (set_job jid (\<lambda>j. j\<lparr>j_override := Some ''auto_delivered''\<rparr>)) (persist_job W jid))))"

text \<open>One round of \<open>_auto_accept_loop\<close> over the jobs present at its start.\<close>

fun auto_accept_round :: "world \<Rightarrow> int \<Rightarrow> string list \<Rightarrow> unit task" where
  "auto_accept_round W window [] = Ret ()"
| "auto_accept_round W window (jid # js) =
    co_seq (co_catch (check_auto_accept W window jid) (\<lambda>x. Ret ())) (auto_accept_round W window js)"

end
