(* ===== verification/Job_Pipeline.thy ===== *)
theory Job_Pipeline
  imports Job_Resolve
begin

text \<open>
  The background pipeline: \<open>_run_pipeline\<close> and \<open>_worker_loop\<close> of \<open>orchestrator/job_manager.py\<close>, with the
  proposals and the listing of jobs. What other modules do is an argument, as a task that may
  await, write to the trail and raise: the classifier, the worker lifecycle, the packager, the local
  model and the egress gateway (\<open>httpx\<close> and the service behind it).
\<close>

record egress_route =
  er_id :: string
  er_provider :: string
  er_capabilities :: "string list"
  er_enabled :: bool

record answer =
  an_text :: string
  an_latency :: int
  an_tokens_in :: int
  an_tokens_out :: int

text \<open>The gateway's answer; \<open>None\<close> for a missing key.\<close>

record egress_reply =
  eg_status :: "string option"
  eg_failure :: "string option"
  eg_detail :: "string option"
  eg_answer :: answer
  eg_cost :: rat
  eg_result_id :: "string option"
  eg_hash :: "string option"
  eg_finish :: "string option"

record pipeline_deps = job_deps +
  classify_c :: "string \<Rightarrow> classification task"
  route_available :: "(string \<Rightarrow> bool task) option"
  checker :: "registry option"
  prepare_c :: "string \<Rightarrow> worker_context task"
  egress_routes :: "egress_route list option"
  package_c :: "(string \<Rightarrow> string \<Rightarrow> string \<Rightarrow> string \<Rightarrow> string \<Rightarrow> package task) option"
  execute_c :: "(worker_context \<Rightarrow> string \<Rightarrow> string \<Rightarrow> answer task) option"
  generate_c :: "string \<Rightarrow> answer task"
  dispatch_c :: "string \<Rightarrow> string \<Rightarrow> string \<Rightarrow> string \<Rightarrow> string \<Rightarrow> string \<Rightarrow> string \<Rightarrow> egress_reply task"
  processing_allowed :: "jobs_state \<Rightarrow> bool"
  exc_text :: "py_exc \<Rightarrow> string"

section \<open>Classification\<close>

record plan =
  pl_routing :: "string option"
  pl_models :: "string list option"
  pl_capability :: string
  pl_route :: string

text \<open>\<open>models[0]\<close>.\<close>

definition first_model :: "plan \<Rightarrow> string task" where
  "first_model p = (case pl_models p of None \<Rightarrow> Exc TypeError | Some [] \<Rightarrow> Exc IndexError | Some (m # _) \<Rightarrow> Ret m)"

definition plan_of_job :: "job \<Rightarrow> string \<Rightarrow> plan" where
  "plan_of_job j cap = \<lparr>pl_routing = j_routing j, pl_models = j_models j, pl_capability = cap,
     pl_route = (case model_entry_for cap of Some e \<Rightarrow> me_route e | None \<Rightarrow> ''unknown'')\<rparr>"

definition classify_job :: "world \<Rightarrow> 'p pipeline_deps_scheme \<Rightarrow> string \<Rightarrow> job \<Rightarrow> plan task" where
  "classify_job W P jid j =
    co_bind (classify_c P (j_raw_input j)) (\<lambda>c.
    co_seq (log_event (\<lambda>sp. event_job_classified sp jid (c_category c) (c_confidence c) (c_local_capable c) (c_routing c)
       (c_candidates c) (c_capability c)))
    (co_bind (now W) (\<lambda>t.
     co_seq (set_job jid (\<lambda>j. j\<lparr>j_status := Classified, j_classified_at := Some t, j_category := Some (c_category c),
        j_routing := Some (c_routing c), j_models := Some (c_candidates c), j_capability := Some (c_capability c),
        j_confidence := Some (c_confidence c)\<rparr>))
       (Ret \<lparr>pl_routing = Some (c_routing c), pl_models = Some (c_candidates c), pl_capability = c_capability c,
         pl_route = c_route c\<rparr>))))"

definition classify_stage :: "world \<Rightarrow> 'p pipeline_deps_scheme \<Rightarrow> string \<Rightarrow> plan task" where
  "classify_stage W P jid =
    co_bind
      (with_job jid (\<lambda>j. case (j_status j, j_capability j) of
          (Classified, Some cap) \<Rightarrow> Ret (plan_of_job j cap)
        | _ \<Rightarrow> classify_job W P jid j)) (\<lambda>p.
    co_seq (set_job jid (\<lambda>j. j\<lparr>j_wal := Some 0\<rparr>)) (co_seq (persist_job W jid) (Ret p)))"

section \<open>Gates before the dispatch\<close>

definition mark_failed :: "world \<Rightarrow> string \<Rightarrow> string \<Rightarrow> (job \<Rightarrow> job) \<Rightarrow> unit task" where
  "mark_failed W jid error f =
    co_seq (set_job jid (\<lambda>j. (f j)\<lparr>j_status := Failed, j_error := Some error\<rparr>)) (persist_job W jid)"

text \<open>The circuit breaker gate; \<open>False\<close> when the job was failed.\<close>

definition circuit_gate :: "world \<Rightarrow> 'p pipeline_deps_scheme \<Rightarrow> string \<Rightarrow> plan \<Rightarrow> bool task" where
  "circuit_gate W P jid p =
    (case route_available P of
       None \<Rightarrow> Ret True
     | Some avail \<Rightarrow>
         if pl_routing p \<noteq> Some ''cloud'' then Ret True
         else co_bind (avail (pl_route p)) (\<lambda>ok.
           if ok then Ret True
           else co_seq (log_event (\<lambda>sp. event_job_queued sp jid ''connectivity'' 0 None))
             (co_seq (log_event (\<lambda>sp. event_job_failed sp jid ''route_unavailable''
                 (''Circuit breaker OPEN for route '' @ pl_route p) None))
             (co_seq (mark_failed W jid (''route_unavailable: circuit breaker OPEN for '' @ pl_route p) id) (Ret False)))))"

definition dispatch_action :: "plan \<Rightarrow> string" where
  "dispatch_action p =
    (if pl_routing p = Some ''local'' then ''dispatch_local''
     else if pl_capability p = ''route.multi'' then ''dispatch_multi'' else ''dispatch_cloud'')"

definition check_permission_c :: "registry \<Rightarrow> string \<Rightarrow> string \<Rightarrow> job_context \<Rightarrow> permission_result task" where
  "check_permission_c R cap action ctx =
    Get (\<lambda>s. case decide R (caps s) cap action ctx None of
        Inl x \<Rightarrow> Exc x
      | Inr r \<Rightarrow> co_bind (emit_c (permission_event r (ctx_job_id ctx))) (\<lambda>ev. Ret (r\<lparr>perm_event_id := source_event_id ev\<rparr>)))"

record grant =
  gr_ref :: string
  gr_hold :: bool
  gr_hold_type :: "string option"

text \<open>The permission stage; \<open>None\<close> when the job was failed. A held action proceeds.\<close>

definition permission_stage :: "world \<Rightarrow> 'p pipeline_deps_scheme \<Rightarrow> string \<Rightarrow> plan \<Rightarrow> grant option task" where
  "permission_stage W P jid p =
    (case checker P of
       None \<Rightarrow>
         co_bind (emit_c (\<lambda>sp. event_wal_permission_check sp jid (pl_capability p) ''dispatch'' 0 (Some 0) ''allowed''
           False None None None None)) (\<lambda>ev.
         Ret (Some \<lparr>gr_ref = source_event_id ev, gr_hold = False, gr_hold_type = None\<rparr>))
     | Some R \<Rightarrow>
         co_bind (check_permission_c R (pl_capability p) (dispatch_action p)
           \<lparr>ctx_job_id = jid, est_cost = None, human_approved = False, result_accepted = False\<rparr>) (\<lambda>r.
         if perm_result r = ''blocked'' then
           (let why = (case block_reason r of Some b \<Rightarrow> b | None \<Rightarrow> ''None'') in
            co_seq (log_event (\<lambda>sp. event_job_failed sp jid ''permission_denied''
              (''Action '' @ dispatch_action p @ '' blocked: '' @ why) None))
            (co_seq (mark_failed W jid (''permission_denied: '' @ why) id) (Ret None)))
         else Ret (Some \<lparr>gr_ref = perm_event_id r, gr_hold = perm_delivery_hold r, gr_hold_type = hold_type r\<rparr>)))"

definition set_context :: "string \<Rightarrow> worker_context \<Rightarrow> unit task" where
  "set_context jid ctx = modify (\<lambda>s. s\<lparr>contexts := AList.update jid ctx (contexts s)\<rparr>)"

text \<open>\<open>None\<close> when the job was failed, \<open>Some None\<close> when there is no lifecycle, else the worker's context.\<close>

definition prepare_stage :: "world \<Rightarrow> 'p pipeline_deps_scheme \<Rightarrow> string \<Rightarrow> worker_context option option task" where
  "prepare_stage W P jid =
    (case teardown P of
       None \<Rightarrow> Ret (Some None)
     | Some f \<Rightarrow>
         co_catch
           (co_bind (prepare_c P jid) (\<lambda>ctx.
             let ctx = ctx\<lparr>wc_status := ''active''\<rparr> in co_seq (set_context jid ctx) (Ret (Some (Some ctx)))))
           (\<lambda>x. co_seq (mark_failed W jid ''worker_preparation_failed'' id) (Ret None)))"

definition blocked_cloud_routes :: "egress_route list \<Rightarrow> string \<Rightarrow> string list" where
  "blocked_cloud_routes routes cap =
    map er_id (filter (\<lambda>r. er_provider r \<noteq> ''ollama'' \<and> cap \<in> set (er_capabilities r) \<and> \<not> er_enabled r) routes)"

definition fallback_stage :: "'p pipeline_deps_scheme \<Rightarrow> string \<Rightarrow> plan \<Rightarrow> unit task" where
  "fallback_stage P jid p =
    (case egress_routes P of
       None \<Rightarrow> Ret ()
     | Some routes \<Rightarrow>
         (let b = blocked_cloud_routes routes (pl_capability p) in
          if pl_routing p = Some ''local'' \<and> b \<noteq> []
          then log_event (\<lambda>sp. event_egress_fallback_to_local sp jid b ''local'' (pl_capability p))
          else Ret ()))"

text \<open>Packaging: the package id and hash, and the prompt to dispatch.\<close>

definition package_stage :: "'p pipeline_deps_scheme \<Rightarrow> string \<Rightarrow> plan \<Rightarrow> (string option \<times> string option \<times> string) task" where
  "package_stage P jid p =
    with_job jid (\<lambda>j.
    if pl_routing p = Some ''cloud'' then
      (case package_c P of
         None \<Rightarrow> Exc RuntimeError
       | Some f \<Rightarrow>
           co_bind (first_model p) (\<lambda>m.
           co_bind (f jid (j_raw_input j) m (pl_route p) (pl_capability p)) (\<lambda>r.
           Ret (Some (pk_id r), Some (pk_hash r), pk_payload r))))
    else Ret (None, None, j_raw_input j))"

section \<open>Dispatch and response\<close>

record response =
  rs_answer :: answer
  rs_cost :: rat
  rs_id :: string
  rs_hash :: string
  rs_finish :: string

text \<open>The end of a worker of this run: torn down, then forgotten.\<close>

definition end_worker :: "'p pipeline_deps_scheme \<Rightarrow> string \<Rightarrow> worker_context option \<Rightarrow> unit task" where
  "end_worker P jid w =
    (case (teardown P, w) of
       (Some f, Some ctx) \<Rightarrow> co_seq (f ctx) (modify (\<lambda>s. s\<lparr>contexts := AList.delete jid (contexts s)\<rparr>))
     | _ \<Rightarrow> Ret ())"

text \<open>\<open>worker_ctx.status = "failed"\<close>.\<close>

definition failed_worker :: "worker_context option \<Rightarrow> worker_context option" where
  "failed_worker w = map_option (\<lambda>ctx. ctx\<lparr>wc_status := ''failed''\<rparr>) w"

definition local_response :: "world \<Rightarrow> answer \<Rightarrow> response task" where
  "local_response W a = co_bind (uuid7 W) (\<lambda>rid.
    Ret \<lparr>rs_answer = a, rs_cost = 0, rs_id = rid, rs_hash = take 16 (sha W (an_text a)), rs_finish = ''stop''\<rparr>)"

definition execute_local ::
    "world \<Rightarrow> 'p pipeline_deps_scheme \<Rightarrow> string \<Rightarrow> worker_context option \<Rightarrow> string \<Rightarrow> string \<Rightarrow> response option task" where
  "execute_local W P jid w m prompt =
    (case (w, execute_c P) of
       (Some ctx, Some ex) \<Rightarrow>
         co_catch (co_bind (ex ctx prompt m) (\<lambda>a. co_bind (local_response W a) (\<lambda>r. Ret (Some r))))
           (\<lambda>x. co_seq (log_event (\<lambda>sp. event_job_failed sp jid ''worker_execution_failed'' (exc_text P x) None))
              (co_seq (mark_failed W jid ''worker_execution_failed'' id)
              (co_seq (end_worker P jid (failed_worker w)) (Ret None))))
     | _ \<Rightarrow> co_bind (generate_c P prompt) (\<lambda>a. co_bind (local_response W a) (\<lambda>r. Ret (Some r))))"

definition execute_cloud ::
    "world \<Rightarrow> 'p pipeline_deps_scheme \<Rightarrow> string \<Rightarrow> worker_context option \<Rightarrow> plan \<Rightarrow> string \<Rightarrow> string \<Rightarrow> string \<Rightarrow> string \<Rightarrow> response option task" where
  "execute_cloud W P jid w p m prompt phash ref =
    co_bind (dispatch_c P jid (pl_route p) (pl_capability p) m prompt phash ref) (\<lambda>r.
    if eg_status r = Some ''blocked'' \<or> eg_status r = Some ''error'' then
      (let ft = (case eg_failure r of Some f \<Rightarrow> f | None \<Rightarrow> ''unknown'');
           dt = (case eg_detail r of Some d \<Rightarrow> d | None \<Rightarrow> []) in
       co_seq (log_event (\<lambda>sp. event_job_failed sp jid ft dt (Some ft)))
       (co_seq (mark_failed W jid (ft @ '': '' @ dt) (\<lambda>j. j\<lparr>j_failing := Some ft\<rparr>))
       (co_seq (end_worker P jid (failed_worker w)) (Ret None))))
    else co_bind (uuid7 W) (\<lambda>rid.
      Ret (Some \<lparr>rs_answer = eg_answer r, rs_cost = eg_cost r,
        rs_id = (case eg_result_id r of Some i \<Rightarrow> i | None \<Rightarrow> rid),
        rs_hash = (case eg_hash r of Some h \<Rightarrow> h | None \<Rightarrow> []),
        rs_finish = (case eg_finish r of Some f \<Rightarrow> f | None \<Rightarrow> ''stop'')\<rparr>)))"

definition dispatch_stage ::
    "world \<Rightarrow> 'p pipeline_deps_scheme \<Rightarrow> string \<Rightarrow> worker_context option \<Rightarrow> plan \<Rightarrow> grant \<Rightarrow> string option \<times> string option \<times> string \<Rightarrow>
     response option task" where
  "dispatch_stage W P jid w p g pkg =
    (case pkg of (pkg_id, phash, prompt) \<Rightarrow>
      co_bind (first_model p) (\<lambda>m.
      let h = (case phash of Some x \<Rightarrow> x | None \<Rightarrow> []) in
      co_seq (log_event (\<lambda>sp. event_job_dispatched sp jid m (pl_route p) (gr_ref g) h None pkg_id))
      (co_bind (now W) (\<lambda>t.
       co_seq (set_job jid (\<lambda>j. j\<lparr>j_status := Dispatched, j_dispatched_at := Some t\<rparr>))
       (co_seq (persist_job W jid)
       (if pl_routing p = Some ''local'' then execute_local W P jid w m prompt
        else execute_cloud W P jid w p m prompt h (gr_ref g)))))))"

definition derive_hold_reason :: "bool \<Rightarrow> string option \<Rightarrow> string option" where
  "derive_hold_reason delivery_hold ht =
    (if delivery_hold then Some ''pre_delivery'' else if ht = Some ''on_accept'' then Some ''on_accept'' else None)"

definition receive_stage :: "world \<Rightarrow> string \<Rightarrow> plan \<Rightarrow> string \<Rightarrow> response \<Rightarrow> unit task" where
  "receive_stage W jid p m r =
    (let a = rs_answer r in
     co_seq (log_event (\<lambda>sp. event_model_response sp jid m (pl_route p) (an_latency a) (an_tokens_in a) (an_tokens_out a)
       (rs_cost r) (rs_id r) (rs_hash r) (rs_finish r)))
     (co_seq (log_event (\<lambda>sp. event_job_response_received sp jid m (an_latency a) (an_tokens_in a) (an_tokens_out a)
       (rs_cost r) (rs_id r) (rs_hash r)))
     (co_bind (now W) (\<lambda>t.
      co_seq (set_job jid (\<lambda>j. j\<lparr>j_status := Response_received, j_response_at := Some t, j_result := Some (an_text a),
         j_result_id := Some (rs_id r), j_response_hash := Some (rs_hash r)\<rparr>))
      (co_seq (persist_job W jid) (write_result (rs_id r) (an_text a)))))))"

definition propose_stage ::
    "world \<Rightarrow> 'p pipeline_deps_scheme \<Rightarrow> string \<Rightarrow> worker_context option \<Rightarrow> plan \<Rightarrow> string \<Rightarrow> response \<Rightarrow> string \<Rightarrow> unit task" where
  "propose_stage W P jid w p m r reason =
    co_seq (with_job jid (\<lambda>j. case j_proposal_id j of
        Some i \<Rightarrow> Ret ()
      | None \<Rightarrow> co_bind (uuid7 W) (\<lambda>i. set_job jid (\<lambda>j. j\<lparr>j_proposal_id := Some i\<rparr>))))
    (co_seq (set_job jid (\<lambda>j. j\<lparr>j_status := Proposal_ready\<rparr>))
    (co_seq (persist_job W jid)
    (co_seq (with_job jid (\<lambda>j. log_event (\<lambda>sp. event_job_proposal_ready sp jid
        (case j_proposal_id j of Some i \<Rightarrow> i | None \<Rightarrow> []) (rs_id r) (rs_hash r) m (pl_capability p) (j_confidence j) None reason)))
      (end_worker P jid w))))"

definition deliver_stage :: "world \<Rightarrow> 'p pipeline_deps_scheme \<Rightarrow> string \<Rightarrow> worker_context option \<Rightarrow> unit task" where
  "deliver_stage W P jid w =
    co_seq (log_event (\<lambda>sp. event_job_delivered sp jid))
    (co_bind (now W) (\<lambda>t.
     co_seq (set_job jid (\<lambda>j. j\<lparr>j_status := Delivered, j_delivered_at := Some t\<rparr>))
     (co_seq (persist_job W jid) (end_worker P jid w))))"

section \<open>The pipeline\<close>

definition finish_stage ::
    "world \<Rightarrow> 'p pipeline_deps_scheme \<Rightarrow> string \<Rightarrow> worker_context option \<Rightarrow> plan \<Rightarrow> grant \<Rightarrow> response \<Rightarrow> unit task" where
  "finish_stage W P jid w p g r =
    co_bind (first_model p) (\<lambda>m.
    co_seq (receive_stage W jid p m r)
    (case derive_hold_reason (gr_hold g) (gr_hold_type g) of
       Some reason \<Rightarrow> propose_stage W P jid w p m r reason
     | None \<Rightarrow> deliver_stage W P jid w))"

definition granted_stage :: "world \<Rightarrow> 'p pipeline_deps_scheme \<Rightarrow> string \<Rightarrow> plan \<Rightarrow> grant \<Rightarrow> unit task" where
  "granted_stage W P jid p g =
    co_bind (prepare_stage W P jid) (\<lambda>ready.
    case ready of
      None \<Rightarrow> Ret ()
    | Some w \<Rightarrow>
        co_seq (fallback_stage P jid p)
        (co_bind (package_stage P jid p) (\<lambda>pkg.
         co_bind (dispatch_stage W P jid w p g pkg) (\<lambda>r.
         case r of None \<Rightarrow> Ret () | Some r \<Rightarrow> finish_stage W P jid w p g r))))"

definition run_pipeline :: "world \<Rightarrow> 'p pipeline_deps_scheme \<Rightarrow> string \<Rightarrow> unit task" where
  "run_pipeline W P jid =
    Get (\<lambda>s. if map_of (jobs s) jid = None then Ret ()
      else co_bind (classify_stage W P jid) (\<lambda>p.
        co_bind (circuit_gate W P jid p) (\<lambda>ok.
        if \<not> ok then Ret ()
        else co_bind (permission_stage W P jid p) (\<lambda>g.
          case g of None \<Rightarrow> Ret () | Some g \<Rightarrow> granted_stage W P jid p g))))"

text \<open>What \<open>_worker_loop\<close> does with an exception of the pipeline.\<close>

definition pipeline_failed :: "world \<Rightarrow> 'p pipeline_deps_scheme \<Rightarrow> string \<Rightarrow> unit task" where
  "pipeline_failed W P jid =
    co_seq (Get (\<lambda>s. case map_of (jobs s) jid of
        None \<Rightarrow> Ret ()
      | Some j \<Rightarrow> if j_status j \<noteq> Delivered then mark_failed W jid ''pipeline_error'' id else Ret ()))
    (Get (\<lambda>s. case map_of (contexts s) jid of
        None \<Rightarrow> Ret ()
      | Some c \<Rightarrow> Put (s\<lparr>contexts := AList.delete jid (contexts s)\<rparr>)
          (case teardown P of None \<Rightarrow> Ret () | Some f \<Rightarrow> co_catch (f (c\<lparr>wc_status := ''failed''\<rparr>)) (\<lambda>x. Ret ()))))"

definition worker_iteration :: "world \<Rightarrow> 'p pipeline_deps_scheme \<Rightarrow> unit task" where
  "worker_iteration W P =
    Wait (\<lambda>s. queue s \<noteq> [])
      (Get (\<lambda>s. Put (s\<lparr>queue := tl (queue s)\<rparr>)
        (co_catch (co_seq (Wait (processing_allowed P) (Ret ())) (run_pipeline W P (hd (queue s))))
          (\<lambda>x. pipeline_failed W P (hd (queue s))))))"

section \<open>Reading jobs\<close>

record proposal =
  pr_id :: string
  pr_job :: string
  pr_result_id :: string
  pr_hash :: string
  pr_by :: string
  pr_capability :: string
  pr_confidence :: rat

definition get_proposal :: "jobs_state \<Rightarrow> string \<Rightarrow> proposal option" where
  "get_proposal s jid =
    (case map_of (jobs s) jid of
       None \<Rightarrow> None
     | Some j \<Rightarrow>
         if j_status j \<noteq> Proposal_ready then None
         else (case (j_proposal_id j, j_result_id j, j_response_hash j, j_capability j, j_confidence j, j_models j) of
             (Some i, Some r, Some h, Some c, Some q, Some (m # ms)) \<Rightarrow>
               Some \<lparr>pr_id = i, pr_job = j_id j, pr_result_id = r, pr_hash = h, pr_by = m, pr_capability = c, pr_confidence = q\<rparr>
           | _ \<Rightarrow> None))"

text \<open>The order of Python strings, and a page of \<open>list_jobs\<close>: newest identifiers first.\<close>

fun str_less :: "string \<Rightarrow> string \<Rightarrow> bool" where
  "str_less a [] = False"
| "str_less [] (c # b) = True"
| "str_less (x # a) (y # b) = ((of_char x :: nat) < of_char y \<or> x = y \<and> str_less a b)"

fun insert_newest :: "job \<Rightarrow> job list \<Rightarrow> job list" where
  "insert_newest j [] = [j]"
| "insert_newest j (k # ks) = (if str_less (j_id j) (j_id k) then k # insert_newest j ks else j # k # ks)"

record job_page =
  items :: "(job \<times> proposal option) list"
  next_cursor :: "string option"

definition matching_jobs :: "jobs_state \<Rightarrow> job_status \<Rightarrow> string option \<Rightarrow> job list" where
  "matching_jobs s st since =
    (let sorted = foldr insert_newest (filter (\<lambda>j. j_status j = st) (dict_vals (jobs s))) [] in
     case since of None \<Rightarrow> sorted | Some b \<Rightarrow> filter (\<lambda>j. str_less (j_id j) b) sorted)"

definition list_jobs :: "jobs_state \<Rightarrow> job_status \<Rightarrow> string option \<Rightarrow> nat \<Rightarrow> job_page" where
  "list_jobs s st since limit =
    (let ms = matching_jobs s st since; page = take limit ms in
     \<lparr>items = map (\<lambda>j. (j, get_proposal s (j_id j))) page,
      next_cursor = (if length ms > limit \<and> page \<noteq> [] then Some (j_id (last page)) else None)\<rparr>)"

end
