(* ===== verification/Job_Triples.thy ===== *)
theory Job_Triples
  imports Job_Submit Job_Pipeline
begin

text \<open>
  Rely and guarantee for the handlers of the job manager: the invariant of the jobs and the audit
  trail, what a handler owes the others and may rely on, Hoare triples over \<open>safe\<close> with rules for the
  shared steps (reading, storing, persisting, recording, queueing, calls of other components).
\<close>

section \<open>What the audit trail says of a job\<close>

definition about :: "string \<Rightarrow> string \<Rightarrow> event \<Rightarrow> bool" where
  "about ty jid ev \<longleftrightarrow> map_of ev ''event_type'' = Some (JStr ty) \<and> map_of ev ''job_id'' = Some (JStr jid)"

definition logged :: "string \<Rightarrow> string \<Rightarrow> jobs_state \<Rightarrow> bool" where
  "logged ty jid s \<longleftrightarrow> (\<exists>ev \<in> set (alog s). about ty jid ev)"

text \<open>A review record with a resolving decision.\<close>

definition resolving :: "string \<Rightarrow> event \<Rightarrow> bool" where
  "resolving jid ev \<longleftrightarrow> about ''human.reviewed'' jid ev \<and>
    (case map_of ev ''payload'' of
       Some (JObj p) \<Rightarrow> (case map_of p ''decision'' of Some (JStr d) \<Rightarrow> d \<in> set TERMINAL_REVIEW_DECISIONS | _ \<Rightarrow> False)
     | _ \<Rightarrow> False)"

definition resolution_logged :: "string \<Rightarrow> jobs_state \<Rightarrow> bool" where
  "resolution_logged jid s \<longleftrightarrow> (\<exists>ev \<in> set (alog s). resolving jid ev)"

section \<open>The invariant and the guarantee\<close>

definition job_ok :: "jobs_state \<Rightarrow> string \<Rightarrow> job \<Rightarrow> bool" where
  "job_ok s jid j \<longleftrightarrow> j_id j = jid \<and> \<not> (j_override j \<noteq> None \<and> resolved j) \<and>
    (case j_wal j of None \<Rightarrow> True | Some w \<Rightarrow> w < 2) \<and>
    (j_status j = Delivered \<longrightarrow> logged ''job.delivered'' jid s) \<and>
    (j_status j = Revoked \<longrightarrow> logged ''job.revoked'' jid s)"

definition overridden :: "string \<Rightarrow> jobs_state \<Rightarrow> bool" where
  "overridden jid s \<longleftrightarrow> (\<exists>j. map_of (jobs s) jid = Some j \<and> j_override j \<noteq> None)"

definition reviewed :: "string \<Rightarrow> jobs_state \<Rightarrow> bool" where
  "reviewed jid s \<longleftrightarrow> (\<exists>j. map_of (jobs s) jid = Some j \<and> resolved j)"

definition present :: "string \<Rightarrow> jobs_state \<Rightarrow> bool" where
  "present jid s \<longleftrightarrow> map_of (jobs s) jid \<noteq> None"

text \<open>\<open>ids i n\<close> is the \<open>n\<close>-th identifier that the \<open>i\<close>-th task draws.\<close>

definition jobs_inv :: "(nat \<Rightarrow> nat \<Rightarrow> string) \<Rightarrow> jobs_state \<Rightarrow> bool" where
  "jobs_inv ids s \<longleftrightarrow>
    (\<forall>jid j. map_of (jobs s) jid = Some j \<longrightarrow> job_ok s jid j) \<and>
    (\<forall>jid. logged ''human.override'' jid s \<longrightarrow> overridden jid s) \<and>
    (\<forall>jid. resolution_logged jid s \<longrightarrow> reviewed jid s) \<and>
    (\<forall>i n. ticks s \<le> n \<longrightarrow> \<not> present (ids i n) s)"

text \<open>No decision is undone, no record lost, and new jobs come only from the identifiers in \<open>own\<close>.\<close>

definition keeps :: "(string \<Rightarrow> bool) \<Rightarrow> jobs_state \<Rightarrow> jobs_state \<Rightarrow> bool" where
  "keeps own s t \<longleftrightarrow>
    (\<forall>jid. present jid s \<longrightarrow> present jid t) \<and>
    (\<forall>jid. overridden jid s \<longrightarrow> overridden jid t) \<and>
    (\<forall>jid. reviewed jid s \<longrightarrow> reviewed jid t) \<and>
    (\<forall>jid. present jid t \<longrightarrow> present jid s \<or> own jid) \<and>
    set (alog s) \<subseteq> set (alog t) \<and> ticks s \<le> ticks t"

definition guar :: "(nat \<Rightarrow> nat \<Rightarrow> string) \<Rightarrow> (string \<Rightarrow> bool) \<Rightarrow> jobs_state \<Rightarrow> jobs_state \<Rightarrow> bool" where
  "guar ids own s t \<longleftrightarrow> keeps own s t \<and> (jobs_inv ids s \<longrightarrow> jobs_inv ids t)"

lemma keeps_refl: "keeps own s s"
  by (simp add: keeps_def)

lemma keeps_trans: "keeps own s t \<Longrightarrow> keeps own t u \<Longrightarrow> keeps own s u"
  unfolding keeps_def by (meson order_trans)

lemma guar_preorder: "preorder_rel (guar ids own)"
  unfolding preorder_rel_def guar_def using keeps_refl keeps_trans by blast

section \<open>Triples\<close>

text \<open>The identifiers that task \<open>i\<close> owns, its rely and its guarantee.\<close>

definition mine :: "(nat \<Rightarrow> nat \<Rightarrow> string) \<Rightarrow> nat \<Rightarrow> string \<Rightarrow> bool" where
  "mine ids i jid \<longleftrightarrow> (\<exists>n. jid = ids i n)"

definition rel_of :: "(nat \<Rightarrow> nat \<Rightarrow> string) \<Rightarrow> nat \<Rightarrow> jobs_state \<Rightarrow> jobs_state \<Rightarrow> bool" where
  "rel_of ids i = guar ids (\<lambda>jid. \<not> mine ids i jid)"

definition gua_of :: "(nat \<Rightarrow> nat \<Rightarrow> string) \<Rightarrow> nat \<Rightarrow> jobs_state \<Rightarrow> jobs_state \<Rightarrow> bool" where
  "gua_of ids i = guar ids (mine ids i)"

definition stable :: "(nat \<Rightarrow> nat \<Rightarrow> string) \<Rightarrow> nat \<Rightarrow> (jobs_state \<Rightarrow> bool) \<Rightarrow> bool" where
  "stable ids i P \<longleftrightarrow> (\<forall>s t. P s \<longrightarrow> rel_of ids i s t \<longrightarrow> P t)"

text \<open>\<open>triple ids i P c Q\<close>: from a state of the invariant with \<open>P\<close>, task \<open>i\<close> may run \<open>c\<close>; a value has \<open>Q\<close>.\<close>

definition triple ::
    "(nat \<Rightarrow> nat \<Rightarrow> string) \<Rightarrow> nat \<Rightarrow> (jobs_state \<Rightarrow> bool) \<Rightarrow> 'a task \<Rightarrow> ('a \<Rightarrow> jobs_state \<Rightarrow> bool) \<Rightarrow> bool" where
  "triple ids i P c Q \<longleftrightarrow>
    (\<forall>s. jobs_inv ids s \<longrightarrow> P s \<longrightarrow>
      safe (rel_of ids i) (gua_of ids i) (\<lambda>r t. jobs_inv ids t \<and> (case r of Inl x \<Rightarrow> True | Inr v \<Rightarrow> Q v t)) c s)"

lemma rel_inv: "rel_of ids i s t \<Longrightarrow> jobs_inv ids s \<Longrightarrow> jobs_inv ids t"
  by (simp add: rel_of_def guar_def)

lemma gua_inv: "gua_of ids i s t \<Longrightarrow> jobs_inv ids s \<Longrightarrow> jobs_inv ids t"
  by (simp add: gua_of_def guar_def)

lemma triple_Ret: "(\<And>s. jobs_inv ids s \<Longrightarrow> P s \<Longrightarrow> Q a s) \<Longrightarrow> triple ids i P (Ret a) Q"
  by (simp add: triple_def)

lemma triple_Exc: "triple ids i P (Exc x) Q"
  by (simp add: triple_def)

lemma triple_bind:
  assumes "triple ids i P c R" and "\<And>a. triple ids i (R a) (f a) Q"
  shows "triple ids i P (co_bind c f) Q"
  unfolding triple_def
proof (intro allI impI)
  fix s
  assume "jobs_inv ids s" "P s"
  then show "safe (rel_of ids i) (gua_of ids i) (\<lambda>r t. jobs_inv ids t \<and> (case r of Inl x \<Rightarrow> True | Inr v \<Rightarrow> Q v t)) (co_bind c f) s"
    using assms unfolding triple_def by (intro safe_bind [where Q' = "\<lambda>r t. jobs_inv ids t \<and> (case r of Inl x \<Rightarrow> True | Inr v \<Rightarrow> R v t)"]) auto
qed

lemma triple_seq:
  "triple ids i P c R \<Longrightarrow> triple ids i (R ()) d Q \<Longrightarrow> triple ids i P (co_seq c d) Q"
  unfolding co_seq_def by (erule triple_bind) simp

lemma triple_catch:
  assumes "triple ids i P c Q" and "\<And>x. triple ids i (\<lambda>_. True) (h x) Q"
  shows "triple ids i P (co_catch c h) Q"
  unfolding triple_def
proof (intro allI impI)
  fix s
  assume "jobs_inv ids s" "P s"
  then show "safe (rel_of ids i) (gua_of ids i) (\<lambda>r t. jobs_inv ids t \<and> (case r of Inl x \<Rightarrow> True | Inr v \<Rightarrow> Q v t)) (co_catch c h) s"
    using assms unfolding triple_def by (intro safe_catch [where Q' = "\<lambda>r t. jobs_inv ids t \<and> (case r of Inl x \<Rightarrow> True | Inr v \<Rightarrow> Q v t)"]) auto
qed

lemma triple_Get: "(\<And>s0. jobs_inv ids s0 \<Longrightarrow> P s0 \<Longrightarrow> triple ids i (\<lambda>s. s = s0) (k s0) Q) \<Longrightarrow> triple ids i P (Get k) Q"
  by (simp add: triple_def)

lemma triple_Put:
  assumes "\<And>s. jobs_inv ids s \<Longrightarrow> P s \<Longrightarrow> gua_of ids i s t" and "triple ids i (\<lambda>s. s = t) c Q"
  shows "triple ids i P (Put t c) Q"
  using assms gua_inv unfolding triple_def by fastforce

lemma triple_modify:
  assumes "\<And>s. jobs_inv ids s \<Longrightarrow> P s \<Longrightarrow> gua_of ids i s (f s) \<and> Q () (f s)"
  shows "triple ids i P (modify f) Q"
  using assms gua_inv unfolding triple_def modify_def by fastforce

lemma triple_Wait:
  assumes "stable ids i P" and "triple ids i (\<lambda>s. P s \<and> p s) c Q"
  shows "triple ids i P (Wait p c) Q"
  using assms rel_inv unfolding triple_def stable_def by fastforce

lemma triple_pre: "triple ids i P' c Q \<Longrightarrow> (\<And>s. jobs_inv ids s \<Longrightarrow> P s \<Longrightarrow> P' s) \<Longrightarrow> triple ids i P c Q"
  by (auto simp: triple_def)

lemma triple_post: "triple ids i P c Q' \<Longrightarrow> (\<And>v s. jobs_inv ids s \<Longrightarrow> Q' v s \<Longrightarrow> Q v s) \<Longrightarrow> triple ids i P c Q"
  unfolding triple_def by (auto elim!: safe_weaken split: sum.splits)

lemma triple_True: "triple ids i P c Q \<Longrightarrow> triple ids i P c (\<lambda>_ _. True)"
  by (erule triple_post) simp

section \<open>Facts that only grow\<close>

text \<open>
  \<open>lasting\<close>: once true, true whatever any task does. \<open>steady\<close>: once true, true whatever the others do, and
  whatever the task itself does but creating a job.
\<close>

definition lasting :: "(jobs_state \<Rightarrow> bool) \<Rightarrow> bool" where
  "lasting P \<longleftrightarrow> (\<forall>s t. P s \<longrightarrow> keeps (\<lambda>_. True) s t \<longrightarrow> P t)"

definition steady :: "(nat \<Rightarrow> nat \<Rightarrow> string) \<Rightarrow> nat \<Rightarrow> (jobs_state \<Rightarrow> bool) \<Rightarrow> bool" where
  "steady ids i P \<longleftrightarrow> (\<forall>s t. P s \<longrightarrow> keeps (\<lambda>jid. \<not> mine ids i jid) s t \<longrightarrow> P t)"

lemma keeps_more: "keeps own s t \<Longrightarrow> keeps (\<lambda>_. True) s t"
  by (simp add: keeps_def)

lemma keeps_none: "keeps (\<lambda>_. False) s t \<Longrightarrow> keeps own s t"
  by (simp add: keeps_def)

named_theorems steady_intros

lemma lasting_True [steady_intros]: "lasting (\<lambda>_. True)"
  by (simp add: lasting_def)

lemma lasting_present [steady_intros]: "lasting (present jid)"
  by (auto simp: lasting_def keeps_def)

lemma lasting_overridden [steady_intros]: "lasting (overridden jid)"
  by (auto simp: lasting_def keeps_def)

lemma lasting_reviewed [steady_intros]: "lasting (reviewed jid)"
  by (auto simp: lasting_def keeps_def)

lemma lasting_logged [steady_intros]: "lasting (logged ty jid)"
  unfolding lasting_def keeps_def logged_def by blast

lemma lasting_drawn [steady_intros]: "lasting (\<lambda>s. n < ticks s)"
  unfolding lasting_def keeps_def by (meson less_le_trans)

lemma lasting_conj [steady_intros]: "lasting P \<Longrightarrow> lasting Q \<Longrightarrow> lasting (\<lambda>s. P s \<and> Q s)"
  unfolding lasting_def by blast

lemma steady_lasting [steady_intros]: "lasting P \<Longrightarrow> steady ids i P"
  unfolding lasting_def steady_def using keeps_more by blast

lemma steady_fresh [steady_intros]: "steady ids i (\<lambda>s. \<not> present (ids i n) s)"
  by (auto simp: steady_def keeps_def mine_def)

lemma steady_conj [steady_intros]: "steady ids i P \<Longrightarrow> steady ids i Q \<Longrightarrow> steady ids i (\<lambda>s. P s \<and> Q s)"
  unfolding steady_def by blast

lemma steadyD: "steady ids i P \<Longrightarrow> P s \<Longrightarrow> keeps (\<lambda>_. False) s t \<Longrightarrow> P t"
  using keeps_none [of s t] unfolding steady_def by blast

lemma steady_rel: "steady ids i P \<Longrightarrow> P s \<Longrightarrow> rel_of ids i s t \<Longrightarrow> P t"
  unfolding steady_def rel_of_def guar_def by blast

lemma steady_stable: "steady ids i P \<Longrightarrow> stable ids i P"
  unfolding stable_def using steady_rel by blast

text \<open>A change of other fields, or of jobs without creating or deciding any.\<close>

lemma keeps_same_jobs:
  "jobs t = jobs s \<Longrightarrow> set (alog s) \<subseteq> set (alog t) \<Longrightarrow> ticks s \<le> ticks t \<Longrightarrow> keeps (\<lambda>_. False) s t"
  by (simp add: keeps_def present_def overridden_def reviewed_def)

lemma same_jobs:
  assumes "jobs t = jobs s"
  shows "present jid t = present jid s" "overridden jid t = overridden jid s" "reviewed jid t = reviewed jid s"
  using assms by (simp_all add: present_def overridden_def reviewed_def)

lemma job_ok_more:
  "job_ok s jid j \<Longrightarrow> set (alog s) \<subseteq> set (alog t) \<Longrightarrow> job_ok t jid j"
  unfolding job_ok_def logged_def by blast

text \<open>What a record may be: of an override only for an overridden job, of a resolution only for a reviewed one.\<close>

definition may_log :: "jobs_state \<Rightarrow> event \<Rightarrow> bool" where
  "may_log s ev \<longleftrightarrow> (\<forall>jid. about ''human.override'' jid ev \<longrightarrow> overridden jid s) \<and>
    (\<forall>jid. resolving jid ev \<longrightarrow> reviewed jid s)"

lemma inv_other:
  assumes i: "jobs_inv ids s" and j: "jobs t = jobs s" and tk: "ticks s \<le> ticks t"
    and l: "set (alog s) \<subseteq> set (alog t)" "\<And>ev. ev \<in> set (alog t) \<Longrightarrow> ev \<notin> set (alog s) \<Longrightarrow> may_log s ev"
  shows "jobs_inv ids t"
  unfolding jobs_inv_def
proof (intro conjI allI impI)
  note parts = i [unfolded jobs_inv_def]
  fix jid n k
  show "job_ok t jid x" if "map_of (jobs t) jid = Some x" for x
    using parts that job_ok_more [OF _ l(1)] j by simp
  show "overridden jid t" if "logged ''human.override'' jid t"
    using parts that l(2) same_jobs [OF j] unfolding logged_def may_log_def by blast
  show "reviewed jid t" if "resolution_logged jid t"
    using parts that l(2) same_jobs [OF j] unfolding resolution_logged_def may_log_def by blast
  show "\<not> present (ids n k) t" if "ticks t \<le> k"
    using parts that tk same_jobs [OF j] by simp
qed

lemma own_step:
  assumes "keeps (\<lambda>_. False) s t" and "jobs_inv ids t" and "steady ids i P" and "P s"
  shows "gua_of ids i s t \<and> P t"
proof
  show "gua_of ids i s t" using keeps_none [OF assms(1)] assms(2) by (simp add: gua_of_def guar_def)
  show "P t" by (rule steadyD [OF assms(3,4,1)])
qed

lemma own_other:
  assumes "jobs_inv ids s" and "P s" and "steady ids i P" and "jobs t = jobs s" and "alog t = alog s" and "ticks s \<le> ticks t"
  shows "gua_of ids i s t \<and> P t"
  by (rule own_step [OF keeps_same_jobs inv_other [OF assms(1)]]) (use assms in simp_all)

section \<open>Invariant triples\<close>

definition itriple :: "(nat \<Rightarrow> nat \<Rightarrow> string) \<Rightarrow> nat \<Rightarrow> (jobs_state \<Rightarrow> bool) \<Rightarrow> 'a task \<Rightarrow> bool" where
  "itriple ids i P c \<longleftrightarrow> triple ids i P c (\<lambda>_. P)"

named_theorems itriple_rules

lemma itriple_Ret [itriple_rules]: "itriple ids i P (Ret a)"
  by (simp add: itriple_def triple_Ret)

lemma itriple_Exc [itriple_rules]: "itriple ids i P (Exc x)"
  by (simp add: itriple_def triple_Exc)

lemma itriple_bind [itriple_rules]:
  "itriple ids i P c \<Longrightarrow> (\<And>a. itriple ids i P (f a)) \<Longrightarrow> itriple ids i P (co_bind c f)"
  unfolding itriple_def by (rule triple_bind)

lemma itriple_seq [itriple_rules]: "itriple ids i P c \<Longrightarrow> itriple ids i P d \<Longrightarrow> itriple ids i P (co_seq c d)"
  unfolding itriple_def by (rule triple_seq)

lemma itriple_if [itriple_rules]:
  "(b \<Longrightarrow> itriple ids i P c) \<Longrightarrow> (\<not> b \<Longrightarrow> itriple ids i P d) \<Longrightarrow> itriple ids i P (if b then c else d)"
  by simp

lemma itriple_option [itriple_rules]:
  "itriple ids i P c \<Longrightarrow> (\<And>x. itriple ids i P (d x)) \<Longrightarrow> itriple ids i P (case v of None \<Rightarrow> c | Some x \<Rightarrow> d x)"
  by (cases v) simp_all

lemma itriple_pair [itriple_rules]:
  "(\<And>x y. itriple ids i P (f x y)) \<Longrightarrow> itriple ids i P (case v of (x, y) \<Rightarrow> f x y)"
  by (cases v) simp

lemma itriple_Let [itriple_rules]: "itriple ids i P (f v) \<Longrightarrow> itriple ids i P (let x = v in f x)"
  by simp

lemma itriple_catch:
  "itriple ids i P c \<Longrightarrow> (\<And>x. itriple ids i (\<lambda>_. True) (h x)) \<Longrightarrow> itriple ids i (\<lambda>_. True) (co_catch c h)"
  if "P = (\<lambda>_. True)"
  unfolding itriple_def that by (rule triple_catch)

lemma itriple_Wait [itriple_rules]: "steady ids i P \<Longrightarrow> itriple ids i P c \<Longrightarrow> itriple ids i P (Wait p c)"
  unfolding itriple_def by (rule triple_Wait [OF steady_stable]) (auto elim: triple_pre)

lemma itriple_Get: "(\<And>s. jobs_inv ids s \<Longrightarrow> P s \<Longrightarrow> itriple ids i P (k s)) \<Longrightarrow> itriple ids i P (Get k)"
  unfolding itriple_def by (rule triple_Get, rule triple_pre [where P' = P]) auto

lemma itriple_with_job [itriple_rules]: "(\<And>j. itriple ids i P (f j)) \<Longrightarrow> itriple ids i P (with_job jid f)"
  unfolding with_job_def by (rule itriple_Get)

lemma itriple_modify_other:
  assumes "steady ids i P" and "\<And>s. jobs (f s) = jobs s \<and> alog (f s) = alog s \<and> ticks s \<le> ticks (f s)"
  shows "itriple ids i P (modify f)"
  unfolding itriple_def
proof (rule triple_modify)
  fix s
  assume "jobs_inv ids s" "P s"
  from own_other [OF this assms(1)] show "gua_of ids i s (f s) \<and> P (f s)" using assms(2) by blast
qed

text \<open>A step \<open>Get\<close>, \<open>Put\<close> of other fields.\<close>

lemma triple_Put_other:
  assumes "steady ids i P" and "P s" and "jobs t = jobs s" and "alog t = alog s" and "ticks s \<le> ticks t"
    and "triple ids i P c Q"
  shows "triple ids i (\<lambda>x. x = s) (Put t c) Q"
proof (rule triple_Put)
  fix x
  assume x: "jobs_inv ids x" "x = s"
  then show "gua_of ids i x t" using own_other [OF _ assms(2,1,3,4,5)] by simp
next
  have "P t" by (rule steadyD [OF assms(1,2) keeps_same_jobs]) (simp_all add: assms)
  then show "triple ids i (\<lambda>x. x = t) c Q" by (intro triple_pre [OF assms(6)]) simp
qed

lemma itriple_Get_Put_other:
  assumes "steady ids i P" and "\<And>s. jobs (f s) = jobs s \<and> alog (f s) = alog s \<and> ticks s \<le> ticks (f s)"
    and "\<And>s. itriple ids i P (c s)"
  shows "itriple ids i P (Get (\<lambda>s. Put (f s) (c s)))"
  unfolding itriple_def
  by (rule triple_Get, rule triple_Put_other [OF assms(1)]) (use assms(2,3) in \<open>auto simp: itriple_def\<close>)

lemma triple_draw:
  assumes "steady ids i P"
  shows "triple ids i P draw (\<lambda>n s. P s \<and> \<not> present (ids i n) s \<and> n < ticks s)"
  unfolding draw_def
proof (rule triple_Get)
  fix s0
  assume i: "jobs_inv ids s0" and P: "P s0"
  let ?t = "s0\<lparr>ticks := Suc (ticks s0)\<rparr>"
  have g: "gua_of ids i s0 ?t \<and> P ?t" by (rule own_other [OF i P assms]) simp_all
  have n: "\<not> present (ids i (ticks s0)) ?t"
    using i by (simp add: jobs_inv_def present_def)
  show "triple ids i (\<lambda>s. s = s0) (Put ?t (Ret (ticks s0))) (\<lambda>n s. P s \<and> \<not> present (ids i n) s \<and> n < ticks s)"
    by (rule triple_Put, use g in simp, rule triple_Ret) (use g n in auto)
qed

lemma itriple_draw [itriple_rules]: "steady ids i P \<Longrightarrow> itriple ids i P draw"
  unfolding itriple_def by (rule triple_post [OF triple_draw]) auto

lemma triple_uuid7_bind:
  assumes "steady ids i P" and "uuid_of W = ids i"
    and "\<And>n. triple ids i (\<lambda>s. P s \<and> \<not> present (ids i n) s \<and> n < ticks s) (f (ids i n)) Q"
  shows "triple ids i P (co_bind (uuid7 W) f) Q"
proof -
  have eq: "co_bind (uuid7 W) f = co_bind draw (\<lambda>n. f (uuid_of W n))"
    by (simp add: uuid7_def draw_def)
  show ?thesis unfolding eq assms(2) by (rule triple_bind [OF triple_draw [OF assms(1)] assms(3)])
qed

lemma itriple_uuid7 [itriple_rules]: "steady ids i P \<Longrightarrow> itriple ids i P (uuid7 W)"
  unfolding uuid7_def by (intro itriple_rules)

lemma itriple_now [itriple_rules]: "steady ids i P \<Longrightarrow> itriple ids i P (now W)"
  unfolding now_def by (intro itriple_rules)

lemma itriple_persist [itriple_rules]: "steady ids i P \<Longrightarrow> itriple ids i P (persist_job W jid)"
  unfolding persist_job_def by (intro itriple_rules itriple_modify_other) auto

lemma itriple_write_result [itriple_rules]: "steady ids i P \<Longrightarrow> itriple ids i P (write_result rid t)"
  unfolding write_result_def by (intro itriple_modify_other) auto

lemma itriple_enqueue [itriple_rules]: 
  assumes "steady ids i P"
  shows "itriple ids i P (enqueue jid)"
  unfolding enqueue_def itriple_def
proof (rule triple_Get)
  fix s
  assume P: "P s"
  have "triple ids i (\<lambda>x. x = s) (Put (s\<lparr>queue := queue s @ [jid]\<rparr>) (Ret True)) (\<lambda>_. P)"
    by (rule triple_Put_other [OF assms P]) (simp_all add: triple_Ret)
  moreover have "triple ids i (\<lambda>x. x = s) (Ret False) (\<lambda>_. P)" by (rule triple_Ret) (simp add: P)
  ultimately show "triple ids i (\<lambda>x. x = s)
      (if length (queue s) < EVENT_QUEUE_BOUND then Put (s\<lparr>queue := queue s @ [jid]\<rparr>) (Ret True) else Ret False) (\<lambda>_. P)"
    by simp
qed

lemma itriple_store_op [itriple_rules]:
  assumes "steady ids i P"
  shows "itriple ids i P (store_op f)"
proof -
  have "store_op f = Get (\<lambda>s. Put (s\<lparr>idem := snd (f (idem s))\<rparr>) (Ret (fst (f (idem s)))))"
    by (simp add: store_op_def split_def)
  moreover have "itriple ids i P (Get (\<lambda>s. Put (s\<lparr>idem := snd (f (idem s))\<rparr>) (Ret (fst (f (idem s))))))"
    by (rule itriple_Get_Put_other [OF assms]) (simp_all add: itriple_Ret)
  ultimately show ?thesis by simp
qed

lemma itriple_pause [itriple_rules]: "steady ids i P \<Longrightarrow> itriple ids i P pause"
  unfolding pause_def by (intro itriple_rules)

lemma itriple_find_job [itriple_rules]: "steady ids i P \<Longrightarrow> itriple ids i P (find_job W jid)"
  unfolding find_job_def by (intro itriple_rules itriple_Get)

section \<open>Recording\<close>

lemma triple_Emit:
  assumes P: "steady ids i P" and l: "\<And>s sp. P s \<Longrightarrow> may_log s (b sp)"
    and k: "\<And>r. triple ids i (\<lambda>s. P s \<and> (\<exists>sp. b sp \<in> set (alog s))) (k r) Q"
  shows "triple ids i P (Emit b k) Q"
  unfolding triple_def
proof (intro allI impI safe_EmitI)
  fix s t :: jobs_state and sp
  let ?t = "t\<lparr>alog := alog t @ [b sp]\<rparr>"
  assume s: "jobs_inv ids s" "P s" and r: "rel_of ids i s t"
  have t: "jobs_inv ids t" "P t" using rel_inv [OF r s(1)] steady_rel [OF P s(2) r] by blast+
  have ok: "keeps (\<lambda>_. False) t ?t" by (rule keeps_same_jobs) auto
  have inv: "jobs_inv ids ?t" by (rule inv_other [OF t(1)]) (use l [OF t(2)] in auto)
  note g = own_step [OF ok inv P t(2)]
  show "gua_of ids i t ?t" using g by blast
  fix u and x :: "py_exc + event"
  assume u: "rel_of ids i ?t u"
  have "b sp \<in> set (alog u)" using u by (auto simp: rel_of_def guar_def keeps_def)
  then show "safe (rel_of ids i) (gua_of ids i) (\<lambda>r t. jobs_inv ids t \<and> (case r of Inl x \<Rightarrow> True | Inr v \<Rightarrow> Q v t)) (k x) u"
    using k [of x] rel_inv [OF u inv] steady_rel [OF P conjunct2 [OF g] u] unfolding triple_def by blast
qed

lemma triple_emit_c:
  assumes "steady ids i P" and "\<And>s sp. P s \<Longrightarrow> may_log s (b sp)"
  shows "triple ids i P (emit_c b) (\<lambda>_ s. P s \<and> (\<exists>sp. b sp \<in> set (alog s)))"
  unfolding emit_c_def
proof (rule triple_Emit [OF assms])
  fix r :: "py_exc + event"
  show "triple ids i (\<lambda>s. P s \<and> (\<exists>sp. b sp \<in> set (alog s))) (case r of Inl x \<Rightarrow> Exc x | Inr ev \<Rightarrow> Ret ev)
      (\<lambda>_ s. P s \<and> (\<exists>sp. b sp \<in> set (alog s)))"
    by (cases r) (simp_all add: triple_Ret triple_Exc)
qed

text \<open>A record that is of no human decision may always be written.\<close>

definition harmless :: "(stamp \<Rightarrow> event) \<Rightarrow> bool" where
  "harmless b \<longleftrightarrow> (\<forall>sp s. may_log s (b sp))"

lemma harmlessD: "harmless b \<Longrightarrow> may_log s (b sp)"
  unfolding harmless_def by blast

lemma harmless_type:
  assumes "\<And>sp. map_of (b sp) ''event_type'' = Some (JStr ty)" and "ty \<noteq> ''human.override''" "ty \<noteq> ''human.reviewed''"
  shows "harmless b"
  using assms by (simp add: harmless_def may_log_def about_def resolving_def)

lemma harmless_events [itriple_rules]:
  "harmless (\<lambda>sp. event_job_submitted sp a1_a a2_a a3_a a4_a a5_a a6_a a7_a a8_a)"
  "harmless (\<lambda>sp. event_source_event_conflict sp a1_b a2_b a3_b a4_b a5_b)"
  "harmless (\<lambda>sp. event_source_event_divergence sp a1_c a2_c a3_c)"
  "harmless (\<lambda>sp. event_job_classified sp a1_d a2_d q_d b3_d a4_d ms_d a5_d)"
  "harmless (\<lambda>sp. event_job_queued sp a1_e a2_e n_e o1_e)"
  "harmless (\<lambda>sp. event_job_failed sp a1_f a2_f a3_f o1_f)"
  "harmless (\<lambda>sp. event_wal_permission_check sp a1_g a2_g a3_g n_g o1_g a4_g b1_g o2_g o3_g o4_g o5_g)"
  "harmless (\<lambda>sp. event_egress_fallback_to_local sp a1_h ms_h a2_h a3_h)"
  "harmless (\<lambda>sp. event_job_dispatched sp a1_i a2_i a3_i a4_i a5_i o1_i o2_i)"
  "harmless (\<lambda>sp. event_model_response sp a1_j a2_j a3_j n_j n2_j n3_j q_j a4_j a5_j a6_j)"
  "harmless (\<lambda>sp. event_job_response_received sp a1_k a2_k n_k n2_k n3_k q_k a4_k a5_k)"
  "harmless (\<lambda>sp. event_job_proposal_ready sp a1_l a2_l a3_l a4_l a5_l a6_l o1_l o2_l a7_l)"
  "harmless (\<lambda>sp. event_job_delivered sp a1_m)"
  "harmless (\<lambda>sp. event_job_revoked sp a1_n a2_n a3_n o1_n o2_n)"
  "harmless (\<lambda>sp. event_job_closed_no_action sp a1_o o1_o o2_o a2_o a3_o o3_o a4_o)"
  by (rule harmless_type,
      simp add: event_job_submitted_def event_source_event_conflict_def event_source_event_divergence_def
        event_job_classified_def event_job_queued_def event_job_failed_def event_wal_permission_check_def
        event_egress_fallback_to_local_def event_job_dispatched_def event_model_response_def
        event_job_response_received_def event_job_proposal_ready_def event_job_delivered_def event_job_revoked_def
        event_job_closed_no_action_def, simp, simp)+

lemma harmless_permission [itriple_rules]: "harmless (permission_event r jid)"
  by (rule harmless_type, simp add: permission_event_def event_wal_permission_check_def, simp, simp)

lemma harmless_demotion [itriple_rules]: "harmless (\<lambda>sp. build_event sp ''wal.demoted'' j du pl c w p src)"
  by (rule harmless_type, simp, simp, simp)

lemma harmless_reviewed [itriple_rules]:
  "d \<notin> set TERMINAL_REVIEW_DECISIONS \<Longrightarrow> harmless (\<lambda>sp. event_human_reviewed sp jid d dev n o1 o2 o3 o4)"
  by (auto simp: harmless_def may_log_def about_def resolving_def event_human_reviewed_def)

lemma itriple_emit_c [itriple_rules]: "steady ids i P \<Longrightarrow> harmless b \<Longrightarrow> itriple ids i P (emit_c b)"
  unfolding itriple_def by (rule triple_post, rule triple_emit_c, assumption, erule harmlessD, blast)

lemma itriple_emit_quiet [itriple_rules]:
  assumes "steady ids i P" "harmless b"
  shows "itriple ids i P (emit_quiet b)"
  unfolding emit_quiet_def itriple_def
  by (rule triple_Emit [OF assms(1) harmlessD [OF assms(2)]], rule triple_Ret) blast

lemma itriple_log_event [itriple_rules]: "steady ids i P \<Longrightarrow> harmless b \<Longrightarrow> itriple ids i P (log_event b)"
  unfolding log_event_def by (intro itriple_rules)

section \<open>Changes of a job\<close>

text \<open>An update that keeps the invariant for the job it changes and undoes none of its decisions.\<close>

definition set_ok :: "string \<Rightarrow> (job \<Rightarrow> job) \<Rightarrow> jobs_state \<Rightarrow> bool" where
  "set_ok jid f s \<longleftrightarrow> (\<forall>j. map_of (jobs s) jid = Some j \<longrightarrow> job_ok s jid (f j) \<and>
     (j_override j \<noteq> None \<longrightarrow> j_override (f j) \<noteq> None) \<and> (resolved j \<longrightarrow> resolved (f j)))"

lemma keeps_set_job:
  assumes "set_ok jid f s"
  shows "keeps (\<lambda>_. False) s (s\<lparr>jobs := dict_modify jid f (jobs s)\<rparr>)"
  using assms
  by (auto simp: keeps_def present_def overridden_def reviewed_def map_of_dict_modify set_ok_def)

lemma logged_jobs [simp]:
  "logged ty k (s\<lparr>jobs := d\<rparr>) = logged ty k s" "resolution_logged k (s\<lparr>jobs := d\<rparr>) = resolution_logged k s"
  by (simp_all add: logged_def resolution_logged_def)

lemma inv_set_job:
  assumes i: "jobs_inv ids s" and f: "set_ok jid f s"
  shows "jobs_inv ids (s\<lparr>jobs := dict_modify jid f (jobs s)\<rparr>)" (is "jobs_inv ids ?t")
proof -
  have k: "keeps (\<lambda>_. False) s ?t" by (rule keeps_set_job [OF f])
  have "job_ok ?t k j" if "map_of (jobs ?t) k = Some j" for k j
    using that i f by (auto simp: map_of_dict_modify jobs_inv_def set_ok_def job_ok_def split: if_splits)
  moreover have "present k ?t = present k s" for k
    by (auto simp: present_def map_of_dict_modify)
  ultimately show ?thesis
    using i k unfolding jobs_inv_def keeps_def by auto
qed

lemma own_set_job:
  assumes "jobs_inv ids s" and "P s" and "steady ids i P" and "set_ok jid f s"
  shows "gua_of ids i s (s\<lparr>jobs := dict_modify jid f (jobs s)\<rparr>) \<and> P (s\<lparr>jobs := dict_modify jid f (jobs s)\<rparr>)"
  by (rule own_step [OF keeps_set_job [OF assms(4)] inv_set_job [OF assms(1,4)] assms(3,2)])

lemma triple_set_job:
  assumes "steady ids i P" and "\<And>s. jobs_inv ids s \<Longrightarrow> P s \<Longrightarrow> set_ok jid f s"
  shows "itriple ids i P (set_job jid f)"
  unfolding itriple_def set_job_def
  by (rule triple_modify, rule own_set_job) (use assms in auto)

text \<open>An update that touches no decision and leaves no unrecorded terminal status.\<close>

definition quiet :: "(job \<Rightarrow> job) \<Rightarrow> bool" where
  "quiet f \<longleftrightarrow> (\<forall>j. j_id (f j) = j_id j \<and> j_override (f j) = j_override j \<and> j_review (f j) = j_review j \<and>
     (j_wal (f j) = j_wal j \<or> j_wal (f j) = Some 0) \<and>
     (j_status (f j) = j_status j \<or> j_status (f j) \<notin> {Delivered, Revoked}))"

lemma job_ok_quiet:
  assumes "job_ok s jid j" "quiet f"
  shows "job_ok s jid (f j) \<and> j_override (f j) = j_override j \<and> resolved (f j) = resolved j"
proof -
  have q: "j_id (f j) = j_id j" "j_override (f j) = j_override j" "j_review (f j) = j_review j"
    "j_wal (f j) = j_wal j \<or> j_wal (f j) = Some 0"
    "j_status (f j) = j_status j \<or> j_status (f j) \<notin> {Delivered, Revoked}"
    using assms(2) by (simp_all add: quiet_def)
  have "resolved (f j) = resolved j" by (simp add: resolved_def q(3) cong: option.case_cong)
  moreover have "case j_wal (f j) of None \<Rightarrow> True | Some w \<Rightarrow> w < 2"
    using q(4) assms(1) by (auto simp: job_ok_def)
  ultimately show ?thesis using q assms(1) by (auto simp: job_ok_def)
qed

lemma itriple_set_job [itriple_rules]:
  assumes "steady ids i P" and "quiet f"
  shows "itriple ids i P (set_job jid f)"
proof (rule triple_set_job [OF assms(1)])
  fix s
  assume "jobs_inv ids s"
  then have "job_ok s jid j" if "map_of (jobs s) jid = Some j" for j using that by (simp add: jobs_inv_def)
  from job_ok_quiet [OF this assms(2)] show "set_ok jid f s" unfolding set_ok_def by metis
qed

text \<open>No identifier is drawn twice, and what a new job is.\<close>

definition unique_ids :: "(nat \<Rightarrow> nat \<Rightarrow> string) \<Rightarrow> bool" where
  "unique_ids ids \<longleftrightarrow> (\<forall>a b c d. ids a b = ids c d \<longrightarrow> a = c \<and> b = d)"

definition fresh_job :: "job \<Rightarrow> bool" where
  "fresh_job j \<longleftrightarrow> j_status j \<in> {Submitted, Classified} \<and> j_override j = None \<and> j_review j = None \<and> j_wal j = None"

text \<open>A new job, under an identifier of the task's own.\<close>

lemma put_new_job:
  assumes i: "jobs_inv ids s" and u: "j_id j = ids i n" "\<not> present (ids i n) s" "n < ticks s"
    and inj: "unique_ids ids" and fresh: "fresh_job j"
  shows "gua_of ids i s (put_job j s) \<and> present (ids i n) (put_job j s)"
proof -
  let ?t = "put_job j s"
  note j = fresh [unfolded fresh_job_def]
  have m: "map_of (jobs ?t) = (map_of (jobs s))(ids i n \<mapsto> j)" "alog ?t = alog s" "ticks ?t = ticks s"
    by (simp_all add: put_job_def u(1))
  have old: "map_of (jobs s) (ids i n) = None" using u(2) by (simp add: present_def)
  have p: "present k ?t \<longleftrightarrow> present k s \<or> k = ids i n" "overridden k ?t \<longleftrightarrow> overridden k s"
    "reviewed k ?t \<longleftrightarrow> reviewed k s" for k
    using old by (auto simp: present_def overridden_def reviewed_def m j resolved_def)
  have "keeps (mine ids i) s ?t" by (auto simp: keeps_def p m mine_def)
  moreover have "jobs_inv ids ?t"
    unfolding jobs_inv_def
  proof (intro conjI allI impI)
    note parts = i [unfolded jobs_inv_def]
    fix k k' l
    show "job_ok ?t k x" if "map_of (jobs ?t) k = Some x" for x
    proof (cases "k = ids i n")
      case True
      then show ?thesis using that j u(1) by (auto simp: m job_ok_def resolved_def)
    next
      case False
      then have "job_ok s k x" using that parts by (simp add: m)
      then show ?thesis by (rule job_ok_more) (simp add: m)
    qed
    show "overridden k ?t" if "logged ''human.override'' k ?t"
      using that parts by (simp add: p logged_def m)
    show "reviewed k ?t" if "resolution_logged k ?t"
      using that parts by (simp add: p resolution_logged_def m)
    show "\<not> present (ids k' l) ?t" if "ticks ?t \<le> l"
      using that parts inj [unfolded unique_ids_def, rule_format, of k' l i n] u(3) by (auto simp: p m)
  qed
  ultimately show ?thesis by (simp add: gua_of_def guar_def p)
qed

lemma gua_lasting: "gua_of ids i s t \<Longrightarrow> lasting P \<Longrightarrow> P s \<Longrightarrow> P t"
  unfolding gua_of_def guar_def lasting_def using keeps_more by blast

lemma triple_put_job:
  assumes "lasting L" and "unique_ids ids" and "j_id j = ids i n" and "fresh_job j"
  shows "triple ids i (\<lambda>s. L s \<and> \<not> present (ids i n) s \<and> n < ticks s) (modify (put_job j)) (\<lambda>_. L)"
proof (rule triple_modify)
  fix s
  assume s: "jobs_inv ids s" "L s \<and> \<not> present (ids i n) s \<and> n < ticks s"
  have "gua_of ids i s (put_job j s)"
    using put_new_job [OF s(1) assms(3) _ _ assms(2,4)] s(2) by blast
  then show "gua_of ids i s (put_job j s) \<and> L (put_job j s)"
    using gua_lasting [OF _ assms(1)] s(2) by blast
qed

section \<open>The other components\<close>

text \<open>
  What the handlers call outside the job manager may await, write records that are of no human
  decision, change other fields and raise; it changes no job.
\<close>

definition outside_step :: "jobs_state \<Rightarrow> jobs_state \<Rightarrow> bool" where
  "outside_step s t \<longleftrightarrow> jobs t = jobs s \<and> ticks s \<le> ticks t \<and> set (alog s) \<subseteq> set (alog t) \<and>
    (\<forall>ev u. ev \<in> set (alog t) \<longrightarrow> ev \<notin> set (alog s) \<longrightarrow> may_log u ev)"

definition outside :: "'a task \<Rightarrow> bool" where
  "outside c \<longleftrightarrow> (\<forall>s. safe (\<lambda>_ _. True) outside_step (\<lambda>_ _. True) c s)"

lemma own_outside:
  assumes "outside_step s t" and "jobs_inv ids s" and "P s" and "steady ids i P"
  shows "gua_of ids i s t \<and> jobs_inv ids t \<and> P t"
proof -
  have j: "jobs t = jobs s" "ticks s \<le> ticks t" "set (alog s) \<subseteq> set (alog t)"
    using assms(1) by (simp_all add: outside_step_def)
  have i: "jobs_inv ids t"
    by (rule inv_other [OF assms(2) j]) (use assms(1) in \<open>simp add: outside_step_def\<close>)
  then show ?thesis using own_step [OF keeps_same_jobs [OF j(1,3,2)] i assms(4,3)] by blast
qed

lemma outside_safe:
  assumes "safe (\<lambda>_ _. True) outside_step (\<lambda>_ _. True) c s" and "jobs_inv ids s" and "P s" and P: "steady ids i P"
  shows "safe (rel_of ids i) (gua_of ids i) (\<lambda>r t. jobs_inv ids t \<and> (case r of Inl x \<Rightarrow> True | Inr v \<Rightarrow> P t)) c s"
  using assms(1-3)
proof (induction c arbitrary: s)
  case (Get k)
  then show ?case by simp
next
  case (Put t c)
  then show ?case using own_outside [OF _ Put.prems(2,3) P, of t] by simp
next
  case (Emit b k)
  show ?case
  proof (rule safe_EmitI)
    fix t :: jobs_state and sp
    let ?t = "t\<lparr>alog := alog t @ [b sp]\<rparr>"
    assume r: "rel_of ids i s t"
    have t: "jobs_inv ids t" "P t" using rel_inv [OF r Emit.prems(2)] steady_rel [OF P Emit.prems(3) r] by blast+
    have "outside_step t ?t" using safe_EmitD(1) [OF Emit.prems(1) TrueI] by blast
    note o = own_outside [OF this t P]
    then show "gua_of ids i t ?t" by blast
    fix u and x :: "py_exc + event"
    assume u: "rel_of ids i ?t u" and x: "x = Inr (b sp) \<or> (\<exists>y. x = Inl y)"
    have "safe (\<lambda>_ _. True) outside_step (\<lambda>_ _. True) (k x) u"
      using safe_EmitD(2,3) [OF Emit.prems(1) TrueI TrueI] x by blast
    then show "safe (rel_of ids i) (gua_of ids i)
        (\<lambda>r t. jobs_inv ids t \<and> (case r of Inl x \<Rightarrow> True | Inr v \<Rightarrow> P t)) (k x) u"
      using Emit.IH [OF rangeI] rel_inv [OF u] steady_rel [OF P _ u] o by blast
  qed
next
  case (Wait p c)
  show ?case
    unfolding safe.simps
  proof (intro allI impI)
    fix t
    assume r: "rel_of ids i s t" and "p t"
    then have "safe (\<lambda>_ _. True) outside_step (\<lambda>_ _. True) c t" using Wait.prems(1) by simp
    then show "safe (rel_of ids i) (gua_of ids i) (\<lambda>r t. jobs_inv ids t \<and> (case r of Inl x \<Rightarrow> True | Inr v \<Rightarrow> P t)) c t"
      by (rule Wait.IH) (use rel_inv [OF r Wait.prems(2)] steady_rel [OF P Wait.prems(3) r] in blast)+
  qed
qed simp_all

lemma itriple_outside: "steady ids i P \<Longrightarrow> outside c \<Longrightarrow> itriple ids i P c"
  unfolding itriple_def triple_def outside_def using outside_safe by blast

lemma outside_Ret: "outside (Ret a)"
  by (simp add: outside_def)

end
