(* ===== verification/Job_Concurrency.thy ===== *)
theory Job_Concurrency
  imports Job_Triples
begin

text \<open>
  The handlers of the job manager under every interleaving: submissions, overrides, reviews, rounds of
  the auto-accept loop and iterations of the pipeline worker, any number of each, started at any time
  and scheduled in any order at their awaits. Each handler is shown to keep the invariant of
  \<open>Job_Triples\<close> and to undo no decision, whatever others with the same guarantee do while it awaits.
\<close>

section \<open>Submissions\<close>

lemma itriple_release_lock [itriple_rules]: "steady ids i P \<Longrightarrow> itriple ids i P (release_lock k)"
  unfolding release_lock_def by (intro itriple_modify_other) auto

lemma quiet_status: "st \<notin> {Delivered, Revoked} \<Longrightarrow> quiet (\<lambda>j. j\<lparr>j_status := st, j_error := x\<rparr>)"
  by (auto simp: quiet_def)

lemma triple_store_new_job:
  assumes u: "unique_ids ids"
  shows "triple ids i (\<lambda>s. True \<and> \<not> present (ids i n) s \<and> n < ticks s)
    (store_new_job W (ids i n) key raw_input modality device cs e ct ih) (\<lambda>_ _. True)"
proof -
  have f: "steady ids i (\<lambda>s. True \<and> \<not> present (ids i n) s \<and> n < ticks s)"
    by (intro steady_intros)
  note T = steady_lasting [OF lasting_True]
  show ?thesis
    unfolding store_new_job_def
    apply (rule triple_bind [OF itriple_now [OF f, unfolded itriple_def]])
    apply (rule triple_bind [OF itriple_emit_c [OF f, unfolded itriple_def]])
     apply (rule harmless_events)
    apply (rule triple_seq [OF triple_put_job [OF lasting_True u]])
      apply (simp add: new_job_def)
     apply (simp add: fresh_job_def new_job_def)
    apply (unfold itriple_def [symmetric])
    apply (intro itriple_rules T quiet_status)
    apply simp
    done
qed

lemma triple_any_Get: "(\<And>s. triple ids i P (k s) Q) \<Longrightarrow> triple ids i P (Get k) Q"
  by (rule triple_Get, rule triple_pre [where P' = P]) auto

lemma triple_option: "triple ids i P c Q \<Longrightarrow> (\<And>x. triple ids i P (d x) Q) \<Longrightarrow> triple ids i P (case v of None \<Rightarrow> c | Some x \<Rightarrow> d x) Q"
  by (cases v) simp_all

lemma triple_if: "triple ids i P c Q \<Longrightarrow> triple ids i P d Q \<Longrightarrow> triple ids i P (if b then c else d) Q"
  by simp

lemma triple_pair: "(\<And>x y. triple ids i P (f x y) Q) \<Longrightarrow> triple ids i P (case v of (x, y) \<Rightarrow> f x y) Q"
  by (cases v) simp

text \<open>Anything that may run from any state may run, whatever is known.\<close>

lemma triple_forget: "itriple ids i (\<lambda>_. True) c \<Longrightarrow> triple ids i P c (\<lambda>_ _. True)"
  unfolding itriple_def by (erule triple_pre) simp

text \<open>Steps that keep what is known, before others.\<close>

lemma triple_bind_keep: "itriple ids i P c \<Longrightarrow> (\<And>a. triple ids i P (f a) Q) \<Longrightarrow> triple ids i P (co_bind c f) Q"
  unfolding itriple_def by (rule triple_bind)

lemma triple_seq_keep: "itriple ids i P c \<Longrightarrow> triple ids i P d Q \<Longrightarrow> triple ids i P (co_seq c d) Q"
  unfolding itriple_def by (rule triple_seq)

abbreviation own_fresh :: "(nat \<Rightarrow> nat \<Rightarrow> string) \<Rightarrow> nat \<Rightarrow> nat \<Rightarrow> jobs_state \<Rightarrow> bool" where
  "own_fresh ids i n \<equiv> (\<lambda>s. True \<and> \<not> present (ids i n) s \<and> n < ticks s)"

lemma steady_own_fresh: "steady ids i (own_fresh ids i n)"
  by (intro steady_intros)

lemma triple_uuid7_fresh:
  "uuid_of W = ids i \<Longrightarrow> (\<And>n. triple ids i (own_fresh ids i n) (f (ids i n)) Q)
    \<Longrightarrow> triple ids i (\<lambda>_. True) (co_bind (uuid7 W) f) Q"
  by (rule triple_uuid7_bind [of ids i _ W, OF steady_lasting [OF lasting_True]])

lemmas steady_any = steady_lasting [OF lasting_True]

lemma triple_create_job:
  assumes u: "unique_ids ids"
  shows "triple ids i (own_fresh ids i n) (create_job W (ids i n) key raw_input modality device cs e ct ih) (\<lambda>_ _. True)"
  unfolding create_job_def
  by (intro triple_bind_keep itriple_draw itriple_store_op steady_own_fresh triple_pair triple_any_Get triple_option
      triple_store_new_job [OF u]) (simp add: triple_Ret)

lemma itriple_await_job [itriple_rules]: "steady ids i P \<Longrightarrow> itriple ids i P (await_job_loadable W n jid)"
  by (induction n) (auto intro!: itriple_rules)

lemma itriple_catch_any:
  "itriple ids i (\<lambda>_. True) c \<Longrightarrow> (\<And>x. itriple ids i (\<lambda>_. True) (h x)) \<Longrightarrow> itriple ids i (\<lambda>_. True) (co_catch c h)"
  unfolding itriple_def by (rule triple_catch)

lemma itriple_with_lock: "itriple ids i (\<lambda>_. True) c \<Longrightarrow> itriple ids i (\<lambda>_. True) (with_lock key c)"
  unfolding with_lock_def
  by (intro itriple_rules itriple_catch_any itriple_modify_other steady_any) auto

lemma itriple_submit_source:
  assumes u: "unique_ids ids" and W: "uuid_of W = ids i"
  shows "itriple ids i (\<lambda>_. True) (submit_source W raw_input modality device cs e ct ih)"
  unfolding itriple_def submit_source_def
proof (rule triple_uuid7_fresh [of W ids i, OF W], rule triple_bind_keep [OF itriple_draw [OF steady_own_fresh]],
    rule triple_bind_keep [OF itriple_store_op [OF steady_own_fresh]], intro triple_pair triple_if)
  fix n m st r
  show "triple ids i (own_fresh ids i n)
      (co_bind (find_job W (sr_job_id r)) (\<lambda>found.
       co_bind (case found of Some j \<Rightarrow> Ret (Some j) | None \<Rightarrow> await_job_loadable W 5 (sr_job_id r)) (\<lambda>found.
       case found of
         Some j \<Rightarrow> Ret j
       | None \<Rightarrow>
           co_seq (emit_quiet (\<lambda>sp. event_source_event_divergence sp (sr_job_id r) cs e))
             (Exc (ConsistencyPending (sr_job_id r)))))) (\<lambda>_ _. True)"
    by (rule triple_forget) (intro itriple_rules steady_any)
  show "triple ids i (own_fresh ids i n)
      (co_bind (emit_c (\<lambda>sp. event_source_event_conflict sp (sr_job_id r) cs e (sr_hash r) ih))
        (\<lambda>ev. Exc (IntentConflict (sr_job_id r)))) (\<lambda>_ _. True)"
    by (rule triple_forget) (intro itriple_rules steady_any)
  show "triple ids i (own_fresh ids i n)
      (co_bind (uuid7 W) (\<lambda>key.
      co_catch (create_job W (ids i n) key raw_input modality device (Some cs) (Some e) ct (Some ih))
        (\<lambda>x. co_bind draw (\<lambda>n'. Get (\<lambda>s.
           if map_of (jobs s) (ids i n) = None \<and> load_job_by_id (db_up W n') (ids i n) s = None
           then co_bind draw (\<lambda>m.
                co_seq (store_op (\<lambda>S. ((), release_source_event (db_up W m) cs e (ids i n) S))) (Exc x))
           else Exc x))))) (\<lambda>_ _. True)"
    by (intro triple_bind_keep [OF itriple_uuid7 [OF steady_own_fresh]] triple_catch [OF triple_create_job [OF u]] triple_forget
        itriple_rules itriple_Get steady_any)
qed

lemma itriple_submit_job:
  assumes "unique_ids ids" and "uuid_of W = ids i"
  shows "itriple ids i (\<lambda>_. True) (submit_job W raw_input modality device key cs e ct)"
proof (cases "\<exists>a b. cs = Some a \<and> e = Some b")
  case True
  then show ?thesis
    using itriple_with_lock [OF itriple_submit_source [OF assms]] by (auto simp: submit_job_def)
next
  case False
  have "itriple ids i (\<lambda>_. True)
     (co_bind (case key of None \<Rightarrow> uuid7 W | Some k \<Rightarrow> Ret k) (\<lambda>k.
         co_bind (uuid7 W) (\<lambda>jid. create_job W jid k raw_input modality device None None ct None)))"
    unfolding itriple_def
    by (intro triple_bind_keep triple_uuid7_fresh [of W ids i, OF assms(2)] triple_create_job [OF assms(1)] itriple_rules steady_any)
  then show ?thesis using False by (auto simp: submit_job_def split: option.splits)
qed

section \<open>Overrides\<close>

lemma triple_log_event:
  assumes "steady ids i P" and "\<And>s sp. P s \<Longrightarrow> may_log s (b sp)" and "\<And>sp. about ty jid (b sp)"
  shows "triple ids i P (log_event b) (\<lambda>_ s. P s \<and> logged ty jid s)"
  unfolding log_event_def
  by (rule triple_bind [OF triple_emit_c [OF assms(1,2)]], assumption, rule triple_Ret)
    (use assms(3) in \<open>unfold logged_def, blast\<close>)

lemma overridden_unreviewed:
  assumes "jobs_inv ids s" "overridden jid s" "map_of (jobs s) jid = Some j"
  shows "job_ok s jid j" "j_override j \<noteq> None" "\<not> resolved j"
proof -
  show ok: "job_ok s jid j" using assms(1,3) by (simp add: jobs_inv_def)
  show o: "j_override j \<noteq> None" using assms(2,3) by (simp add: overridden_def)
  show "\<not> resolved j" using ok o by (simp add: job_ok_def)
qed

text \<open>What a decided update does: keep an override an override, and be backed by the record of its status.\<close>

lemma set_ok_overridden:
  assumes "jobs_inv ids s" "overridden jid s"
    and f: "\<And>j. j_id (f j) = j_id j \<and> j_wal (f j) = j_wal j \<and> j_review (f j) = j_review j \<and>
      (j_override j \<noteq> None \<longrightarrow> j_override (f j) \<noteq> None)"
    and d: "\<And>j. j_status (f j) = Delivered \<Longrightarrow> j_status j = Delivered \<or> logged ''job.delivered'' jid s"
    and r: "\<And>j. j_status (f j) = Revoked \<Longrightarrow> j_status j = Revoked \<or> logged ''job.revoked'' jid s"
  shows "set_ok jid f s"
  unfolding set_ok_def
proof (intro allI impI)
  fix j
  assume j: "map_of (jobs s) jid = Some j"
  note o = overridden_unreviewed [OF assms(1,2) j]
  have "\<not> resolved (f j)" using o(3) f [of j] by (simp add: resolved_def cong: option.case_cong)
  then show "job_ok s jid (f j) \<and> (j_override j \<noteq> None \<longrightarrow> j_override (f j) \<noteq> None) \<and> (resolved j \<longrightarrow> resolved (f j))"
    using o f [of j] d [of j] r [of j] by (auto simp: job_ok_def)
qed

lemma itriple_set_overridden:
  assumes "lasting P" and "\<And>s. P s \<Longrightarrow> overridden jid s"
    and "\<And>j. j_id (f j) = j_id j \<and> j_wal (f j) = j_wal j \<and> j_review (f j) = j_review j \<and>
      (j_override j \<noteq> None \<longrightarrow> j_override (f j) \<noteq> None)"
    and "\<And>s j. P s \<Longrightarrow> j_status (f j) = Delivered \<Longrightarrow> j_status j = Delivered \<or> logged ''job.delivered'' jid s"
    and "\<And>s j. P s \<Longrightarrow> j_status (f j) = Revoked \<Longrightarrow> j_status j = Revoked \<or> logged ''job.revoked'' jid s"
  shows "itriple ids i P (set_job jid f)"
  by (rule triple_set_job [OF steady_lasting [OF assms(1)]], rule set_ok_overridden) (use assms(2-) in auto)

lemma itriple_reserve: "itriple ids i (overridden jid) (reserve W jid otype)"
  unfolding reserve_def
  by (intro itriple_rules itriple_set_overridden steady_intros) auto

lemma itriple_human_override: "itriple ids i (overridden jid) (human_override jid otype target detail device)"
proof -
  have "triple ids i (overridden jid) (emit_c (\<lambda>sp. event_human_override sp jid otype target detail device))
      (\<lambda>_ s. overridden jid s \<and> (\<exists>sp. event_human_override sp jid otype target detail device \<in> set (alog s)))"
    by (rule triple_emit_c [OF steady_lasting [OF lasting_overridden]])
      (simp add: may_log_def about_def resolving_def event_human_override_def)
  then show ?thesis unfolding human_override_def itriple_def by (rule triple_post) blast
qed

lemma itriple_fail_job: "itriple ids i (overridden jid) (fail_job jid c detail otype)"
  unfolding fail_job_def
  by (intro itriple_rules itriple_set_overridden steady_intros) auto

lemma triple_logged_then:
  assumes "lasting P" and "harmless b" and "\<And>sp. about ty jid (b sp)"
    and "itriple ids i (\<lambda>s. P s \<and> logged ty jid s) c"
  shows "itriple ids i P (co_seq (log_event b) c)"
  unfolding itriple_def
  by (rule triple_seq [OF triple_log_event [OF steady_lasting [OF assms(1)] harmlessD [OF assms(2)] assms(3)]],
      rule triple_post [OF assms(4) [unfolded itriple_def]]) blast

lemma itriple_revoke_job: "itriple ids i (overridden jid) (revoke_job W jid reason ref succ_id otype)"
  unfolding revoke_job_def
  by (intro triple_logged_then [where ty = "''job.revoked''" and jid = jid] itriple_rules itriple_set_overridden steady_intros)
    (auto simp: about_def event_job_revoked_def)

lemma itriple_spawn_successor:
  assumes u: "unique_ids ids" and W: "uuid_of W = ids i" and L: "lasting L"
  shows "itriple ids i L (spawn_successor W jid target)"
  unfolding itriple_def spawn_successor_def
proof (rule triple_uuid7_bind [of ids i _ W, OF steady_lasting [OF L] W])
  fix n
  let ?P = "\<lambda>s. L s \<and> \<not> present (ids i n) s \<and> n < ticks s"
  have P: "steady ids i ?P" by (intro steady_intros L)
  note keep = steady_lasting [OF L]
  have put: "triple ids i ?P (modify (put_job (successor_job (ids i n) t j e target))) (\<lambda>_. L)" for t j e
    by (rule triple_put_job [OF L u]) (simp_all add: successor_job_def new_job_def fresh_job_def)
  have rest: "triple ids i L
      (co_seq (persist_job W (ids i n)) (co_seq (log_event b)
        (co_bind (enqueue (ids i n)) (\<lambda>ok.
         if ok then Ret (ids i n)
         else co_seq (set_job (ids i n) (\<lambda>j. j\<lparr>j_status := Failed, j_error := Some ''pipeline_queue_full''\<rparr>))
              (co_seq (persist_job W (ids i n)) (Ret (ids i n))))))) (\<lambda>_. L)" if "harmless b" for b
    unfolding itriple_def [symmetric] by (intro itriple_rules keep that quiet_status) simp
  show "triple ids i ?P
      (co_bind (now W) (\<lambda>t.
       case model_entry_for target of
         None \<Rightarrow> Exc (ValueError ''Unknown capability_id for redirect'')
       | Some e \<Rightarrow>
           with_job jid (\<lambda>j.
           co_seq (modify (put_job (successor_job (ids i n) t j e target)))
           (co_seq (persist_job W (ids i n))
           (co_seq (log_event (\<lambda>sp. event_job_classified sp (ids i n)
               (case j_category j of None \<Rightarrow> ''unknown'' | Some c \<Rightarrow> if c = [] then ''unknown'' else c) 1
               (target = ''route.local'') (if target = ''route.local'' then ''local'' else ''cloud'') [me_model e] target))
           (co_bind (enqueue (ids i n)) (\<lambda>ok.
            if ok then Ret (ids i n)
            else co_seq (set_job (ids i n) (\<lambda>j. j\<lparr>j_status := Failed, j_error := Some ''pipeline_queue_full''\<rparr>))
                 (co_seq (persist_job W (ids i n)) (Ret (ids i n)))))))))) (\<lambda>_. L)"
    unfolding with_job_def
    by (intro triple_bind_keep [OF itriple_now [OF P]] triple_option triple_Exc triple_any_Get
        triple_seq [OF put] rest harmless_events)
qed

lemma triple_override_modify:
  assumes r: "triple ids i P (reserve W jid ''modify'') (\<lambda>_. overridden jid)"
  shows "triple ids i P (override_modify W jid delivered target detail device modified) (\<lambda>_. overridden jid)"
proof -
  have k: "steady ids i (overridden jid)" by (intro steady_intros)
  have q: "itriple ids i (overridden jid) (set_job jid (\<lambda>j. j\<lparr>j_result := Some modified, j_override := Some ''modify''\<rparr>))"
    by (rule itriple_set_overridden) (auto intro: steady_intros)
  have d: "itriple ids i (overridden jid) (co_seq (log_event (\<lambda>sp. event_job_delivered sp jid))
           (co_bind (now W) (\<lambda>t. set_job jid (\<lambda>j. j\<lparr>j_status := Delivered, j_delivered_at := Some t\<rparr>))))"
    by (intro triple_logged_then [where ty = "''job.delivered''" and jid = jid] itriple_rules itriple_set_overridden steady_intros)
      (auto simp: about_def event_job_delivered_def)
  have n: "''modified'' \<notin> set TERMINAL_REVIEW_DECISIONS" by (simp add: TERMINAL_REVIEW_DECISIONS_def)
  show ?thesis
    unfolding override_modify_def
    by (rule triple_seq [OF r], unfold itriple_def [symmetric])
      (intro itriple_seq itriple_bind itriple_if itriple_with_job itriple_human_override itriple_uuid7
        itriple_write_result itriple_log_event harmless_reviewed itriple_Ret k q d n)
qed

lemma itriple_override_modify:
  "itriple ids i (overridden jid) (override_modify W jid delivered target detail device modified)"
  unfolding itriple_def by (rule triple_override_modify) (rule itriple_reserve [unfolded itriple_def])

definition deps_outside :: "'x job_deps_scheme \<Rightarrow> bool" where
  "deps_outside D \<longleftrightarrow> (case teardown D of None \<Rightarrow> True | Some f \<Rightarrow> \<forall>ctx. outside (f ctx))"

lemma itriple_take_context:
  assumes k: "steady ids i P" and c: "\<And>x. itriple ids i P (c x)"
  shows "itriple ids i P (Get (\<lambda>s. case map_of (contexts s) jid of
      None \<Rightarrow> Ret () | Some x \<Rightarrow> Put (s\<lparr>contexts := AList.delete jid (contexts s)\<rparr>) (c x)))"
  unfolding itriple_def
proof (rule triple_Get)
  fix s
  assume P: "P s"
  have "triple ids i (\<lambda>x. x = s) (Put (s\<lparr>contexts := AList.delete jid (contexts s)\<rparr>) (c x)) (\<lambda>_. P)" for x
    by (rule triple_Put_other [OF k P _ _ _ c [unfolded itriple_def]]) simp_all
  moreover have "triple ids i (\<lambda>x. x = s) (Ret ()) (\<lambda>_. P)" by (rule triple_Ret) (simp add: P)
  ultimately show "triple ids i (\<lambda>x. x = s) (case map_of (contexts s) jid of
      None \<Rightarrow> Ret () | Some x \<Rightarrow> Put (s\<lparr>contexts := AList.delete jid (contexts s)\<rparr>) (c x)) (\<lambda>_. P)"
    by (cases "map_of (contexts s) jid") simp_all
qed

lemma itriple_drop_context:
  assumes k: "steady ids i P" and D: "deps_outside D"
  shows "itriple ids i P (drop_context D jid)"
  unfolding drop_context_def
  using D by (intro itriple_take_context k) (auto simp: deps_outside_def intro!: itriple_rules itriple_outside k split: option.split)

lemma itriple_demote [itriple_rules]: "steady ids i P \<Longrightarrow> itriple ids i P (demote_for_override D cap jid otype)"
  unfolding demote_for_override_def by (intro itriple_rules)

lemma itriple_finish_override:
  "deps_outside D \<Longrightarrow> steady ids i P \<Longrightarrow> itriple ids i P (finish_override W D jid otype res)"
  unfolding finish_override_def by (intro itriple_rules itriple_drop_context)

lemma itriple_override_branch:
  assumes u: "unique_ids ids" and W: "uuid_of W = ids i" and D: "deps_outside D"
  shows "itriple ids i (overridden jid) (override_branch W D jid st otype target detail device modified)"
proof -
  have k: "steady ids i (overridden jid)" by (intro steady_intros)
  note parts = itriple_human_override itriple_fail_job itriple_revoke_job
    itriple_spawn_successor [of ids W i, OF u W lasting_overridden]
  have c: "itriple ids i (overridden jid) (override_cancel W jid pre target detail device)" for pre
    unfolding override_cancel_def by (intro itriple_bind itriple_seq itriple_if itriple_Ret parts)
  have r: "itriple ids i (overridden jid) (override_redirect W jid pre target detail device)" for pre
    unfolding override_redirect_def by (intro itriple_bind itriple_seq itriple_if itriple_Ret parts)
  have e: "itriple ids i (overridden jid) (override_escalate W jid target detail device)"
    unfolding override_escalate_def by (intro itriple_bind itriple_seq itriple_Ret parts)
  show ?thesis
    unfolding override_branch_def Let_def
    by (intro itriple_if itriple_option itriple_bind c r e itriple_override_modify itriple_finish_override [OF D k] itriple_Ret)
qed

text \<open>The first writer: a job that is present, not overridden and not reviewed is reserved in the step that checked it.\<close>

lemma triple_reserve:
  assumes "map_of (jobs s) jid = Some j" and "\<not> resolved j"
  shows "triple ids i (\<lambda>x. x = s) (reserve W jid otype) (\<lambda>_. overridden jid)"
proof -
  have "triple ids i (\<lambda>x. x = s) (set_job jid (\<lambda>j. j\<lparr>j_override := Some otype\<rparr>)) (\<lambda>_. overridden jid)"
    unfolding set_job_def
  proof (rule triple_modify)
    fix x
    assume x: "jobs_inv ids x" "x = s"
    have "job_ok s jid j" using x assms(1) by (simp add: jobs_inv_def)
    then have "set_ok jid (\<lambda>j. j\<lparr>j_override := Some otype\<rparr>) x"
      using assms x(2) by (simp add: set_ok_def job_ok_def resolved_def cong: option.case_cong)
    from own_set_job [OF x(1) TrueI steady_any this]
    show "gua_of ids i x (x\<lparr>jobs := dict_modify jid (\<lambda>j. j\<lparr>j_override := Some otype\<rparr>) (jobs x)\<rparr>) \<and>
        overridden jid (x\<lparr>jobs := dict_modify jid (\<lambda>j. j\<lparr>j_override := Some otype\<rparr>) (jobs x)\<rparr>)"
      using assms(1) x(2) by (simp add: overridden_def map_of_dict_modify)
  qed
  then show ?thesis
    unfolding reserve_def
    by (rule triple_seq) (rule itriple_persist [unfolded itriple_def, OF steady_lasting [OF lasting_overridden]])
qed

lemma triple_unreserved_branch:
  assumes j: "map_of (jobs s) jid = Some j" "\<not> resolved j"
    and D: "deps_outside D" and o: "otype \<notin> {''cancel'', ''redirect'', ''escalate''}"
  shows "triple ids i (\<lambda>x. x = s) (override_branch W D jid st otype target detail device modified) (\<lambda>_ _. True)"
proof -
  have m: "triple ids i (\<lambda>x. x = s)
     (co_bind (override_modify W jid d target detail device m') (finish_override W D jid otype)) (\<lambda>_ _. True)" for d m'
    by (rule triple_bind [OF triple_override_modify [OF triple_reserve [OF j]]],
        rule triple_True [OF itriple_finish_override [OF D, unfolded itriple_def]])
      (intro steady_intros)
  have other: "(otype = ''cancel'') = False" "(otype = ''redirect'') = False" "(otype = ''escalate'') = False"
    using o by simp_all
  show ?thesis
    unfolding override_branch_def Let_def other if_False
    by (intro triple_if triple_option triple_Ret m TrueI)
qed

lemma triple_first_override:
  assumes j: "map_of (jobs s) jid = Some j" "\<not> resolved j"
    and u: "unique_ids ids" and W: "uuid_of W = ids i" and D: "deps_outside D"
  shows "triple ids i (\<lambda>x. x = s)
    (co_seq (if otype \<in> {''cancel'', ''redirect'', ''escalate''} then reserve W jid otype else Ret ())
    (co_seq (if j_status j = Proposal_ready then reserve W jid otype else Ret ())
    (override_branch W D jid (j_status j) otype target detail device modified))) (\<lambda>_ _. True)"
    (is "triple _ _ _ (co_seq ?c (co_seq ?d ?branch)) _")
proof -
  note res = triple_reserve [OF j, of ids i W otype]
  note branch = triple_True [OF itriple_override_branch [OF u W D, unfolded itriple_def]]
  have again: "triple ids i (overridden jid) (co_seq ?d ?branch) (\<lambda>_ _. True)"
    by (rule triple_seq [OF _ branch]) (auto simp: itriple_def [symmetric] itriple_reserve itriple_Ret)
  have skip: "co_seq (Ret ()) c = c" for c :: "'b task" by (simp add: co_seq_def)
  show ?thesis
  proof (cases "otype \<in> {''cancel'', ''redirect'', ''escalate''}")
    case True
    then show ?thesis using triple_seq [OF res again] by (simp only: if_True)
  next
    case o: False
    show ?thesis
    proof (cases "j_status j = Proposal_ready")
      case True
      then show ?thesis using triple_seq [OF res branch] o by (simp only: simp_thms if_True if_False skip)
    next
      case False
      then show ?thesis using triple_unreserved_branch [OF j D o] o by (simp only: if_False skip)
    qed
  qed
qed

lemma itriple_override_job:
  assumes "unique_ids ids" and "uuid_of W = ids i" and "deps_outside D"
  shows "itriple ids i (\<lambda>_. True) (override_job W D jid otype target detail device modified)"
  unfolding itriple_def override_job_def
proof (rule triple_Get)
  fix s
  have "triple ids i (\<lambda>x. x = s)
     (case override_refusal j of
        Some reason \<Rightarrow> Ret [(''status'', ''no_op''), (''reason'', reason), (''job_id'', jid)]
      | None \<Rightarrow>
          co_seq (if otype \<in> {''cancel'', ''redirect'', ''escalate''} then reserve W jid otype else Ret ())
          (co_seq (if j_status j = Proposal_ready then reserve W jid otype else Ret ())
          (override_branch W D jid (j_status j) otype target detail device modified))) (\<lambda>_ _. True)"
    if "map_of (jobs s) jid = Some j" for j
  proof (cases "override_refusal j")
    case None
    then have "\<not> resolved j" by (auto simp: override_refusal_def split: if_splits)
    with None show ?thesis using triple_first_override [OF that _ assms] by simp
  qed (simp add: triple_Ret)
  then show "triple ids i (\<lambda>x. x = s)
     (case map_of (jobs s) jid of
        None \<Rightarrow> Ret [(''status'', ''not_found''), (''job_id'', jid)]
      | Some j \<Rightarrow>
          (case override_refusal j of
             Some reason \<Rightarrow> Ret [(''status'', ''no_op''), (''reason'', reason), (''job_id'', jid)]
           | None \<Rightarrow>
               co_seq (if otype \<in> {''cancel'', ''redirect'', ''escalate''} then reserve W jid otype else Ret ())
               (co_seq (if j_status j = Proposal_ready then reserve W jid otype else Ret ())
               (override_branch W D jid (j_status j) otype target detail device modified)))) (\<lambda>_ _. True)"
    by (cases "map_of (jobs s) jid") (simp_all add: triple_Ret)
qed

section \<open>Reviews and auto-accept\<close>

text \<open>An update of the status that the audit trail backs, with the decisions untouched.\<close>

lemma set_ok_backed:
  assumes "jobs_inv ids s"
    and f: "\<And>j. j_id (f j) = j_id j \<and> j_wal (f j) = j_wal j \<and> j_review (f j) = j_review j \<and> j_override (f j) = j_override j"
    and d: "\<And>j. j_status (f j) = Delivered \<Longrightarrow> j_status j = Delivered \<or> logged ''job.delivered'' jid s"
    and r: "\<And>j. j_status (f j) = Revoked \<Longrightarrow> j_status j = Revoked"
  shows "set_ok jid f s"
  unfolding set_ok_def
proof (intro allI impI)
  fix j
  assume j: "map_of (jobs s) jid = Some j"
  have ok: "job_ok s jid j" using assms(1) j by (simp add: jobs_inv_def)
  have "resolved (f j) = resolved j" using f [of j] by (simp add: resolved_def cong: option.case_cong)
  then show "job_ok s jid (f j) \<and> (j_override j \<noteq> None \<longrightarrow> j_override (f j) \<noteq> None) \<and> (resolved j \<longrightarrow> resolved (f j))"
    using ok f [of j] d [of j] r [of j] by (auto simp: job_ok_def)
qed

lemma itriple_set_backed:
  assumes "lasting P"
    and "\<And>j. j_id (f j) = j_id j \<and> j_wal (f j) = j_wal j \<and> j_review (f j) = j_review j \<and> j_override (f j) = j_override j"
    and "\<And>s j. P s \<Longrightarrow> j_status (f j) = Delivered \<Longrightarrow> j_status j = Delivered \<or> logged ''job.delivered'' jid s"
    and "\<And>j. j_status (f j) = Revoked \<Longrightarrow> j_status j = Revoked"
  shows "itriple ids i P (set_job jid f)"
  by (rule triple_set_job [OF steady_lasting [OF assms(1)]], rule set_ok_backed) (use assms(2-) in auto)

text \<open>The first writer again: the decision is stored in the step that checked the job.\<close>

lemma triple_decide_review:
  assumes j: "map_of (jobs s) jid = Some j" "j_override j = None" and d: "decision \<in> set TERMINAL_REVIEW_DECISIONS"
    and f: "\<And>j. j_id (f j) = j_id j \<and> j_wal (f j) = j_wal j \<and> j_override (f j) = j_override j"
    and st: "j_status (f j) \<notin> {Delivered, Revoked}"
  shows "triple ids i (\<lambda>x. x = s) (decide_review W jid decision f) (\<lambda>_. reviewed jid)"
proof -
  let ?f = "\<lambda>j. (f j)\<lparr>j_review := Some decision\<rparr>"
  have "triple ids i (\<lambda>x. x = s) (set_job jid ?f) (\<lambda>_. reviewed jid)"
    unfolding set_job_def
  proof (rule triple_modify)
    fix x
    assume x: "jobs_inv ids x" "x = s"
    have "job_ok s jid j" using x j(1) by (simp add: jobs_inv_def)
    then have "set_ok jid ?f x"
      using j d x(2) f [of j] st by (simp add: set_ok_def job_ok_def resolved_def)
    from own_set_job [OF x(1) TrueI steady_any this]
    show "gua_of ids i x (x\<lparr>jobs := dict_modify jid ?f (jobs x)\<rparr>) \<and> reviewed jid (x\<lparr>jobs := dict_modify jid ?f (jobs x)\<rparr>)"
      using j(1) x(2) d by (simp add: reviewed_def map_of_dict_modify resolved_def)
  qed
  then show ?thesis
    unfolding decide_review_def
    by (rule triple_seq) (rule itriple_persist [unfolded itriple_def, OF steady_lasting [OF lasting_reviewed]])
qed

lemma itriple_log_reviewed:
  "itriple ids i (reviewed jid) (log_event (\<lambda>sp. event_human_reviewed sp jid d dev n o1 o2 o3 o4))"
proof -
  have k: "steady ids i (reviewed jid)" by (intro steady_intros)
  have "triple ids i (reviewed jid) (log_event (\<lambda>sp. event_human_reviewed sp jid d dev n o1 o2 o3 o4))
      (\<lambda>_ s. reviewed jid s \<and> logged ''human.reviewed'' jid s)"
    by (rule triple_log_event [OF k]) (simp_all add: may_log_def about_def resolving_def event_human_reviewed_def)
  then show ?thesis unfolding itriple_def by (rule triple_post) blast
qed

lemma itriple_deliver_reviewed:
  assumes "\<And>j. j_id (f j) = j_id j \<and> j_wal (f j) = j_wal j \<and> j_review (f j) = j_review j \<and> j_override (f j) = j_override j"
  shows "itriple ids i (reviewed jid) (deliver_reviewed W jid f)"
  unfolding deliver_reviewed_def
  by (intro triple_logged_then [where ty = "''job.delivered''" and jid = jid] itriple_rules itriple_set_backed steady_intros)
    (use assms in \<open>auto simp: about_def event_job_delivered_def\<close>)

lemma itriple_respond [itriple_rules]: "steady ids i P \<Longrightarrow> itriple ids i P (respond W key ident body)"
  unfolding respond_def by (intro itriple_rules itriple_modify_other) auto

lemma triple_review_branch:
  assumes j: "map_of (jobs s) jid = Some j" "j_override j = None" "j_status j = Proposal_ready"
  shows "triple ids i (\<lambda>x. x = s) (review_branch W jid ident decision key modified device) (\<lambda>_ _. True)"
proof -
  have k: "steady ids i (reviewed jid)" by (intro steady_intros)
  have first: "triple ids i (\<lambda>x. x = s) (co_seq (decide_review W jid d f) c) (\<lambda>_ _. True)"
    if "d \<in> set TERMINAL_REVIEW_DECISIONS" and "f = id \<or> f = (\<lambda>j. j\<lparr>j_status := Closed_no_action\<rparr>)"
      and "itriple ids i (reviewed jid) c" for d f and c :: "review_reply task"
    by (rule triple_seq [OF triple_decide_review [OF j(1,2) that(1)] triple_True [OF that(3) [unfolded itriple_def]]])
      (use that(2) j(3) in auto)
  have ap: "triple ids i (\<lambda>x. x = s) (review_approve W jid ident key device) (\<lambda>_ _. True)"
    unfolding review_approve_def human_reviewed_def
    by (intro first itriple_rules itriple_log_reviewed itriple_deliver_reviewed k) (simp_all add: TERMINAL_REVIEW_DECISIONS_def)
  have ed: "triple ids i (\<lambda>x. x = s) (review_edit W jid ident key m device) (\<lambda>_ _. True)" for m
    unfolding review_edit_def
    by (intro first itriple_rules itriple_log_reviewed itriple_deliver_reviewed k) (simp_all add: TERMINAL_REVIEW_DECISIONS_def)
  have rj: "triple ids i (\<lambda>x. x = s) (review_reject W jid ident key device) (\<lambda>_ _. True)"
    unfolding review_reject_def human_reviewed_def
    by (intro first itriple_rules itriple_log_reviewed quiet_status k) (simp_all add: TERMINAL_REVIEW_DECISIONS_def)
  have dc: "triple ids i (\<lambda>x. x = s) (review_decline W jid ident key device) (\<lambda>_ _. True)"
    unfolding review_decline_def human_reviewed_def
    by (intro first itriple_rules itriple_log_reviewed k) (simp_all add: TERMINAL_REVIEW_DECISIONS_def)
  have df: "triple ids i (\<lambda>x. x = s) (review_defer W jid ident key device) (\<lambda>_ _. True)"
    unfolding review_defer_def human_reviewed_def
    by (rule triple_forget) (intro itriple_rules steady_any, simp add: TERMINAL_REVIEW_DECISIONS_def)
  show ?thesis
    unfolding review_branch_def by (intro triple_if triple_Ret TrueI ap ed rj dc df)
qed

lemma itriple_review_job: "itriple ids i (\<lambda>_. True) (review_job W jid decision rid rhash key modified device)"
  unfolding itriple_def review_job_def Let_def
proof (rule triple_Get)
  fix s
  let ?ident = "review_identity jid decision rid rhash modified key"
  have "triple ids i (\<lambda>x. x = s)
      (if j_status j \<noteq> Proposal_ready \<or> j_override j \<noteq> None then Ret (job_conflict ''wrong_status'' j)
       else if j_result_id j \<noteq> Some rid \<or> j_response_hash j \<noteq> Some rhash then Ret (job_conflict ''stale_decision'' j)
       else (case modified_rule decision modified of
           Some err \<Rightarrow> Ret (422, [(''error'', JStr err)])
         | None \<Rightarrow> review_branch W jid ?ident decision key modified device)) (\<lambda>_ _. True)"
    if "map_of (jobs s) jid = Some j" for j
    using triple_review_branch [OF that, of ids i W ?ident decision key modified device]
    by (simp add: triple_Ret split: option.split)
  then show "triple ids i (\<lambda>x. x = s)
      (case get_review_outcome key (idem s) of
         Some r \<Rightarrow>
           if payload_identity r = ?ident then Ret (outcome_code r, outcome_body r)
           else Ret (409, [(''error'', JStr ''decision_idempotency_key_conflict'')])
       | None \<Rightarrow>
           (case map_of (jobs s) jid of
              None \<Rightarrow> Ret (404, [(''error'', JStr ''job_not_found''), (''job_id'', JStr jid)])
            | Some j \<Rightarrow>
                if j_status j \<noteq> Proposal_ready \<or> j_override j \<noteq> None then Ret (job_conflict ''wrong_status'' j)
                else if j_result_id j \<noteq> Some rid \<or> j_response_hash j \<noteq> Some rhash then Ret (job_conflict ''stale_decision'' j)
                else (case modified_rule decision modified of
                    Some err \<Rightarrow> Ret (422, [(''error'', JStr err)])
                  | None \<Rightarrow> review_branch W jid ?ident decision key modified device))) (\<lambda>_ _. True)"
    by (cases "get_review_outcome key (idem s)"; cases "map_of (jobs s) jid") (simp_all add: triple_Ret)
qed

text \<open>No job has a level of two, so nothing is ever auto-accepted.\<close>

lemma never_due:
  assumes "jobs_inv ids s"
  shows "\<not> auto_accept_due window t (job_of s jid)"
proof (cases "map_of (jobs s) jid")
  case None
  then show ?thesis by (simp add: auto_accept_due_def job_of_def new_job_def)
next
  case (Some j)
  then have "case j_wal j of None \<Rightarrow> True | Some w \<Rightarrow> w < 2" using assms by (simp add: jobs_inv_def job_ok_def)
  then show ?thesis using Some by (auto simp: auto_accept_due_def job_of_def split: option.splits)
qed

lemma itriple_check_auto_accept: "itriple ids i (\<lambda>_. True) (check_auto_accept W window jid)"
  unfolding check_auto_accept_def with_job_def
  by (intro itriple_rules itriple_Get steady_any) (metis never_due)+

lemma itriple_auto_accept: "itriple ids i (\<lambda>_. True) (auto_accept_round W window js)"
  by (induction js) (auto intro!: itriple_rules itriple_catch_any itriple_check_auto_accept)

section \<open>The pipeline\<close>

definition pipeline_outside :: "'p pipeline_deps_scheme \<Rightarrow> bool" where
  "pipeline_outside P \<longleftrightarrow> deps_outside P \<and>
    (\<forall>x. outside (classify_c P x)) \<and>
    (\<forall>f r. route_available P = Some f \<longrightarrow> outside (f r)) \<and>
    (\<forall>jid. outside (prepare_c P jid)) \<and>
    (\<forall>f a b c d e. package_c P = Some f \<longrightarrow> outside (f a b c d e)) \<and>
    (\<forall>f a b c. execute_c P = Some f \<longrightarrow> outside (f a b c)) \<and>
    (\<forall>x. outside (generate_c P x)) \<and>
    (\<forall>a b c d e f g. outside (dispatch_c P a b c d e f g))"

lemma outside_parts:
  assumes "pipeline_outside P"
  shows "deps_outside P" "outside (classify_c P x)" "route_available P = Some f \<Longrightarrow> outside (f r)"
    "outside (prepare_c P jid)" "package_c P = Some pk \<Longrightarrow> outside (pk a1 a2 a3 a4 a5)"
    "execute_c P = Some ex \<Longrightarrow> outside (ex ctx a2 a3)" "outside (generate_c P x)"
    "outside (dispatch_c P a1 a2 a3 a4 a5 a6 a7)"
    "teardown P = Some td \<Longrightarrow> outside (td ctx)"
  using assms unfolding pipeline_outside_def deps_outside_def by auto

abbreviation anytime :: "(nat \<Rightarrow> nat \<Rightarrow> string) \<Rightarrow> nat \<Rightarrow> 'a task \<Rightarrow> bool" where
  "anytime ids i c \<equiv> itriple ids i (\<lambda>_. True) c"

lemma itriple_option_eq:
  "(v = None \<Longrightarrow> itriple ids i P c) \<Longrightarrow> (\<And>x. v = Some x \<Longrightarrow> itriple ids i P (d x))
    \<Longrightarrow> itriple ids i P (case v of None \<Rightarrow> c | Some x \<Rightarrow> d x)"
  by (cases v) simp_all

lemma quiet_simps [itriple_rules]:
  "quiet (\<lambda>j. (id j)\<lparr>j_status := Failed, j_error := e\<rparr>)"
  "quiet (\<lambda>j. (j\<lparr>j_failing := x\<rparr>)\<lparr>j_status := Failed, j_error := e\<rparr>)"
  "quiet (\<lambda>j. j\<lparr>j_wal := Some 0\<rparr>)"
  "quiet (\<lambda>j. j\<lparr>j_proposal_id := p\<rparr>)"
  "quiet (\<lambda>j. j\<lparr>j_status := Proposal_ready\<rparr>)"
  "quiet (\<lambda>j. j\<lparr>j_status := Dispatched, j_dispatched_at := t\<rparr>)"
  "quiet (\<lambda>j. j\<lparr>j_status := Response_received, j_response_at := t, j_result := r, j_result_id := ri, j_response_hash := h\<rparr>)"
  "quiet (\<lambda>j. j\<lparr>j_status := Classified, j_classified_at := t, j_category := c, j_routing := ro, j_models := m,
     j_capability := ca, j_confidence := q\<rparr>)"
  by (simp_all add: quiet_def)

lemma itriple_first_model [itriple_rules]: "itriple ids i P (first_model p)"
  unfolding first_model_def by (intro itriple_option itriple_Exc) (simp add: itriple_Exc itriple_Ret split: list.split)

lemma anytime_mark_failed [itriple_rules]:
  "quiet (\<lambda>j. (f j)\<lparr>j_status := Failed, j_error := Some e\<rparr>) \<Longrightarrow> anytime ids i (mark_failed W jid e f)"
  unfolding mark_failed_def by (intro itriple_rules steady_any)

text \<open>The stages, with every call outside covered by \<open>pipeline_outside\<close>.\<close>

lemma anytime_classify_stage:
  assumes P: "pipeline_outside P"
  shows "anytime ids i (classify_stage W P jid)"
proof -
  have c: "anytime ids i (classify_job W P jid j)" for j
    unfolding classify_job_def
    by (intro itriple_rules steady_any itriple_outside outside_parts(2) [OF P])
  have d: "anytime ids i (case (j_status j, j_capability j) of
      (Classified, Some cap) \<Rightarrow> Ret (plan_of_job j cap) | _ \<Rightarrow> classify_job W P jid j)" for j
    using c by (auto simp: itriple_Ret split: job_status.split option.split)
  show ?thesis
    unfolding classify_stage_def
    by (intro itriple_bind itriple_seq itriple_with_job d itriple_set_job itriple_persist itriple_Ret quiet_simps steady_any)
qed

lemma anytime_circuit_gate:
  assumes P: "pipeline_outside P"
  shows "anytime ids i (circuit_gate W P jid p)"
  unfolding circuit_gate_def
  by (intro itriple_option_eq itriple_rules steady_any itriple_outside outside_parts(3) [OF P])

lemma anytime_check_permission: "anytime ids i (check_permission_c R cap action ctx)"
  unfolding check_permission_c_def
  by (rule itriple_Get) (auto intro!: itriple_rules steady_any split: sum.split)

lemma anytime_permission_stage: "anytime ids i (permission_stage W P jid p)"
  unfolding permission_stage_def Let_def
  by (intro itriple_rules anytime_check_permission steady_any)

lemma anytime_prepare_stage:
  assumes P: "pipeline_outside P"
  shows "anytime ids i (prepare_stage W P jid)"
  unfolding prepare_stage_def set_context_def
  by (intro itriple_rules itriple_catch_any itriple_modify_other steady_any itriple_outside outside_parts(4) [OF P]) auto

lemma anytime_fallback_stage: "anytime ids i (fallback_stage P jid p)"
  unfolding fallback_stage_def Let_def by (intro itriple_rules steady_any)

lemma anytime_package_stage:
  assumes P: "pipeline_outside P"
  shows "anytime ids i (package_stage P jid p)"
  unfolding package_stage_def
  by (intro itriple_with_job itriple_if itriple_option_eq itriple_rules steady_any itriple_outside outside_parts(5) [OF P])

lemma itriple_end_worker:
  assumes P: "pipeline_outside P" and k: "steady ids i Q"
  shows "itriple ids i Q (end_worker P jid w)"
proof (cases "teardown P")
  case (Some f)
  have "itriple ids i Q (co_seq (f ctx) (modify (\<lambda>s. s\<lparr>contexts := AList.delete jid (contexts s)\<rparr>)))" for ctx
    by (intro itriple_rules itriple_modify_other itriple_outside outside_parts(9) [OF P Some] k) auto
  then show ?thesis using Some k by (cases w) (auto simp: end_worker_def intro: itriple_rules)
qed (use k in \<open>auto simp: end_worker_def intro: itriple_rules\<close>)

lemmas anytime_end_worker = itriple_end_worker [OF _ steady_any]

lemma anytime_execute_local:
  assumes P: "pipeline_outside P"
  shows "anytime ids i (execute_local W P jid w m prompt)"
proof -
  have r: "anytime ids i (local_response W a)" for a
    unfolding local_response_def by (intro itriple_rules steady_any)
  have g: "anytime ids i (co_bind (generate_c P prompt) (\<lambda>a. co_bind (local_response W a) (\<lambda>r. Ret (Some r))))"
    by (intro itriple_rules r steady_any itriple_outside outside_parts(7) [OF P])
  have e: "anytime ids i (co_catch (co_bind (ex ctx prompt m) (\<lambda>a. co_bind (local_response W a) (\<lambda>r. Ret (Some r))))
           (\<lambda>x. co_seq (log_event (\<lambda>sp. event_job_failed sp jid ''worker_execution_failed'' (exc_text P x) None))
              (co_seq (mark_failed W jid ''worker_execution_failed'' id)
              (co_seq (end_worker P jid w) (Ret None)))))" if "execute_c P = Some ex" for ex ctx w
    by (intro itriple_catch_any itriple_rules r steady_any itriple_outside outside_parts(6) [OF P that] anytime_end_worker [OF P])
  show ?thesis
    using g e by (auto simp: execute_local_def split: option.split)
qed

lemma anytime_execute_cloud:
  assumes P: "pipeline_outside P"
  shows "anytime ids i (execute_cloud W P jid w p m prompt h ref)"
  unfolding execute_cloud_def Let_def
  by (intro itriple_rules steady_any itriple_outside outside_parts(8) [OF P] anytime_end_worker [OF P])

lemma anytime_dispatch_stage:
  assumes P: "pipeline_outside P"
  shows "anytime ids i (dispatch_stage W P jid w p g pkg)"
  unfolding dispatch_stage_def Let_def
  by (intro itriple_rules steady_any anytime_execute_local [OF P] anytime_execute_cloud [OF P])

lemma anytime_finish_stage:
  assumes P: "pipeline_outside P"
  shows "anytime ids i (finish_stage W P jid w p g r)"
proof -
  have r: "anytime ids i (receive_stage W jid p m r)" for m
    unfolding receive_stage_def Let_def by (intro itriple_rules steady_any)
  have p: "anytime ids i (propose_stage W P jid w p m r reason)" for m reason
    unfolding propose_stage_def by (intro itriple_rules steady_any anytime_end_worker [OF P])
  have ew: "itriple ids i (\<lambda>s. True \<and> logged ''job.delivered'' jid s) (end_worker P jid w)"
    by (intro itriple_end_worker P steady_intros)
  have d: "anytime ids i (deliver_stage W P jid w)"
    unfolding deliver_stage_def
    by (intro triple_logged_then [where ty = "''job.delivered''" and jid = jid] itriple_bind itriple_seq itriple_set_backed
        itriple_now itriple_persist ew harmless_events steady_intros) (auto simp: about_def event_job_delivered_def)
  show ?thesis
    unfolding finish_stage_def by (intro itriple_rules r p d steady_any)
qed

lemma anytime_run_pipeline:
  assumes P: "pipeline_outside P"
  shows "anytime ids i (run_pipeline W P jid)"
  unfolding run_pipeline_def granted_stage_def
  by (intro itriple_Get itriple_rules anytime_classify_stage anytime_circuit_gate anytime_permission_stage anytime_prepare_stage
      anytime_fallback_stage anytime_package_stage anytime_dispatch_stage anytime_finish_stage P steady_any)

lemma anytime_pipeline_failed:
  assumes P: "pipeline_outside P"
  shows "anytime ids i (pipeline_failed W P jid)"
  unfolding pipeline_failed_def
  by (intro itriple_seq itriple_take_context itriple_Get itriple_option_eq itriple_if itriple_catch_any itriple_Ret
      anytime_mark_failed quiet_simps steady_any itriple_outside outside_parts(9) [OF P])

lemma anytime_worker_iteration:
  assumes P: "pipeline_outside P"
  shows "anytime ids i (worker_iteration W P)"
  unfolding worker_iteration_def
  by (intro itriple_Wait itriple_Get_Put_other itriple_catch_any itriple_seq itriple_Ret anytime_run_pipeline [OF P]
      anytime_pipeline_failed [OF P] steady_any) simp_all

section \<open>Any number of handlers, in any order\<close>

datatype request =
    Submission string string string "string option" "string option" "string option" "string option"
  | Override string string string string string "string option"
  | Review string string string string string "string option" string
  | Auto_accept int "string list"
  | Work

definition detached :: "'a task \<Rightarrow> unit task" where
  "detached c = co_bind c (\<lambda>_. Ret ())"

fun serve :: "world \<Rightarrow> 'p pipeline_deps_scheme \<Rightarrow> request \<Rightarrow> unit task" where
  "serve W P (Submission raw modality device key cs ev ct) = detached (submit_job W raw modality device key cs ev ct)"
| "serve W P (Override jid otype target detail device modified) =
     detached (override_job W (job_deps.truncate P) jid otype target detail device modified)"
| "serve W P (Review jid decision rid rhash key modified device) =
     detached (review_job W jid decision rid rhash key modified device)"
| "serve W P (Auto_accept window js) = auto_accept_round W window js"
| "serve W P Work = worker_iteration W P"

lemma anytime_detached: "anytime ids i c \<Longrightarrow> anytime ids i (detached c)"
  unfolding detached_def by (intro itriple_rules)

lemma anytime_serve:
  assumes "pipeline_outside P" and "unique_ids ids" and "uuid_of W = ids i"
  shows "anytime ids i (serve W P r)"
proof -
  have D: "deps_outside (job_deps.truncate P)"
    using outside_parts(1) [OF assms(1)] by (simp add: deps_outside_def job_deps.defs cong: option.case_cong)
  show ?thesis
    by (cases r) (simp_all add: anytime_detached itriple_submit_job itriple_override_job itriple_review_job
      itriple_auto_accept anytime_worker_iteration assms D)
qed

lemma reachable_inv:
  assumes r: "reachable E (\<lambda>i. range (serve (W i) P)) s0 cs s"
    and i: "jobs_inv (\<lambda>i. uuid_of (W i)) s0" and u: "unique_ids (\<lambda>i. uuid_of (W i))" and P: "pipeline_outside P"
  shows "jobs_inv (\<lambda>i. uuid_of (W i)) s \<and> keeps (\<lambda>_. True) s0 s"
proof -
  let ?ids = "\<lambda>i. uuid_of (W i)"
  have more: "guar ids own a b \<Longrightarrow> guar ids (\<lambda>_. True) a b" for ids own a b
    by (simp add: guar_def keeps_def)
  have "guar ?ids (\<lambda>_. True) s0 s \<and> (\<forall>k < length cs. parked (rel_of ?ids k) (gua_of ?ids k) (cs ! k) s)"
  proof (rule reachable_guarantee [OF r])
    fix k t and c :: "unit task"
    assume "c \<in> range (serve (W k) P)" and t: "guar ?ids (\<lambda>_. True) s0 t"
    then obtain q where c: "c = serve (W k) P q" by blast
    have "jobs_inv ?ids t" using t i by (simp add: guar_def)
    then have "safe (rel_of ?ids k) (gua_of ?ids k) (\<lambda>r t. jobs_inv ?ids t \<and> (case r of Inl x \<Rightarrow> True | Inr v \<Rightarrow> True)) c t"
      using anytime_serve [OF P u, of "W k" k q] unfolding itriple_def triple_def c by blast
    then show "safe (rel_of ?ids k) (gua_of ?ids k) (\<lambda>_ _. True) c t" by (rule safe_weaken) simp
  next
    show "preorder_rel (rel_of ?ids k)" "preorder_rel (gua_of ?ids k)" "preorder_rel (guar ?ids (\<lambda>_. True))" for k
      unfolding rel_of_def gua_of_def by (rule guar_preorder)+
  next
    fix a b and x y :: jobs_state
    assume "a \<noteq> b" and g: "gua_of ?ids a x y"
    then have "mine ?ids a jid \<Longrightarrow> \<not> mine ?ids b jid" for jid
      using u unfolding unique_ids_def mine_def by metis
    then show "rel_of ?ids b x y" using g unfolding gua_of_def rel_of_def guar_def keeps_def by blast
  next
    show "guar ?ids (\<lambda>_. True) x y" if "gua_of ?ids k x y" for k x y using more that unfolding gua_of_def by blast
    show "guar ?ids (\<lambda>_. True) x y" if "rel_of ?ids k x y" for k x y using more that unfolding rel_of_def by blast
  qed
  then show ?thesis using i by (simp add: guar_def)
qed

text \<open>A start without jobs and without a trail satisfies the invariant, and so does one waiting proposal.\<close>

lemma empty_start: "jobs s = [] \<Longrightarrow> alog s = [] \<Longrightarrow> jobs_inv ids s"
  by (simp add: jobs_inv_def logged_def resolution_logged_def present_def)

lemma exclusive_decisions:
  assumes "reachable E (\<lambda>i. range (serve (W i) P)) s0 cs s"
    and "jobs_inv (\<lambda>i. uuid_of (W i)) s0" and "unique_ids (\<lambda>i. uuid_of (W i))" and "pipeline_outside P"
  shows "\<not> (logged ''human.override'' jid s \<and> resolution_logged jid s) \<and>
    (overridden jid s0 \<longrightarrow> overridden jid s) \<and> (reviewed jid s0 \<longrightarrow> reviewed jid s) \<and>
    (\<forall>j. map_of (jobs s) jid = Some j \<longrightarrow>
       \<not> (j_override j \<noteq> None \<and> resolved j) \<and>
       (j_status j = Delivered \<longrightarrow> logged ''job.delivered'' jid s) \<and>
       (j_status j = Revoked \<longrightarrow> logged ''job.revoked'' jid s))"
proof -
  have i: "jobs_inv (\<lambda>i. uuid_of (W i)) s" and k: "keeps (\<lambda>_. True) s0 s"
    using reachable_inv [OF assms] by blast+
  have ok: "job_ok s jid j" if "map_of (jobs s) jid = Some j" for j
    using i that by (simp add: jobs_inv_def)
  have "\<not> (overridden jid s \<and> reviewed jid s)"
    using ok by (auto simp: overridden_def reviewed_def job_ok_def)
  then have "\<not> (logged ''human.override'' jid s \<and> resolution_logged jid s)"
    using i unfolding jobs_inv_def by blast
  moreover have "(overridden jid s0 \<longrightarrow> overridden jid s) \<and> (reviewed jid s0 \<longrightarrow> reviewed jid s)"
    using k by (simp add: keeps_def)
  ultimately show ?thesis using ok unfolding job_ok_def by blast
qed

text \<open>
  C2: Override and review exclude each other, under every schedule. Any number of submissions,
  overrides, reviews, auto-accept rounds and pipeline iterations, started at any time and interleaved in
  any order at their awaits, never leave the audit trail with both a \<open>human.override\<close> record and a
  resolving \<open>human.reviewed\<close> record (approve, edit, reject, decline) of one job; no decision, once stored,
  is undone; and a job is delivered or revoked only when its \<open>job.delivered\<close> or \<open>job.revoked\<close> record
  was written.
\<close>

theorem review_override_exclusive:
  assumes "reachable E (\<lambda>i. range (serve (W i) P)) s0 cs s"
    and "jobs_inv (\<lambda>i. uuid_of (W i)) s0" and "unique_ids (\<lambda>i. uuid_of (W i))" and "pipeline_outside P"
  shows "\<not> (logged ''human.override'' jid s \<and> resolution_logged jid s) \<and>
    (overridden jid s0 \<longrightarrow> overridden jid s) \<and> (reviewed jid s0 \<longrightarrow> reviewed jid s) \<and>
    (\<forall>j. map_of (jobs s) jid = Some j \<longrightarrow>
       \<not> (j_override j \<noteq> None \<and> resolved j) \<and>
       (j_status j = Delivered \<longrightarrow> logged ''job.delivered'' jid s) \<and>
       (j_status j = Revoked \<longrightarrow> logged ''job.revoked'' jid s))"
  using assms by (rule exclusive_decisions)

text \<open>A waiting proposal, an override and a review of it that arrive together.\<close>

definition task_world :: "nat \<Rightarrow> world" where
  "task_world i = sample_world\<lparr>uuid_of := (\<lambda>n. replicate i CHR ''a'' @ CHR ''b'' # replicate n CHR ''c'')\<rparr>"

definition idle_deps :: pipeline_deps where
  "idle_deps = \<lparr>demotion_engine = True, teardown = None,
     classify_c = (\<lambda>_. Exc RuntimeError), route_available = None, checker = None, prepare_c = (\<lambda>_. Exc RuntimeError),
     egress_routes = None, package_c = None, execute_c = None, generate_c = (\<lambda>_. Exc RuntimeError),
     dispatch_c = (\<lambda>_ _ _ _ _ _ _. Exc RuntimeError), processing_allowed = (\<lambda>_. True), exc_text = (\<lambda>_. [])\<rparr>"

definition waiting :: jobs_state where
  "waiting = put_job ((new_job ''j1'' ''hi'' ''text'' ''phone'' 0)
     \<lparr>j_status := Proposal_ready, j_result_id := Some ''r1'', j_response_hash := Some ''h1''\<rparr>) (empty_jobs None)"

lemma unique_task_ids: "unique_ids (\<lambda>i. uuid_of (task_world i))"
proof -
  have "takeWhile (\<lambda>x. x = CHR ''a'') (replicate i CHR ''a'' @ CHR ''b'' # replicate n CHR ''c'') = replicate i CHR ''a''"
    "dropWhile (\<lambda>x. x = CHR ''a'') (replicate i CHR ''a'' @ CHR ''b'' # replicate n CHR ''c'') = CHR ''b'' # replicate n CHR ''c''" for i n
    by (induction i) simp_all
  then show ?thesis
    unfolding unique_ids_def task_world_def
    by simp (metis length_replicate list.inject)
qed

lemma idle_outside: "pipeline_outside idle_deps"
  by (simp add: pipeline_outside_def deps_outside_def outside_def idle_deps_def)

lemma task_id_other: "replicate i CHR ''a'' @ CHR ''b'' # x \<noteq> CHR ''j'' # y"
  by (cases i) simp_all

lemma waiting_inv: "jobs_inv (\<lambda>i. uuid_of (task_world i)) waiting"
  by (auto simp: jobs_inv_def waiting_def put_job_def empty_jobs_def new_job_def job_ok_def resolved_def logged_def
      resolution_logged_def present_def task_world_def task_id_other)

theorem review_override_exclusive_witness:
  "\<exists>cs s. reachable good_env (\<lambda>i. range (serve (task_world i) idle_deps)) waiting cs s \<and>
    logged ''human.override'' ''j1'' s \<and> \<not> resolution_logged ''j1'' s"
proof -
  let ?H = "\<lambda>i. range (serve (task_world i) idle_deps)"
  let ?c = "serve (task_world 0) idle_deps (Override ''j1'' ''cancel'' ''routing'' ''why'' ''phone'' None)"
  let ?r = "serve (task_world 1) idle_deps (Review ''j1'' ''approve'' ''r1'' ''h1'' ''k'' None ''phone'')"
  have "reachable good_env ?H waiting ([] @ [?c]) waiting"
    by (rule reachable.spawn [OF reachable.start]) (simp only: list.size rangeI)
  then have "reachable good_env ?H waiting (([] @ [?c]) @ [?r]) waiting"
    by (rule reachable.spawn) (simp only: append_Nil list.size One_nat_def plus_nat.add_0 rangeI)
  then have two: "reachable good_env ?H waiting [?c, ?r] waiting" by (simp only: append.simps)
  obtain c1 s1 where s1: "resume good_env ?c waiting = (c1, s1)" by fastforce
  obtain c2 s2 where s2: "resume good_env c1 s1 = (c2, s2)" by fastforce
  have "reachable good_env ?H waiting ([?c, ?r][0 := c1]) s1"
    by (rule reachable.step [OF two, where i = 0]) (use s1 in simp_all)
  then have "reachable good_env ?H waiting [c1, ?r] s1" by (simp only: list_update_code)
  then have "reachable good_env ?H waiting ([c1, ?r][0 := c2]) s2"
    by (rule reachable.step [where i = 0]) (use s2 in simp_all)
  note r = this
  have "logged ''human.override'' ''j1'' s2"
    using s1 s2
    by (auto simp: detached_def override_job_def waiting_def put_job_def empty_jobs_def new_job_def override_refusal_def
        resolved_def TERMINAL_STATES_def reserve_def set_job_def modify_def persist_job_def draw_def persist_in_def
        override_branch_def pre_delivery_states_def override_cancel_def human_override_def emit_c_def co_seq_def
        logged_def about_def event_human_override_def dict_modify_def)
  then show ?thesis
    using review_override_exclusive [OF r waiting_inv unique_task_ids idle_outside, of "''j1''"] r by blast
qed

end
