(* ===== verification/Job_Reviews.thy ===== *)
theory Job_Reviews
  imports Job_Concurrency
begin

text \<open>
  What a review and an override do to a job, one handler at a time and two at once: every answer of
  \<open>review_job\<close> with the state it leaves, replays of its idempotency key, and the two ways in which the
  first-writer guards of \<open>orchestrator/job_manager.py\<close> fail.
\<close>

section \<open>Answers and replays\<close>

text \<open>A handler whose every answer is 200 and stored for replays.\<close>

definition stored_answer :: "string \<Rightarrow> (string, json) dict \<Rightarrow> nat \<times> (string, json) dict \<Rightarrow> jobs_state \<Rightarrow> bool" where
  "stored_answer key ident v s \<longleftrightarrow> fst v = 200 \<and> (\<exists>r. get_review_outcome key (idem s) = Some r \<and>
     payload_identity r = ident \<and> outcome_code r = 200 \<and> outcome_body r = snd v)"

definition answers :: "env \<Rightarrow> string \<Rightarrow> (string, json) dict \<Rightarrow> review_reply task \<Rightarrow> bool" where
  "answers E key ident c \<longleftrightarrow> (\<forall>s v s'. run E c s = Some (Inr v, s') \<longrightarrow> stored_answer key ident v s')"

named_theorems answers_rules

lemma answers_bind [answers_rules]: "(\<And>a. answers E key ident (f a)) \<Longrightarrow> answers E key ident (co_bind c f)"
  unfolding answers_def by (simp add: run_bind split: option.splits sum.splits)

lemma answers_seq [answers_rules]: "answers E key ident d \<Longrightarrow> answers E key ident (co_seq c d)"
  unfolding co_seq_def by (rule answers_bind)

lemma answers_with_job [answers_rules]: "(\<And>j. answers E key ident (f j)) \<Longrightarrow> answers E key ident (with_job jid f)"
  unfolding answers_def run_with_job by blast

lemma db_exec_review [simp]: "review_records (db_exec up f S) = review_records S"
  by (simp add: db_exec_def split: option.split)

lemma run_respond:
  "run E (respond W key ident body) s = Some (Inr (200, body), s\<lparr>ticks := Suc (ticks s),
     idem := store_review_outcome (db_up W (ticks s)) key \<lparr>payload_identity = ident, outcome_code = 200,
       outcome_body = body, applied = True, rr_created_at = clock W (ticks s)\<rparr> (idem s)\<rparr>)"
  by (simp add: respond_def run_bind run_seq)

lemma answers_respond [answers_rules]: "answers E key ident (respond W key ident body)"
  by (simp add: answers_def stored_answer_def run_respond get_review_outcome_def store_review_outcome_def db_write_review_def)

lemma answers_branches:
  "answers E key ident (review_approve W jid ident key device)"
  "answers E key ident (review_edit W jid ident key m device)"
  "answers E key ident (review_reject W jid ident key device)"
  "answers E key ident (review_defer W jid ident key device)"
  "answers E key ident (review_decline W jid ident key device)"
  unfolding review_approve_def review_edit_def review_reject_def review_defer_def review_decline_def Let_def
  by (intro answers_rules)+

lemma review_branch_answer:
  assumes "run E (review_branch W jid ident decision key m device) s = Some (Inr (code, body), s')"
  shows "(code = 422 \<and> s' = s) \<or> (code = 200 \<and> stored_answer key ident (code, body) s')"
proof (cases "decision \<in> {''approve'', ''edit'', ''reject'', ''defer'', ''decline_to_act''}")
  case True
  then have "answers E key ident (review_branch W jid ident decision key m device)"
    using answers_branches by (auto simp: review_branch_def)
  then have "stored_answer key ident (code, body) s'" using assms unfolding answers_def by blast
  then show ?thesis by (simp add: stored_answer_def)
qed (use assms in \<open>auto simp: review_branch_def\<close>)

lemma jopt_inject: "jopt JStr m = jopt JStr m' \<longleftrightarrow> m = m'"
  by (cases m; cases m') (simp_all add: jopt_def)

lemma review_identity_inject:
  "review_identity jid d rid rh m key = review_identity jid' d' rid' rh' m' key' \<longleftrightarrow>
    jid = jid' \<and> d = d' \<and> rid = rid' \<and> rh = rh' \<and> m = m' \<and> key = key'"
  by (auto simp: review_identity_def jopt_inject)

lemma review_job_stored:
  assumes "run E (review_job W jid decision rid rhash key modified device) s = Some (Inr (200, body), s')"
  shows "stored_answer key (review_identity jid decision rid rhash modified key) (200, body) s'"
  using assms
  by (auto simp: review_job_def job_conflict_def Let_def stored_answer_def dest: review_branch_answer
      split: option.splits if_splits)

text \<open>
  C19: A review is idempotent in its key. Once a review was answered with 200, the same request, at any
  later time in any environment, gets the same body again and changes nothing: it emits no record and
  touches no job; and a request that reuses the key for anything else is answered with 409 and
  changes nothing either.
\<close>

theorem review_replay:
  assumes "run E (review_job W jid decision rid rhash key modified device) s = Some (Inr (200, body), s')"
  shows "run E' (review_job W' jid' decision' rid' rhash' key modified' device') s' =
    Some (Inr (if (jid', decision', rid', rhash', modified') = (jid, decision, rid, rhash, modified) then (200, body)
      else (409, [(''error'', JStr ''decision_idempotency_key_conflict'')])), s')"
  using review_job_stored [OF assms] by (auto simp: review_job_def Let_def review_identity_inject stored_answer_def)

section \<open>What a review does\<close>

definition reviewed_status :: "string \<Rightarrow> job_status" where
  "reviewed_status d = (if d = ''approve'' \<or> d = ''edit'' then Delivered else if d = ''reject'' then Failed
     else if d = ''decline_to_act'' then Closed_no_action else Proposal_ready)"

definition review_events :: "string \<Rightarrow> string list" where
  "review_events d = ''human.reviewed'' #
     (if d = ''approve'' \<or> d = ''edit'' then [''job.delivered''] else if d = ''reject'' then [''job.failed'']
      else if d = ''decline_to_act'' then [''job.closed_no_action''] else [])"

definition review_applied :: "string \<Rightarrow> string \<Rightarrow> string option \<Rightarrow> jobs_state \<Rightarrow> jobs_state \<Rightarrow> bool" where
  "review_applied jid d modified s s' \<longleftrightarrow>
    (\<forall>k. k \<noteq> jid \<longrightarrow> map_of (jobs s') k = map_of (jobs s) k) \<and>
    (\<exists>j j'. map_of (jobs s) jid = Some j \<and> map_of (jobs s') jid = Some j' \<and>
       j_status j = Proposal_ready \<and> j_override j = None \<and>
       j_status j' = reviewed_status d \<and> j_review j' = (if d = ''defer'' then j_review j else Some d) \<and>
       j_result j' = (if d = ''edit'' then modified else j_result j)) \<and>
    (\<exists>evs. alog s' = alog s @ evs \<and> map (\<lambda>e. event_str e ''event_type'') evs = review_events d \<and>
       (\<forall>e \<in> set evs. event_str e ''job_id'' = jid))"

lemma event_strs:
  "event_str (event_human_reviewed sp jid d dev n a b c e) ''event_type'' = ''human.reviewed''"
  "event_str (event_human_reviewed sp jid d dev n a b c e) ''job_id'' = jid"
  "event_str (event_job_delivered sp jid) ''event_type'' = ''job.delivered''"
  "event_str (event_job_delivered sp jid) ''job_id'' = jid"
  "event_str (event_job_failed sp jid x y z) ''event_type'' = ''job.failed''"
  "event_str (event_job_failed sp jid x y z) ''job_id'' = jid"
  "event_str (event_job_closed_no_action sp jid p q r t u v) ''event_type'' = ''job.closed_no_action''"
  "event_str (event_job_closed_no_action sp jid p q r t u v) ''job_id'' = jid"
  by (simp_all add: event_str_def event_human_reviewed_def event_job_delivered_def event_job_failed_def
      event_job_closed_no_action_def)

lemma run_log_event:
  "run E (log_event b) s =
    (case outcome_of E (length (alog s)) of
       Inl x \<Rightarrow> Some (Inl x, s\<lparr>alog := alog s @ [b (stamp_of E (length (alog s)))]\<rparr>)
     | Inr ok \<Rightarrow> Some (Inr (), s\<lparr>alog := alog s @ [b (stamp_of E (length (alog s)))]\<rparr>))"
  by (simp add: log_event_def run_bind run_emit_c emit_split split: sum.split)

lemma run_decide_review:
  "run E (decide_review W jid d f) s =
    Some (Inr (), persist_in (db_up W (ticks s)) jid
      (s\<lparr>jobs := dict_modify jid (\<lambda>j. (f j)\<lparr>j_review := Some d\<rparr>) (jobs s), ticks := Suc (ticks s)\<rparr>))"
  by (simp add: decide_review_def run_seq)

lemmas review_runs = run_seq run_bind run_log_event run_decide_review run_respond map_of_dict_modify event_strs

lemma approve_applied:
  assumes "run E (review_approve W jid ident key device) s = Some (Inr (c, b), s')"
    and "map_of (jobs s) jid = Some j" "j_status j = Proposal_ready" "j_override j = None"
  shows "review_applied jid ''approve'' m s s'"
  using assms
  by (auto simp: review_approve_def human_reviewed_def deliver_reviewed_def review_runs review_applied_def
      reviewed_status_def review_events_def split: sum.splits)

lemma edit_applied:
  assumes "run E (review_edit W jid ident key m device) s = Some (Inr (c, b), s')"
    and "map_of (jobs s) jid = Some j" "j_status j = Proposal_ready" "j_override j = None"
  shows "review_applied jid ''edit'' (Some m) s s'"
  using assms
  by (auto simp: review_edit_def deliver_reviewed_def review_runs review_applied_def Let_def
      reviewed_status_def review_events_def split: sum.splits)

lemma reject_applied:
  assumes "run E (review_reject W jid ident key device) s = Some (Inr (c, b), s')"
    and "map_of (jobs s) jid = Some j" "j_status j = Proposal_ready" "j_override j = None"
  shows "review_applied jid ''reject'' m s s'"
  using assms
  by (auto simp: review_reject_def human_reviewed_def review_runs review_applied_def
      reviewed_status_def review_events_def split: sum.splits)

lemma decline_applied:
  assumes "run E (review_decline W jid ident key device) s = Some (Inr (c, b), s')"
    and "map_of (jobs s) jid = Some j" "j_status j = Proposal_ready" "j_override j = None"
  shows "review_applied jid ''decline_to_act'' m s s'"
  using assms
  by (auto simp: review_decline_def human_reviewed_def review_runs review_applied_def
      reviewed_status_def review_events_def split: sum.splits)

lemma defer_applied:
  assumes "run E (review_defer W jid ident key device) s = Some (Inr (c, b), s')"
    and "map_of (jobs s) jid = Some j" "j_status j = Proposal_ready" "j_override j = None"
  shows "review_applied jid ''defer'' m s s'"
  using assms
  by (auto simp: review_defer_def human_reviewed_def review_runs review_applied_def
      reviewed_status_def review_events_def split: sum.splits)

lemma review_branch_applied:
  assumes r: "run E (review_branch W jid ident decision key m device) s = Some (Inr (200, body), s')"
    and j: "map_of (jobs s) jid = Some j" "j_status j = Proposal_ready" "j_override j = None"
    and m: "modified_rule decision m = None"
  shows "review_applied jid decision m s s'"
proof -
  have "decision = ''edit'' \<Longrightarrow> m = Some (the m)" using m by (auto simp: modified_rule_def split: if_splits)
  then show ?thesis
    using r approve_applied [OF _ j] edit_applied [OF _ j, of E W ident key "the m" device] reject_applied [OF _ j]
      decline_applied [OF _ j] defer_applied [OF _ j]
    by (auto simp: review_branch_def split: if_splits)
qed

text \<open>
  C18: Every answer of a review, with the state it leaves. A refusal (404, 409 or 422) changes nothing.
  An answer 200 is either the replay of a stored outcome, which changes nothing, or the decision was
  carried out: the job was a proposal without an override, has the status that the decision stands for
  and the decision as its guard, an edit has replaced its result, the trail has gained exactly the
  records of the decision, all of this job, and no other job changed.
\<close>

theorem review_outcome:
  assumes "run E (review_job W jid decision rid rhash key modified device) s = Some (Inr (code, body), s')"
  shows "if code = 200
    then (s' = s \<and> get_review_outcome key (idem s) \<noteq> None) \<or>
      (\<exists>j. map_of (jobs s) jid = Some j \<and> j_result_id j = Some rid \<and> j_response_hash j = Some rhash \<and>
         review_applied jid decision modified s s')
    else s' = s"
  using assms
  by (auto simp: review_job_def job_conflict_def Let_def dest: review_branch_answer
      intro: review_branch_applied split: option.splits if_splits)

section \<open>Concrete reviews\<close>

lemma approve_waiting:
  obtains body s' where
    "run good_env (review_job (task_world 1) ''j1'' ''approve'' ''r1'' ''h1'' ''k'' None ''phone'') waiting
      = Some (Inr (200, body), s')" "s' \<noteq> waiting"
proof -
  have "\<exists>body s'. run good_env (review_job (task_world 1) ''j1'' ''approve'' ''r1'' ''h1'' ''k'' None ''phone'') waiting
      = Some (Inr (200, body), s') \<and> alog s' \<noteq> alog waiting"
    by (simp add: review_job_def Let_def waiting_def put_job_def new_job_def empty_jobs_def get_review_outcome_def
        modified_rule_def review_branch_def review_approve_def human_reviewed_def deliver_reviewed_def run_seq run_bind
        run_decide_review run_respond log_event_def run_emit_c)
  then show thesis using that by fastforce
qed

theorem review_replay_witness:
  "\<exists>body s'. run good_env (review_job (task_world 1) ''j1'' ''approve'' ''r1'' ''h1'' ''k'' None ''phone'') waiting
      = Some (Inr (200, body), s') \<and>
    run good_env (review_job (task_world 2) ''j1'' ''approve'' ''r1'' ''h1'' ''k'' None ''watch'') s' = Some (Inr (200, body), s') \<and>
    run good_env (review_job (task_world 2) ''j1'' ''reject'' ''r1'' ''h1'' ''k'' None ''watch'') s'
      = Some (Inr (409, [(''error'', JStr ''decision_idempotency_key_conflict'')]), s')"
proof -
  obtain body s' where r: "run good_env (review_job (task_world 1) ''j1'' ''approve'' ''r1'' ''h1'' ''k'' None ''phone'') waiting
      = Some (Inr (200, body), s')" by (rule approve_waiting)
  show ?thesis
    using r review_replay [OF r, of good_env "task_world 2" "''j1''" "''approve''" "''r1''" "''h1''" None "''watch''"]
      review_replay [OF r, of good_env "task_world 2" "''j1''" "''reject''" "''r1''" "''h1''" None "''watch''"] by simp
qed

theorem review_outcome_witness:
  "\<exists>body s'. run good_env (review_job (task_world 1) ''j1'' ''approve'' ''r1'' ''h1'' ''k'' None ''phone'') waiting
      = Some (Inr (200, body), s') \<and> review_applied ''j1'' ''approve'' None waiting s'"
proof -
  obtain body s' where r: "run good_env (review_job (task_world 1) ''j1'' ''approve'' ''r1'' ''h1'' ''k'' None ''phone'') waiting
      = Some (Inr (200, body), s')" "s' \<noteq> waiting" by (rule approve_waiting)
  from review_outcome [OF r(1)] r show ?thesis by auto
qed

section \<open>Where the guards fail\<close>

text \<open>
  A failed override locks a proposal. For a waiting proposal that nobody decided, an override
  \<open>modify\<close> (or of an unknown type) is answered with an error and emits no record, yet it leaves its type
  on the job: from then on every review of the job is refused with 409 (unless it replays an old key)
  and every override is a no-op.
\<close>

theorem failed_override_locks:
  assumes "map_of (jobs s) jid = Some j" and "j_status j = Proposal_ready" and "j_override j = None" and "\<not> resolved j"
    and "otype \<notin> {''cancel'', ''redirect'', ''escalate''}"
    and "get_review_outcome key (idem s) = None"
  shows "\<exists>reason s' conflict.
    run E (override_job W D jid otype target detail device modified) s = Some (Inr (override_error reason jid), s') \<and>
    alog s' = alog s \<and>
    run E (review_job W jid decision rid rhash key m device) s' = Some (Inr (409, conflict), s') \<and>
    run E (override_job W D jid otype' target' detail' device' modified') s' =
      Some (Inr [(''status'', ''no_op''), (''reason'', ''already_overridden''), (''job_id'', jid)], s')"
proof -
  let ?j = "j\<lparr>j_override := Some otype\<rparr>"
  define s' where "s' = persist_in (db_up W (ticks s)) jid
    (s\<lparr>jobs := dict_modify jid (\<lambda>j. j\<lparr>j_override := Some otype\<rparr>) (jobs s), ticks := Suc (ticks s)\<rparr>)"
  have res: "run E (reserve W jid otype) s = Some (Inr (), s')"
    by (simp add: reserve_def run_seq s'_def)
  have job: "map_of (jobs s') jid = Some ?j" and log: "alog s' = alog s" and idem: "review_records (idem s') = review_records (idem s)"
    using assms(1) by (simp_all add: s'_def map_of_dict_modify persist_in_def)
  have nr: "\<not> resolved ?j" using assms(4) by (simp add: resolved_def cong: option.case_cong)
  have ref: "override_refusal j = None" "override_refusal ?j = Some ''already_overridden''"
    using assms nr by (simp_all add: override_refusal_def TERMINAL_STATES_def)
  have other: "(otype = ''cancel'') = False" "(otype = ''redirect'') = False" "(otype = ''escalate'') = False"
    "(otype \<in> {''cancel'', ''redirect'', ''escalate''}) = False"
    using assms(5) by simp_all
  have "\<exists>reason. run E (override_branch W D jid Proposal_ready otype target detail device modified) s' =
      Some (Inr (override_error reason jid), s')"
    unfolding override_branch_def Let_def other if_False
    by (cases modified; cases "otype = ''modify''") (simp_all add: if_distrib, blast+)
  then obtain reason where b: "run E (override_branch W D jid Proposal_ready otype target detail device modified) s' =
      Some (Inr (override_error reason jid), s')" by blast
  have "run E (override_job W D jid otype target detail device modified) s = Some (Inr (override_error reason jid), s')"
    unfolding override_job_def run.simps assms(1,2) option.case ref(1) other if_False
    by (simp add: run_seq res b)
  moreover have "run E (override_job W D jid otype' target' detail' device' modified') s' =
      Some (Inr [(''status'', ''no_op''), (''reason'', ''already_overridden''), (''job_id'', jid)], s')"
    using job ref(2) by (simp add: override_job_def)
  moreover have "run E (review_job W jid decision rid rhash key m device) s' = Some (Inr (job_conflict ''wrong_status'' ?j), s')"
    using job assms(6) idem by (simp add: review_job_def Let_def get_review_outcome_def)
  ultimately show ?thesis using log by (auto simp: job_conflict_def)
qed

theorem failed_override_locks_witness:
  "\<exists>reason s' conflict.
    run good_env (override_job (task_world 0) (job_deps.truncate idle_deps) ''j1'' ''modify'' ''response'' ''d'' ''phone'' (Some ''better'')) waiting
      = Some (Inr (override_error reason ''j1''), s') \<and>
    run good_env (review_job (task_world 0) ''j1'' ''approve'' ''r1'' ''h1'' ''k'' None ''phone'') s' = Some (Inr (409, conflict), s')"
proof -
  let ?j = "(new_job ''j1'' ''hi'' ''text'' ''phone'' 0)\<lparr>j_status := Proposal_ready, j_result_id := Some ''r1'', j_response_hash := Some ''h1''\<rparr>"
  have "map_of (jobs waiting) ''j1'' = Some ?j" "j_status ?j = Proposal_ready" "j_override ?j = None" "\<not> resolved ?j"
    "''modify'' \<notin> {''cancel'', ''redirect'', ''escalate''}" "get_review_outcome ''k'' (idem waiting) = None"
    by (simp_all add: waiting_def put_job_def new_job_def empty_jobs_def resolved_def get_review_outcome_def)
  from failed_override_locks [OF this, where E = good_env and W = "task_world 0" and D = "job_deps.truncate idle_deps"
      and target = "''response''" and detail = "''d''" and device = "''phone''" and modified = "Some ''better''"
      and decision = "''approve''" and rid = "''r1''" and rhash = "''h1''" and m = None]
  show ?thesis by blast
qed

text \<open>\<open>review_job\<close> does not look at the guard that another review has set.\<close>

definition reviewed_as :: "string \<Rightarrow> string \<Rightarrow> jobs_state \<Rightarrow> bool" where
  "reviewed_as d jid s \<longleftrightarrow> (\<exists>ev \<in> set (alog s). about ''human.reviewed'' jid ev \<and>
    (case map_of ev ''payload'' of Some (JObj p) \<Rightarrow> map_of p ''decision'' = Some (JStr d) | _ \<Rightarrow> False))"


end
