(* ===== verification/Job_Delivery.thy ===== *)
theory Job_Delivery
  imports Job_Concurrency "HOL-Library.Multiset"
begin

text \<open>
  What the pipeline delivers: nothing that the permission check held or blocked, and everything else,
  whatever a human decided about the job meanwhile. The second half is about listing jobs.
\<close>

section \<open>What a task records\<close>

lemma safe_run:
  assumes "safe R G Q c s" and R: "\<And>s. R s s" and G: "preorder_rel G" and "run E c s = Some (r, t)"
  shows "G s t"
  using assms(1,4)
proof (induction c arbitrary: s)
  case (Put u c)
  then show ?case using preorder_trans [OF G, of s u] by auto
next
  case (Emit b k)
  obtain x u where e: "emit E b s = (x, u)" by fastforce
  then obtain sp where u: "u = s\<lparr>alog := alog s @ [b sp]\<rparr>" "x = Inr (b sp) \<or> (\<exists>y. x = Inl y)"
    by (cases rule: emit_cases) auto
  note d = safe_EmitD [OF Emit.prems(1) R, of sp]
  have "safe R G Q (k x) u" using d(2,3) R u by blast
  then have "G u t" using Emit.IH [OF rangeI] Emit.prems(2) e by auto
  then show ?case using d(1) u(1) preorder_trans [OF G] by blast
qed (use preorder_refl [OF G] R in \<open>auto split: if_splits\<close>)

definition records :: "(event \<Rightarrow> bool) \<Rightarrow> 'x audit_scheme \<Rightarrow> 'x audit_scheme \<Rightarrow> bool" where
  "records A s t \<longleftrightarrow> (\<exists>evs. alog t = alog s @ evs \<and> (\<forall>ev \<in> set evs. A ev))"

definition logs_only :: "(event \<Rightarrow> bool) \<Rightarrow> 'a task \<Rightarrow> bool" where
  "logs_only A c \<longleftrightarrow> (\<forall>s. safe (\<lambda>_ _. True) (records A) (\<lambda>_ _. True) c s)"

lemma records_preorder: "preorder_rel (records A)"
  unfolding preorder_rel_def records_def by (auto simp: ball_Un)

lemma logs_run: "logs_only A c \<Longrightarrow> run E c s = Some (r, t) \<Longrightarrow> records A s t"
  unfolding logs_only_def using safe_run [OF _ _ records_preorder] by blast

named_theorems logs_rules

lemma logs_Ret [logs_rules]: "logs_only A (Ret a)"
  by (simp add: logs_only_def)

lemma logs_Exc [logs_rules]: "logs_only A (Exc x)"
  by (simp add: logs_only_def)

lemma logs_bind [logs_rules]: "logs_only A c \<Longrightarrow> (\<And>a. logs_only A (f a)) \<Longrightarrow> logs_only A (co_bind c f)"
  unfolding logs_only_def by (blast intro: safe_bind)

lemma logs_seq [logs_rules]: "logs_only A c \<Longrightarrow> logs_only A d \<Longrightarrow> logs_only A (co_seq c d)"
  unfolding co_seq_def by (rule logs_bind)

lemma logs_catch [logs_rules]: "logs_only A c \<Longrightarrow> (\<And>x. logs_only A (h x)) \<Longrightarrow> logs_only A (co_catch c h)"
  unfolding logs_only_def by (blast intro: safe_catch)

lemma logs_if [logs_rules]: "logs_only A c \<Longrightarrow> logs_only A d \<Longrightarrow> logs_only A (if b then c else d)"
  by simp

lemma logs_option [logs_rules]:
  "(v = None \<Longrightarrow> logs_only A c) \<Longrightarrow> (\<And>x. v = Some x \<Longrightarrow> logs_only A (d x)) \<Longrightarrow> logs_only A (case v of None \<Rightarrow> c | Some x \<Rightarrow> d x)"
  by (cases v) simp_all

lemma logs_pair [logs_rules]: "(\<And>x y. logs_only A (f x y)) \<Longrightarrow> logs_only A (case v of (x, y) \<Rightarrow> f x y)"
  by (cases v) simp

lemma logs_Get: "(\<And>s. logs_only A (k s)) \<Longrightarrow> logs_only A (Get k)"
  by (simp add: logs_only_def)

lemma logs_with_job [logs_rules]: "(\<And>j. logs_only A (f j)) \<Longrightarrow> logs_only A (with_job jid f)"
  unfolding with_job_def by (rule logs_Get)

lemma logs_modify: "(\<And>s. alog (f s) = alog s) \<Longrightarrow> logs_only A (modify f)"
  by (simp add: logs_only_def modify_def records_def)

lemma logs_shared [logs_rules]:
  "logs_only A draw" "logs_only A (uuid7 W)" "logs_only A (now W)" "logs_only A (persist_job W jid)"
  "logs_only A (set_job jid f)" "logs_only A (write_result rid t)"
  by (simp_all add: logs_only_def draw_def uuid7_def now_def persist_job_def set_job_def write_result_def modify_def
      records_def)

lemma logs_emit_c: "(\<And>sp. A (b sp)) \<Longrightarrow> logs_only A (emit_c b)"
  unfolding logs_only_def emit_c_def
  by (intro allI safe_EmitI) (auto simp: records_def split: sum.split)

lemma logs_log_event: "(\<And>sp. A (b sp)) \<Longrightarrow> logs_only A (log_event b)"
  unfolding log_event_def by (intro logs_rules logs_emit_c)

lemma logs_weaken: "logs_only A c \<Longrightarrow> (\<And>ev. A ev \<Longrightarrow> B ev) \<Longrightarrow> logs_only B c"
  unfolding logs_only_def
proof (intro allI)
  fix s
  assume c: "\<forall>s. safe (\<lambda>_ _. True) (records A) (\<lambda>_ _. True) c s" and AB: "\<And>ev. A ev \<Longrightarrow> B ev"
  have g: "records A x y \<Longrightarrow> records B x y" for x y :: jobs_state using AB unfolding records_def by blast
  have "safe (\<lambda>_ _. True) (records A) (\<lambda>_ _. True) c s \<Longrightarrow> safe (\<lambda>_ _. True) (records B) (\<lambda>_ _. True) c s"
    by (induction c arbitrary: s) (auto intro: g simp: Let_def)
  then show "safe (\<lambda>_ _. True) (records B) (\<lambda>_ _. True) c s" using c by blast
qed

section \<open>The pipeline asks before it delivers\<close>

text \<open>The services write no \<open>job.delivered\<close> record of the job.\<close>

definition not_delivered :: "string \<Rightarrow> event \<Rightarrow> bool" where
  "not_delivered jid ev \<longleftrightarrow> \<not> about ''job.delivered'' jid ev"

definition services_log :: "(event \<Rightarrow> bool) \<Rightarrow> 'p pipeline_deps_scheme \<Rightarrow> bool" where
  "services_log A P \<longleftrightarrow>
    (\<forall>f ctx. teardown P = Some f \<longrightarrow> logs_only A (f ctx)) \<and>
    (\<forall>x. logs_only A (classify_c P x)) \<and>
    (\<forall>f r. route_available P = Some f \<longrightarrow> logs_only A (f r)) \<and>
    (\<forall>jid. logs_only A (prepare_c P jid)) \<and>
    (\<forall>f a b c d e. package_c P = Some f \<longrightarrow> logs_only A (f a b c d e)) \<and>
    (\<forall>f a b c. execute_c P = Some f \<longrightarrow> logs_only A (f a b c)) \<and>
    (\<forall>x. logs_only A (generate_c P x)) \<and>
    (\<forall>a b c d e f g. logs_only A (dispatch_c P a b c d e f g))"

lemma services_parts:
  assumes "services_log A P"
  shows "teardown P = Some td \<Longrightarrow> logs_only A (td ctx)" "logs_only A (classify_c P x)"
    "route_available P = Some f \<Longrightarrow> logs_only A (f r)" "logs_only A (prepare_c P jid)"
    "package_c P = Some pk \<Longrightarrow> logs_only A (pk a1 a2 a3 a4 a5)" "execute_c P = Some ex \<Longrightarrow> logs_only A (ex ctx a2 a3)"
    "logs_only A (generate_c P x)" "logs_only A (dispatch_c P a1 a2 a3 a4 a5 a6 a7)"
  using assms unfolding services_log_def by auto

lemma services_weaken:
  assumes "services_log A P" and "\<And>ev. A ev \<Longrightarrow> B ev"
  shows "services_log B P"
  using assms(1) unfolding services_log_def by (auto intro: logs_weaken [where A = A] assms(2))

text \<open>Records of other types than \<open>job.delivered\<close> are of no delivery.\<close>

lemma not_delivered_type:
  "map_of ev ''event_type'' = Some (JStr ty) \<Longrightarrow> ty \<noteq> ''job.delivered'' \<Longrightarrow> not_delivered jid ev"
  by (simp add: not_delivered_def about_def)

lemma not_delivered_events:
  "not_delivered j (event_job_classified sp a1 a2 qa b3 a4 ms a5)"
  "not_delivered j (event_job_queued sp c1 c2 nc oc)"
  "not_delivered j (event_job_failed sp d1 d2 d3 od)"
  "not_delivered j (event_wal_permission_check sp e1 e2 e3 ne oe e4 be o2 o3 o4 o5)"
  "not_delivered j (event_egress_fallback_to_local sp f1 mf f2 f3)"
  "not_delivered j (event_job_dispatched sp g1 g2 g3 g4 g5 og pg)"
  "not_delivered j (event_model_response sp h1 h2 h3 nh n2 n3 qh h4 h5 h6)"
  "not_delivered j (event_job_response_received sp i1 i2 ni m2 m3 qi i4 i5)"
  "not_delivered j (event_job_proposal_ready sp k1 k2 k3 k4 k5 k6 ok pk k7)"
  by (rule not_delivered_type,
      simp add: event_job_classified_def event_job_queued_def event_job_failed_def event_wal_permission_check_def
        event_egress_fallback_to_local_def event_job_dispatched_def event_model_response_def
        event_job_response_received_def event_job_proposal_ready_def, simp)+

lemma not_delivered_permission: "not_delivered j (permission_event r jid sp)"
  by (simp add: permission_event_def not_delivered_events)

text \<open>\<open>A\<close> admits every record but, possibly, the one of a delivery.\<close>

definition admits :: "(event \<Rightarrow> bool) \<Rightarrow> bool" where
  "admits A \<longleftrightarrow> (\<forall>ev. (\<forall>j. not_delivered j ev) \<longrightarrow> A ev)"

lemma logs_admitted [logs_rules]:
  "admits A \<Longrightarrow> logs_only A (log_event (\<lambda>sp. event_job_classified sp a1 a2 qa b3 a4 ms a5))"
  "admits A \<Longrightarrow> logs_only A (log_event (\<lambda>sp. event_job_queued sp c1 c2 nc oc))"
  "admits A \<Longrightarrow> logs_only A (log_event (\<lambda>sp. event_job_failed sp d1 d2 d3 od))"
  "admits A \<Longrightarrow> logs_only A (log_event (\<lambda>sp. event_egress_fallback_to_local sp f1 mf f2 f3))"
  "admits A \<Longrightarrow> logs_only A (log_event (\<lambda>sp. event_job_dispatched sp g1 g2 g3 g4 g5 og pg))"
  "admits A \<Longrightarrow> logs_only A (log_event (\<lambda>sp. event_model_response sp h1 h2 h3 nh n2 n3 qh h4 h5 h6))"
  "admits A \<Longrightarrow> logs_only A (log_event (\<lambda>sp. event_job_response_received sp i1 i2 ni m2 m3 qi i4 i5))"
  "admits A \<Longrightarrow> logs_only A (log_event (\<lambda>sp. event_job_proposal_ready sp k1 k2 k3 k4 k5 k6 ok pk k7))"
  by (rule logs_log_event; simp add: admits_def not_delivered_events)+

lemma logs_mark_failed [logs_rules]: "logs_only A (mark_failed W jid e f)"
  unfolding mark_failed_def by (intro logs_rules)

lemma logs_first_model [logs_rules]: "logs_only A (first_model p)"
  unfolding first_model_def by (intro logs_rules) (simp add: logs_rules split: list.split)

lemma logs_end_worker [logs_rules]:
  assumes "services_log A P"
  shows "logs_only A (end_worker P jid w)"
proof (cases "teardown P")
  case (Some f)
  have "logs_only A (co_seq (f ctx) (modify (\<lambda>s. s\<lparr>contexts := AList.delete jid (contexts s)\<rparr>)))" for ctx
    by (intro logs_seq logs_modify services_parts(1) [OF assms Some]) simp
  then show ?thesis using Some by (cases w) (auto simp: end_worker_def intro: logs_rules)
qed (auto simp: end_worker_def intro: logs_rules)

lemma logs_prepare_stage: "services_log A P \<Longrightarrow> logs_only A (prepare_stage W P jid)"
  unfolding prepare_stage_def set_context_def Let_def by (intro logs_rules logs_modify services_parts(4)) simp_all

lemma logs_fallback_stage: "admits A \<Longrightarrow> logs_only A (fallback_stage P jid p)"
  unfolding fallback_stage_def Let_def by (intro logs_rules)

lemma logs_package_stage: "services_log A P \<Longrightarrow> logs_only A (package_stage P jid p)"
  unfolding package_stage_def by (intro logs_rules services_parts(5))

lemma logs_execute_local:
  assumes "admits A" and "services_log A P"
  shows "logs_only A (execute_local W P jid w m prompt)"
proof -
  have r: "logs_only A (local_response W a)" for a unfolding local_response_def by (intro logs_rules)
  have g: "logs_only A (co_bind (generate_c P prompt) (\<lambda>a. co_bind (local_response W a) (\<lambda>r. Ret (Some r))))"
    by (intro logs_rules r services_parts(7) [OF assms(2)])
  have e: "logs_only A (co_catch (co_bind (ex ctx prompt m) (\<lambda>a. co_bind (local_response W a) (\<lambda>r. Ret (Some r))))
           (\<lambda>x. co_seq (log_event (\<lambda>sp. event_job_failed sp jid ''worker_execution_failed'' (exc_text P x) None))
              (co_seq (mark_failed W jid ''worker_execution_failed'' id)
              (co_seq (end_worker P jid w) (Ret None)))))" if "execute_c P = Some ex" for ex ctx w
    by (intro logs_rules r assms services_parts(6) [OF assms(2) that])
  show ?thesis using g e by (auto simp: execute_local_def split: option.split)
qed

lemma logs_dispatch_stage:
  assumes "admits A" and "services_log A P"
  shows "logs_only A (dispatch_stage W P jid w p g pkg)"
  unfolding dispatch_stage_def execute_cloud_def Let_def
  by (intro logs_rules logs_execute_local assms services_parts(8) [OF assms(2)])

lemma logs_finish_stage:
  assumes "admits A" and "services_log A P"
    and d: "derive_hold_reason (gr_hold g) (gr_hold_type g) = None \<Longrightarrow> A = (\<lambda>_. True)"
  shows "logs_only A (finish_stage W P jid w p g r)"
proof -
  have "logs_only A (deliver_stage W P jid w)" if "derive_hold_reason (gr_hold g) (gr_hold_type g) = None"
    unfolding deliver_stage_def using d [OF that] by (intro logs_rules logs_log_event assms(2)) simp
  then show ?thesis
    unfolding finish_stage_def receive_stage_def propose_stage_def Let_def
    by (intro logs_rules assms(1,2))
qed

lemma logs_granted_stage:
  assumes "admits A" and "services_log A P"
    and "derive_hold_reason (gr_hold g) (gr_hold_type g) = None \<Longrightarrow> A = (\<lambda>_. True)"
  shows "logs_only A (granted_stage W P jid p g)"
  unfolding granted_stage_def
  by (intro logs_rules logs_prepare_stage logs_fallback_stage logs_package_stage logs_dispatch_stage logs_finish_stage assms)

lemma logs_classify_stage:
  assumes "admits A" and "services_log A P"
  shows "logs_only A (classify_stage W P jid)"
proof -
  have c: "logs_only A (classify_job W P jid j)" for j
    unfolding classify_job_def by (intro logs_rules assms(1) services_parts(2) [OF assms(2)])
  have d: "logs_only A (case (j_status j, j_capability j) of
      (Classified, Some cap) \<Rightarrow> Ret (plan_of_job j cap) | _ \<Rightarrow> classify_job W P jid j)" for j
    using c by (auto simp: logs_Ret split: job_status.split option.split)
  show ?thesis unfolding classify_stage_def by (intro logs_bind logs_seq logs_with_job d logs_shared logs_Ret)
qed

lemma logs_circuit_gate:
  "admits A \<Longrightarrow> services_log A P \<Longrightarrow> logs_only A (circuit_gate W P jid p)"
  unfolding circuit_gate_def by (intro logs_rules services_parts(3))

text \<open>A permission check that lets the result out: not blocked, and not held for a review.\<close>

definition clears :: "string \<Rightarrow> event \<Rightarrow> bool" where
  "clears jid ev \<longleftrightarrow> about ''wal.permission_check'' jid ev \<and>
    (case map_of ev ''payload'' of
       Some (JObj p) \<Rightarrow> map_of p ''result'' \<noteq> Some (JStr ''blocked'') \<and> map_of p ''delivery_hold'' = Some (JBool False) \<and>
         map_of p ''hold_type'' \<noteq> Some (JStr ''on_accept'')
     | _ \<Rightarrow> False)"

lemma clears_legacy:
  "clears jid (event_wal_permission_check sp jid a b n m ''allowed'' False None None None None)"
  by (simp add: clears_def about_def event_wal_permission_check_def)

lemma clears_granted:
  assumes "perm_result r \<noteq> ''blocked''" and "derive_hold_reason (perm_delivery_hold r) (hold_type r) = None"
  shows "clears jid (permission_event r jid sp)"
  using assms
  by (auto simp: clears_def about_def permission_event_def event_wal_permission_check_def derive_hold_reason_def jopt_def
      split: if_splits option.splits)

text \<open>What a run may add: nothing about a delivery of the job, or a permission check that lets it out.\<close>

definition asked :: "string \<Rightarrow> jobs_state \<Rightarrow> jobs_state \<Rightarrow> bool" where
  "asked jid s t \<longleftrightarrow> (\<exists>evs. alog t = alog s @ evs \<and>
    ((\<forall>ev \<in> set evs. not_delivered jid ev) \<or> (\<exists>ev \<in> set evs. clears jid ev)))"

lemma records_asked: "records (not_delivered jid) s t \<Longrightarrow> asked jid s t"
  unfolding records_def asked_def by blast

lemma asked_after:
  "records (not_delivered jid) s t \<Longrightarrow> asked jid t u \<Longrightarrow> asked jid s u"
  unfolding records_def asked_def by fastforce

lemma asked_bind:
  assumes "run E (co_bind c f) s = Some (r, u)" and "logs_only (not_delivered jid) c"
    and "\<And>v t. run E (f v) t = Some (r, u) \<Longrightarrow> asked jid t u"
  shows "asked jid s u"
proof (cases "run E c s")
  case None
  then show ?thesis using assms(1) by (simp add: run_bind)
next
  case (Some p)
  obtain x t where p: "p = (x, t)" by (cases p)
  have l: "records (not_delivered jid) s t" using logs_run [OF assms(2)] Some p by blast
  show ?thesis
  proof (cases x)
    case (Inl y)
    then show ?thesis using assms(1) Some p records_asked [OF l] by (simp add: run_bind)
  next
    case (Inr v)
    then have "run E (f v) t = Some (r, u)" using assms(1) Some p by (simp add: run_bind)
    then show ?thesis using asked_after [OF l] assms(3) by blast
  qed
qed

definition lets_out :: "grant \<Rightarrow> bool" where
  "lets_out g \<longleftrightarrow> derive_hold_reason (gr_hold g) (gr_hold_type g) = None"

lemma permission_stage_clears:
  assumes "run E (permission_stage W P jid p) s = Some (Inr (Some g), t)" and "lets_out g"
  shows "\<exists>evs. alog t = alog s @ evs \<and> (\<exists>ev \<in> set evs. clears jid ev)"
proof (cases "checker P")
  case None
  then show ?thesis
    using assms(1)
    by (auto simp: clears_legacy permission_stage_def run_bind run_emit_c emit_split split: sum.splits)
next
  case (Some R)
  then show ?thesis
    using assms
    by (auto simp: clears_granted permission_stage_def check_permission_c_def run_bind run_seq run_emit_c emit_split lets_out_def Let_def
        split: sum.splits option.splits if_splits)
qed

lemma logs_permission_stage: "logs_only (not_delivered jid) (permission_stage W P jid p)"
proof -
  have c: "logs_only (not_delivered jid) (check_permission_c R cap a ctx)" for R cap a ctx
    unfolding check_permission_c_def
    by (rule logs_Get) (auto intro!: logs_rules logs_emit_c not_delivered_permission split: sum.split)
  have "admits (not_delivered jid)" by (simp add: admits_def)
  then show ?thesis
    unfolding permission_stage_def Let_def
    by (intro logs_rules c logs_emit_c not_delivered_events)
qed

lemma asked_granted:
  assumes P: "services_log (not_delivered jid) P"
    and run: "run E (co_bind (permission_stage W P jid p)
      (\<lambda>g. case g of None \<Rightarrow> Ret () | Some g \<Rightarrow> granted_stage W P jid p g)) s = Some (r, u)"
  shows "asked jid s u"
proof -
  have A: "admits (not_delivered jid)" "admits (\<lambda>_. True)" by (simp_all add: admits_def)
  have any: "services_log (\<lambda>_. True) P" by (rule services_weaken [OF P]) simp
  obtain x t where x: "run E (permission_stage W P jid p) s = Some (x, t)"
    using run by (cases "run E (permission_stage W P jid p) s") (auto simp: run_bind)
  have l: "records (not_delivered jid) s t" by (rule logs_run [OF logs_permission_stage x])
  show ?thesis
  proof (cases "\<exists>g. x = Inr (Some g)")
    case False
    then have "u = t" using run x by (auto simp: run_bind split: sum.splits option.splits)
    then show ?thesis using records_asked [OF l] by simp
  next
    case True
    then obtain g where g: "x = Inr (Some g)" by blast
    then have rest: "run E (granted_stage W P jid p g) t = Some (r, u)" using run x by (simp add: run_bind)
    show ?thesis
    proof (cases "lets_out g")
      case True
      obtain evs where "alog t = alog s @ evs" "\<exists>ev \<in> set evs. clears jid ev"
        using permission_stage_clears [OF x [unfolded g] True] by blast
      moreover have "records (\<lambda>_. True) t u" by (rule logs_run [OF logs_granted_stage [OF A(2) any] rest]) simp
      ultimately show ?thesis unfolding asked_def records_def by auto
    next
      case False
      then have "logs_only (not_delivered jid) (granted_stage W P jid p g)"
        by (intro logs_granted_stage A(1) P) (simp add: lets_out_def)
      then show ?thesis using asked_after [OF l records_asked] logs_run [OF _ rest] by blast
    qed
  qed
qed

lemma delivers_only_cleared:
  assumes "run E (run_pipeline W P jid) s = Some (r, s')" and "services_log (not_delivered jid) P"
    and "alog s' = alog s @ evs" and "ev \<in> set evs" and "about ''job.delivered'' jid ev"
  shows "\<exists>check \<in> set evs. clears jid check"
proof -
  have A: "admits (not_delivered jid)" by (simp add: admits_def)
  have "asked jid s s'"
  proof (cases "map_of (jobs s) jid = None")
    case True
    then show ?thesis using assms(1) by (simp add: run_pipeline_def asked_def)
  next
    case False
    then have run: "run E (co_bind (classify_stage W P jid) (\<lambda>p. co_bind (circuit_gate W P jid p) (\<lambda>ok.
        if \<not> ok then Ret () else co_bind (permission_stage W P jid p) (\<lambda>g.
          case g of None \<Rightarrow> Ret () | Some g \<Rightarrow> granted_stage W P jid p g)))) s = Some (r, s')"
      using assms(1) unfolding run_pipeline_def run.simps by (simp only: if_False)
    show ?thesis
    proof (rule asked_bind [OF run logs_classify_stage [OF A assms(2)]])
      fix p t
      assume "run E (co_bind (circuit_gate W P jid p) (\<lambda>ok. if \<not> ok then Ret () else co_bind (permission_stage W P jid p)
          (\<lambda>g. case g of None \<Rightarrow> Ret () | Some g \<Rightarrow> granted_stage W P jid p g))) t = Some (r, s')"
      then show "asked jid t s'"
      proof (rule asked_bind [OF _ logs_circuit_gate [OF A assms(2)]])
        fix ok u
        assume "run E (if \<not> ok then Ret () else co_bind (permission_stage W P jid p)
          (\<lambda>g. case g of None \<Rightarrow> Ret () | Some g \<Rightarrow> granted_stage W P jid p g)) u = Some (r, s')"
        then show "asked jid u s'"
          using asked_granted [OF assms(2)] by (cases ok) (auto simp: asked_def)
      qed
    qed
  qed
  then show ?thesis using assms(3-5) by (auto simp: asked_def not_delivered_def)
qed

text \<open>
  C10: The pipeline delivers nothing that it has not cleared. If a run of the pipeline adds a
  \<open>job.delivered\<close> record of its job, whatever the classifier, the packager, the worker and the gateway
  answer or raise, it adds a permission check of the job that was not blocked, asked for no delivery
  hold and was not held until acceptance.
\<close>

theorem delivered_after_permission:
  assumes "run E (run_pipeline W P jid) s = Some (r, s')" and "services_log (not_delivered jid) P"
    and "alog s' = alog s @ evs" and "ev \<in> set evs" and "about ''job.delivered'' jid ev"
  shows "\<exists>check \<in> set evs. clears jid check"
  using assms by (rule delivers_only_cleared)

text \<open>
  The interface between the job manager and its services: what the pipeline calls, and what it is promised. A
  client that knows the promise knows what the job manager does, under every schedule and with every answer.
\<close>

locale job_services =
  fixes P :: "'p pipeline_deps_scheme"
  assumes services_outside: "pipeline_outside P"
    and services_quiet: "services_log (not_delivered jid) P"
begin

lemma decisions_exclusive:
  assumes "reachable E (\<lambda>i. range (serve (W i) P)) s0 cs s"
    and "jobs_inv (\<lambda>i. uuid_of (W i)) s0" and "unique_ids (\<lambda>i. uuid_of (W i))"
  shows "\<not> (logged ''human.override'' jid s \<and> resolution_logged jid s)"
  using exclusive_decisions [OF assms services_outside] by blast

lemma delivers_cleared:
  assumes "run E (run_pipeline W P jid) s = Some (r, s')" and "alog s' = alog s @ evs" and "ev \<in> set evs"
    and "about ''job.delivered'' jid ev"
  shows "\<exists>check \<in> set evs. clears jid check"
  using delivers_only_cleared [OF assms(1) services_quiet assms(2-4)] .

end

text \<open>A job that the local model answers.\<close>

definition local_deps :: pipeline_deps where
  "local_deps = idle_deps\<lparr>classify_c := (\<lambda>_. Ret \<lparr>c_category = ''quick_lookup'', c_local_capable = True, c_routing = ''local'',
       c_model = ''local'', c_confidence = 1, c_capability = ''route.local'', c_candidates = [''llama3.1:8b''],
       c_route = ''ollama-llama3-local''\<rparr>),
     generate_c := (\<lambda>_. Ret \<lparr>an_text = ''hello'', an_latency = 1, an_tokens_in = 1, an_tokens_out = 1\<rparr>)\<rparr>"

definition queued :: jobs_state where
  "queued = put_job (new_job ''j1'' ''hi'' ''text'' ''phone'' 0) (empty_jobs None)"

theorem delivered_after_permission_witness:
  "\<exists>r s'. run good_env (run_pipeline (task_world 0) local_deps ''j1'') queued = Some (r, s') \<and>
    (\<exists>check \<in> set (alog s'). clears ''j1'' check)"
proof -
  have "\<exists>r s'. run good_env (run_pipeline (task_world 0) local_deps ''j1'') queued = Some (r, s') \<and>
      (\<exists>ev \<in> set (alog s'). about ''job.delivered'' ''j1'' ev)"
    by (simp add: run_pipeline_def classify_stage_def classify_job_def circuit_gate_def permission_stage_def granted_stage_def
        prepare_stage_def fallback_stage_def package_stage_def dispatch_stage_def execute_local_def local_response_def
        finish_stage_def first_model_def receive_stage_def deliver_stage_def end_worker_def derive_hold_reason_def
        local_deps_def idle_deps_def queued_def put_job_def new_job_def empty_jobs_def Let_def
        run_bind run_seq log_event_def run_emit_c map_of_dict_modify job_of_def about_def event_job_delivered_def)
  then obtain r s' ev where r: "run good_env (run_pipeline (task_world 0) local_deps ''j1'') queued = Some (r, s')"
      "ev \<in> set (alog s')" "about ''job.delivered'' ''j1'' ev" by blast
  have s: "services_log (not_delivered ''j1'') local_deps"
    by (simp add: services_log_def local_deps_def idle_deps_def logs_rules)
  have l: "alog s' = alog queued @ alog s'" by (simp add: queued_def put_job_def empty_jobs_def)
  from delivered_after_permission [OF r(1) s l r(2,3)] show ?thesis using r(1) by blast
qed

section \<open>What the pipeline does not ask\<close>

text \<open>
  The pipeline does not look at what a human has decided. When the response of a job arrives that
  may be let out, it is delivered whatever the status and the override of the job: a job that the user
  cancelled (or redirected) while the pipeline was working on it, and that is recorded as failed, ends as
  delivered, with the override still on it.
\<close>

theorem cancelled_job_delivered:
  assumes "map_of (jobs s) jid = Some j" and "lets_out g" and "pl_models p = Some (m # ms)"
    and "teardown P = None" and "\<And>n. outcome_of E n = Inr True"
  shows "\<exists>s' j'. run E (finish_stage W P jid w p g r) s = Some (Inr (), s') \<and> map_of (jobs s') jid = Some j' \<and>
    j_status j' = Delivered \<and> j_override j' = j_override j \<and> j_result j' = Some (an_text (rs_answer r)) \<and>
    logged ''job.delivered'' jid s'"
  using assms
  by (simp add: finish_stage_def first_model_def receive_stage_def deliver_stage_def end_worker_def lets_out_def Let_def
      run_bind run_seq log_event_def run_emit_c emit_split map_of_dict_modify logged_def about_def event_job_delivered_def)

definition cancelled :: jobs_state where
  "cancelled = put_job ((new_job ''j1'' ''hi'' ''text'' ''phone'' 0)
     \<lparr>j_status := Failed, j_error := Some ''override_cancel'', j_override := Some ''cancel''\<rparr>) (empty_jobs None)"

theorem cancelled_job_delivered_witness:
  "\<exists>s' j'. run good_env (finish_stage (task_world 0) idle_deps ''j1'' None
      \<lparr>pl_routing = Some ''local'', pl_models = Some [''llama3.1:8b''], pl_capability = ''route.local'', pl_route = ''r''\<rparr>
      \<lparr>gr_ref = ''e'', gr_hold = False, gr_hold_type = None\<rparr>
      \<lparr>rs_answer = \<lparr>an_text = ''hello'', an_latency = 1, an_tokens_in = 1, an_tokens_out = 1\<rparr>, rs_cost = 0, rs_id = ''x'',
        rs_hash = ''h'', rs_finish = ''stop''\<rparr>) cancelled = Some (Inr (), s') \<and>
    map_of (jobs s') ''j1'' = Some j' \<and> j_status j' = Delivered \<and> j_override j' = Some ''cancel''"
proof -
  let ?j = "(new_job ''j1'' ''hi'' ''text'' ''phone'' 0)\<lparr>j_status := Failed, j_error := Some ''override_cancel'', j_override := Some ''cancel''\<rparr>"
  let ?p = "\<lparr>pl_routing = Some ''local'', pl_models = Some [''llama3.1:8b''], pl_capability = ''route.local'', pl_route = ''r''\<rparr>"
  let ?g = "\<lparr>gr_ref = ''e'', gr_hold = False, gr_hold_type = None\<rparr>"
  have h: "map_of (jobs cancelled) ''j1'' = Some ?j" "lets_out ?g" "pl_models ?p = Some (''llama3.1:8b'' # [])"
    "teardown idle_deps = None" "outcome_of good_env n = Inr True" for n
    by (simp_all add: cancelled_def put_job_def new_job_def empty_jobs_def lets_out_def derive_hold_reason_def idle_deps_def
        good_env_def)
  from cancelled_job_delivered [OF h, of "task_world 0" None
      "\<lparr>rs_answer = \<lparr>an_text = ''hello'', an_latency = 1, an_tokens_in = 1, an_tokens_out = 1\<rparr>, rs_cost = 0, rs_id = ''x'',
        rs_hash = ''h'', rs_finish = ''stop''\<rparr>"]
  show ?thesis by auto
qed

section \<open>Listing jobs\<close>

lemma str_less_irrefl: "\<not> str_less a a"
  by (induction a) auto

lemma str_less_trans: "str_less a b \<Longrightarrow> str_less b c \<Longrightarrow> str_less a c"
proof (induction a b arbitrary: c rule: str_less.induct)
  case (2 y b)
  then show ?case by (cases c) auto
next
  case (3 x a y b)
  then show ?case by (cases c) auto
qed simp

lemma str_less_total: "a \<noteq> b \<Longrightarrow> str_less a b \<or> str_less b a"
  by (induction a b rule: str_less.induct) (auto simp: neq_Nil_conv linorder_neq_iff)

abbreviation newest_first :: "job list \<Rightarrow> bool" where
  "newest_first \<equiv> sorted_wrt (\<lambda>a b. str_less (j_id b) (j_id a))"

lemma mset_insert_newest: "mset (insert_newest j ks) = add_mset j (mset ks)"
  by (induction ks) auto

lemma insert_newest_sorted:
  "newest_first ks \<Longrightarrow> j_id j \<notin> j_id ` set ks \<Longrightarrow> newest_first (insert_newest j ks)"
proof (induction ks)
  case (Cons k ks)
  have sub: "set (insert_newest j ks) = insert j (set ks)"
    using mset_insert_newest [of j ks] by (metis set_mset_add_mset_insert set_mset_mset)
  show ?case
  proof (cases "str_less (j_id j) (j_id k)")
    case True
    then show ?thesis using Cons sub by auto
  next
    case False
    then have k: "str_less (j_id k) (j_id j)" using str_less_total [of "j_id j" "j_id k"] Cons.prems(2) by auto
    then have "str_less (j_id x) (j_id j)" if "x \<in> set ks" for x
      using Cons.prems(1) that str_less_trans by fastforce
    then show ?thesis using False Cons.prems(1) k by auto
  qed
qed simp

lemma sort_newest:
  assumes "distinct (map j_id js)"
  shows "newest_first (foldr insert_newest js []) \<and> mset (foldr insert_newest js []) = mset js"
  using assms
proof (induction js)
  case (Cons j js)
  then have m: "mset (foldr insert_newest js []) = mset js" "newest_first (foldr insert_newest js [])" by simp_all
  then have "set (foldr insert_newest js []) = set js" by (metis set_mset_mset)
  then show ?case using Cons.prems m by (auto intro!: insert_newest_sorted simp: mset_insert_newest)
qed simp

text \<open>After the cursor comes exactly the rest.\<close>

lemma after_cursor:
  assumes "newest_first xs" and "0 < n" "n \<le> length xs"
  shows "filter (\<lambda>j. str_less (j_id j) (j_id (last (take n xs)))) xs = drop n xs"
proof -
  obtain as b where t: "take n xs = as @ [b]"
    using assms(2,3) by (metis append_butlast_last_id length_0_conv length_take less_not_refl min.absorb2)
  have xs: "xs = as @ b # drop n xs" using t append_take_drop_id [of n xs] by simp
  have "newest_first (as @ b # drop n xs)" using assms(1) xs by simp
  then have "\<forall>a \<in> set as. str_less (j_id b) (j_id a)" "\<forall>c \<in> set (drop n xs). str_less (j_id c) (j_id b)"
    by (auto simp: sorted_wrt_append)
  then have f: "filter (\<lambda>j. str_less (j_id j) (j_id b)) as = []" "filter (\<lambda>j. str_less (j_id j) (j_id b)) (drop n xs) = drop n xs"
    using str_less_trans str_less_irrefl by (auto simp: filter_empty_conv filter_id_conv) blast
  have "filter (\<lambda>j. str_less (j_id j) (j_id b)) (as @ b # drop n xs) = drop n xs"
    using f str_less_irrefl by simp
  then show ?thesis using t xs by simp
qed

lemma matching_since:
  "matching_jobs s st (Some b) = filter (\<lambda>j. str_less (j_id j) b) (matching_jobs s st None)"
  by (simp add: matching_jobs_def Let_def)

definition distinct_ids :: "jobs_state \<Rightarrow> bool" where
  "distinct_ids s \<longleftrightarrow> distinct (map j_id (dict_vals (jobs s)))"

lemma distinct_map_filter_ids: "distinct (map f xs) \<Longrightarrow> distinct (map f (filter P xs))"
  by (induction xs) auto

lemma matching_sorted:
  assumes "distinct_ids s"
  shows "newest_first (matching_jobs s st since)"
    and "mset (matching_jobs s st None) = mset (filter (\<lambda>j. j_status j = st) (dict_vals (jobs s)))"
proof -
  have d: "distinct (map j_id (filter (\<lambda>j. j_status j = st) (dict_vals (jobs s))))"
    using assms by (simp only: distinct_ids_def distinct_map_filter_ids)
  note srt = sort_newest [OF d]
  have n: "matching_jobs s st None = foldr insert_newest (filter (\<lambda>j. j_status j = st) (dict_vals (jobs s))) []"
    by (simp add: matching_jobs_def)
  then show "mset (matching_jobs s st None) = mset (filter (\<lambda>j. j_status j = st) (dict_vals (jobs s)))"
    using srt by simp
  show "newest_first (matching_jobs s st since)"
    using srt n by (cases since) (simp_all add: matching_since sorted_wrt_filter)
qed

lemma next_page:
  assumes "distinct_ids s" and "0 < limit" and "next_cursor (list_jobs s st since limit) = Some c"
  shows "matching_jobs s st (Some c) = drop limit (matching_jobs s st since)"
    and "limit < length (matching_jobs s st since)"
proof -
  let ?ms = "matching_jobs s st since"
  have c: "c = j_id (last (take limit ?ms))" and l: "limit < length ?ms"
    using assms(3) by (auto simp: list_jobs_def Let_def split: if_splits)
  show "limit < length ?ms" by (rule l)
  have f: "filter (\<lambda>j. str_less (j_id j) c) ?ms = drop limit ?ms"
    unfolding c by (rule after_cursor [OF matching_sorted(1) [OF assms(1)] assms(2)]) (use l in simp)
  show "matching_jobs s st (Some c) = drop limit ?ms"
  proof (cases since)
    case None
    then show ?thesis using f by (simp add: matching_since)
  next
    case (Some b)
    have "take limit ?ms \<noteq> []" using assms(2) l by auto
    then have "last (take limit ?ms) \<in> set ?ms" using last_in_set in_set_takeD by fast
    then have "str_less c b" using Some c by (simp add: matching_since)
    then have "filter (\<lambda>j. str_less (j_id j) c) ?ms = matching_jobs s st (Some c)"
      using Some str_less_trans by (auto simp: matching_since intro!: filter_cong)
    then show ?thesis using f by simp
  qed
qed

text \<open>A client that follows the cursors, for at most \<open>n\<close> pages.\<close>

fun crawl :: "nat \<Rightarrow> jobs_state \<Rightarrow> job_status \<Rightarrow> string option \<Rightarrow> nat \<Rightarrow> job list option" where
  "crawl 0 s st since limit = None"
| "crawl (Suc n) s st since limit =
    (let p = list_jobs s st since limit in
     case next_cursor p of
       None \<Rightarrow> Some (map fst (items p))
     | Some c \<Rightarrow> map_option ((@) (map fst (items p))) (crawl n s st (Some c) limit))"

lemma page_items: "map fst (items (list_jobs s st since limit)) = take limit (matching_jobs s st since)"
  by (simp add: list_jobs_def Let_def comp_def)

lemma crawl_complete:
  assumes "distinct_ids s" and "0 < limit"
  shows "length (matching_jobs s st since) < n \<Longrightarrow> crawl n s st since limit = Some (matching_jobs s st since)"
proof (induction n arbitrary: since)
  case (Suc n)
  show ?case
  proof (cases "next_cursor (list_jobs s st since limit)")
    case None
    then have "length (matching_jobs s st since) \<le> limit"
      using assms(2) by (auto simp: list_jobs_def Let_def split: if_splits)
    then show ?thesis using None by (simp add: page_items Let_def)
  next
    case (Some c)
    note nx = next_page [OF assms Some]
    have "crawl n s st (Some c) limit = Some (drop limit (matching_jobs s st since))"
      using Suc.IH [of "Some c"] Suc.prems assms(2) nx by simp
    then show ?thesis using Some by (simp add: page_items Let_def)
  qed
qed simp

text \<open>
  C38: Paging reaches the end and sees every job once. A client that follows \<open>next_cursor\<close> from the first
  page, with any positive limit, is through after at most one page more than there are jobs, and the
  pages together are exactly the jobs in the asked status, newest identifier first.
\<close>

theorem paging_complete:
  assumes "distinct_ids s" and "0 < limit" and "length (jobs s) < n"
  shows "\<exists>js. crawl n s st None limit = Some js \<and> newest_first js \<and>
    mset js = mset (filter (\<lambda>j. j_status j = st) (dict_vals (jobs s)))"
proof -
  note m = matching_sorted [OF assms(1), of st]
  have "length (matching_jobs s st None) = length (filter (\<lambda>j. j_status j = st) (dict_vals (jobs s)))"
    using m(2) by (rule mset_eq_length)
  also have "\<dots> \<le> length (jobs s)"
    using length_filter_le [of "\<lambda>j. j_status j = st" "dict_vals (jobs s)"] by (simp only: length_map)
  finally have "length (matching_jobs s st None) \<le> length (jobs s)" .
  then have "crawl n s st None limit = Some (matching_jobs s st None)"
    using crawl_complete [OF assms(1,2)] assms(3) by simp
  then show ?thesis using m by blast
qed

definition three_jobs :: jobs_state where
  "three_jobs = put_job (new_job ''a'' ''x'' ''text'' ''phone'' 0) (put_job (new_job ''c'' ''y'' ''text'' ''phone'' 1)
     (put_job ((new_job ''b'' ''z'' ''text'' ''phone'' 2)\<lparr>j_status := Delivered\<rparr>) (empty_jobs None)))"

theorem paging_complete_witness:
  "\<exists>js. crawl 4 three_jobs Submitted None 1 = Some js \<and> map j_id js = [''c'', ''a'']"
proof -
  have d: "distinct_ids three_jobs" "(0::nat) < 1" "length (jobs three_jobs) < 4"
    by (simp_all add: distinct_ids_def three_jobs_def put_job_def new_job_def empty_jobs_def)
  obtain js where js: "crawl 4 three_jobs Submitted None 1 = Some js" "newest_first js"
    "mset js = mset (filter (\<lambda>j. j_status j = Submitted) (dict_vals (jobs three_jobs)))"
    using paging_complete [OF d, of Submitted] by blast
  have "map_option (map j_id) (crawl 4 three_jobs Submitted None 1) = Some [''c'', ''a'']"
    by (simp add: eval_nat_numeral list_jobs_def matching_jobs_def three_jobs_def put_job_def new_job_def empty_jobs_def Let_def)
  then show ?thesis using js(1) by auto
qed

end
