(* ===== verification/Egress_Gateway.thy ===== *)
theory Egress_Gateway
  imports Rate_Limit Idempotency
begin

text \<open>
  The egress gateway: \<open>egress-gateway/main.py\<close>, \<open>registry.py\<close> and \<open>providers/\<close>. \<open>dispatch\<close> is split at its
  \<open>await\<close>: \<open>dispatch_checks\<close> is everything before the HTTP call (it answers, or yields the call to make) and
  \<open>dispatch_reply\<close> everything after. The upstream service, its latency and the secrets file are
  arguments. The routes are typed records (the JSON of the file is taken to have their shape), and the
  texts of the details are not modelled but for the failure types.
\<close>

section \<open>Glob patterns\<close>

text \<open>
  \<open>fnmatch.fnmatch\<close> on POSIX: \<open>*\<close>, \<open>?\<close>, \<open>[seq]\<close>, \<open>[!seq]\<close>; a bracket that is not closed is a literal.
  \<open>split_set\<close> yields the negation, the body and the rest after the closing bracket.
\<close>

definition split_set :: "string \<Rightarrow> (bool \<times> string \<times> string) option" where
  "split_set p =
    (let (neg, q) = (case p of c # q \<Rightarrow> if c = CHR ''!'' then (True, q) else (False, p) | [] \<Rightarrow> (False, p));
         (first, q) = (case q of c # r \<Rightarrow> if c = CHR '']'' then ([c], r) else ([], q) | [] \<Rightarrow> ([], q))
     in (case dropWhile (\<lambda>c. c \<noteq> CHR '']'') q of
           [] \<Rightarrow> None
         | _ # rest \<Rightarrow> Some (neg, first @ takeWhile (\<lambda>c. c \<noteq> CHR '']'') q, rest)))"

fun in_set :: "string \<Rightarrow> char \<Rightarrow> bool" where
  "in_set (a # m # b # s) x =
    (if m = CHR ''-'' then ((of_char a :: nat) \<le> of_char x \<and> of_char x \<le> (of_char b :: nat)) \<or> in_set s x
     else x = a \<or> in_set (m # b # s) x)"
| "in_set (a # s) x = (x = a \<or> in_set s x)"
| "in_set [] x = False"

lemma split_set_shorter:
  assumes "split_set p = Some (neg, body, rest)"
  shows "length rest < length p"
proof -
  have d: "length rest < length q" if "dropWhile P q = c # rest" for P and q :: string and c
    using that length_dropWhile_le [of P q] by simp
  show ?thesis
    using assms unfolding split_set_def
    by (cases p) (auto simp: Let_def split: list.splits if_splits dest!: d)
qed

function fnmatch :: "string \<Rightarrow> string \<Rightarrow> bool" where
  "fnmatch name [] = (name = [])"
| "fnmatch name (c # p) =
    (if c = CHR ''*'' then fnmatch name p \<or> (case name of [] \<Rightarrow> False | x # xs \<Rightarrow> fnmatch xs (c # p))
     else (case name of
         [] \<Rightarrow> False
       | x # xs \<Rightarrow>
           if c = CHR ''?'' then fnmatch xs p
           else if c = CHR ''['' then
             (case split_set p of
                None \<Rightarrow> x = c \<and> fnmatch xs p
              | Some (neg, body, rest) \<Rightarrow> in_set body x \<noteq> neg \<and> fnmatch xs rest)
           else x = c \<and> fnmatch xs p))"
  by pat_completeness auto
termination
  by (relation "measures [\<lambda>(name, p). length p + length name, \<lambda>(name, p). length p]")
    (auto dest: split_set_shorter)

section \<open>Routes and state\<close>

record gw_route =
  gr_id :: string
  gr_provider :: string
  gr_endpoint :: string
  gr_model_string :: string
  gr_capabilities :: "string list"
  gr_auth :: string
  gr_secret_ref :: "string option"
  gr_rpm :: int
  gr_timeout_ms :: int
  gr_enabled :: bool

definition matches_model :: "gw_route \<Rightarrow> string \<Rightarrow> bool" where
  "matches_model r target_model = fnmatch target_model (gr_model_string r)"

definition load_routes :: "gw_route list \<Rightarrow> (string, gw_route) dict" where
  "load_routes rs = fold (\<lambda>r. AList.update (gr_id r) r) rs []"

record gateway =
  gw_token :: string
  gw_routes :: "(string, gw_route) dict"
  gw_config_hash :: string
  gw_secrets :: "(string, string option) dict"
  gw_windows :: windows

record dispatch_request =
  dr_job_id :: string
  dr_route_id :: string
  dr_capability :: string
  dr_model :: string
  dr_prompt :: string

record dispatch_response =
  ds_status :: string
  ds_model :: "string option"
  ds_text :: "string option"
  ds_tokens_in :: "int option"
  ds_tokens_out :: "int option"
  ds_cost :: "rat option"
  ds_latency :: "int option"
  ds_result_id :: "string option"
  ds_hash :: "string option"
  ds_finish :: "string option"
  ds_config_hash :: "string option"
  ds_failure :: "string option"

definition blank_response :: dispatch_response where
  "blank_response = \<lparr>ds_status = ''blocked'', ds_model = None, ds_text = None, ds_tokens_in = None, ds_tokens_out = None,
     ds_cost = None, ds_latency = None, ds_result_id = None, ds_hash = None, ds_finish = None, ds_config_hash = None,
     ds_failure = None\<rparr>"

definition blocked_by :: "string \<Rightarrow> dispatch_response" where
  "blocked_by failure = blank_response\<lparr>ds_failure := Some failure\<rparr>"

section \<open>Authority\<close>

text \<open>\<open>authorization.partition(" ")\<close>, the scheme compared in lower case, the token stripped.\<close>

definition presented_token :: "string option \<Rightarrow> string" where
  "presented_token authorization =
    (case authorization of
       None \<Rightarrow> []
     | Some h \<Rightarrow>
         if map lower_char (takeWhile (\<lambda>c. c \<noteq> CHR '' '') h) \<noteq> ''bearer'' then []
         else strip_ws (drop 1 (dropWhile (\<lambda>c. c \<noteq> CHR '' '') h)))"

definition dispatch_authority :: "gateway \<Rightarrow> string option \<Rightarrow> bool" where
  "dispatch_authority G authorization \<longleftrightarrow>
    (let presented = presented_token authorization in
     gw_token G \<noteq> [] \<and> presented \<noteq> [] \<and> presented = gw_token G)"

section \<open>Provider adapters\<close>

record upstream_call =
  up_url :: string
  up_headers :: "(string, string) dict"
  up_body :: json
  up_timeout_ms :: int

definition user_message :: "string \<Rightarrow> json" where
  "user_message prompt = JArr [JObj [(''role'', JStr ''user''), (''content'', JStr prompt)]]"

definition anthropic_request :: "string \<Rightarrow> string \<Rightarrow> string \<Rightarrow> string \<Rightarrow> string \<times> (string, string) dict \<times> json" where
  "anthropic_request endpoint_url model prompt api_key = (endpoint_url,
    [(''x-api-key'', api_key), (''anthropic-version'', ''2023-06-01''), (''content-type'', ''application/json'')],
    JObj [(''model'', JStr model), (''max_tokens'', JInt 4096), (''messages'', user_message prompt)])"

definition openai_request :: "string \<Rightarrow> string \<Rightarrow> string \<Rightarrow> string \<Rightarrow> string \<times> (string, string) dict \<times> json" where
  "openai_request endpoint_url model prompt api_key = (endpoint_url,
    [(''Authorization'', ''Bearer '' @ api_key), (''Content-Type'', ''application/json'')],
    JObj [(''model'', JStr model), (''messages'', user_message prompt)])"

definition google_request :: "string \<Rightarrow> string \<Rightarrow> string \<Rightarrow> string \<Rightarrow> string \<times> (string, string) dict \<times> json" where
  "google_request endpoint_url model prompt api_key = (endpoint_url @ ''?key='' @ api_key,
    [(''Content-Type'', ''application/json'')],
    JObj [(''contents'', JArr [JObj [(''parts'', JArr [JObj [(''text'', JStr prompt)]])]])])"

definition ollama_request :: "string \<Rightarrow> string \<Rightarrow> string \<Rightarrow> string \<Rightarrow> string \<times> (string, string) dict \<times> json" where
  "ollama_request endpoint_url model prompt api_key = (endpoint_url,
    [(''Content-Type'', ''application/json'')],
    JObj [(''model'', JStr model), (''prompt'', JStr prompt), (''stream'', JBool False)])"

text \<open>\<open>ADAPTERS.get(provider)\<close>.\<close>

definition build_request :: "string \<Rightarrow> string \<Rightarrow> string \<Rightarrow> string \<Rightarrow> string \<Rightarrow> (string \<times> (string, string) dict \<times> json) option" where
  "build_request provider endpoint_url model prompt api_key =
    (if provider = ''anthropic'' then Some (anthropic_request endpoint_url model prompt api_key)
     else if provider = ''openai'' then Some (openai_request endpoint_url model prompt api_key)
     else if provider = ''google'' then Some (google_request endpoint_url model prompt api_key)
     else if provider = ''ollama'' then Some (ollama_request endpoint_url model prompt api_key)
     else None)"

text \<open>\<open>data[key]\<close> and \<open>data[0]\<close>; \<open>None\<close> for the exception, which \<open>dispatch\<close> catches.\<close>

definition json_key :: "string \<Rightarrow> json \<Rightarrow> json option" where
  "json_key k v = (case v of JObj d \<Rightarrow> map_of d k | _ \<Rightarrow> None)"

definition json_first :: "json \<Rightarrow> json option" where
  "json_first v = (case v of JArr (x # xs) \<Rightarrow> Some x | _ \<Rightarrow> None)"

record parsed_response =
  pr_text :: json
  pr_in :: json
  pr_out :: json
  pr_finish :: json

definition with_usage ::
    "json option \<Rightarrow> json option \<Rightarrow> string \<Rightarrow> string \<Rightarrow> json option \<Rightarrow> parsed_response option" where
  "with_usage txt usage k_in k_out finish =
    (case (txt, usage) of
       (Some t, Some u) \<Rightarrow>
         (case (json_get k_in (JInt 0) u, json_get k_out (JInt 0) u, finish) of
            (Some a, Some b, Some f) \<Rightarrow> Some \<lparr>pr_text = t, pr_in = a, pr_out = b, pr_finish = f\<rparr>
          | _ \<Rightarrow> None)
     | _ \<Rightarrow> None)"

definition anthropic_parse :: "json \<Rightarrow> parsed_response option" where
  "anthropic_parse data =
    with_usage (Option.bind (Option.bind (json_key ''content'' data) json_first) (json_key ''text''))
      (json_get ''usage'' (JObj []) data) ''input_tokens'' ''output_tokens'' (json_get ''stop_reason'' (JStr ''stop'') data)"

definition openai_parse :: "json \<Rightarrow> parsed_response option" where
  "openai_parse data =
    (let choice = Option.bind (json_key ''choices'' data) json_first in
     with_usage (Option.bind (Option.bind choice (json_key ''message'')) (json_key ''content''))
       (json_get ''usage'' (JObj []) data) ''prompt_tokens'' ''completion_tokens''
       (Option.bind choice (json_get ''finish_reason'' (JStr ''stop''))))"

definition google_parse :: "json \<Rightarrow> parsed_response option" where
  "google_parse data =
    (let cand = Option.bind (json_key ''candidates'' data) json_first;
         parts = Option.bind (Option.bind cand (json_key ''content'')) (json_key ''parts'') in
     with_usage (Option.bind (Option.bind parts json_first) (json_key ''text''))
       (json_get ''usageMetadata'' (JObj []) data) ''promptTokenCount'' ''candidatesTokenCount''
       (Option.bind cand (json_get ''finishReason'' (JStr ''STOP''))))"

definition ollama_parse :: "json \<Rightarrow> parsed_response option" where
  "ollama_parse data =
    (case json_get ''response'' (JStr []) data of
       None \<Rightarrow> None
     | Some t \<Rightarrow> Some \<lparr>pr_text = t, pr_in = JInt 0, pr_out = JInt 0, pr_finish = JStr ''stop''\<rparr>)"

definition parse_response :: "string \<Rightarrow> json \<Rightarrow> parsed_response option" where
  "parse_response provider data =
    (if provider = ''anthropic'' then anthropic_parse data
     else if provider = ''openai'' then openai_parse data
     else if provider = ''google'' then google_parse data
     else ollama_parse data)"

section \<open>The check sequence\<close>

definition resolve_secret :: "gateway \<Rightarrow> gw_route \<Rightarrow> string option" where
  "resolve_secret G r =
    (if gr_auth r = ''none'' then Some []
     else (case gr_secret_ref r of
         None \<Rightarrow> None
       | Some ref \<Rightarrow>
           if ref = [] then None
           else (case map_of (gw_secrets G) ref of Some (Some k) \<Rightarrow> if k = [] then None else Some k | _ \<Rightarrow> None)))"

text \<open>Checks 1 to 6: a refusal, or the route and the call to make.\<close>

definition dispatch_checks ::
    "instant \<Rightarrow> dispatch_request \<Rightarrow> gateway \<Rightarrow> (dispatch_response + gw_route \<times> upstream_call) \<times> gateway" where
  "dispatch_checks now req G =
    (case map_of (gw_routes G) (dr_route_id req) of
       None \<Rightarrow> (Inl (blocked_by ''route_mismatch''), G)
     | Some r \<Rightarrow>
         if \<not> gr_enabled r then (Inl (blocked_by ''policy_violation''), G)
         else if dr_capability req \<notin> set (gr_capabilities r) then (Inl (blocked_by ''route_mismatch''), G)
         else if \<not> matches_model r (dr_model req) then (Inl (blocked_by ''model_mismatch''), G)
         else
           (let (ok, w) = sliding_check (dr_route_id req) (gr_rpm r) now (gw_windows G);
                G = G\<lparr>gw_windows := w\<rparr> in
            if \<not> ok then
              (Inl (blocked_by ''policy_violation''),
               G\<lparr>gw_windows := snd (sliding_count (dr_route_id req) now (gw_windows G))\<rparr>)
            else (case resolve_secret G r of
                None \<Rightarrow> (Inl (blocked_by ''endpoint_unavailable''), G)
              | Some api_key \<Rightarrow>
                  (case build_request (gr_provider r) (gr_endpoint r) (dr_model req) (dr_prompt req) api_key of
                     None \<Rightarrow> (Inl (blocked_by ''route_mismatch''), G)
                   | Some (url, headers, body) \<Rightarrow>
                       (Inr (r, \<lparr>up_url = url, up_headers = headers, up_body = body, up_timeout_ms = gr_timeout_ms r\<rparr>), G)))))"

section \<open>The reply\<close>

datatype upstream =
    Connect_failed
  | Timed_out
  | Request_failed py_exc
  | Answered nat "json option"

definition upstream_error :: "dispatch_request \<Rightarrow> int \<Rightarrow> dispatch_response" where
  "upstream_error req latency = blank_response\<lparr>ds_status := ''error'', ds_model := Some (dr_model req),
     ds_failure := Some ''endpoint_unavailable'', ds_latency := Some latency\<rparr>"

text \<open>A token count in \<open>_estimate_cost\<close> (\<open>None\<close>: \<open>TypeError\<close>), and as the \<open>Optional[int]\<close> of the response model.\<close>

definition token_rat :: "json \<Rightarrow> rat option" where
  "token_rat v = (case v of JInt i \<Rightarrow> Some (of_int i) | JNum q \<Rightarrow> Some q | JBool b \<Rightarrow> Some (if b then 1 else 0) | _ \<Rightarrow> None)"

definition rates :: "string \<Rightarrow> rat \<times> rat" where
  "rates provider =
    (if provider = ''anthropic'' then (3 / 1000000, 15 / 1000000)
     else if provider = ''openai'' then (25 / 10000000, 10 / 1000000)
     else if provider = ''google'' then (75 / 1000000000, 3 / 10000000)
     else (0, 0))"

definition estimate_cost :: "string \<Rightarrow> rat \<Rightarrow> rat \<Rightarrow> rat" where
  "estimate_cost provider tokens_in tokens_out =
    (case rates provider of (a, b) \<Rightarrow> py_round 6 (tokens_in * a + tokens_out * b))"

definition dispatch_reply ::
    "(string \<Rightarrow> string) \<Rightarrow> string \<Rightarrow> int \<Rightarrow> gateway \<Rightarrow> dispatch_request \<Rightarrow> gw_route \<Rightarrow> upstream \<Rightarrow> py_exc + dispatch_response" where
  "dispatch_reply hash result_id latency G req r outcome =
    (case outcome of
       Connect_failed \<Rightarrow> Inr (upstream_error req latency)
     | Timed_out \<Rightarrow> Inr (upstream_error req latency)
     | Request_failed x \<Rightarrow> Inl x
     | Answered code body \<Rightarrow>
         if code \<ge> 400 then Inr (upstream_error req latency)
         else (case Option.bind body (parse_response (gr_provider r)) of
             None \<Rightarrow> Inr (upstream_error req latency)
           | Some p \<Rightarrow>
               (case (token_rat (pr_in p), token_rat (pr_out p)) of
                  (Some a, Some b) \<Rightarrow>
                    (case (pr_text p, pr_finish p) of
                       (JStr t, JStr f) \<Rightarrow>
                         if a = of_int \<lfloor>a\<rfloor> \<and> b = of_int \<lfloor>b\<rfloor> then Inr
                           \<lparr>ds_status = ''ok'', ds_model = Some (dr_model req), ds_text = Some t,
                            ds_tokens_in = Some (floor a), ds_tokens_out = Some (floor b),
                            ds_cost = Some (estimate_cost (gr_provider r) a b), ds_latency = Some latency,
                            ds_result_id = Some result_id, ds_hash = Some (hash t), ds_finish = Some f,
                            ds_config_hash = Some (gw_config_hash G), ds_failure = None\<rparr>
                         else Inl (ValueError ''response model'')
                     | (JStr t, _) \<Rightarrow> Inl (ValueError ''response model'')
                     | _ \<Rightarrow> Inl AttributeError)
                | _ \<Rightarrow> Inl TypeError)))"

text \<open>One request to \<open>POST /dispatch\<close>: refused with 401, answered, or forwarded.\<close>

datatype gw_step = Unauthorized | Refused dispatch_response | Forwarded gw_route upstream_call

definition receive_dispatch :: "instant \<Rightarrow> string option \<Rightarrow> dispatch_request \<Rightarrow> gateway \<Rightarrow> gw_step \<times> gateway" where
  "receive_dispatch now authorization req G =
    (if \<not> dispatch_authority G authorization then (Unauthorized, G)
     else (case dispatch_checks now req G of
         (Inl resp, G') \<Rightarrow> (Refused resp, G')
       | (Inr (r, call), G') \<Rightarrow> (Forwarded r call, G')))"

section \<open>Only authorised requests go out\<close>

text \<open>The call that a route makes of a request, with its own key.\<close>

definition call_of :: "gw_route \<Rightarrow> dispatch_request \<Rightarrow> string \<Rightarrow> upstream_call option" where
  "call_of r req key =
    map_option (\<lambda>(url, headers, body). \<lparr>up_url = url, up_headers = headers, up_body = body, up_timeout_ms = gr_timeout_ms r\<rparr>)
      (build_request (gr_provider r) (gr_endpoint r) (dr_model req) (dr_prompt req) key)"


section \<open>The outgoing rate\<close>

text \<open>The instants at which requests of a route were forwarded, over a history of requests.\<close>

type_synonym call_in = "instant \<times> string option \<times> dispatch_request"

fun forwarded :: "string \<Rightarrow> call_in list \<Rightarrow> gateway \<Rightarrow> instant list" where
  "forwarded rid [] G = []"
| "forwarded rid ((now, authorization, req) # qs) G =
    (let (x, G') = receive_dispatch now authorization req G in
     (case x of Forwarded r call \<Rightarrow> if dr_route_id req = rid then [now] else [] | _ \<Rightarrow> []) @ forwarded rid qs G')"

text \<open>What one request does to the windows: nothing, or what the limiter does for the request's route.\<close>

lemma receive_windows:
  assumes "receive_dispatch now authorization req G = (x, G')"
  obtains (untouched) "G' = G" "\<not> (\<exists>r call. x = Forwarded r call)"
  | (asked) r where "map_of (gw_routes G) (dr_route_id req) = Some r" "gw_routes G' = gw_routes G"
      "\<And>k. window_of (gw_windows G') k = window_of (snd (sliding_check (dr_route_id req) (gr_rpm r) now (gw_windows G))) k"
      "(\<exists>r call. x = Forwarded r call) \<Longrightarrow> fst (sliding_check (dr_route_id req) (gr_rpm r) now (gw_windows G))"
proof (cases "dispatch_authority G authorization")
  case False
  then show thesis using assms untouched by (auto simp: receive_dispatch_def)
next
  case auth: True
  show thesis
  proof (cases "map_of (gw_routes G) (dr_route_id req)")
    case None
    then show thesis using assms auth untouched by (auto simp: receive_dispatch_def dispatch_checks_def)
  next
    case (Some r)
    show thesis
    proof (cases "gr_enabled r \<and> dr_capability req \<in> set (gr_capabilities r) \<and> matches_model r (dr_model req)")
      case False
      then show thesis using assms auth Some untouched by (auto simp: receive_dispatch_def dispatch_checks_def split: if_splits)
    next
      case True
      obtain ok w where c: "sliding_check (dr_route_id req) (gr_rpm r) now (gw_windows G) = (ok, w)" by fastforce
      have idem: "recent now (recent now ts) = recent now ts" for ts by (simp add: recent_def)
      have w: "window_of w (dr_route_id req) = recent now (window_of (gw_windows G) (dr_route_id req))" if "\<not> ok"
        using per_route.own_window [of "dr_route_id req" "gr_rpm r" now "gw_windows G"] c that by simp
      show thesis
      proof (rule asked [OF Some])
        show "gw_routes G' = gw_routes G"
          using assms auth Some True c by (auto simp: receive_dispatch_def dispatch_checks_def Let_def split: option.splits if_splits)
        show "window_of (gw_windows G') k = window_of (snd (sliding_check (dr_route_id req) (gr_rpm r) now (gw_windows G))) k" for k
          using assms auth Some True c w idem
          by (auto simp: receive_dispatch_def dispatch_checks_def Let_def sliding_count_def split: option.splits if_splits)
        show "fst (sliding_check (dr_route_id req) (gr_rpm r) now (gw_windows G))" if "\<exists>r call. x = Forwarded r call"
          using assms auth Some True c that by (auto simp: receive_dispatch_def dispatch_checks_def Let_def split: option.splits if_splits)
      qed
    qed
  qed
qed

definition calls_clock :: "instant \<Rightarrow> call_in list \<Rightarrow> bool" where
  "calls_clock t qs \<longleftrightarrow> sorted (t # map fst qs)"

lemma window_inv_cong:
  "per_route.window_inv rid rpm past t w \<Longrightarrow> window_of w' rid = window_of w rid \<Longrightarrow> per_route.window_inv rid rpm past t w'"
  by (simp add: per_route.window_inv_def)

lemma window_inv_later:
  assumes "per_route.window_inv rid rpm past t w" and "t \<le> now"
  shows "per_route.window_inv rid rpm past now w"
proof -
  have "recent now past = recent now (window_of w rid)"
    using assms per_route.recent_recent [OF assms(2)] unfolding per_route.window_inv_def by metis
  then show ?thesis using assms unfolding per_route.window_inv_def by force
qed

lemma forwarded_bound:
  assumes "per_route.window_inv rid (gr_rpm r) past t (gw_windows G)" and "map_of (gw_routes G) rid = Some r"
    and "calls_clock t qs" and "\<And>u. length (in_minute u sent) \<le> length (in_minute u past)"
  shows "int (length (in_minute u (sent @ forwarded rid qs G))) \<le> max 0 (gr_rpm r)"
  using assms
proof (induction qs arbitrary: past t G sent)
  case Nil
  then show ?case using order_trans [OF Nil.prems(4) [of u, folded of_nat_le_iff [where 'a = int]]]
    by (simp add: per_route.window_inv_def)
next
  case (Cons q qs)
  obtain now a req where q: "q = (now, a, req)" by (metis prod.exhaust)
  obtain x G' where x: "receive_dispatch now a req G = (x, G')" by fastforce
  have t: "t \<le> now" and clock: "calls_clock now qs" using Cons.prems(3) q by (simp_all add: calls_clock_def)
  define new where "new = (case x of Forwarded r call \<Rightarrow> if dr_route_id req = rid then [now] else [] | _ \<Rightarrow> [])"
  have f: "forwarded rid (q # qs) G = new @ forwarded rid qs G'" using x q by (simp add: new_def)
  show ?case
    using x
  proof (cases rule: receive_windows)
    case untouched
    then have "new = []" by (auto simp: new_def split: gw_step.splits)
    moreover have "int (length (in_minute u (sent @ forwarded rid qs G'))) \<le> max 0 (gr_rpm r)"
      using Cons.IH [OF window_inv_later [OF Cons.prems(1) t] Cons.prems(2) clock Cons.prems(4)] untouched by simp
    ultimately show ?thesis using f by simp
  next
    case (asked r')
    let ?c = "sliding_check (dr_route_id req) (gr_rpm r') now (gw_windows G)"
    let ?adm = "if dr_route_id req = rid \<and> fst ?c then [now] else []"
    have r': "dr_route_id req = rid \<Longrightarrow> gr_rpm r' = gr_rpm r" using asked(1) Cons.prems(2) by simp
    have "per_route.window_inv rid (gr_rpm r) (past @ ?adm) now (snd ?c)"
      by (rule per_route.window_inv_step [OF Cons.prems(1) t r'])
    then have inv: "per_route.window_inv rid (gr_rpm r) (past @ ?adm) now (gw_windows G')"
      by (rule window_inv_cong) (rule asked(3))
    have "new = [] \<or> new = ?adm" using asked(4) by (auto simp: new_def split: gw_step.splits)
    then have sent: "length (in_minute v (sent @ new)) \<le> length (in_minute v (past @ ?adm))" for v
      using Cons.prems(4) [of v] by (auto simp: in_minute_def)
    have "map_of (gw_routes G') rid = Some r" using Cons.prems(2) asked(2) by simp
    from Cons.IH [OF inv this clock sent] show ?thesis using f by simp
  qed
qed

text \<open>
  C21: The gateway keeps every route's rate. Whatever requests arrive, from whomever, for whatever routes
  and in whatever number, as long as the clock does not go back, the requests of one route that are
  sent upstream within any 60 seconds are at most the \<open>rate_limit_rpm\<close> of the route.
\<close>

theorem gateway_rate_bound:
  assumes "map_of (gw_routes G) rid = Some r" and "window_of (gw_windows G) rid = []" and "calls_clock t qs"
  shows "int (length (in_minute u (forwarded rid qs G))) \<le> max 0 (gr_rpm r)"
proof -
  have "per_route.window_inv rid (gr_rpm r) [] t (gw_windows G)"
    by (rule per_route.fresh_inv) (simp add: assms(2) recent_def)
  from forwarded_bound [OF this assms(1,3), of "[]" u] show ?thesis by simp
qed

definition sample_gateway :: gateway where
  "sample_gateway = \<lparr>gw_token = ''tok'', gw_routes = load_routes
     [\<lparr>gr_id = ''r'', gr_provider = ''anthropic'', gr_endpoint = ''https://x'', gr_model_string = ''claude-*'',
       gr_capabilities = [''c''], gr_auth = ''bearer_token'', gr_secret_ref = Some ''K'', gr_rpm = 1, gr_timeout_ms = 90000,
       gr_enabled = True\<rparr>],
     gw_config_hash = ''h'', gw_secrets = [(''K'', Some ''key'')], gw_windows = []\<rparr>"

definition sample_request :: dispatch_request where
  "sample_request = \<lparr>dr_job_id = ''j'', dr_route_id = ''r'', dr_capability = ''c'', dr_model = ''claude-4'', dr_prompt = ''hi''\<rparr>"

theorem gateway_rate_bound_witness:
  "forwarded ''r'' [(5, Some ''Bearer tok'', sample_request), (6, Some ''Bearer tok'', sample_request)] sample_gateway = [5] \<and>
   length (in_minute 6 (forwarded ''r'' [(5, Some ''Bearer tok'', sample_request), (6, Some ''Bearer tok'', sample_request)]
     sample_gateway)) \<le> 1"
proof -
  let ?qs = "[(5, Some ''Bearer tok'', sample_request), (6, Some ''Bearer tok'', sample_request)]"
  have run: "forwarded ''r'' ?qs sample_gateway = [5]" by code_simp
  have h: "\<exists>r. map_of (gw_routes sample_gateway) ''r'' = Some r \<and> gr_rpm r = 1" "window_of (gw_windows sample_gateway) ''r'' = []"
    "calls_clock 0 ?qs"
    by (simp_all add: sample_gateway_def load_routes_def window_of_def calls_clock_def)
  then obtain r where "map_of (gw_routes sample_gateway) ''r'' = Some r" "gr_rpm r = 1" by blast
  with gateway_rate_bound [OF this(1) h(2,3), of 6] run show ?thesis by simp
qed

end
