(* ===== verification/Recovery.thy ===== *)
theory Recovery
  imports Job_Reviews Job_Delivery Text_Numbers
begin

text \<open>
  The recovery pass at startup (\<open>orchestrator/stale_recovery.py\<close>) and what \<open>main.py\<close> does around it: the jobs
  that the restart loaded are re-queued, delivered, skipped or given up, then all are persisted and the
  summary is recorded. The pass runs before the server takes requests, so it runs alone.
\<close>

section \<open>The threshold\<close>

definition DEFAULT_STALE_THRESHOLD_SECONDS :: int where
  "DEFAULT_STALE_THRESHOLD_SECONDS = 300"

definition MIN_STALE_THRESHOLD_SECONDS :: int where
  "MIN_STALE_THRESHOLD_SECONDS = 60"

definition MAX_RECOVERY_DISPATCHES :: nat where
  "MAX_RECOVERY_DISPATCHES = 2"

text \<open>\<open>raw\<close> is the environment variable.\<close>

definition get_stale_threshold :: "string option \<Rightarrow> int" where
  "get_stale_threshold raw =
    (case raw of
       None \<Rightarrow> DEFAULT_STALE_THRESHOLD_SECONDS
     | Some r \<Rightarrow>
         (case py_int r of
            None \<Rightarrow> DEFAULT_STALE_THRESHOLD_SECONDS
          | Some v \<Rightarrow> if v < MIN_STALE_THRESHOLD_SECONDS then MIN_STALE_THRESHOLD_SECONDS else v))"

lemma stale_threshold_floor: "MIN_STALE_THRESHOLD_SECONDS \<le> get_stale_threshold raw"
  by (simp add: get_stale_threshold_def MIN_STALE_THRESHOLD_SECONDS_def DEFAULT_STALE_THRESHOLD_SECONDS_def split: option.split)

section \<open>One job\<close>

record recovery_action =
  ra_job :: string
  ra_state :: job_status
  ra_action :: string

definition NO_ACTION_STATES :: "job_status list" where
  "NO_ACTION_STATES = [Failed, Revoked, Delivered]"

definition check_dispatch_cap :: "string \<Rightarrow> bool task" where
  "check_dispatch_cap jid =
    with_job jid (\<lambda>j.
      if j_recovery_count j \<ge> MAX_RECOVERY_DISPATCHES
      then co_seq (log_event (\<lambda>sp. event_job_failed sp jid ''recovery_exhausted''
          (''Recovery re-dispatch cap ('' @ nat_str MAX_RECOVERY_DISPATCHES @ '') exceeded'') None))
        (co_seq (set_job jid (\<lambda>j. j\<lparr>j_status := Failed, j_error := Some ''recovery_exhausted''\<rparr>)) (Ret False))
      else Ret True)"

text \<open>A full queue is only logged.\<close>

definition enqueue_for_recovery :: "string \<Rightarrow> unit task" where
  "enqueue_for_recovery jid =
    co_seq (set_job jid (\<lambda>j. j\<lparr>j_recovery_count := Suc (j_recovery_count j)\<rparr>))
    (co_seq (log_event (\<lambda>sp. event_job_queued sp jid ''recovery'' 0 None))
    (co_bind (enqueue jid) (\<lambda>_. Ret ())))"

definition redispatch :: "string \<Rightarrow> job_status \<Rightarrow> (job \<Rightarrow> job) \<Rightarrow> string \<Rightarrow> recovery_action option task" where
  "redispatch jid st f act =
    co_bind (check_dispatch_cap jid) (\<lambda>ok.
      if \<not> ok then Ret (Some \<lparr>ra_job = jid, ra_state = st, ra_action = ''recovery_exhausted''\<rparr>)
      else co_seq (set_job jid f) (co_seq (enqueue_for_recovery jid)
        (Ret (Some \<lparr>ra_job = jid, ra_state = st, ra_action = act\<rparr>))))"

text \<open>\<open>age_seconds < stale_threshold\<close>; a job without a dispatch time counts as stale.\<close>

definition fresh_dispatch :: "int \<Rightarrow> instant \<Rightarrow> job \<Rightarrow> bool" where
  "fresh_dispatch threshold t j = (case j_dispatched_at j of None \<Rightarrow> False | Some d \<Rightarrow> t - d < threshold * 1000000)"

definition recover_response_received :: "world \<Rightarrow> string \<Rightarrow> recovery_action option task" where
  "recover_response_received W jid =
    co_seq (log_event (\<lambda>sp. event_job_delivered sp jid))
    (co_bind (now W) (\<lambda>t.
     co_seq (set_job jid (\<lambda>j. j\<lparr>j_status := Delivered, j_delivered_at := Some t\<rparr>))
       (Ret (Some \<lparr>ra_job = jid, ra_state = Response_received, ra_action = ''deliver''\<rparr>))))"

definition recover_dispatched :: "int \<Rightarrow> instant \<Rightarrow> string \<Rightarrow> recovery_action option task" where
  "recover_dispatched threshold t jid =
    with_job jid (\<lambda>j.
      if fresh_dispatch threshold t j then Ret (Some \<lparr>ra_job = jid, ra_state = Dispatched, ra_action = ''skipped''\<rparr>)
      else redispatch jid Dispatched (\<lambda>j. j\<lparr>j_status := Classified\<rparr>) ''re_dispatch_stale'')"

definition recover_job :: "world \<Rightarrow> int \<Rightarrow> instant \<Rightarrow> string \<Rightarrow> recovery_action option task" where
  "recover_job W threshold t jid =
    with_job jid (\<lambda>j.
      if j_status j \<in> set NO_ACTION_STATES then Ret (Some \<lparr>ra_job = jid, ra_state = j_status j, ra_action = ''no_action''\<rparr>)
      else if j_status j = Submitted then redispatch jid Submitted id ''re_classify''
      else if j_status j = Classified then redispatch jid Classified id ''re_dispatch''
      else if j_status j = Dispatched then recover_dispatched threshold t jid
      else if j_status j = Response_received then recover_response_received W jid
      else Ret None)"

section \<open>The pass\<close>

fun recover_all :: "world \<Rightarrow> int \<Rightarrow> instant \<Rightarrow> string list \<Rightarrow> recovery_action option list task" where
  "recover_all W threshold t [] = Ret []"
| "recover_all W threshold t (jid # jids) =
    co_bind (recover_job W threshold t jid) (\<lambda>a. co_bind (recover_all W threshold t jids) (\<lambda>as. Ret (a # as)))"

record recovery_report =
  rr_scanned :: nat
  rr_recovered :: nat
  rr_skipped :: nat
  rr_failed :: nat
  rr_actions :: "recovery_action list"

definition actions_of :: "recovery_action option list \<Rightarrow> recovery_action list" where
  "actions_of as = concat (map (\<lambda>a. case a of Some x \<Rightarrow> [x] | None \<Rightarrow> []) as)"

definition count_actions :: "(string \<Rightarrow> bool) \<Rightarrow> recovery_action list \<Rightarrow> nat" where
  "count_actions f as = length (filter (\<lambda>a. f (ra_action a)) as)"

definition report_of :: "recovery_action option list \<Rightarrow> recovery_report" where
  "report_of as =
    (let xs = actions_of as in
     \<lparr>rr_scanned = length as,
      rr_recovered = count_actions (\<lambda>x. x \<notin> {''skipped'', ''recovery_exhausted'', ''no_action''}) xs,
      rr_skipped = count_actions (\<lambda>x. x = ''skipped'') xs,
      rr_failed = count_actions (\<lambda>x. x = ''recovery_exhausted'') xs,
      rr_actions = xs\<rparr>)"

definition run_recovery :: "world \<Rightarrow> string option \<Rightarrow> recovery_report task" where
  "run_recovery W raw =
    co_bind (now W) (\<lambda>t. Get (\<lambda>s.
      co_bind (recover_all W (get_stale_threshold raw) t (dict_keys (jobs s))) (\<lambda>as. Ret (report_of as))))"

fun persist_all :: "world \<Rightarrow> string list \<Rightarrow> unit task" where
  "persist_all W [] = Ret ()"
| "persist_all W (jid # jids) = co_seq (persist_job W jid) (persist_all W jids)"

text \<open>The part of \<open>main.py\<close>: recover, persist every job, record the summary.\<close>

definition startup_recovery :: "world \<Rightarrow> string option \<Rightarrow> recovery_report task" where
  "startup_recovery W raw =
    co_bind (run_recovery W raw) (\<lambda>rep.
    co_seq (Get (\<lambda>s. persist_all W (dict_keys (jobs s))))
    (co_seq (log_event (\<lambda>sp. event_system_startup sp None None None None None
        (Some [(''jobs_scanned'', JInt (int (rr_scanned rep))), (''jobs_recovered'', JInt (int (rr_recovered rep))),
          (''jobs_skipped'', JInt (int (rr_skipped rep))), (''jobs_failed'', JInt (int (rr_failed rep)))])))
      (Ret rep)))"

section \<open>What the pass does to a job\<close>

definition needs_dispatch :: "int \<Rightarrow> instant \<Rightarrow> job \<Rightarrow> bool" where
  "needs_dispatch threshold t j \<longleftrightarrow>
    j_status j \<in> {Submitted, Classified} \<or> j_status j = Dispatched \<and> \<not> fresh_dispatch threshold t j"

definition back_in_line :: "job \<Rightarrow> job" where
  "back_in_line j = j\<lparr>j_status := (if j_status j = Dispatched then Classified else j_status j),
     j_recovery_count := Suc (j_recovery_count j)\<rparr>"

definition given_up :: "job \<Rightarrow> job" where
  "given_up j = j\<lparr>j_status := Failed, j_error := Some ''recovery_exhausted''\<rparr>"

text \<open>\<open>s'\<close> is \<open>s\<close> with the job \<open>j\<close> and one more record, of type \<open>ty\<close> about it.\<close>

definition job_step :: "string \<Rightarrow> string \<Rightarrow> job \<Rightarrow> jobs_state \<Rightarrow> jobs_state \<Rightarrow> bool" where
  "job_step ty jid j s s' \<longleftrightarrow>
    map_of (jobs s') = (map_of (jobs s))(jid \<mapsto> j) \<and> (\<exists>ev. alog s' = alog s @ [ev] \<and> about ty jid ev)"

lemma modify_twice:
  assumes "map_of d k = Some j"
  shows "map_of (dict_modify k g (dict_modify k f d)) = (map_of d)(k \<mapsto> g (f j))"
  using assms by (simp add: map_of_dict_modify)

text \<open>
  C31: The recovery of one job, on every branch. A job that still has to be dispatched (or whose dispatch is
  stale) is put back in line, with one record and one more count, unless it has been twice; then it is
  given up with its record. A job whose response has arrived is delivered, whatever its permission said. All
  others are left alone. The queue gains the job exactly when it is put back and there is room.
\<close>

theorem recovery_outcome:
  assumes "writes_all E" and "map_of (jobs s) jid = Some j"
  shows "\<exists>a s'. run E (recover_job W threshold t jid) s = Some (Inr a, s') \<and>
    (if needs_dispatch threshold t j
     then if j_recovery_count j < MAX_RECOVERY_DISPATCHES
       then job_step ''job.queued'' jid (back_in_line j) s s' \<and>
         queue s' = (if length (queue s) < EVENT_QUEUE_BOUND then queue s @ [jid] else queue s)
       else job_step ''job.failed'' jid (given_up j) s s' \<and> queue s' = queue s
     else if j_status j = Response_received
     then (\<exists>tm. job_step ''job.delivered'' jid (j\<lparr>j_status := Delivered, j_delivered_at := Some tm\<rparr>) s s') \<and> queue s' = queue s
     else s' = s)"
proof -
  have w: "\<exists>ok. outcome_of E n = Inr ok" for n using assms(1) unfolding writes_all_def by blast
  have log: "run E (log_event b) u = Some (Inr (), u\<lparr>alog := alog u @ [b (stamp_of E (length (alog u)))]\<rparr>)"
    for b and u :: jobs_state
    using w [of "length (alog u)"] by (auto simp: run_log_event)
  have abouts: "about ''job.queued'' jid (event_job_queued sp jid a b c)" "about ''job.failed'' jid (event_job_failed sp jid a' d e)"
    "about ''job.delivered'' jid (event_job_delivered sp jid)" for sp a b c a' d e
    by (simp_all add: about_def event_job_queued_def event_job_failed_def event_job_delivered_def)
  have job: "job_of s jid = j" using assms(2) by (simp add: job_of_def)
  note runs = run_bind run_seq log run_enqueue
  have re: "\<exists>a s'. run E (redispatch jid st f act) s = Some (Inr a, s') \<and>
      (if j_recovery_count j < MAX_RECOVERY_DISPATCHES
       then job_step ''job.queued'' jid (back_in_line j) s s' \<and>
         queue s' = (if length (queue s) < EVENT_QUEUE_BOUND then queue s @ [jid] else queue s)
       else job_step ''job.failed'' jid (given_up j) s s' \<and> queue s' = queue s)"
    if "f j = j\<lparr>j_status := (if j_status j = Dispatched then Classified else j_status j)\<rparr>" for st f act
  proof (cases "j_recovery_count j < MAX_RECOVERY_DISPATCHES")
    case True
    then show ?thesis
      using that abouts assms(2)
      by (simp add: redispatch_def check_dispatch_cap_def enqueue_for_recovery_def runs job job_step_def modify_twice back_in_line_def)
  next
    case False
    then show ?thesis
      using abouts assms(2)
      by (simp add: redispatch_def check_dispatch_cap_def runs job job_step_def map_of_dict_modify given_up_def)
  qed
  have same: "j = j\<lparr>j_status := j_status j\<rparr>" by simp
  show ?thesis
  proof (cases "j_status j")
    case Response_received
    then show ?thesis
      using abouts assms(2)
      by (auto simp: recover_job_def recover_response_received_def NO_ACTION_STATES_def needs_dispatch_def runs job job_step_def
          map_of_dict_modify)
  next
    case Dispatched
    then show ?thesis
      using re [of "\<lambda>j. j\<lparr>j_status := Classified\<rparr>" Dispatched "''re_dispatch_stale''"]
      by (auto simp: recover_job_def recover_dispatched_def NO_ACTION_STATES_def needs_dispatch_def job)
  qed (use re [of id Submitted "''re_classify''"] re [of id Classified "''re_dispatch''"] in
        \<open>simp_all add: recover_job_def NO_ACTION_STATES_def needs_dispatch_def job\<close>)
qed



section \<open>A held result gets out\<close>

text \<open>
  The run: a response arrives for a job whose permission holds it for review (\<open>pre_delivery\<close>). The statement
  that stores \<open>proposal_ready\<close> fails (the fourth draw), so the database still says \<open>response_received\<close>
  when the process dies, and the next start recovers.
\<close>

definition crash_world :: world where
  "crash_world = sample_world\<lparr>db_up := (\<lambda>n. n \<noteq> 3)\<rparr>"

definition before_response :: jobs_state where
  "before_response = put_job ((new_job ''j1'' ''hi'' ''text'' ''phone'' 0)\<lparr>j_status := Dispatched\<rparr>) (empty_jobs (Some empty_db))"

definition held_response :: "unit task" where
  "held_response = finish_stage crash_world idle_deps ''j1'' None
      \<lparr>pl_routing = Some ''local'', pl_models = Some [''llama3.1:8b''], pl_capability = ''route.local'', pl_route = ''r''\<rparr>
      \<lparr>gr_ref = ''e'', gr_hold = True, gr_hold_type = Some ''pre_delivery''\<rparr>
      \<lparr>rs_answer = \<lparr>an_text = ''hello'', an_latency = 1, an_tokens_in = 1, an_tokens_out = 1\<rparr>, rs_cost = 0, rs_id = ''x'',
        rs_hash = ''h'', rs_finish = ''stop''\<rparr>"

text \<open>The same process, and the next one.\<close>

definition held_state :: "jobs_state option" where
  "held_state = map_option snd (run good_env held_response before_response)"

definition recovered_state :: "jobs_state option" where
  "recovered_state = (case held_state of
      None \<Rightarrow> None
    | Some s1 \<Rightarrow> map_option snd (run good_env (startup_recovery crash_world None) (restart True s1)))"

text \<open>The theorem at a job that was dispatched before the crash, with no dispatch time.\<close>

lemma recovery_outcome_witness:
  "\<exists>a s'. run good_env (recover_job sample_world 300 0 ''j1'') before_response = Some (Inr a, s') \<and>
    queue s' = [''j1''] \<and>
    job_step ''job.queued'' ''j1''
      ((new_job ''j1'' ''hi'' ''text'' ''phone'' 0)\<lparr>j_status := Classified, j_recovery_count := 1\<rparr>) before_response s'"
proof -
  have "map_of (jobs before_response) ''j1'' = Some ((new_job ''j1'' ''hi'' ''text'' ''phone'' 0)\<lparr>j_status := Dispatched\<rparr>)"
    by code_simp
  moreover have "queue before_response = []" by code_simp
  ultimately show ?thesis
    using recovery_outcome [OF good_env_writes, of before_response "''j1''" _ sample_world 300 0]
    by (auto simp: needs_dispatch_def fresh_dispatch_def back_in_line_def new_job_def MAX_RECOVERY_DISPATCHES_def
        EVENT_QUEUE_BOUND_def)
qed

text \<open>
  A result that its permission holds for human review is delivered without one, when the database
  misses the write of its proposal and the process restarts: the trail has the proposal and the delivery of
  the job, no review of it, and the job ends as delivered.
\<close>

theorem held_result_delivered:
  "(case held_state of None \<Rightarrow> False | Some s1 \<Rightarrow> j_status (job_of s1 ''j1'') = Proposal_ready) \<and>
   (case recovered_state of None \<Rightarrow> False
    | Some s2 \<Rightarrow> j_status (job_of s2 ''j1'') = Delivered \<and> logged ''job.proposal_ready'' ''j1'' s2 \<and>
        logged ''job.delivered'' ''j1'' s2 \<and> \<not> logged ''human.reviewed'' ''j1'' s2)"
  by code_simp

end
