(* ===== verification/Startup_Validator.thy ===== *)
theory Startup_Validator
  imports Audit_Chain Effects Text_Numbers
begin

text \<open>
  The validation that must pass before the hub starts (\<open>orchestrator/startup_validator.py\<close>) and the gate
  of \<open>main.py\<close> around it. What the checks observe (answers of the worker proxy and of Ollama, files,
  \<open>lsattr\<close>) is the record \<open>observed\<close>; a log file is the list of its lines without their newline, \<open>None\<close>
  when it cannot be opened. The details of a check and the texts of the messages are not modelled.
\<close>

section \<open>The tail of the log\<close>

text \<open>\<open>_verify_tail_chain\<close>, the loop from line \<open>i\<close> on, with the line before in hand.\<close>

fun tail_links :: "codec \<Rightarrow> nat \<Rightarrow> string \<Rightarrow> (string \<times> bool) list \<Rightarrow> py_exc + bool \<times> int" where
  "tail_links C i prev [] = Inr (True, -1)"
| "tail_links C i prev ((l, seg_start) # ls) =
    (case json_loads C l of
       None \<Rightarrow> Inr (False, int i)
     | Some (JObj d) \<Rightarrow>
         (let actual = map_of d ''prev_hash'' in
          if seg_start \<and> actual = Some (JStr (GENESIS_HASH C)) then tail_links C (Suc i) l ls
          else if actual \<noteq> Some (JStr (compute_hash C prev)) then Inr (False, int i)
          else tail_links C (Suc i) l ls)
     | Some _ \<Rightarrow> Inl AttributeError)"

definition verify_tail_chain :: "codec \<Rightarrow> (string \<times> bool) list \<Rightarrow> py_exc + bool \<times> int" where
  "verify_tail_chain C ls =
    (case ls of
       [] \<Rightarrow> Inr (True, -1)
     | [x] \<Rightarrow> Inr (True, -1)
     | (l, f) # rest \<Rightarrow> tail_links C 1 l rest)"

text \<open>The non-blank lines of a file, the first one flagged; an unreadable file is skipped.\<close>

definition flag_first :: "string list \<Rightarrow> (string \<times> bool) list" where
  "flag_first ls = zip ls (map (\<lambda>i. i = 0) [0..<length ls])"

definition log_lines :: "string list \<Rightarrow> (string \<times> bool) list" where
  "log_lines ls = flag_first (filter (\<lambda>l. strip_ws l \<noteq> []) ls)"

fun collect_tail :: "nat \<Rightarrow> string list option list \<Rightarrow> (string \<times> bool) list \<Rightarrow> (string \<times> bool) list" where
  "collect_tail n [] acc = acc"
| "collect_tail n (None # fs) acc = collect_tail n fs acc"
| "collect_tail n (Some ls # fs) acc =
    (let acc = log_lines ls @ acc in if length acc \<ge> n then acc else collect_tail n fs acc)"

text \<open>\<open>xs[-n:]\<close>, which is the whole list for \<open>n = 0\<close>.\<close>

definition last_slice :: "nat \<Rightarrow> 'a list \<Rightarrow> 'a list" where
  "last_slice n xs = (if n = 0 then xs else last_n n xs)"

definition check_hash_chain :: "codec \<Rightarrow> nat \<Rightarrow> string list option list \<Rightarrow> py_exc + bool" where
  "check_hash_chain C n files =
    (let lines = collect_tail n (rev files) [];
         tail = (if length lines > n then last_slice n lines else lines)
     in if tail = [] then Inr True else map_sum id fst (verify_tail_chain C tail))"

section \<open>The checks\<close>

record observed =
  ob_health :: "int option"
  ob_image :: "(int \<times> json) option"
  ob_sandbox_dir :: bool
  ob_seccomp :: "string option"
  ob_egress :: "json option"
  ob_ollama :: "int option"
  ob_state_entries :: "string list option"
  ob_audit_dir :: bool
  ob_log_files :: "(string \<times> string list option) list"
  ob_linux :: bool
  ob_lsattr :: "string \<Rightarrow> string option"

record check_result =
  cr_name :: string
  cr_passed :: bool
  cr_severity :: string

definition check_base_image :: "observed \<Rightarrow> bool" where
  "check_base_image V = (case ob_image V of
      Some (status, JObj d) \<Rightarrow> status = 200 \<and> (case map_of d ''exists'' of Some j \<Rightarrow> truthy j | None \<Rightarrow> False)
    | _ \<Rightarrow> False)"

definition check_sandbox_environment :: "codec \<Rightarrow> observed \<Rightarrow> check_result" where
  "check_sandbox_environment C V =
    \<lparr>cr_name = ''sandbox_environment'',
     cr_passed = (ob_health V = Some 200 \<and> check_base_image V \<and> ob_sandbox_dir V \<and>
       (case ob_seccomp V of Some raw \<Rightarrow> json_loads C raw \<noteq> None | None \<Rightarrow> False)),
     cr_severity = ''critical''\<rparr>"

text \<open>\<open>"key" in data\<close> and iteration over a decoded value.\<close>

definition json_contains :: "string \<Rightarrow> json \<Rightarrow> py_exc + bool" where
  "json_contains k j = (case j of
      JObj d \<Rightarrow> Inr (map_of d k \<noteq> None)
    | JArr xs \<Rightarrow> Inr (JStr k \<in> set xs)
    | JStr s \<Rightarrow> Inr (list_ex (\<lambda>i. prefix k (drop i s)) [0..<Suc (length s)])
    | _ \<Rightarrow> Inl TypeError)"

definition json_iter :: "json \<Rightarrow> py_exc + json list" where
  "json_iter j = (case j of
      JArr xs \<Rightarrow> Inr xs
    | JObj d \<Rightarrow> Inr (map JStr (dict_keys d))
    | JStr s \<Rightarrow> Inr (map (\<lambda>c. JStr [c]) s)
    | _ \<Rightarrow> Inl TypeError)"

fun wildcard_route :: "json list \<Rightarrow> py_exc + bool" where
  "wildcard_route [] = Inr False"
| "wildcard_route (r # rs) =
    (case r of
       JObj d \<Rightarrow>
         (case json_contains ''*'' (case map_of d ''allowed_capabilities'' of Some j \<Rightarrow> j | None \<Rightarrow> JArr []) of
            Inl x \<Rightarrow> Inl x
          | Inr True \<Rightarrow> Inr True
          | Inr False \<Rightarrow> wildcard_route rs)
     | _ \<Rightarrow> Inl AttributeError)"

definition check_default_deny :: "json \<Rightarrow> py_exc + bool" where
  "check_default_deny data = (case data of
      JObj d \<Rightarrow>
        if map_of d ''default_deny'' = Some (JBool False) then Inr False
        else if map_of d ''allow_all'' = Some (JBool True) then Inr False
        else (case json_iter (case map_of d ''routes'' of Some j \<Rightarrow> j | None \<Rightarrow> JArr []) of
            Inl x \<Rightarrow> Inl x
          | Inr rs \<Rightarrow> map_sum id Not (wildcard_route rs))
    | _ \<Rightarrow> Inl AttributeError)"

text \<open>The policy is loaded when the file decodes and has routes; then the posture is checked.\<close>

definition egress_critical :: "observed \<Rightarrow> py_exc + bool" where
  "egress_critical V = (case ob_egress V of
      None \<Rightarrow> Inr False
    | Some data \<Rightarrow>
        (case json_contains ''routes'' data of
           Inl x \<Rightarrow> Inl x
         | Inr False \<Rightarrow> Inr False
         | Inr True \<Rightarrow> check_default_deny data))"

definition egress_warned :: "observed \<Rightarrow> bool" where
  "egress_warned V \<longleftrightarrow> ob_ollama V \<noteq> Some 200 \<or>
    (case ob_state_entries V of None \<Rightarrow> False | Some es \<Rightarrow> list_ex (\<lambda>e. endswith e ''.pid'' \<or> endswith e ''.lock'') es)"

definition check_egress_posture :: "observed \<Rightarrow> py_exc + check_result" where
  "check_egress_posture V =
    map_sum id (\<lambda>ok.
      if \<not> ok then \<lparr>cr_name = ''egress_posture'', cr_passed = False, cr_severity = ''critical''\<rparr>
      else if egress_warned V then \<lparr>cr_name = ''egress_posture'', cr_passed = False, cr_severity = ''warning''\<rparr>
      else \<lparr>cr_name = ''egress_posture'', cr_passed = True, cr_severity = ''critical''\<rparr>) (egress_critical V)"

text \<open>The first word of \<open>lsattr\<close>'s output; \<open>None\<close> when the flag is not supported.\<close>

fun append_only_files :: "(string \<Rightarrow> string option) \<Rightarrow> string list \<Rightarrow> bool option" where
  "append_only_files lsattr [] = Some True"
| "append_only_files lsattr (f # fs) =
    (case lsattr f of
       None \<Rightarrow> None
     | Some out \<Rightarrow>
         if CHR ''a'' \<notin> set (takeWhile (\<lambda>c. \<not> is_space c) (strip_ws out)) then Some False else append_only_files lsattr fs)"

definition check_append_only :: "observed \<Rightarrow> bool option" where
  "check_append_only V = (if \<not> ob_linux V then None else append_only_files (ob_lsattr V) (map fst (ob_log_files V)))"

definition audit_check :: "bool \<Rightarrow> check_result" where
  "audit_check ok = \<lparr>cr_name = ''audit_integrity'', cr_passed = ok, cr_severity = ''critical''\<rparr>"

definition check_audit_integrity :: "codec \<Rightarrow> nat \<Rightarrow> observed \<Rightarrow> py_exc + check_result" where
  "check_audit_integrity C n V =
    (if \<not> ob_audit_dir V then Inr (audit_check False)
     else if ob_log_files V = [] then Inr (audit_check True)
     else map_sum id (\<lambda>chain_ok. audit_check (chain_ok \<and> check_append_only V \<noteq> Some False))
       (check_hash_chain C n (map snd (ob_log_files V))))"

section \<open>The report and the gate\<close>

record startup_report =
  sv_permitted :: bool
  sv_checks :: "check_result list"
  sv_critical :: "string list"
  sv_warnings :: "string list"

definition failed_names :: "string \<Rightarrow> check_result list \<Rightarrow> string list" where
  "failed_names sev cs = map cr_name (filter (\<lambda>c. \<not> cr_passed c \<and> cr_severity c = sev) cs)"

definition validate_all :: "codec \<Rightarrow> nat \<Rightarrow> observed \<Rightarrow> py_exc + startup_report" where
  "validate_all C n V =
    (case check_egress_posture V of
       Inl x \<Rightarrow> Inl x
     | Inr egress \<Rightarrow>
         map_sum id (\<lambda>audit.
           let cs = [check_sandbox_environment C V, egress, audit] in
           \<lparr>sv_permitted = (failed_names ''critical'' cs = []), sv_checks = cs, sv_critical = failed_names ''critical'' cs,
            sv_warnings = failed_names ''warning'' cs\<rparr>) (check_audit_integrity C n V))"

text \<open>
  \<open>main.py\<close>: the report is recorded, a failure of that is only logged, and a report that does not permit the
  start raises. (\<open>RuntimeError\<close> stands for \<open>StartupValidationError\<close>.)
\<close>

definition startup_gate :: "env \<Rightarrow> startup_report \<Rightarrow> 'a audit_scheme \<Rightarrow> (py_exc + unit) \<times> 'a audit_scheme" where
  "startup_gate E rep s =
    (let passed = length (filter cr_passed (sv_checks rep)); failed = length (filter (\<lambda>c. \<not> cr_passed c) (sv_checks rep)) in
     if \<not> sv_permitted rep
     then (Inl RuntimeError, snd (emit E (\<lambda>sp. event_hub_startup_blocked sp (sv_critical rep)
       (''Hub startup blocked: '' @ comma_join (sv_critical rep) @ '' failed validation'')) s))
     else (Inr (), snd (emit E (\<lambda>sp. event_hub_startup_validated sp True (int passed) (int failed) [] (sv_warnings rep)) s)))"

section \<open>What the tail check sees\<close>

text \<open>The whole log, oldest line first, and whether a line continues the one before.\<close>

definition whole_log :: "string list option list \<Rightarrow> (string \<times> bool) list" where
  "whole_log files = concat (map (\<lambda>f. case f of Some ls \<Rightarrow> log_lines ls | None \<Rightarrow> []) files)"

definition continues_line :: "codec \<Rightarrow> string \<Rightarrow> string \<times> bool \<Rightarrow> bool" where
  "continues_line C prev x \<longleftrightarrow>
    link_of C (fst x) = Some (compute_hash C prev) \<or> snd x \<and> link_of C (fst x) = Some (GENESIS_HASH C)"

lemma last_n_append: "length ys \<ge> n \<Longrightarrow> last_n n (xs @ ys) = last_n n ys"
  by (simp add: last_n_def)

lemma collect_tail_spec:
  assumes "length acc < n \<or> fs = []"
  shows "last_n n (collect_tail n fs acc) = last_n n (whole_log (rev fs) @ acc)"
  using assms
proof (induction n fs acc rule: collect_tail.induct)
  case (3 n ls fs acc)
  have w: "whole_log (rev (Some ls # fs)) = whole_log (rev fs) @ log_lines ls" by (simp add: whole_log_def)
  show ?case
  proof (cases "length (log_lines ls @ acc) \<ge> n")
    case True
    then show ?thesis unfolding w by (simp add: last_n_append Let_def)
  next
    case False
    then show ?thesis using 3 unfolding w by (simp add: Let_def)
  qed
qed (simp_all add: whole_log_def)

lemma check_hash_chain_window:
  assumes "0 < n"
  shows "check_hash_chain C n files =
    (let tail = last_n n (whole_log files) in if tail = [] then Inr True else map_sum id fst (verify_tail_chain C tail))"
proof -
  let ?lines = "collect_tail n (rev files) []"
  have "last_n n ?lines = last_n n (whole_log files)" using collect_tail_spec [of "[]" n "rev files"] assms by simp
  moreover have "(if length ?lines > n then last_slice n ?lines else ?lines) = last_n n ?lines"
    using assms by (simp add: last_slice_def)
  ultimately show ?thesis by (simp add: check_hash_chain_def Let_def)
qed

lemma tail_links_True:
  "(\<exists>i. tail_links C k prev ls = Inr (True, i)) \<longleftrightarrow>
    (\<forall>j < length ls. continues_line C (if j = 0 then prev else fst (ls ! (j - 1))) (ls ! j))"
proof (induction ls arbitrary: k prev)
  case (Cons x ls)
  obtain l f where x: "x = (l, f)" by (cases x)
  have step: "(\<exists>i. tail_links C k prev (x # ls) = Inr (True, i)) \<longleftrightarrow>
      continues_line C prev x \<and> (\<exists>i. tail_links C (Suc k) l ls = Inr (True, i))"
    using x by (auto simp: continues_line_def link_of_def Let_def split: option.splits json.splits)
  have shift: "(\<forall>j < length ls. continues_line C (if j = 0 then l else fst (ls ! (j - 1))) (ls ! j)) \<longleftrightarrow>
      (\<forall>j. 0 < j \<and> j < length (x # ls) \<longrightarrow> continues_line C (fst ((x # ls) ! (j - 1))) ((x # ls) ! j))" (is "?a \<longleftrightarrow> ?b")
  proof
    assume ?a
    then show ?b using x by (auto simp: nth_Cons split: nat.splits)
  next
    assume b: ?b
    show ?a
    proof (intro allI impI)
      fix j assume "j < length ls"
      then show "continues_line C (if j = 0 then l else fst (ls ! (j - 1))) (ls ! j)"
        using b [rule_format, of "Suc j"] x by (cases j) auto
    qed
  qed
  show ?case unfolding step Cons.IH shift by (auto simp: nth_Cons split: nat.splits)
qed simp

text \<open>
  C30: The startup check of the audit log sees the last \<open>n\<close> lines of the whole log, wherever the files are
  divided, although it reads only the newest files: it passes exactly when every line in that window but
  the first continues the line before, where the first line of a file may also start anew at genesis. An
  intact log is never refused, and any break within the window is found.
\<close>

theorem tail_check_exact:
  assumes "0 < n"
  shows "check_hash_chain C n files = Inr True \<longleftrightarrow>
    (let w = last_n n (whole_log files) in
     \<forall>j \<in> {1..<length w}. continues_line C (fst (w ! (j - 1))) (w ! j))"
proof -
  let ?w = "last_n n (whole_log files)"
  show ?thesis
  proof (cases ?w)
    case Nil
    then show ?thesis using check_hash_chain_window [OF assms] by (simp add: Let_def)
  next
    case (Cons x rest)
    obtain l f where x: "x = (l, f)" by (cases x)
    have v: "verify_tail_chain C ?w = (if rest = [] then Inr (True, -1) else tail_links C 1 l rest)"
      using Cons x by (cases rest) (simp_all add: verify_tail_chain_def)
    have "check_hash_chain C n files = Inr True \<longleftrightarrow> (\<exists>i. verify_tail_chain C ?w = Inr (True, i))"
      using check_hash_chain_window [OF assms] Cons by (cases "verify_tail_chain C ?w") (auto simp: Let_def)
    also have "\<dots> \<longleftrightarrow> (\<exists>i. tail_links C 1 l rest = Inr (True, i))" unfolding v by simp
    also have "\<dots> \<longleftrightarrow> (\<forall>j. 0 < j \<and> j < length ?w \<longrightarrow> continues_line C (fst (?w ! (j - 1))) (?w ! j))"
      (is "_ \<longleftrightarrow> ?r")
    proof -
      have "?r \<longleftrightarrow> (\<forall>j < length rest. continues_line C (if j = 0 then l else fst (rest ! (j - 1))) (rest ! j))"
      proof
        assume r: ?r
        show "\<forall>j < length rest. continues_line C (if j = 0 then l else fst (rest ! (j - 1))) (rest ! j)"
        proof (intro allI impI)
          fix j assume "j < length rest"
          then show "continues_line C (if j = 0 then l else fst (rest ! (j - 1))) (rest ! j)"
            using r [rule_format, of "Suc j"] Cons x by (cases j) auto
        qed
      next
        assume "\<forall>j < length rest. continues_line C (if j = 0 then l else fst (rest ! (j - 1))) (rest ! j)"
        then have "continues_line C (fst (?w ! j)) (?w ! Suc j)" if "j < length rest" for j
          using that Cons x by (cases j) auto
        then show ?r using Cons by (metis Suc_less_eq Suc_pred diff_Suc_1 length_Cons)
      qed
      then show ?thesis by (simp only: tail_links_True)
    qed
    also have "\<dots> \<longleftrightarrow> (\<forall>j \<in> {1..<length ?w}. continues_line C (fst (?w ! (j - 1))) (?w ! j))"
      by (metis One_nat_def Suc_le_eq atLeastLessThan_iff)
    finally show ?thesis by (simp only: Let_def)
  qed
qed

text \<open>
  The gate. When the validation ends with a report, the hub starts exactly if the sandbox can be built
  (proxy, image, directory and profile), the egress policy is there and keeps default-deny, and the audit
  log can be read and, unless it is the first run, is intact in its tail and not known to lack the
  append-only flag. Otherwise the start is refused. In both cases the one record says so.
\<close>

theorem startup_gate_exact:
  assumes "validate_all C n V = Inr rep"
  shows "(sv_permitted rep \<longleftrightarrow>
      cr_passed (check_sandbox_environment C V) \<and> egress_critical V = Inr True \<and> ob_audit_dir V \<and>
      (ob_log_files V = [] \<or>
       check_hash_chain C n (map snd (ob_log_files V)) = Inr True \<and> check_append_only V \<noteq> Some False)) \<and>
    (fst (startup_gate E rep s) = Inr () \<longleftrightarrow> sv_permitted rep) \<and>
    (\<exists>ev. alog (snd (startup_gate E rep s)) = alog s @ [ev] \<and>
      event_str ev ''event_type'' = (if sv_permitted rep then ''hub.startup_validated'' else ''hub.startup_blocked''))"
proof -
  obtain ok where e: "egress_critical V = Inr ok"
    using assms by (cases "egress_critical V") (auto simp: validate_all_def check_egress_posture_def)
  obtain a where a: "check_audit_integrity C n V = Inr a"
    using assms by (cases "check_audit_integrity C n V") (auto simp: validate_all_def split: sum.splits)
  have sev: "cr_severity (check_sandbox_environment C V) = ''critical''" by (simp add: check_sandbox_environment_def)
  have aud: "cr_severity a = ''critical'' \<and> (cr_passed a \<longleftrightarrow> ob_audit_dir V \<and> (ob_log_files V = [] \<or>
       check_hash_chain C n (map snd (ob_log_files V)) = Inr True \<and> check_append_only V \<noteq> Some False))"
    using a by (cases "check_hash_chain C n (map snd (ob_log_files V))")
      (auto simp: check_audit_integrity_def audit_check_def split: if_splits)
  have "sv_permitted rep \<longleftrightarrow> cr_passed (check_sandbox_environment C V) \<and> ok \<and> cr_passed a"
  proof -
    obtain g where g: "check_egress_posture V = Inr g" "\<not> cr_passed g \<and> cr_severity g = ''critical'' \<longleftrightarrow> \<not> ok"
      using e by (simp add: check_egress_posture_def)
    then have "sv_permitted rep \<longleftrightarrow> failed_names ''critical'' [check_sandbox_environment C V, g, a] = []"
      using assms a by (auto simp: validate_all_def Let_def)
    also have "\<dots> \<longleftrightarrow> cr_passed (check_sandbox_environment C V) \<and> ok \<and> cr_passed a"
      using g(2) sev conjunct1 [OF aud] unfolding failed_names_def by auto
    finally show ?thesis .
  qed
  then have "sv_permitted rep \<longleftrightarrow>
      cr_passed (check_sandbox_environment C V) \<and> egress_critical V = Inr True \<and> ob_audit_dir V \<and>
      (ob_log_files V = [] \<or>
       check_hash_chain C n (map snd (ob_log_files V)) = Inr True \<and> check_append_only V \<noteq> Some False)"
    using e aud by auto
  moreover have "\<exists>ev. alog (snd (startup_gate E rep s)) = alog s @ [ev] \<and>
      event_str ev ''event_type'' = (if sv_permitted rep then ''hub.startup_validated'' else ''hub.startup_blocked'')"
    by (auto simp: startup_gate_def emit_def Let_def event_hub_startup_blocked_def event_hub_startup_validated_def event_str_def
        split: sum.splits)
  ultimately show ?thesis by (simp add: startup_gate_def Let_def)
qed

section \<open>Concrete runs\<close>

definition link_codec :: codec where
  "link_codec = \<lparr>sha256 = (\<lambda>s. CHR ''h'' # s), json_loads = (\<lambda>s. Some (JObj [(''prev_hash'', JStr (tl s))])), json_dumps = (\<lambda>_. [])\<rparr>"

theorem tail_check_exact_witness:
  "check_hash_chain link_codec 2 [Some [''zhDRNT-GENESIS'', ''ahzhDRNT-GENESIS''], None, Some [''bhDRNT-GENESIS'']] = Inr True"
  by (subst tail_check_exact) (simp, code_simp)

definition fresh_hub :: observed where
  "fresh_hub = \<lparr>ob_health = Some 200, ob_image = Some (200, JObj [(''exists'', JBool True)]), ob_sandbox_dir = True,
     ob_seccomp = Some [], ob_egress = Some (JObj [(''routes'', JArr [JObj [(''allowed_capabilities'', JArr [JStr ''c''])]])]),
     ob_ollama = None, ob_state_entries = None, ob_audit_dir = True, ob_log_files = [], ob_linux = True, ob_lsattr = (\<lambda>_. None)\<rparr>"

theorem startup_gate_exact_witness:
  "map_sum id (\<lambda>rep. fst (startup_gate good_env rep \<lparr>alog = []\<rparr>)) (validate_all link_codec 100 fresh_hub) = Inr (Inr ())"
proof -
  obtain rep where rep: "validate_all link_codec 100 fresh_hub = Inr rep"
    by (cases "validate_all link_codec 100 fresh_hub")
      (simp_all add: validate_all_def check_egress_posture_def egress_critical_def fresh_hub_def json_contains_def
        check_default_deny_def json_iter_def check_audit_integrity_def)
  have "cr_passed (check_sandbox_environment link_codec fresh_hub)" "egress_critical fresh_hub = Inr True"
    "ob_audit_dir fresh_hub" "ob_log_files fresh_hub = []"
    by code_simp+
  with startup_gate_exact [OF rep, of good_env "\<lparr>alog = []\<rparr>"] have "fst (startup_gate good_env rep \<lparr>alog = []\<rparr>) = Inr ()" by blast
  with rep show ?thesis by simp
qed

end
