(* ===== verification/Worker_Agent.thy ===== *)
theory Worker_Agent
  imports Worker_Lifecycle
begin

text \<open>
  The program inside a worker container (\<open>worker/worker_agent.py\<close>): it reads \<open>/inbox/task.json\<close>, runs the
  handler of its task type and leaves \<open>/outbox/result.json\<close> and an exit code. A JSON file is the value it
  decodes to. Ollama, the system calls and the sockets are fields of an \<open>agent_world\<close>. The second half
  joins the agent to the executor and the worker proxy: a task that the hub hands out comes back.
\<close>

section \<open>The agent\<close>

datatype agent_exc = Url_error string | Other_error

text \<open>
  \<open>aw_connect\<close> is the error of a connection, if any, and the milliseconds it took; \<open>aw_dispatch\<close> the HTTP
  status, if there was one, and the text kept of the answer; \<open>aw_str\<close> is \<open>str\<close> of a decoded value.
\<close>

record agent_world =
  aw_ollama :: "json \<Rightarrow> agent_exc + json"
  aw_syscalls :: "string + (int \<times> int) \<times> (int \<times> int)"
  aw_connect :: "string \<Rightarrow> int \<Rightarrow> string option \<times> rat"
  aw_dispatch :: "json \<Rightarrow> int option \<times> string"
  aw_dumps :: "json \<Rightarrow> string"
  aw_str :: "json \<Rightarrow> string"
  aw_traceback :: string
  aw_seconds :: rat
  aw_written :: bool

definition call_ollama :: "agent_world \<Rightarrow> json \<Rightarrow> json \<Rightarrow> json \<Rightarrow> agent_exc + json" where
  "call_ollama A model prompt options =
    aw_ollama A (JObj ([(''model'', model), (''prompt'', prompt), (''stream'', JBool False)] @
      (if truthy options then [(''options'', options)] else [])))"

text \<open>A payload or an answer that is no object raises \<open>AttributeError\<close>.\<close>

definition handle_text_generation :: "agent_world \<Rightarrow> (string, json) dict \<Rightarrow> agent_exc + (string, json) dict" where
  "handle_text_generation A task =
    (let tid = get_or task ''task_id'' JNull in
     case get_or task ''payload'' (JObj []) of
       JObj p \<Rightarrow>
         (let prompt = get_or p ''prompt'' (JStr []); model = get_or p ''model'' (JStr ''llama3.1:8b'');
              options = get_or p ''options'' JNull in
          if \<not> truthy prompt
          then Inr [(''task_id'', tid), (''status'', JStr ''error''), (''error'', JStr ''payload.prompt is required'')]
          else (case call_ollama A model prompt options of
              Inl x \<Rightarrow> Inl x
            | Inr (JObj r) \<Rightarrow>
                Inr [(''task_id'', tid), (''status'', JStr ''success''), (''result'', get_or r ''response'' (JStr [])),
                  (''token_count_in'', get_or r ''prompt_eval_count'' (JInt 0)),
                  (''token_count_out'', get_or r ''eval_count'' (JInt 0)), (''model'', model)]
            | Inr _ \<Rightarrow> Inl Other_error))
     | _ \<Rightarrow> Inl Other_error)"

definition handle_syscall_probe :: "agent_world \<Rightarrow> (string, json) dict \<Rightarrow> agent_exc + (string, json) dict" where
  "handle_syscall_probe A task =
    (let tid = get_or task ''task_id'' JNull in
     case aw_syscalls A of
       Inr ((target_ret, target_errno), (control_ret, control_errno)) \<Rightarrow>
         Inr [(''task_id'', tid), (''status'', JStr ''success''),
           (''result'', JStr (''SECCOMP_TEST_RESULT: target_ret='' @ int_str target_ret @ '' target_errno='' @ int_str target_errno @
             '' control_ret='' @ int_str control_ret @ '' control_errno='' @ int_str control_errno)),
           (''token_count_in'', JInt 0), (''token_count_out'', JInt 0), (''model'', JStr ''syscall-probe'')]
     | Inl e \<Rightarrow>
         Inr [(''task_id'', tid), (''status'', JStr ''error''), (''result'', JStr (''SECCOMP_TEST_ERROR: '' @ e)),
           (''error'', JStr (''SECCOMP_TEST_ERROR: '' @ e)), (''token_count_in'', JInt 0), (''token_count_out'', JInt 0),
           (''model'', JStr ''syscall-probe'')])"

definition tcp_connect :: "agent_world \<Rightarrow> string \<Rightarrow> int \<Rightarrow> (string, json) dict" where
  "tcp_connect A host port =
    (case aw_connect A host port of (err, ms) \<Rightarrow>
      [(''success'', JBool (err = None)), (''error'', jopt JStr err), (''elapsed_ms'', JNum (py_round 1 ms))])"

definition probe_target :: "string \<Rightarrow> string \<Rightarrow> int \<Rightarrow> string \<Rightarrow> (string, json) dict" where
  "probe_target name host port operation =
    [(''target'', JStr name), (''host'', JStr host), (''port'', JInt port), (''operation'', JStr operation)]"

definition probe_request :: json where
  "probe_request = JObj [(''job_id'', JStr ''egress-probe''), (''route_id'', JStr ''__egress_probe_invalid_route__''),
    (''capability_id'', JStr ''route.local''), (''target_model'', JStr ''none''), (''prompt'', JStr []),
    (''assembled_payload_hash'', JStr ''0''), (''wal_permission_check_ref'', JStr ''0'')]"

definition gateway_target :: "agent_world \<Rightarrow> (string, json) dict" where
  "gateway_target A =
    (let b = tcp_connect A ''egress-gateway'' 8080;
         reply = (if map_of b ''success'' = Some (JBool True)
           then (case aw_dispatch A probe_request of (status, body) \<Rightarrow> (jopt JInt status, JStr body)) else (JNull, JNull))
     in probe_target ''egress_gateway_dispatch'' ''egress-gateway'' 8080 ''tcp_connect+http_post_dispatch'' @ b @
       [(''http_status'', fst reply), (''http_body_snippet'', snd reply)])"

definition probe_targets :: "agent_world \<Rightarrow> json" where
  "probe_targets A = JArr
    [JObj (probe_target ''external_offallowlist'' ''1.1.1.1'' 443 ''tcp_connect'' @ tcp_connect A ''1.1.1.1'' 443),
     JObj (gateway_target A),
     JObj (probe_target ''ollama_allowed'' ''ollama'' 11434 ''tcp_connect'' @ tcp_connect A ''ollama'' 11434)]"

definition handle_egress_probe :: "agent_world \<Rightarrow> (string, json) dict \<Rightarrow> agent_exc + (string, json) dict" where
  "handle_egress_probe A task =
    Inr [(''task_id'', get_or task ''task_id'' JNull), (''status'', JStr ''success''),
      (''result'', JStr (aw_dumps A (JObj [(''targets'', probe_targets A)]))),
      (''token_count_in'', JInt 0), (''token_count_out'', JInt 0), (''model'', JStr ''egress-probe'')]"

definition TASK_HANDLERS :: "(string, agent_world \<Rightarrow> (string, json) dict \<Rightarrow> agent_exc + (string, json) dict) dict" where
  "TASK_HANDLERS = [(''text_generation'', handle_text_generation), (''syscall_probe'', handle_syscall_probe),
    (''egress_probe'', handle_egress_probe)]"

text \<open>\<open>result.json\<close> and the exit code; a failing write ends the process with code 1 and no file.\<close>

definition agent_write_result :: "agent_world \<Rightarrow> (string, json) dict \<Rightarrow> int \<Rightarrow> (string, json) dict option \<times> int" where
  "agent_write_result A result code = (if aw_written A then (Some result, code) else (None, 1))"

datatype task_file = Task_missing | Task_bad string | Task_unreadable | Task json

definition run_handler ::
    "agent_world \<Rightarrow> json \<Rightarrow> (string, json) dict \<Rightarrow> (agent_world \<Rightarrow> (string, json) dict \<Rightarrow> agent_exc + (string, json) dict)
     \<Rightarrow> (string, json) dict option \<times> int" where
  "run_handler A tid task h =
    (let result = (case h A task of
           Inr r \<Rightarrow> r
         | Inl (Url_error reason) \<Rightarrow>
             [(''task_id'', tid), (''status'', JStr ''error''), (''error'', JStr (''ollama request failed: '' @ reason))]
         | Inl Other_error \<Rightarrow> [(''task_id'', tid), (''status'', JStr ''error''), (''error'', JStr (aw_traceback A))]);
         result = AList.update ''wall_seconds'' (JNum (py_round 3 (aw_seconds A))) result
     in agent_write_result A result (if map_of result ''status'' = Some (JStr ''success'') then 0 else 1))"

text \<open>
  \<open>main\<close>. A task that is no object, and a task type that is not hashable, raise outside the \<open>try\<close>: the
  process ends with code 1 and writes nothing.
\<close>

definition agent_main :: "agent_world \<Rightarrow> task_file \<Rightarrow> (string, json) dict option \<times> int" where
  "agent_main A f =
    (case f of
       Task_missing \<Rightarrow> agent_write_result A [(''status'', JStr ''error''), (''error'', JStr ''task.json not found in /inbox'')] 1
     | Task_bad msg \<Rightarrow> agent_write_result A [(''status'', JStr ''error''), (''error'', JStr (''invalid task.json: '' @ msg))] 1
     | Task_unreadable \<Rightarrow> (None, 1)
     | Task (JObj task) \<Rightarrow>
         (let tid = get_or task ''task_id'' (JStr ''unknown''); tt = get_or task ''task_type'' JNull;
              unsupported = agent_write_result A [(''task_id'', tid), (''status'', JStr ''error''),
                (''error'', JStr (''unsupported task_type: '' @ json_str (aw_str A) tt))] 1
          in case tt of
               JArr _ \<Rightarrow> (None, 1)
             | JObj _ \<Rightarrow> (None, 1)
             | JStr name \<Rightarrow> (case map_of TASK_HANDLERS name of Some h \<Rightarrow> run_handler A tid task h | None \<Rightarrow> unsupported)
             | _ \<Rightarrow> unsupported)
     | Task _ \<Rightarrow> (None, 1))"

section \<open>A task on its way\<close>

text \<open>The task that the hub writes to \<open>inbox/task.json\<close>.\<close>

definition task_payload :: "worker_context \<Rightarrow> string \<Rightarrow> string \<Rightarrow> string \<Rightarrow> json" where
  "task_payload ctx task_type prompt model =
    JObj [(''task_id'', JStr (wc_job_id ctx)), (''task_type'', JStr task_type),
      (''payload'', JObj [(''prompt'', JStr prompt), (''model'', JStr model)])]"

text \<open>
  The result file, where its fields have the types the executor is written for; \<open>None\<close> where one has not.
\<close>

definition as_text :: "json \<Rightarrow> string option" where
  "as_text v = (case v of JStr t \<Rightarrow> Some t | _ \<Rightarrow> None)"

definition as_count :: "json \<Rightarrow> int option" where
  "as_count v = (case v of JInt i \<Rightarrow> Some i | _ \<Rightarrow> None)"

definition json_field :: "(json \<Rightarrow> 'a option) \<Rightarrow> (string, json) dict \<Rightarrow> string \<Rightarrow> 'a option option" where
  "json_field f d k = (case map_of d k of None \<Rightarrow> Some None | Some v \<Rightarrow> map_option Some (f v))"

definition result_of :: "(string, json) dict \<Rightarrow> result_file option" where
  "result_of d =
    (case (json_field as_text d ''status'', json_field as_text d ''result'', json_field as_count d ''token_count_in'',
           json_field as_count d ''token_count_out'', json_field as_text d ''model'', json_field as_text d ''error'') of
       (Some st, Some t, Some i, Some n, Some m, Some e) \<Rightarrow>
         Some \<lparr>rf_status = st, rf_result = t, rf_tokens_in = i, rf_tokens_out = n, rf_model = m, rf_error = e\<rparr>
     | _ \<Rightarrow> None)"

text \<open>
  The outside of an executor whose container runs the agent on the task \<open>f\<close> to its end: the exit code that
  Docker reports and the result file are the agent's.
\<close>

definition agent_outside ::
    "agent_world \<Rightarrow> docker \<Rightarrow> string option \<Rightarrow> proxy_registry \<Rightarrow> task_file \<Rightarrow> outside \<Rightarrow> outside option" where
  "agent_outside A D base R f O0 =
    (case agent_main A f of (out, code) \<Rightarrow>
      map_option (\<lambda>r. O0\<lparr>wo_post := proxy_post (D\<lparr>on_wait := Inr (Some code)\<rparr>) base R, wo_result := r\<rparr>)
        (case out of None \<Rightarrow> Some No_result | Some d \<Rightarrow> map_option Result (result_of d)))"

text \<open>What Ollama is documented to answer: a text and two counts, each of which may be absent.\<close>

definition ollama_typed :: "agent_world \<Rightarrow> bool" where
  "ollama_typed A \<longleftrightarrow> (\<forall>b r. aw_ollama A b = Inr (JObj r) \<longrightarrow>
    (\<exists>t. get_or r ''response'' (JStr []) = JStr t) \<and> (\<exists>i. get_or r ''prompt_eval_count'' (JInt 0) = JInt i) \<and>
    (\<exists>n. get_or r ''eval_count'' (JInt 0) = JInt n))"

text \<open>The text and the counts of an answer.\<close>

definition ollama_answer :: "agent_world \<Rightarrow> string \<Rightarrow> string \<Rightarrow> (string \<times> int \<times> int) option" where
  "ollama_answer A model prompt =
    (case call_ollama A (JStr model) (JStr prompt) JNull of
       Inr (JObj r) \<Rightarrow>
         (case (get_or r ''response'' (JStr []), get_or r ''prompt_eval_count'' (JInt 0), get_or r ''eval_count'' (JInt 0)) of
            (JStr t, JInt i, JInt n) \<Rightarrow> Some (t, i, n)
          | _ \<Rightarrow> None)
     | _ \<Rightarrow> None)"

text \<open>A container that Docker creates and starts, and whose logs can be read.\<close>

definition docker_runs :: "docker \<Rightarrow> bool" where
  "docker_runs D \<longleftrightarrow> \<not> isl (on_create D) \<and> on_start D = None \<and> \<not> isl (on_logs D)"

lemma main_text_generation:
  assumes "aw_written A"
  shows "agent_main A (Task (task_payload ctx ''text_generation'' prompt model)) =
    run_handler A (JStr (wc_job_id ctx))
      [(''task_id'', JStr (wc_job_id ctx)), (''task_type'', JStr ''text_generation''),
       (''payload'', JObj [(''prompt'', JStr prompt), (''model'', JStr model)])] handle_text_generation"
  by (simp add: agent_main_def task_payload_def get_or_def TASK_HANDLERS_def)

lemma agent_answers:
  assumes "aw_written A" and "prompt \<noteq> []" and "ollama_answer A model prompt = Some (t, i, n)"
  shows "agent_outside A D base R (Task (task_payload ctx ''text_generation'' prompt model)) O0 =
    Some (O0\<lparr>wo_post := proxy_post (D\<lparr>on_wait := Inr (Some 0)\<rparr>) base R,
      wo_result := Result \<lparr>rf_status = Some ''success'', rf_result = Some t, rf_tokens_in = Some i, rf_tokens_out = Some n,
        rf_model = Some model, rf_error = None\<rparr>\<rparr>)"
proof -
  obtain r where r: "call_ollama A (JStr model) (JStr prompt) JNull = Inr (JObj r)"
    and g: "get_or r ''response'' (JStr []) = JStr t" "get_or r ''prompt_eval_count'' (JInt 0) = JInt i" "get_or r ''eval_count'' (JInt 0) = JInt n"
    using assms(3) by (auto simp: ollama_answer_def split: sum.splits json.splits)
  show ?thesis
    using assms(1,2) r g
    by (simp add: agent_outside_def main_text_generation run_handler_def handle_text_generation_def get_or_def truthy_def
        agent_write_result_def result_of_def json_field_def as_text_def as_count_def)
qed

lemma agent_fails:
  assumes "aw_written A" and "ollama_typed A" and "prompt = [] \<or> ollama_answer A model prompt = None"
  obtains rf where "agent_outside A D base R (Task (task_payload ctx ''text_generation'' prompt model)) O0 =
    Some (O0\<lparr>wo_post := proxy_post (D\<lparr>on_wait := Inr (Some 1)\<rparr>) base R, wo_result := Result rf\<rparr>)"
proof -
  let ?task = "[(''task_id'', JStr (wc_job_id ctx)), (''task_type'', JStr ''text_generation''),
       (''payload'', JObj [(''prompt'', JStr prompt), (''model'', JStr model)])]"
  note defs = agent_outside_def main_text_generation run_handler_def handle_text_generation_def get_or_def truthy_def
        agent_write_result_def result_of_def json_field_def as_text_def as_count_def
  show thesis
  proof (cases "prompt = []")
    case True
    then show thesis using that assms(1) by (simp add: defs)
  next
    case False
    then have none: "ollama_answer A model prompt = None" using assms(3) by blast
    have "\<nexists>r. call_ollama A (JStr model) (JStr prompt) JNull = Inr (JObj r)"
      using none assms(2) unfolding ollama_answer_def call_ollama_def ollama_typed_def by (fastforce split: sum.splits json.splits)
    then have "isl (handle_text_generation A ?task)"
      using False by (cases "call_ollama A (JStr model) (JStr prompt) JNull")
        (auto simp: handle_text_generation_def get_or_def truthy_def split: json.splits)
    then obtain x where "handle_text_generation A ?task = Inl x" by (auto simp: isl_def)
    then show thesis
      using that assms(1)
      by (cases x) (simp_all add: agent_outside_def main_text_generation run_handler_def agent_write_result_def result_of_def
        json_field_def as_text_def as_count_def)
  qed
qed

lemma execute_accepted:
  assumes "validate_request R (request_body L O1 ctx) = Inr q" and "docker_runs D"
    and "wo_post O1 = proxy_post (D\<lparr>on_wait := Inr (Some code)\<rparr>) base R" and "wo_result O1 = Result rf"
    and "wo_slot O1" "wo_dir_ok O1" "wo_write_ok O1"
  shows "\<exists>rs. fst (execute_task O1 (request_body L O1 ctx) wall) = read_answer O1 wall rs \<and> rs_exit_code rs = code \<and>
    rs_status rs = (if code = 0 then ''completed'' else ''failed'')"
proof -
  obtain cid l where d: "on_create D = Inr cid" "on_start D = None" "on_logs D = Inr l"
    using assms(2) unfolding docker_runs_def by (cases "on_create D"; cases "on_logs D") auto
  show ?thesis
    using assms(5-7) d
    by (auto simp: execute_task_def execute_sync_def assms(1,3) proxy_post_def post_run_def run_container_def Let_def)
qed

lemma read_answer_failed: "rs_status rs = ''failed'' \<Longrightarrow> \<exists>r. read_answer O1 wall rs = Inr r \<and> \<not> wr_success r"
  by (simp add: read_answer_def failed_result_def Let_def)

lemma read_answer_completed:
  "rs_status rs = ''completed'' \<Longrightarrow> rs_exit_code rs = 0 \<Longrightarrow>
    wo_result O1 = Result \<lparr>rf_status = Some ''success'', rf_result = Some t, rf_tokens_in = Some i, rf_tokens_out = Some n,
        rf_model = Some model, rf_error = None\<rparr> \<Longrightarrow>
    \<exists>r. read_answer O1 wall rs = Inr r \<and> wr_success r \<and> wr_text r = t \<and> wr_tokens_in r = i \<and> wr_tokens_out r = n \<and> wr_model r = model"
  by (simp add: read_answer_def)


section \<open>A concrete task\<close>

definition sample_agent :: agent_world where
  "sample_agent = \<lparr>aw_ollama = (\<lambda>_. Inr (JObj [(''response'', JStr ''fine''), (''eval_count'', JInt 2)])), aw_syscalls = Inl [],
     aw_connect = (\<lambda>_ _. (None, 1)), aw_dispatch = (\<lambda>_. (None, [])), aw_dumps = (\<lambda>_. []), aw_str = (\<lambda>_. []),
     aw_traceback = [], aw_seconds = 1, aw_written = True\<rparr>"

definition sample_returned :: "outside option" where
  "sample_returned = agent_outside sample_agent sample_docker None sample_proxy
    (Task (task_payload sample_worker ''text_generation'' ''q'' ''m'')) sample_outside"


end
