(* ===== verification/Worker_Pool.thy ===== *)
theory Worker_Pool
  imports Worker_Lifecycle
begin

text \<open>
  The worker lifecycle as a pool: whoever prepares a worker and tears it down in a \<open>finally\<close> leaves the registered
  workers as they were. The interface is the locale \<open>worker_pool\<close>; the operations of \<open>Worker_Lifecycle\<close> provide
  it twice, for the active contexts and for their start times, when the trail takes its events.
\<close>

text \<open>The lifecycle reads the runtime states that the permission checker and the admin routes change.\<close>

definition live :: "lifecycle \<Rightarrow> cap_states \<Rightarrow> lifecycle" where
  "live L S = L\<lparr>lc_states := Some S, lc_validator := (lc_validator L)\<lparr>v_states := S\<rparr>\<rparr>"

text \<open>\<open>try ... finally\<close>: an exception of the last part replaces what the first gave.\<close>

definition finally_r :: "('s \<Rightarrow> (py_exc + 'a) \<times> 's) \<Rightarrow> ('s \<Rightarrow> (py_exc + 'b) \<times> 's) \<Rightarrow> 's \<Rightarrow> (py_exc + 'a) \<times> 's" where
  "finally_r m fin s = (case m s of (r, t) \<Rightarrow> (case fin t of (Inl x, u) \<Rightarrow> (Inl x, u) | (Inr _, u) \<Rightarrow> (r, u)))"

lemma finally_r_state [simp]: "snd (finally_r m fin s) = snd (fin (snd (m s)))"
  by (simp add: finally_r_def split: prod.split sum.split)

text \<open>A preparation that fails, and an execution however it ends, leave the registered workers alone.\<close>

lemma prepare_worker_Inl:
  assumes "writes_all E" and "prepare_worker E L F job_id cid s = (Inl x, t)"
  shows "wk_contexts t = wk_contexts s" and "wk_started t = wk_started s"
proof -
  let ?w = "\<lambda>u. (wk_contexts u, wk_started u)"
  have f: "?w (snd (fail_preparation E job_id c err u)) = ?w u" for c err and u :: "'a workers_scheme"
    using assms(1) by (simp add: fail_preparation_def emit_writes)
  have p: "?w (snd (prepare_sandbox E L F job_id c m vr u)) = ?w u"
    if "isl (fst (prepare_sandbox E L F job_id c m vr u))" for c m vr and u :: "'a workers_scheme"
    using that assms(1) f by (auto simp: prepare_sandbox_def emit_writes Let_def split: sum.splits py_exc.splits)
  have "isl (fst (prepare_worker E L F job_id cid s)) \<Longrightarrow> ?w (snd (prepare_worker E L F job_id cid s)) = ?w s"
    using assms(1) f p by (auto simp: prepare_worker_def emit_writes Let_def split: option.splits)
  then show "wk_contexts t = wk_contexts s" "wk_started t = wk_started s" using assms(2) by simp_all
qed

lemma execute_in_worker_keeps:
  "wk_contexts (snd (fst (execute_in_worker E L O0 ctx tt s))) = wk_contexts s"
  "wk_started (snd (fst (execute_in_worker E L O0 ctx tt s))) = wk_started s"
proof -
  let ?w = "\<lambda>u. (wk_contexts u, wk_started u)"
  have t: "?w (snd (run_task E ctx outcome u)) = ?w u" for outcome and u :: "'a workers_scheme"
    by (cases outcome) (auto simp: run_task_def bind_r_def emit_def Let_def split: sum.splits)
  have f: "?w (snd (task_failed E O0 ctx x u)) = ?w u" for x and u :: "'a workers_scheme"
    by (cases x) (auto simp: task_failed_def bind_r_def emit_def Let_def split: sum.splits)
  have c: "?w (snd (catch_r (run_task E ctx outcome) (task_failed E O0 ctx) u)) = ?w u" for outcome and u :: "'a workers_scheme"
  proof (cases "run_task E ctx outcome u")
    case (Pair r v)
    then show ?thesis using t [of outcome u] f [of _ v] by (cases r) (simp_all add: catch_r_def)
  qed
  have "?w (snd (fst (execute_in_worker E L O0 ctx tt s))) = ?w s"
    using c by (auto simp: execute_in_worker_def emit_def Let_def split: sum.splits prod.splits)
  then show "wk_contexts (snd (fst (execute_in_worker E L O0 ctx tt s))) = wk_contexts s"
    "wk_started (snd (fst (execute_in_worker E L O0 ctx tt s))) = wk_started s" by simp_all
qed

text \<open>The surroundings in which every record is accepted: \<open>E\<close> itself if it takes all of them.\<close>

definition accepting :: "env \<Rightarrow> env" where
  "accepting E = E\<lparr>outcome_of := (\<lambda>n. case outcome_of E n of Inl x \<Rightarrow> Inr True | Inr ok \<Rightarrow> Inr ok)\<rparr>"

lemma accepting_writes [simp]: "writes_all (accepting E)"
  by (auto simp: writes_all_def accepting_def split: sum.split)

lemma accepting_id: "writes_all E \<Longrightarrow> accepting E = E"
proof -
  assume "writes_all E"
  then have "(case outcome_of E n of Inl x \<Rightarrow> Inr True | Inr ok \<Rightarrow> Inr ok) = outcome_of E n" for n
    unfolding writes_all_def by (metis sum.case(2))
  then show ?thesis by (simp add: accepting_def)
qed

section \<open>The interface\<close>

text \<open>
  What a client calls: prepare a worker, let it execute, dismiss it. \<open>pool\<close> is what is registered under the
  worker's \<open>ident\<close>.
\<close>

locale worker_pool =
  fixes pool :: "'s \<Rightarrow> (string, 'v) dict" and ident :: "'c \<Rightarrow> string" and entry :: "'c \<Rightarrow> 'v"
    and prepare :: "'s \<Rightarrow> (py_exc + 'c) \<times> 's" and execute :: "'c \<Rightarrow> 's \<Rightarrow> (py_exc + 'r) \<times> 's"
    and dismiss :: "'c \<Rightarrow> 's \<Rightarrow> (py_exc + 'd) \<times> 's"
  assumes prepare_fails: "prepare s = (Inl x, t) \<Longrightarrow> pool t = pool s"
    and prepare_enters: "prepare s = (Inr c, t) \<Longrightarrow> pool t = AList.update (ident c) (entry c) (pool s)"
    and execute_keeps: "pool (snd (execute c s)) = pool s"
    and dismiss_leaves: "pool (snd (dismiss c s)) = AList.delete (ident c) (pool s)"
begin

lemma borrowed:
  assumes "\<And>c t. prepare s = (Inr c, t) \<Longrightarrow> ident c \<notin> fst ` set (pool s)"
  shows "pool (snd (bind_r prepare (\<lambda>c. finally_r (\<lambda>s. map_prod (map_sum id (f c)) id (execute c s)) (dismiss c)) s)) = pool s"
proof (cases "prepare s")
  case (Pair r t)
  then show ?thesis
    using assms prepare_fails prepare_enters
    by (cases r) (simp_all add: dismiss_leaves execute_keeps delete_fresh)
qed

end

interpretation active: worker_pool wk_contexts wc_worker_id "\<lambda>c. c" "prepare_worker (accepting E) L F jid cid"
    "\<lambda>c s. fst (execute_in_worker (accepting E) L (out c) c tt s)" "teardown_worker (accepting E) clk"
  for E L F jid cid out tt clk
  by unfold_locales
    (auto simp: execute_in_worker_keeps teardown_worker_def Let_def emit_writes activate_def
      dest: prepare_worker_Inl [OF accepting_writes] elim!: prepare_worker_Inr)

interpretation started: worker_pool wk_started wc_worker_id "\<lambda>_. dw_clock F" "prepare_worker (accepting E) L F jid cid"
    "\<lambda>c s. fst (execute_in_worker (accepting E) L (out c) c tt s)" "teardown_worker (accepting E) clk"
  for E L F jid cid out tt clk
  by unfold_locales
    (auto simp: execute_in_worker_keeps teardown_worker_def Let_def emit_writes activate_def
      dest: prepare_worker_Inl [OF accepting_writes] elim!: prepare_worker_Inr)

end
