(* ===== verification/Hub_Services.thy ===== *)
theory Hub_Services
  imports Job_Delivery Worker_Agent Worker_Pool Connectivity Egress_Gateway
begin

text \<open>
  The hub as \<open>main.py\<close> wires it: the services that the pipeline calls are the modelled components. Each
  service is a task whose awaits are its emissions and its calls to other processes; run alone it does
  what the component's own theory says. The services meet the contract under which the job manager's
  theorems hold, so these are theorems about the hub. The rest is about the composition: no cloud request
  leaves with anything but the packaged text, no worker outlives its job, a task comes back.
\<close>

section \<open>Tasks whose steps are bounded\<close>

text \<open>The steps a task makes, whatever happens at its awaits; \<open>G\<close> is a bound on them.\<close>

definition steps_in :: "(jobs_state \<Rightarrow> jobs_state \<Rightarrow> bool) \<Rightarrow> 'a task \<Rightarrow> bool" where
  "steps_in G c \<longleftrightarrow> (\<forall>s. safe (\<lambda>_ _. True) G (\<lambda>_ _. True) c s)"

named_theorems steps_rules

lemma steps_Ret [steps_rules]: "steps_in G (Ret a)"
  by (simp add: steps_in_def)

lemma steps_Exc [steps_rules]: "steps_in G (Exc x)"
  by (simp add: steps_in_def)

lemma steps_bind [steps_rules]: "steps_in G c \<Longrightarrow> (\<And>a. steps_in G (f a)) \<Longrightarrow> steps_in G (co_bind c f)"
  unfolding steps_in_def by (blast intro: safe_bind)

lemma steps_seq [steps_rules]: "steps_in G c \<Longrightarrow> steps_in G d \<Longrightarrow> steps_in G (co_seq c d)"
  unfolding co_seq_def by (rule steps_bind)

lemma steps_catch [steps_rules]: "steps_in G c \<Longrightarrow> (\<And>x. steps_in G (h x)) \<Longrightarrow> steps_in G (co_catch c h)"
  unfolding steps_in_def by (blast intro: safe_catch)

lemma steps_if [steps_rules]: "steps_in G c \<Longrightarrow> steps_in G d \<Longrightarrow> steps_in G (if b then c else d)"
  by simp

lemma steps_option [steps_rules]:
  "(v = None \<Longrightarrow> steps_in G c) \<Longrightarrow> (\<And>x. v = Some x \<Longrightarrow> steps_in G (d x)) \<Longrightarrow> steps_in G (case v of None \<Rightarrow> c | Some x \<Rightarrow> d x)"
  by (cases v) simp_all

lemma steps_sum [steps_rules]:
  "(\<And>x. v = Inl x \<Longrightarrow> steps_in G (c x)) \<Longrightarrow> (\<And>x. v = Inr x \<Longrightarrow> steps_in G (d x)) \<Longrightarrow> steps_in G (case v of Inl x \<Rightarrow> c x | Inr x \<Rightarrow> d x)"
  by (cases v) simp_all

lemma steps_pair [steps_rules]: "(\<And>x y. steps_in G (f x y)) \<Longrightarrow> steps_in G (case v of (x, y) \<Rightarrow> f x y)"
  by (cases v) simp

lemma steps_Get: "(\<And>s. steps_in G (k s)) \<Longrightarrow> steps_in G (Get k)"
  by (simp add: steps_in_def)

lemma steps_with_job [steps_rules]: "(\<And>j. steps_in G (f j)) \<Longrightarrow> steps_in G (with_job jid f)"
  unfolding with_job_def by (rule steps_Get)

lemma steps_Wait: "steps_in G c \<Longrightarrow> steps_in G (Wait p c)"
  by (simp add: steps_in_def)

lemma steps_modify: "(\<And>s. G s (f s)) \<Longrightarrow> steps_in G (modify f)"
  by (simp add: steps_in_def modify_def)

lemma steps_emit_c: "(\<And>s sp. G s (s\<lparr>alog := alog s @ [b sp]\<rparr>)) \<Longrightarrow> steps_in G (emit_c b)"
  unfolding steps_in_def emit_c_def by (intro allI safe_EmitI) (auto split: sum.split)

lemma steps_weaken: "steps_in G c \<Longrightarrow> (\<And>s t. G s t \<Longrightarrow> H s t) \<Longrightarrow> steps_in H c"
  unfolding steps_in_def
proof (intro allI)
  fix s
  assume c: "\<forall>s. safe (\<lambda>_ _. True) G (\<lambda>_ _. True) c s" and GH: "\<And>s t. G s t \<Longrightarrow> H s t"
  have "safe (\<lambda>_ _. True) G (\<lambda>_ _. True) c s \<Longrightarrow> safe (\<lambda>_ _. True) H (\<lambda>_ _. True) c s"
    by (induction c arbitrary: s) (auto intro: GH simp: Let_def)
  then show "safe (\<lambda>_ _. True) H (\<lambda>_ _. True) c s" using c by blast
qed

lemma steps_run: "steps_in G c \<Longrightarrow> preorder_rel G \<Longrightarrow> run E c s = Some (r, t) \<Longrightarrow> G s t"
  unfolding steps_in_def using safe_run by blast

section \<open>Services\<close>

text \<open>
  A service records events of its own types and changes no job, no queue and no worker that a job holds.
\<close>

definition SERVICE_TYPES :: "string list" where
  "SERVICE_TYPES = [''manifest.validated'', ''manifest.rejected'', ''sandbox.blueprint_created'', ''worker.prepared'',
    ''worker.teardown'', ''job.failed'', ''worker.execution_started'', ''worker.execution_completed'', ''context.packaged'',
    ''context.strip_detail'']"

definition service_record :: "event \<Rightarrow> bool" where
  "service_record ev \<longleftrightarrow> (\<exists>ty \<in> set SERVICE_TYPES. map_of ev ''event_type'' = Some (JStr ty))"

definition service_step :: "jobs_state \<Rightarrow> jobs_state \<Rightarrow> bool" where
  "service_step s t \<longleftrightarrow> jobs t = jobs s \<and> contexts t = contexts s \<and> queue t = queue s \<and> ticks s \<le> ticks t \<and>
    records service_record s t"

abbreviation service :: "'a task \<Rightarrow> bool" where
  "service c \<equiv> steps_in service_step c"

lemma service_step_preorder: "preorder_rel service_step"
proof -
  have r: "preorder_rel (records service_record :: jobs_state \<Rightarrow> jobs_state \<Rightarrow> bool)" by (rule records_preorder)
  have "service_step s s" for s using preorder_refl [OF r] by (simp add: service_step_def)
  moreover have "service_step s u" if "service_step s t" "service_step t u" for s t u
    using that preorder_trans [OF r, of s t u] by (simp add: service_step_def)
  ultimately show ?thesis unfolding preorder_rel_def by blast
qed

text \<open>What the job manager relies on.\<close>

lemma service_outside: "service c \<Longrightarrow> outside c"
proof -
  have "outside_step s t" if st: "service_step s t" for s t :: jobs_state
  proof -
    obtain evs where evs: "alog t = alog s @ evs" "\<forall>ev \<in> set evs. service_record ev"
      using st unfolding service_step_def records_def by blast
    have "may_log u ev" if "service_record ev" for u ev
      using that by (auto simp: service_record_def SERVICE_TYPES_def may_log_def about_def resolving_def)
    then show ?thesis using st evs unfolding outside_step_def service_step_def by auto
  qed
  then show "service c \<Longrightarrow> outside c" unfolding outside_def using steps_weaken [of service_step c outside_step] by (simp add: steps_in_def)
qed

lemma service_logs: "service c \<Longrightarrow> logs_only (not_delivered jid) c"
proof -
  have "not_delivered jid ev" if "service_record ev" for ev
    using that by (auto simp: service_record_def SERVICE_TYPES_def not_delivered_def about_def)
  then have "records (not_delivered jid) s t" if "service_step s t" for s t :: jobs_state
    using that unfolding service_step_def records_def by blast
  then show "service c \<Longrightarrow> logs_only (not_delivered jid) c"
    unfolding logs_only_def using steps_weaken [of service_step c "records (not_delivered jid)"] by (simp add: steps_in_def)
qed

lemma service_emit_c: "(\<And>sp. service_record (b sp)) \<Longrightarrow> service (emit_c b)"
  by (rule steps_emit_c) (simp add: service_step_def records_def)

lemma service_log_event: "(\<And>sp. service_record (b sp)) \<Longrightarrow> service (log_event b)"
  unfolding log_event_def by (intro steps_rules service_emit_c)

lemma service_draw [steps_rules]: "service draw"
  unfolding draw_def by (simp add: steps_in_def service_step_def records_def)

section \<open>The worker lifecycle as tasks\<close>

definition fail_preparation_c :: "string \<Rightarrow> string \<Rightarrow> string \<Rightarrow> 'a task" where
  "fail_preparation_c job_id cid err =
    co_seq (log_event (\<lambda>sp. event_worker_preparation_failed sp job_id cid err)) (Exc (PreparationError err))"

definition prepare_sandbox_c ::
    "lifecycle \<Rightarrow> drawn \<Rightarrow> string \<Rightarrow> string \<Rightarrow> manifest \<Rightarrow> validation_result \<Rightarrow> worker_context task" where
  "prepare_sandbox_c L F job_id cid m vr =
    (case generate_blueprint (dw_blueprint_id F) (dw_blueprint_at F) (lc_engine L) m vr of
       Inl (ValueError e) \<Rightarrow> fail_preparation_c job_id cid (''blueprint generation failed: '' @ e)
     | Inl x \<Rightarrow> Exc x
     | Inr bp \<Rightarrow>
         (let ctx = new_context L F job_id cid m vr bp in
          co_seq (log_event (blueprint_event bp (mf_id m) cid))
          (co_seq (modify (activate F ctx))
          (co_seq (log_event (prepared_event ctx cid)) (Ret ctx)))))"

definition prepare_worker_c :: "lifecycle \<Rightarrow> drawn \<Rightarrow> string \<Rightarrow> string option \<Rightarrow> worker_context task" where
  "prepare_worker_c L0 F job_id capability_id =
    Get (\<lambda>s. let L = live L0 (caps s) in
      case capability_id of
        None \<Rightarrow> fail_preparation_c job_id ''unknown'' ''job has no governing_capability_id''
      | Some cid \<Rightarrow>
          if cid = [] then fail_preparation_c job_id ''unknown'' ''job has no governing_capability_id''
          else (case registry_get (lc_registry L) cid of
              None \<Rightarrow> fail_preparation_c job_id cid (''capability '' @ quoted cid @ '' not found in registry'')
            | Some cap \<Rightarrow>
                (case status_error L cid of
                   Some err \<Rightarrow> fail_preparation_c job_id cid err
                 | None \<Rightarrow>
                     (let m = build_manifest L F cid cap; vr = validate_manifest (dw_validated_at F) (lc_validator L) m in
                      co_seq (log_event (manifest_event m cid vr))
                       (if \<not> vr_valid vr
                        then fail_preparation_c job_id cid (''manifest validation failed: '' @ list_text (vr_errors vr))
                        else prepare_sandbox_c L F job_id cid m vr)))))"

definition run_task_c :: "worker_context \<Rightarrow> py_exc + worker_result \<Rightarrow> worker_result task" where
  "run_task_c ctx outcome =
    (case outcome of
       Inl x \<Rightarrow> Exc x
     | Inr r \<Rightarrow>
         co_seq (log_event (completed_event ctx r))
           (if \<not> wr_success r
            then Exc (ExecutionError (''worker execution failed: '' @ (case wr_error r of Some e \<Rightarrow> e | None \<Rightarrow> ''None'')))
            else Ret r))"

definition task_failed_c :: "outside \<Rightarrow> worker_context \<Rightarrow> py_exc \<Rightarrow> worker_result task" where
  "task_failed_c O0 ctx x =
    (case x of
       PreparationError _ \<Rightarrow> Exc x
     | ExecutionError _ \<Rightarrow> Exc x
     | _ \<Rightarrow> co_seq (log_event (crashed_event ctx (wo_exc_text O0 x)))
         (Exc (PreparationError (''unexpected error during worker execution: '' @ wo_exc_text O0 x))))"

text \<open>The container runs while the task waits for the worker proxy's answer.\<close>

definition execute_in_worker_c :: "lifecycle \<Rightarrow> outside \<Rightarrow> worker_context \<Rightarrow> string \<Rightarrow> worker_result task" where
  "execute_in_worker_c L O0 ctx task_type =
    (if \<not> lc_has_executor L then Exc (PreparationError ''no worker_executor configured'')
     else co_seq (log_event (\<lambda>sp. event_worker_execution_started sp (wc_worker_id ctx) (wc_job_id ctx)
            (mf_capability (wc_manifest ctx)) ''pending'' (bp_image (wc_blueprint ctx)) task_type))
       (co_catch
         (Wait (\<lambda>_. True)
           (run_task_c ctx (fst (execute_task O0 (request_body L O0 ctx) (max_wall_seconds (mf_resources (wc_manifest ctx)))))))
         (task_failed_c O0 ctx)))"

text \<open>The counters of the record are read before it is written.\<close>

definition teardown_worker_c :: "instant \<Rightarrow> worker_context \<Rightarrow> unit task" where
  "teardown_worker_c clk ctx =
    Get (\<lambda>s.
      let evs = px_events (wc_egress_proxy ctx);
          denied = length (filter (\<lambda>e. event_str e ''event_type'' = ''egress.denied'') evs) in
      co_seq (log_event (\<lambda>sp. event_worker_teardown sp (wc_worker_id ctx) (wc_job_id ctx) (int (length evs)) (int denied)
          (py_round 3 (duration_seconds clk (map_of (wk_started s) (wc_worker_id ctx))))))
        (modify (\<lambda>s. s\<lparr>wk_windows := egress_reset (bp_id (wc_blueprint ctx)) (wk_windows s),
           wk_contexts := AList.delete (wc_worker_id ctx) (wk_contexts s),
           wk_started := AList.delete (wc_worker_id ctx) (wk_started s)\<rparr>)))"

text \<open>Run alone, each is the operation of \<open>Worker_Lifecycle\<close> on the same state.\<close>

lemma run_logged:
  "run E (log_event b) s = (case emit E b s of (Inl x, t) \<Rightarrow> Some (Inl x, t) | (Inr ev, t) \<Rightarrow> Some (Inr (), t))"
  by (simp add: log_event_def run_bind run_emit_c split: prod.split sum.split)

lemma run_log_seq:
  "run E (co_seq (log_event b) c) s = (case emit E b s of (Inl x, t) \<Rightarrow> Some (Inl x, t) | (Inr ev, t) \<Rightarrow> run E c t)"
  by (simp add: run_seq run_logged split: prod.split sum.split)

lemma run_modify_seq: "run E (co_seq (modify f) c) s = run E c (f s)"
  by (simp add: run_seq)

lemma run_fail_preparation: "run E (fail_preparation_c job_id cid err) s = Some (fail_preparation E job_id cid err s)"
  by (simp add: fail_preparation_c_def fail_preparation_def run_log_seq bind_r_def raise_r_def split: prod.split sum.split)

lemma run_prepare_sandbox: "run E (prepare_sandbox_c L F job_id cid m vr) s = Some (prepare_sandbox E L F job_id cid m vr s)"
  unfolding prepare_sandbox_c_def prepare_sandbox_def
  by (cases "generate_blueprint (dw_blueprint_id F) (dw_blueprint_at F) (lc_engine L) m vr")
    (auto simp: run_fail_preparation run_log_seq run_modify_seq bind_r_def Let_def return_r_def raise_r_def split: prod.split sum.split py_exc.split)

lemma run_prepare_worker:
  "run E (prepare_worker_c L F job_id cid) s = Some (prepare_worker E (live L (caps s)) F job_id cid s)"
  by (simp add: prepare_worker_c_def prepare_worker_def Let_def run_fail_preparation run_prepare_sandbox run_log_seq bind_r_def
      split: option.split prod.split sum.split)

lemma run_execute_in_worker:
  "run E (execute_in_worker_c L O0 ctx tt) s = Some (fst (execute_in_worker E L O0 ctx tt s))"
proof -
  have task: "run E (run_task_c ctx outcome) s = Some (run_task E ctx outcome s)" for outcome s
    by (cases outcome) (simp_all add: run_task_c_def run_task_def run_log_seq bind_r_def return_r_def raise_r_def split: prod.split sum.split)
  have failed: "run E (task_failed_c O0 ctx x) s = Some (task_failed E O0 ctx x s)" for x s
    by (cases x) (simp_all add: task_failed_c_def task_failed_def run_log_seq bind_r_def raise_r_def split: prod.split sum.split)
  show ?thesis
    by (simp add: execute_in_worker_c_def execute_in_worker_def run_log_seq run_catch task failed catch_r_def
        split: prod.split sum.split)
qed

lemma run_teardown_worker:
  "run E (teardown_worker_c clk ctx) s = Some (map_prod (map_sum id (\<lambda>_. ())) id (teardown_worker E clk ctx s))"
  by (simp add: teardown_worker_c_def teardown_worker_def Let_def run_log_seq bind_r_def split: prod.split sum.split)

section \<open>The packager as a task\<close>

primrec co_each :: "('b \<Rightarrow> unit task) \<Rightarrow> 'b list \<Rightarrow> unit task" where
  "co_each f [] = Ret ()"
| "co_each f (x # xs) = co_seq (f x) (co_each f xs)"

definition package_context_c ::
    "(string \<Rightarrow> string) \<Rightarrow> (json \<Rightarrow> string) \<Rightarrow> bool \<Rightarrow> sens_config \<Rightarrow> string \<Rightarrow> string \<Rightarrow> string \<Rightarrow> package_request \<Rightarrow> package task" where
  "package_context_c sha256 dumps store_ok C cid field_id when_text q =
    (case transform_text (pq_input q) (scan_text C (pq_input q)) of
       Inl x \<Rightarrow> Exc x
     | Inr (payload, marked) \<Rightarrow>
         (let h = sha256 payload; ob = context_object cid field_id when_text q payload h marked in
          if \<not> store_ok then Exc OSError
          else co_seq (modify (\<lambda>s. s\<lparr>context_store := AList.update cid ob (context_store s)\<rparr>))
            (co_seq (log_event (\<lambda>sp. event_context_packaged sp cid (pq_job_id q)
               (if marked = [] then [field_id] else []) (if marked \<noteq> [] then [field_id] else [])
               (int (length payload div 4)) h (sha256 (dumps ob))))
            (co_seq (co_each (\<lambda>sn. log_event (strip_event cid (pq_job_id q) field_id sn)) marked)
            (Ret \<lparr>pk_id = cid, pk_payload = payload, pk_hash = h\<rparr>)))))"

lemma run_each:
  "run E (co_each (\<lambda>x. log_event (b x)) xs) s = Some (map_prod (map_sum id (\<lambda>_. ())) id (map_r (\<lambda>x. emit E (b x)) xs s))"
  by (induction xs arbitrary: s) (auto simp: run_log_seq split: prod.split sum.split)

lemma run_each_seq:
  "run E (co_seq (co_each (\<lambda>x. log_event (b x)) xs) d) s =
    (case map_r (\<lambda>x. emit E (b x)) xs s of (Inl x, t) \<Rightarrow> Some (Inl x, t) | (Inr vs, t) \<Rightarrow> run E d t)"
  by (simp add: run_seq run_each split: prod.split sum.split)

lemma run_package_context:
  "run E (package_context_c sha256 dumps store_ok C cid field_id when_text q) s =
    Some (package_context E sha256 dumps store_ok C (cid, field_id) when_text q s)"
proof (cases "transform_text (pq_input q) (scan_text C (pq_input q))")
  case (Inr p)
  obtain payload marked where p: "p = (payload, marked)" by fastforce
  show ?thesis
    unfolding package_context_c_def package_context_def Inr p
    by (simp add: run_modify_seq run_log_seq bind_r_def Let_def run_each_seq return_r_def del: co_each.simps map_r.simps
        split: prod.split sum.split)
qed (simp add: package_context_c_def package_context_def)

section \<open>The hub\<close>

text \<open>
  What \<open>main.py\<close> passes around. \<open>hb_reply\<close> is the text that Ollama answers to the classifier (\<open>None\<close> when the call
  fails, which the classifier swallows),
  \<open>hb_sandbox\<close> the surroundings of one execution in a container, \<open>hb_gateway\<close> the state of the gateway's
  process when the hub's request arrives there and \<open>hb_upstream\<close> what the provider does with the call; the
  number that they take counts the hub's draws.
\<close>

record wiring =
  hb_reply :: "nat \<Rightarrow> string \<Rightarrow> json option"
  hb_loads :: "string \<Rightarrow> json option"
  hb_float :: "string \<Rightarrow> rat option"
  hb_generate :: "nat \<Rightarrow> string \<Rightarrow> py_exc + answer"
  hb_monitor :: "nat \<Rightarrow> monitor"
  hb_registry :: registry
  hb_lifecycle :: lifecycle
  hb_drawn :: "nat \<Rightarrow> drawn"
  hb_sandbox :: "nat \<Rightarrow> worker_context \<Rightarrow> string \<Rightarrow> string \<Rightarrow> outside"
  hb_config :: "sens_config option"
  hb_sha256 :: "string \<Rightarrow> string"
  hb_dumps :: "json \<Rightarrow> string"
  hb_store_ok :: "nat \<Rightarrow> bool"
  hb_package_ids :: "nat \<Rightarrow> string \<times> string \<times> string"
  hb_token :: string
  hb_gateway :: "nat \<Rightarrow> py_exc + gateway"
  hb_gateway_clock :: "nat \<Rightarrow> instant"
  hb_upstream :: "nat \<Rightarrow> upstream_call \<Rightarrow> upstream"
  hb_result_id :: "nat \<Rightarrow> string"
  hb_latency :: "nat \<Rightarrow> int"
  hb_detail :: "dispatch_response \<Rightarrow> string"
  hb_clock :: "nat \<Rightarrow> instant"
  hb_processing :: "jobs_state \<Rightarrow> bool"
  hb_exc_text :: "py_exc \<Rightarrow> string"

definition hub_classify :: "wiring \<Rightarrow> string \<Rightarrow> classification task" where
  "hub_classify H raw = co_bind draw (\<lambda>n. Wait (\<lambda>_. True)
    (case classify_input (hb_loads H) (hb_float H) (hb_reply H n raw) of Inl x \<Rightarrow> Exc x | Inr c \<Rightarrow> Ret c))"

definition hub_route_available :: "wiring \<Rightarrow> string \<Rightarrow> bool task" where
  "hub_route_available H rid = co_bind draw (\<lambda>n. Ret (is_route_available (hb_monitor H n) rid))"

definition hub_prepare :: "wiring \<Rightarrow> string \<Rightarrow> worker_context task" where
  "hub_prepare H jid = with_job jid (\<lambda>j. co_bind draw (\<lambda>n.
    prepare_worker_c (hb_lifecycle H) (hb_drawn H n) jid (j_capability j)))"

definition hub_teardown :: "wiring \<Rightarrow> worker_context \<Rightarrow> unit task" where
  "hub_teardown H ctx = co_bind draw (\<lambda>n. teardown_worker_c (hb_clock H n) ctx)"

definition hub_package :: "wiring \<Rightarrow> sens_config \<Rightarrow> string \<Rightarrow> string \<Rightarrow> string \<Rightarrow> string \<Rightarrow> string \<Rightarrow> package task" where
  "hub_package H C jid raw m rid cap = co_bind draw (\<lambda>n. case hb_package_ids H n of (cid, field_id, when_text) \<Rightarrow>
    package_context_c (hb_sha256 H) (hb_dumps H) (hb_store_ok H n) C cid field_id when_text
      \<lparr>pq_job_id = jid, pq_input = raw, pq_model = m, pq_route = rid, pq_capability = cap, pq_wal = 0\<rparr>)"

definition worker_answer :: "worker_result \<Rightarrow> answer" where
  "worker_answer r = \<lparr>an_text = wr_text r, an_latency = wr_latency r, an_tokens_in = wr_tokens_in r, an_tokens_out = wr_tokens_out r\<rparr>"

definition hub_execute :: "wiring \<Rightarrow> worker_context \<Rightarrow> string \<Rightarrow> string \<Rightarrow> answer task" where
  "hub_execute H ctx prompt m = co_bind draw (\<lambda>n.
    co_bind (execute_in_worker_c (hb_lifecycle H) (hb_sandbox H n ctx prompt m) ctx ''text_generation'') (\<lambda>r. Ret (worker_answer r)))"

definition hub_generate :: "wiring \<Rightarrow> string \<Rightarrow> answer task" where
  "hub_generate H prompt = co_bind draw (\<lambda>n. Wait (\<lambda>_. True) (case hb_generate H n prompt of Inl x \<Rightarrow> Exc x | Inr a \<Rightarrow> Ret a))"

text \<open>
  The request to the gateway, and how the job manager reads its answer. The status of the HTTP response is
  never looked at: a refusal with 401 is a JSON object without the keys that are read, an unhandled
  exception of the gateway a text that is no JSON.
\<close>

definition empty_reply :: egress_reply where
  "empty_reply = \<lparr>eg_status = None, eg_failure = None, eg_detail = None,
     eg_answer = \<lparr>an_text = [], an_latency = 0, an_tokens_in = 0, an_tokens_out = 0\<rparr>, eg_cost = 0, eg_result_id = None,
     eg_hash = None, eg_finish = None\<rparr>"

definition reply_of :: "wiring \<Rightarrow> dispatch_response \<Rightarrow> egress_reply" where
  "reply_of H d =
    (case (ds_text d, ds_latency d, ds_tokens_in d, ds_tokens_out d, ds_cost d) of
       (Some t, Some l, Some i, Some n, Some c) \<Rightarrow>
         \<lparr>eg_status = Some (ds_status d), eg_failure = ds_failure d, eg_detail = Some (hb_detail H d),
          eg_answer = \<lparr>an_text = t, an_latency = l, an_tokens_in = i, an_tokens_out = n\<rparr>, eg_cost = c,
          eg_result_id = ds_result_id d, eg_hash = ds_hash d, eg_finish = ds_finish d\<rparr>
     | _ \<Rightarrow> empty_reply\<lparr>eg_status := Some (ds_status d), eg_failure := ds_failure d, eg_detail := Some (hb_detail H d)\<rparr>)"

definition gateway_answers :: "wiring \<Rightarrow> nat \<Rightarrow> dispatch_request \<Rightarrow> py_exc + egress_reply" where
  "gateway_answers H n req =
    (case hb_gateway H n of
       Inl x \<Rightarrow> Inl x
     | Inr G \<Rightarrow>
         (case receive_dispatch (hb_gateway_clock H n) (Some (''Bearer '' @ hb_token H)) req G of
            (Unauthorized, G') \<Rightarrow> Inr empty_reply
          | (Refused d, G') \<Rightarrow> Inr (reply_of H d)
          | (Forwarded r call, G') \<Rightarrow>
              (case dispatch_reply (hb_sha256 H) (hb_result_id H n) (hb_latency H n) G' req r (hb_upstream H n call) of
                 Inl x \<Rightarrow> Inl (ValueError ''not JSON'')
               | Inr d \<Rightarrow> Inr (reply_of H d))))"

definition hub_dispatch :: "wiring \<Rightarrow> string \<Rightarrow> string \<Rightarrow> string \<Rightarrow> string \<Rightarrow> string \<Rightarrow> string \<Rightarrow> string \<Rightarrow> egress_reply task" where
  "hub_dispatch H jid rid cap m prompt phash ref = co_bind draw (\<lambda>n. Wait (\<lambda>_. True)
    (case gateway_answers H n \<lparr>dr_job_id = jid, dr_route_id = rid, dr_capability = cap, dr_model = m, dr_prompt = prompt\<rparr> of
       Inl x \<Rightarrow> Exc x
     | Inr r \<Rightarrow> Ret r))"

text \<open>\<open>JobManager(...)\<close> as \<open>main.py\<close> calls it: no registry of egress routes is passed.\<close>

definition hub_deps :: "wiring \<Rightarrow> pipeline_deps" where
  "hub_deps H =
    \<lparr>demotion_engine = True, teardown = Some (hub_teardown H), classify_c = hub_classify H,
     route_available = Some (hub_route_available H), checker = Some (hb_registry H), prepare_c = hub_prepare H,
     egress_routes = None, package_c = map_option (hub_package H) (hb_config H),
     execute_c = (if lc_has_executor (hb_lifecycle H) then Some (hub_execute H) else None), generate_c = hub_generate H,
     dispatch_c = hub_dispatch H, processing_allowed = hb_processing H, exc_text = hb_exc_text H\<rparr>"

section \<open>The contract\<close>

lemma service_records:
  "service_record (event_worker_preparation_failed sp a1 a2 a3)" "service_record (manifest_event m a4 vr sp)"
  "service_record (blueprint_event bp b1 b2 sp)" "service_record (prepared_event ctx b3 sp)"
  "service_record (completed_event ctx wr sp)" "service_record (crashed_event ctx b4 sp)"
  "service_record (event_worker_execution_started sp c1 c2 c3 c4 c5 c6)" "service_record (event_worker_teardown sp d1 d2 n1 n2 q)"
  "service_record (event_context_packaged sp e1 e2 xs ys n3 e3 e4)" "service_record (strip_event f1 f2 f3 sn sp)"
  by (simp_all add: service_record_def SERVICE_TYPES_def event_worker_preparation_failed_def manifest_event_def
      event_manifest_validated_def blueprint_event_def event_blueprint_created_def prepared_event_def event_worker_prepared_def
      completed_event_def crashed_event_def event_worker_execution_completed_def event_worker_execution_started_def
      event_worker_teardown_def event_context_packaged_def strip_event_def event_context_strip_detail_def)

lemmas service_logs_rules [steps_rules] = service_log_event [OF service_records(1)] service_log_event [OF service_records(2)]
  service_log_event [OF service_records(3)] service_log_event [OF service_records(4)] service_log_event [OF service_records(5)]
  service_log_event [OF service_records(6)] service_log_event [OF service_records(7)] service_log_event [OF service_records(8)]
  service_log_event [OF service_records(9)] service_log_event [OF service_records(10)]

lemma service_modify: "(\<And>s. jobs (f s) = jobs s \<and> contexts (f s) = contexts s \<and> queue (f s) = queue s \<and> ticks (f s) = ticks s \<and> alog (f s) = alog s)
    \<Longrightarrow> service (modify f)"
  by (rule steps_modify) (simp add: service_step_def records_def)

lemma service_each [steps_rules]: "(\<And>x. service (f x)) \<Longrightarrow> service (co_each f xs)"
  by (induction xs) (auto intro: steps_rules)

lemma service_fail_preparation [steps_rules]: "service (fail_preparation_c job_id cid err)"
  unfolding fail_preparation_c_def by (intro steps_rules)

lemma service_prepare: "service (prepare_worker_c L F job_id cid)"
proof -
  have sandbox: "service (prepare_sandbox_c L F job_id c m vr)" for L c m vr
  proof (cases "generate_blueprint (dw_blueprint_id F) (dw_blueprint_at F) (lc_engine L) m vr")
    case (Inl x)
    then show ?thesis by (cases x) (simp_all add: prepare_sandbox_c_def steps_rules)
  next
    case (Inr bp)
    show ?thesis
      unfolding prepare_sandbox_c_def Inr sum.case Let_def by (intro steps_rules service_modify) (simp add: activate_def)
  qed
  show ?thesis
    unfolding prepare_worker_c_def Let_def by (intro steps_Get steps_rules sandbox)
qed

lemma service_teardown: "service (teardown_worker_c clk ctx)"
  unfolding teardown_worker_c_def Let_def by (intro steps_Get steps_rules service_modify) simp

lemma service_execute: "service (execute_in_worker_c L O0 ctx tt)"
proof -
  have "service (task_failed_c O0 ctx x)" for x
    by (cases x) (auto simp: task_failed_c_def intro: steps_rules)
  then show ?thesis
    unfolding execute_in_worker_c_def run_task_c_def by (intro steps_rules steps_Wait)
qed

lemma service_package: "service (package_context_c sha256 dumps ok C cid fid when_text q)"
  unfolding package_context_c_def Let_def by (intro steps_rules service_modify) simp

lemma services_of_hub:
  "service (hub_classify H raw)" "service (hub_route_available H rid)" "service (hub_prepare H jid)" "service (hub_teardown H ctx)"
  "service (hub_package H C jid raw m rid cap)" "service (hub_execute H ctx raw m)" "service (hub_generate H raw)"
  "service (hub_dispatch H jid rid cap m raw phash ref)"
  unfolding hub_classify_def hub_route_available_def hub_prepare_def hub_teardown_def hub_package_def hub_execute_def
    hub_generate_def hub_dispatch_def
  by (intro steps_rules steps_Wait service_prepare service_teardown service_execute service_package)+

lemma hub_contract: "pipeline_outside (hub_deps H)" "services_log (not_delivered jid) (hub_deps H)"
  by (auto simp: pipeline_outside_def deps_outside_def services_log_def hub_deps_def
      intro: service_outside service_logs services_of_hub split: if_splits)

interpretation hub: job_services "hub_deps H" for H
  by unfold_locales (rule hub_contract)+

text \<open>
  C5: The modelled components are a correct environment of the job manager: wired as in \<open>main.py\<close>, the
  classifier, the circuit breaker, the worker lifecycle, the packager, the container execution and the
  gateway meet the contract that the job manager's theorems assume. They change no job, put no
  record of a human decision or of a delivery into the trail, and never take back a draw, under every
  schedule and whatever Ollama, Docker, the gateway and the providers answer.
\<close>

theorem hub_meets_contract:
  "pipeline_outside (hub_deps H) \<and> services_log (not_delivered jid) (hub_deps H)"
  using hub.services_outside hub.services_quiet by blast

section \<open>Nothing but the packaged text goes out\<close>

text \<open>The text that the packager makes of an input, and a dispatch that refuses every other prompt.\<close>

definition redaction :: "sens_config \<Rightarrow> string \<Rightarrow> string option" where
  "redaction C raw = (case transform_text raw (scan_text C raw) of Inl x \<Rightarrow> None | Inr (payload, marked) \<Rightarrow> Some payload)"

definition redacted_input :: "wiring \<Rightarrow> string \<Rightarrow> string \<Rightarrow> bool" where
  "redacted_input H raw prompt \<longleftrightarrow> (case hb_config H of None \<Rightarrow> False | Some C \<Rightarrow> redaction C raw = Some prompt)"

definition guarded_deps :: "wiring \<Rightarrow> py_exc \<Rightarrow> pipeline_deps" where
  "guarded_deps H x = (hub_deps H)\<lparr>dispatch_c := (\<lambda>jid rid cap m prompt phash ref.
     with_job jid (\<lambda>j. if redacted_input H (j_raw_input j) prompt then hub_dispatch H jid rid cap m prompt phash ref else Exc x))\<rparr>"

text \<open>A stored routing is one of the two that the classifier and the redirection write.\<close>

definition routed :: "job \<Rightarrow> bool" where
  "routed j \<longleftrightarrow> (j_status j = Classified \<and> j_capability j \<noteq> None \<longrightarrow> j_routing j \<in> {Some ''local'', Some ''cloud''})"

lemma run_bind_cong:
  "(\<And>v t. run E c s = Some (Inr v, t) \<Longrightarrow> run E (f v) t = run E (g v) t) \<Longrightarrow> run E (co_bind c f) s = run E (co_bind c g) s"
  by (auto simp: run_bind split: option.split sum.split)

lemma run_bind_Inr:
  assumes "run E (co_bind c f) s = Some (Inr v, u)"
  obtains a t where "run E c s = Some (Inr a, t)" "run E (f a) t = Some (Inr v, u)"
  using assms by (auto simp: run_bind split: option.splits sum.splits prod.splits)

lemma run_seq_Inr:
  assumes "run E (co_seq c d) s = Some (Inr v, u)"
  obtains t where "run E c s = Some (Inr (), t)" "run E d t = Some (Inr v, u)"
  using assms by (auto simp: run_seq split: option.splits sum.splits prod.splits)

lemma guarded_fields:
  "classify_c (guarded_deps H x) = classify_c (hub_deps H)" "route_available (guarded_deps H x) = route_available (hub_deps H)"
  "checker (guarded_deps H x) = checker (hub_deps H)" "prepare_c (guarded_deps H x) = prepare_c (hub_deps H)"
  "teardown (guarded_deps H x) = teardown (hub_deps H)" "egress_routes (guarded_deps H x) = egress_routes (hub_deps H)"
  "package_c (guarded_deps H x) = package_c (hub_deps H)" "execute_c (guarded_deps H x) = execute_c (hub_deps H)"
  "generate_c (guarded_deps H x) = generate_c (hub_deps H)" "exc_text (guarded_deps H x) = exc_text (hub_deps H)"
  by (simp_all add: guarded_deps_def)

lemma guarded_stages:
  "classify_stage W (guarded_deps H x) jid = classify_stage W (hub_deps H) jid"
  "circuit_gate W (guarded_deps H x) jid p = circuit_gate W (hub_deps H) jid p"
  "permission_stage W (guarded_deps H x) jid p = permission_stage W (hub_deps H) jid p"
  "prepare_stage W (guarded_deps H x) jid = prepare_stage W (hub_deps H) jid"
  "fallback_stage (guarded_deps H x) jid p = fallback_stage (hub_deps H) jid p"
  "package_stage (guarded_deps H x) jid p = package_stage (hub_deps H) jid p"
  "end_worker (guarded_deps H x) jid w = end_worker (hub_deps H) jid w"
  "execute_local W (guarded_deps H x) jid w m prompt = execute_local W (hub_deps H) jid w m prompt"
  "finish_stage W (guarded_deps H x) jid w p g r = finish_stage W (hub_deps H) jid w p g r"
  unfolding classify_stage_def classify_job_def circuit_gate_def permission_stage_def prepare_stage_def fallback_stage_def
    package_stage_def end_worker_def execute_local_def finish_stage_def propose_stage_def deliver_stage_def guarded_fields
  by (rule refl)+

lemma classified_routing:
  assumes "run E (hub_classify H raw) s = Some (Inr c, t)"
  shows "c_routing c \<in> {''local'', ''cloud''}"
proof -
  obtain r where "classify_input (hb_loads H) (hb_float H) r = Inr c"
    using assms by (auto simp: hub_classify_def run_bind split: sum.splits)
  then obtain p where "parsed_ok p" "c_routing c = p_routing p"
    using parse_classification_ok
    by (auto simp: classify_input_def Let_def split: option.splits json.splits sum.splits) metis+
  then show ?thesis by (simp add: parsed_ok_def)
qed

lemma classify_stage_routing:
  assumes "run E (classify_stage W (hub_deps H) jid) s = Some (Inr p, t)" and "routed (job_of s jid)"
  shows "pl_routing p \<in> {Some ''local'', Some ''cloud''}"
proof -
  let ?j = "job_of s jid"
  obtain t' where "run E (case (j_status ?j, j_capability ?j) of
      (Classified, Some cap) \<Rightarrow> Ret (plan_of_job ?j cap) | _ \<Rightarrow> classify_job W (hub_deps H) jid ?j) s = Some (Inr p, t')"
    using assms(1) by (auto simp: classify_stage_def elim!: run_bind_Inr run_seq_Inr)
  moreover have "pl_routing p \<in> {Some ''local'', Some ''cloud''}"
    if run: "run E (classify_job W (hub_deps H) jid ?j) s = Some (Inr p, t')"
  proof -
    obtain c u where c: "run E (classify_c (hub_deps H) (j_raw_input ?j)) s = Some (Inr c, u)" and p: "pl_routing p = Some (c_routing c)"
      using run unfolding classify_job_def by (auto elim!: run_bind_Inr run_seq_Inr)
    then have "run E (hub_classify H (j_raw_input ?j)) s = Some (Inr c, u)" by (simp add: hub_deps_def)
    from classified_routing [OF this] p show ?thesis by simp
  qed
  ultimately show ?thesis
    using assms(2) by (cases "j_status ?j"; cases "j_capability ?j") (auto simp: routed_def plan_of_job_def)
qed

lemma package_stage_redacts:
  assumes "run E (package_stage (hub_deps H) jid p) s = Some (Inr (pid, h, prompt), t)" and "pl_routing p = Some ''cloud''"
  shows "redacted_input H (j_raw_input (job_of t jid)) prompt"
proof (cases "hb_config H")
  case None
  then show ?thesis using assms by (simp add: package_stage_def hub_deps_def)
next
  case (Some C)
  let ?raw = "j_raw_input (job_of s jid)"
  obtain m r u where m: "run E (first_model p) s = Some (Inr m, u)"
    and r: "run E (hub_package H C jid ?raw m (pl_route p) (pl_capability p)) u = Some (Inr r, t)" and "prompt = pk_payload r"
    using assms Some by (auto simp: package_stage_def hub_deps_def elim!: run_bind_Inr)
  have u: "u = s" using m by (auto simp: first_model_def split: option.splits list.splits)
  have "jobs t = jobs s"
    using steps_run [OF services_of_hub(5) service_step_preorder r] u by (simp add: service_step_def)
  moreover obtain cid fid cr where ids: "hb_package_ids H (ticks s) = (cid, fid, cr)" by (metis prod_cases3)
  from r u ids have "package_context E (hb_sha256 H) (hb_dumps H) (hb_store_ok H (ticks s)) C (cid, fid) cr
      \<lparr>pq_job_id = jid, pq_input = ?raw, pq_model = m, pq_route = pl_route p, pq_capability = pl_capability p, pq_wal = 0\<rparr>
      (s\<lparr>ticks := Suc (ticks s)\<rparr>) = (Inr r, t)"
    by (simp add: hub_package_def run_bind run_package_context)
  then have "redaction C ?raw = Some (pk_payload r)"
    by (auto elim!: package_context_Inr simp: redaction_def)
  ultimately show ?thesis using Some \<open>prompt = pk_payload r\<close> by (simp add: redacted_input_def job_of_def)
qed

lemma raw_kept:
  assumes "\<And>j. j_raw_input (f j) = j_raw_input j"
  shows "j_raw_input (job_of (s\<lparr>jobs := dict_modify k f (jobs s)\<rparr>) jid) = j_raw_input (job_of s jid)"
  using assms by (simp add: job_of_def map_of_dict_modify split: option.split)

lemma guarded_dispatch:
  assumes "pl_routing p = Some ''local'' \<or> redacted_input H (j_raw_input (job_of s jid)) prompt"
  shows "run E (dispatch_stage W (guarded_deps H x) jid w p g (pid, h, prompt)) s =
    run E (dispatch_stage W (hub_deps H) jid w p g (pid, h, prompt)) s"
proof -
  have cloud: "run E (execute_cloud W (guarded_deps H x) jid w p m prompt h' ref) t =
      run E (execute_cloud W (hub_deps H) jid w p m prompt h' ref) t"
    if "redacted_input H (j_raw_input (job_of t jid)) prompt" for m h' ref and t
    unfolding execute_cloud_def guarded_stages
    by (subst (1 2) run_bind) (use that in \<open>simp add: guarded_deps_def hub_deps_def\<close>)
  have raw: "j_raw_input (job_of t jid) = j_raw_input (job_of u jid)" if "run E (log_event b) u = Some (Inr v, t)" for b v u t
    using that by (auto simp: run_logged emit_def Let_def job_of_def split: sum.splits)
  show ?thesis
    unfolding dispatch_stage_def prod.case Let_def co_seq_def guarded_stages
  proof (intro run_bind_cong)
    fix m s1 v2 s2 n s3 v4 s4 v5 s5
    assume "run E (first_model p) s = Some (Inr m, s1)" and log: "run E (log_event (\<lambda>sp. event_job_dispatched sp jid m (pl_route p) (gr_ref g)
        (case h of None \<Rightarrow> [] | Some x \<Rightarrow> x) None pid)) s1 = Some (Inr v2, s2)"
      and "run E (now W) s2 = Some (Inr n, s3)"
      and "run E (set_job jid (\<lambda>j. j\<lparr>j_status := Dispatched, j_dispatched_at := Some n\<rparr>)) s3 = Some (Inr v4, s4)"
      and "run E (persist_job W jid) s4 = Some (Inr v5, s5)"
    then have "j_raw_input (job_of s5 jid) = j_raw_input (job_of s1 jid)" and "s1 = s"
      using raw [OF log] by (auto simp: raw_kept first_model_def split: option.splits list.splits)
    then show "run E (if pl_routing p = Some ''local'' then execute_local W (hub_deps H) jid w m prompt
        else execute_cloud W (guarded_deps H x) jid w p m prompt (case h of None \<Rightarrow> [] | Some x \<Rightarrow> x) (gr_ref g)) s5 =
      run E (if pl_routing p = Some ''local'' then execute_local W (hub_deps H) jid w m prompt
        else execute_cloud W (hub_deps H) jid w p m prompt (case h of None \<Rightarrow> [] | Some x \<Rightarrow> x) (gr_ref g)) s5"
      using assms cloud by auto
  qed
qed

lemma guarded_granted:
  assumes "pl_routing p \<in> {Some ''local'', Some ''cloud''}"
  shows "run E (granted_stage W (guarded_deps H x) jid p g) u = run E (granted_stage W (hub_deps H) jid p g) u"
  unfolding granted_stage_def guarded_stages
proof (rule run_bind_cong)
  fix ready u1
  show "run E (case ready of None \<Rightarrow> Ret () | Some w \<Rightarrow> co_seq (fallback_stage (hub_deps H) jid p)
        (co_bind (package_stage (hub_deps H) jid p) (\<lambda>pkg. co_bind (dispatch_stage W (guarded_deps H x) jid w p g pkg)
          (\<lambda>r. case r of None \<Rightarrow> Ret () | Some r \<Rightarrow> finish_stage W (hub_deps H) jid w p g r)))) u1 =
      run E (case ready of None \<Rightarrow> Ret () | Some w \<Rightarrow> co_seq (fallback_stage (hub_deps H) jid p)
        (co_bind (package_stage (hub_deps H) jid p) (\<lambda>pkg. co_bind (dispatch_stage W (hub_deps H) jid w p g pkg)
          (\<lambda>r. case r of None \<Rightarrow> Ret () | Some r \<Rightarrow> finish_stage W (hub_deps H) jid w p g r)))) u1"
  proof (cases ready)
    case (Some w)
    have "run E (dispatch_stage W (guarded_deps H x) jid w p g pkg) u3 = run E (dispatch_stage W (hub_deps H) jid w p g pkg) u3"
      if "run E (package_stage (hub_deps H) jid p) u2 = Some (Inr pkg, u3)" for pkg u2 u3
    proof -
      obtain pid h prompt where pkg: "pkg = (pid, h, prompt)" by (metis prod_cases3)
      have "pl_routing p = Some ''local'' \<or> redacted_input H (j_raw_input (job_of u3 jid)) prompt"
        using assms package_stage_redacts [OF that [unfolded pkg]] by blast
      from guarded_dispatch [OF this] show ?thesis unfolding pkg .
    qed
    then show ?thesis
      unfolding Some option.case co_seq_def
      by (intro run_bind_cong) (simp add: run_bind [where c = "dispatch_stage W' P' jid' w' p' g' pkg'" for W' P' jid' w' p' g' pkg'])
  qed simp
qed

text \<open>
  C3: Nothing but the packaged text leaves for the cloud. A run of the pipeline, of a job whose stored routing
  is \<open>local\<close> or \<open>cloud\<close>, goes exactly as it would if the gateway client refused, with any exception at all, every
  prompt that is not what the packager made of the job's input: the client is never asked to send anything
  else, and without a packager nothing.
\<close>

theorem cloud_prompt_redacted:
  assumes "routed (job_of s jid)"
  shows "run E (run_pipeline W (guarded_deps H x) jid) s = run E (run_pipeline W (hub_deps H) jid) s"
proof (cases "map_of (jobs s) jid = None")
  case True
  then show ?thesis by (simp add: run_pipeline_def)
next
  case False
  have "run E (co_bind (classify_stage W (guarded_deps H x) jid) (\<lambda>p. co_bind (circuit_gate W (guarded_deps H x) jid p) (\<lambda>ok.
        if \<not> ok then Ret () else co_bind (permission_stage W (guarded_deps H x) jid p) (\<lambda>g.
          case g of None \<Rightarrow> Ret () | Some g \<Rightarrow> granted_stage W (guarded_deps H x) jid p g)))) s =
      run E (co_bind (classify_stage W (hub_deps H) jid) (\<lambda>p. co_bind (circuit_gate W (hub_deps H) jid p) (\<lambda>ok.
        if \<not> ok then Ret () else co_bind (permission_stage W (hub_deps H) jid p) (\<lambda>g.
          case g of None \<Rightarrow> Ret () | Some g \<Rightarrow> granted_stage W (hub_deps H) jid p g)))) s"
    unfolding guarded_stages
  proof (rule run_bind_cong)
    fix p t
    assume "run E (classify_stage W (hub_deps H) jid) s = Some (Inr p, t)"
    from classify_stage_routing [OF this assms] have routing: "pl_routing p \<in> {Some ''local'', Some ''cloud''}" .
    show "run E (co_bind (circuit_gate W (hub_deps H) jid p) (\<lambda>ok. if \<not> ok then Ret ()
          else co_bind (permission_stage W (hub_deps H) jid p) (\<lambda>g. case g of None \<Rightarrow> Ret () | Some g \<Rightarrow> granted_stage W (guarded_deps H x) jid p g))) t =
        run E (co_bind (circuit_gate W (hub_deps H) jid p) (\<lambda>ok. if \<not> ok then Ret ()
          else co_bind (permission_stage W (hub_deps H) jid p) (\<lambda>g. case g of None \<Rightarrow> Ret () | Some g \<Rightarrow> granted_stage W (hub_deps H) jid p g))) t"
      by (intro run_bind_cong) (auto intro!: run_bind_cong guarded_granted [OF routing] split: option.split)
  qed
  then show ?thesis using False unfolding run_pipeline_def run.simps by (simp only: if_False)
qed

section \<open>A refusal that counts as an answer\<close>

text \<open>
  C39: The job manager takes a refusal for an answer. When the gateway turns the hub's token down, or has none
  configured, its 401 has no \<open>status\<close>, and the pipeline goes on with an empty response at no cost as if the
  model had said nothing: the job is not failed.
\<close>

theorem refusal_taken_for_answer:
  assumes "hb_gateway H (ticks s) = Inr G" and "gw_token G = [] \<or> presented_token (Some (''Bearer '' @ hb_token H)) \<noteq> gw_token G"
  shows "\<exists>r t. run E (execute_cloud W (hub_deps H) jid w p m prompt phash ref) s = Some (Inr (Some r), t) \<and>
    an_text (rs_answer r) = [] \<and> rs_cost r = 0 \<and> rs_finish r = ''stop'' \<and> jobs t = jobs s"
proof -
  have "receive_dispatch clk (Some (''Bearer '' @ hb_token H)) req G = (Unauthorized, G)" for clk req
    using assms(2) by (auto simp: receive_dispatch_def dispatch_authority_def Let_def)
  then have "gateway_answers H (ticks s) req = Inr empty_reply" for req
    using assms(1) by (simp add: gateway_answers_def)
  then show ?thesis
    by (simp add: execute_cloud_def hub_deps_def hub_dispatch_def run_bind empty_reply_def)
qed

section \<open>A concrete hub\<close>

text \<open>Two capabilities, one that runs in the sandbox and one in the cloud; every part answers.\<close>

definition sample_local :: capability where
  "sample_local = sample_cloud\<lparr>cap_name := ''Local'', action_policies := [(''0'', Some [(''dispatch_local'', gate ''none'' None)])]\<rparr>"

definition hub_registry :: registry where
  "hub_registry = [(''route.local'', sample_local), (''route.cloud.claude'', sample_cloud)]"

definition sample_upstream :: json where
  "sample_upstream = JObj [(''content'', JArr [JObj [(''text'', JStr ''cloudy'')]]),
    (''usage'', JObj [(''input_tokens'', JInt 5), (''output_tokens'', JInt 2)])]"

definition sample_route :: gw_route where
  "sample_route = \<lparr>gr_id = ''claude-sonnet-default'', gr_provider = ''anthropic'', gr_endpoint = ''https://x'', gr_model_string = ''claude-*'',
     gr_capabilities = [''route.cloud.claude''], gr_auth = ''none'', gr_secret_ref = None, gr_rpm = 9, gr_timeout_ms = 90000,
     gr_enabled = True\<rparr>"

definition sample_hub :: "string \<Rightarrow> string \<Rightarrow> wiring" where
  "sample_hub routing m =
    \<lparr>hb_reply = (\<lambda>_ _. Some (JStr [])),
     hb_loads = (\<lambda>_. Some (JObj [(''category'', JStr ''quick_lookup''), (''recommended_model'', JStr m), (''routing'', JStr routing)])),
     hb_float = (\<lambda>_. None), hb_generate = (\<lambda>_ _. Inl RuntimeError),
     hb_monitor = (\<lambda>_. new_monitor True [''claude-sonnet-default''] (Some []) []), hb_registry = hub_registry,
     hb_lifecycle = sample_lifecycle\<lparr>lc_registry := hub_registry, lc_validator := (lc_validator sample_lifecycle)\<lparr>v_registry := hub_registry\<rparr>\<rparr>,
     hb_drawn = (\<lambda>n. sample_drawn\<lparr>dw_worker_id := replicate n CHR ''k''\<rparr>),
     hb_sandbox = (\<lambda>n ctx prompt m. case agent_outside sample_agent sample_docker None sample_proxy
         (Task (task_payload ctx ''text_generation'' prompt m)) sample_outside of Some O1 \<Rightarrow> O1 | None \<Rightarrow> sample_outside),
     hb_config = Some sample_sensitivity, hb_sha256 = id, hb_dumps = (\<lambda>_. []), hb_store_ok = (\<lambda>_. True),
     hb_package_ids = (\<lambda>_. (''p'', ''f'', ''t'')), hb_token = ''tok'',
     hb_gateway = (\<lambda>_. Inr (sample_gateway\<lparr>gw_routes := load_routes [sample_route]\<rparr>)), hb_gateway_clock = int,
     hb_upstream = (\<lambda>_ _. Answered 200 (Some sample_upstream)), hb_result_id = (\<lambda>_. ''r1''), hb_latency = (\<lambda>_. 7),
     hb_detail = (\<lambda>_. []), hb_clock = int, hb_processing = (\<lambda>_. True), hb_exc_text = (\<lambda>_. [])\<rparr>"

definition hub_start :: jobs_state where
  "hub_start = (put_job (new_job ''j1'' ''at 31543-6789 go'' ''text'' ''phone'' 0) (empty_jobs None))
    \<lparr>caps := initialize_from_registry 0 hub_registry, queue := [''j1'']\<rparr>"

theorem cloud_prompt_redacted_witness:
  "run good_env (run_pipeline (task_world 0) (guarded_deps (sample_hub ''cloud'' ''claude'') RuntimeError) ''j1'') hub_start =
     run good_env (run_pipeline (task_world 0) (hub_deps (sample_hub ''cloud'' ''claude'')) ''j1'') hub_start \<and>
   redacted_input (sample_hub ''cloud'' ''claude'') ''at 31543-6789 go'' ''at [REDACTED:financial]89 go'' \<and>
   \<not> redacted_input (sample_hub ''cloud'' ''claude'') ''at 31543-6789 go'' ''at 31543-6789 go''"
proof -
  have "routed (job_of hub_start ''j1'')"
    by (simp add: routed_def hub_start_def job_of_def put_job_def empty_jobs_def new_job_def)
  note same = cloud_prompt_redacted [OF this]
  have "redaction sample_sensitivity ''at 31543-6789 go'' = Some ''at [REDACTED:financial]89 go''" by code_simp
  then show ?thesis by (simp add: same redacted_input_def sample_hub_def)
qed

definition no_token_hub :: wiring where
  "no_token_hub = (sample_hub ''cloud'' ''claude'')\<lparr>hb_gateway := (\<lambda>_. Inr (sample_gateway\<lparr>gw_token := []\<rparr>))\<rparr>"

theorem refusal_taken_for_answer_witness:
  "\<exists>r t. run good_env (execute_cloud (task_world 0) (hub_deps no_token_hub) ''j1'' None
     \<lparr>pl_routing = Some ''cloud'', pl_models = Some [''m''], pl_capability = ''c'', pl_route = ''r''\<rparr> ''m'' ''hi'' ''h'' ''e'') hub_start
     = Some (Inr (Some r), t) \<and> an_text (rs_answer r) = []"
proof -
  have "hb_gateway no_token_hub (ticks hub_start) = Inr (sample_gateway\<lparr>gw_token := []\<rparr>)" by (simp add: no_token_hub_def)
  from refusal_taken_for_answer [OF this] show ?thesis by fastforce
qed

end
