(* ===== verification/Hub_Jobs.thy ===== *)
theory Hub_Jobs
  imports Hub_Services
begin

text \<open>
  What one iteration of the hub's worker loop does to a job and its worker: the job is settled, the worker
  is gone. The rules are those of a total Hoare logic over \<open>run\<close>; calls that leave the workers alone are
  framed by the bound on their steps.
\<close>

section \<open>Running to an end\<close>

definition ends :: "env \<Rightarrow> (jobs_state \<Rightarrow> bool) \<Rightarrow> 'a task \<Rightarrow> (py_exc + 'a \<Rightarrow> jobs_state \<Rightarrow> bool) \<Rightarrow> bool" where
  "ends E P c Q \<longleftrightarrow> (\<forall>s. P s \<longrightarrow> (\<exists>r t. run E c s = Some (r, t) \<and> Q r t))"

lemma ends_Ret: "(\<And>s. P s \<Longrightarrow> Q (Inr a) s) \<Longrightarrow> ends E P (Ret a) Q"
  by (simp add: ends_def)

lemma ends_Exc: "(\<And>s. P s \<Longrightarrow> Q (Inl x) s) \<Longrightarrow> ends E P (Exc x) Q"
  by (simp add: ends_def)

lemma ends_bind:
  assumes "ends E P c R" and "\<And>v. ends E (R (Inr v)) (f v) Q" and "\<And>x s. R (Inl x) s \<Longrightarrow> Q (Inl x) s"
  shows "ends E P (co_bind c f) Q"
  unfolding ends_def
proof (intro allI impI)
  fix s
  assume "P s"
  then obtain r t where r: "run E c s = Some (r, t)" "R r t" using assms(1) unfolding ends_def by blast
  show "\<exists>r t. run E (co_bind c f) s = Some (r, t) \<and> Q r t"
  proof (cases r)
    case (Inl x)
    then show ?thesis using r assms(3) by (simp add: run_bind)
  next
    case (Inr v)
    then show ?thesis using r assms(2) [of v] by (auto simp: run_bind ends_def)
  qed
qed

lemma ends_seq:
  assumes "ends E P c R" and "ends E (R (Inr ())) d Q" and "\<And>x s. R (Inl x) s \<Longrightarrow> Q (Inl x) s"
  shows "ends E P (co_seq c d) Q"
  unfolding co_seq_def using assms by (intro ends_bind [of E P c R]) auto

lemma ends_catch:
  assumes "ends E P c R" and "\<And>x. ends E (R (Inl x)) (h x) Q" and "\<And>v s. R (Inr v) s \<Longrightarrow> Q (Inr v) s"
  shows "ends E P (co_catch c h) Q"
  unfolding ends_def
proof (intro allI impI)
  fix s
  assume "P s"
  then obtain r t where r: "run E c s = Some (r, t)" "R r t" using assms(1) unfolding ends_def by blast
  show "\<exists>r t. run E (co_catch c h) s = Some (r, t) \<and> Q r t"
  proof (cases r)
    case (Inl x)
    then show ?thesis using r assms(2) [of x] by (auto simp: run_catch ends_def)
  next
    case (Inr v)
    then show ?thesis using r assms(3) by (simp add: run_catch)
  qed
qed

lemma ends_pre: "ends E P c Q \<Longrightarrow> (\<And>s. P' s \<Longrightarrow> P s) \<Longrightarrow> ends E P' c Q"
  unfolding ends_def by blast

lemma ends_post: "ends E P c Q \<Longrightarrow> (\<And>r s. Q r s \<Longrightarrow> Q' r s) \<Longrightarrow> ends E P c Q'"
  unfolding ends_def by blast

text \<open>Tasks that never wait in vain: every condition they wait for is \<open>True\<close>.\<close>

definition finishes :: "'a task \<Rightarrow> bool" where
  "finishes c \<longleftrightarrow> (\<forall>E s. run E c s \<noteq> None)"

named_theorems finishes_rules

lemma finishes_basic [finishes_rules]: "finishes (Ret a)" "finishes (Exc x)"
  by (simp_all add: finishes_def)

lemma finishes_bind [finishes_rules]: "finishes c \<Longrightarrow> (\<And>v. finishes (f v)) \<Longrightarrow> finishes (co_bind c f)"
  by (auto simp: finishes_def run_bind split: option.splits sum.splits)

lemma finishes_seq [finishes_rules]: "finishes c \<Longrightarrow> finishes d \<Longrightarrow> finishes (co_seq c d)"
  unfolding co_seq_def by (rule finishes_bind)

lemma finishes_catch [finishes_rules]: "finishes c \<Longrightarrow> (\<And>x. finishes (h x)) \<Longrightarrow> finishes (co_catch c h)"
  by (auto simp: finishes_def run_catch split: option.splits sum.splits)

lemma finishes_if [finishes_rules]: "finishes c \<Longrightarrow> finishes d \<Longrightarrow> finishes (if b then c else d)"
  by simp

lemma finishes_option [finishes_rules]:
  "(v = None \<Longrightarrow> finishes c) \<Longrightarrow> (\<And>x. v = Some x \<Longrightarrow> finishes (d x)) \<Longrightarrow> finishes (case v of None \<Rightarrow> c | Some x \<Rightarrow> d x)"
  by (cases v) simp_all

lemma finishes_sum [finishes_rules]:
  "(\<And>x. v = Inl x \<Longrightarrow> finishes (c x)) \<Longrightarrow> (\<And>x. v = Inr x \<Longrightarrow> finishes (d x)) \<Longrightarrow> finishes (case v of Inl x \<Rightarrow> c x | Inr x \<Rightarrow> d x)"
  by (cases v) simp_all

lemma finishes_pair [finishes_rules]: "(\<And>x y. finishes (f x y)) \<Longrightarrow> finishes (case v of (x, y) \<Rightarrow> f x y)"
  by (cases v) simp

lemma finishes_Get: "(\<And>s. finishes (k s)) \<Longrightarrow> finishes (Get k)"
  by (simp add: finishes_def)

lemma finishes_with_job [finishes_rules]: "(\<And>j. finishes (f j)) \<Longrightarrow> finishes (with_job jid f)"
  unfolding with_job_def by (rule finishes_Get)

lemma finishes_Wait: "finishes c \<Longrightarrow> finishes (Wait (\<lambda>_. True) c)"
  by (simp add: finishes_def)

lemma finishes_shared [finishes_rules]:
  "finishes draw" "finishes (uuid7 W)" "finishes (now W)" "finishes (persist_job W jid)" "finishes (set_job jid f)"
  "finishes (write_result rid t)" "finishes (modify g)" "finishes (log_event b)" "finishes (emit_c b)"
  by (auto simp: finishes_def run_logged run_emit_c split: prod.splits sum.splits)

lemma finishes_mark_failed [finishes_rules]: "finishes (mark_failed W jid e f)"
  unfolding mark_failed_def by (intro finishes_rules)

lemma finishes_first_model [finishes_rules]: "finishes (first_model p)"
  unfolding first_model_def by (intro finishes_rules) (simp add: finishes_rules split: list.split)

lemma hub_finishes [finishes_rules]:
  "finishes (hub_classify H raw)" "finishes (hub_route_available H rid)" "finishes (hub_prepare H jid)" "finishes (hub_teardown H ctx)"
  "finishes (hub_package H C jid raw m rid cap)" "finishes (hub_execute H ctx raw m)" "finishes (hub_generate H raw)"
  "finishes (hub_dispatch H jid rid cap m raw phash ref)"
proof -
  have prepare: "finishes (prepare_worker_c L F job_id cid)" for L F job_id cid
    by (simp add: finishes_def run_prepare_worker)
  have teardown: "finishes (teardown_worker_c clk ctx)" for clk
    by (simp add: finishes_def run_teardown_worker)
  have execute: "finishes (execute_in_worker_c L O0 ctx tt)" for L O0 tt
    by (simp add: finishes_def run_execute_in_worker)
  have package: "finishes (package_context_c sha dumps ok C' cid fid w q)" for sha dumps ok C' cid fid w q
    by (simp add: finishes_def run_package_context)
  show "finishes (hub_classify H raw)" "finishes (hub_route_available H rid)" "finishes (hub_prepare H jid)" "finishes (hub_teardown H ctx)"
    "finishes (hub_package H C jid raw m rid cap)" "finishes (hub_execute H ctx raw m)" "finishes (hub_generate H raw)"
    "finishes (hub_dispatch H jid rid cap m raw phash ref)"
    unfolding hub_classify_def hub_route_available_def hub_prepare_def hub_teardown_def hub_package_def hub_execute_def
      hub_generate_def hub_dispatch_def
    by (intro finishes_rules finishes_Wait prepare teardown execute package)+
qed

lemma ends_framed:
  assumes "steps_in G c" and "preorder_rel G" and "finishes c" and "\<And>s t. G s t \<Longrightarrow> P s \<Longrightarrow> P t"
  shows "ends E P c (\<lambda>r. P)"
  unfolding ends_def
proof (intro allI impI)
  fix s
  assume "P s"
  moreover obtain r t where "run E c s = Some (r, t)" using assms(3) unfolding finishes_def by (metis not_None_eq surj_pair)
  ultimately show "\<exists>r t. run E c s = Some (r, t) \<and> P t"
    using steps_run [OF assms(1,2)] assms(4) by blast
qed

section \<open>What the calls leave alone\<close>

definition still_step :: "jobs_state \<Rightarrow> jobs_state \<Rightarrow> bool" where
  "still_step s t \<longleftrightarrow> jobs t = jobs s \<and> wk_contexts t = wk_contexts s \<and> contexts t = contexts s \<and> ticks s \<le> ticks t"

definition frame_step :: "jobs_state \<Rightarrow> jobs_state \<Rightarrow> bool" where
  "frame_step s t \<longleftrightarrow> dom (map_of (jobs s)) \<subseteq> dom (map_of (jobs t)) \<and> wk_contexts t = wk_contexts s \<and> contexts t = contexts s \<and>
    ticks s \<le> ticks t"

lemma still_step_preorder: "preorder_rel still_step"
  unfolding preorder_rel_def still_step_def by auto

lemma frame_step_preorder: "preorder_rel frame_step"
  unfolding preorder_rel_def frame_step_def by auto

lemma still_frame: "still_step s t \<Longrightarrow> frame_step s t"
  by (simp add: still_step_def frame_step_def)

lemma still_shared [steps_rules]:
  "steps_in still_step draw" "steps_in still_step (uuid7 W)" "steps_in still_step (now W)" "steps_in still_step (persist_job W jid)"
  "steps_in still_step (write_result rid txt)" "steps_in still_step (emit_c b)" "steps_in still_step (log_event b)"
proof -
  show e: "steps_in still_step (emit_c b)" for b by (rule steps_emit_c) (simp add: still_step_def)
  show d: "steps_in still_step draw" by (simp add: steps_in_def draw_def still_step_def)
  show "steps_in still_step (uuid7 W)" "steps_in still_step (now W)" "steps_in still_step (log_event b)"
    unfolding uuid7_def now_def log_event_def by (intro steps_rules e d)+
  show "steps_in still_step (persist_job W jid)" "steps_in still_step (write_result rid txt)"
    unfolding persist_job_def write_result_def by (intro steps_rules d steps_modify; simp add: still_step_def persist_in_def)+
qed

lemma still_services [steps_rules]:
  "steps_in still_step (hub_classify H raw)" "steps_in still_step (hub_route_available H rid)"
  "steps_in still_step (hub_package H C jid raw m rid cap)" "steps_in still_step (hub_execute H ctx raw m)"
  "steps_in still_step (hub_generate H raw)" "steps_in still_step (hub_dispatch H jid rid cap m raw phash ref)"
proof -
  have each: "steps_in still_step (co_each (\<lambda>x. log_event (b x)) xs)" for b :: "span \<Rightarrow> stamp \<Rightarrow> event" and xs
    by (induction xs) (auto intro: steps_rules)
  have package: "steps_in still_step (package_context_c sha dumps ok C cid fid w q)" for sha dumps ok cid fid w q
    unfolding package_context_c_def Let_def by (intro steps_rules each steps_modify) (simp add: still_step_def)
  have failed: "steps_in still_step (task_failed_c O0 ctx x)" for O0 x
    by (cases x) (auto simp: task_failed_c_def intro: steps_rules)
  have execute: "steps_in still_step (execute_in_worker_c L O0 ctx tt)" for L O0 tt
    unfolding execute_in_worker_c_def run_task_c_def by (intro steps_rules steps_Wait failed)
  show "steps_in still_step (hub_classify H raw)" "steps_in still_step (hub_route_available H rid)"
    "steps_in still_step (hub_package H C jid raw m rid cap)" "steps_in still_step (hub_execute H ctx raw m)"
    "steps_in still_step (hub_generate H raw)" "steps_in still_step (hub_dispatch H jid rid cap m raw phash ref)"
    unfolding hub_classify_def hub_route_available_def hub_package_def hub_execute_def hub_generate_def hub_dispatch_def
    by (intro steps_rules steps_Wait package execute)+
qed

lemma frame_set_job [steps_rules]: "steps_in frame_step (set_job jid f)"
  unfolding set_job_def by (rule steps_modify) (auto simp: frame_step_def map_of_dict_modify)

lemma frame_still: "steps_in still_step c \<Longrightarrow> steps_in frame_step c"
  using steps_weaken still_frame by blast

lemmas frame_shared [steps_rules] = still_shared [THEN frame_still] still_services [THEN frame_still]

lemma steps_first_model [steps_rules]: "steps_in G (first_model p)"
  unfolding first_model_def by (intro steps_rules) (simp add: steps_rules split: list.split)

section \<open>A job and its worker\<close>

text \<open>
  The job's worker since the state \<open>s0\<close> in which its iteration began: none yet, one, or one that came and
  went with the job settled. What is said of the workers holds when every durable record is written.
\<close>

definition settled :: "string \<Rightarrow> jobs_state \<Rightarrow> bool" where
  "settled jid s \<longleftrightarrow> (\<exists>j. map_of (jobs s) jid = Some j \<and> j_status j \<in> {Delivered, Proposal_ready, Failed})"

definition unheld :: "env \<Rightarrow> string \<Rightarrow> jobs_state \<Rightarrow> jobs_state \<Rightarrow> bool" where
  "unheld E jid s0 s \<longleftrightarrow> map_of (jobs s) jid \<noteq> None \<and> ticks s0 \<le> ticks s \<and>
    (writes_all E \<longrightarrow> wk_contexts s = wk_contexts s0 \<and> contexts s = contexts s0)"

definition held :: "env \<Rightarrow> string \<Rightarrow> jobs_state \<Rightarrow> worker_context \<Rightarrow> jobs_state \<Rightarrow> bool" where
  "held E jid s0 ctx s \<longleftrightarrow> map_of (jobs s) jid \<noteq> None \<and>
    (writes_all E \<longrightarrow>
      jid \<notin> fst ` set (contexts s0) \<and> wc_worker_id ctx \<notin> fst ` set (wk_contexts s0) \<and>
      (\<exists>v w. wk_contexts s = AList.update (wc_worker_id ctx) v (wk_contexts s0) \<and>
        contexts s = AList.update jid w (contexts s0) \<and> wc_worker_id w = wc_worker_id ctx))"

definition over :: "env \<Rightarrow> string \<Rightarrow> jobs_state \<Rightarrow> jobs_state \<Rightarrow> bool" where
  "over E jid s0 s \<longleftrightarrow> settled jid s \<and> (writes_all E \<longrightarrow> wk_contexts s = wk_contexts s0 \<and> contexts s = contexts s0)"

definition undone :: "env \<Rightarrow> string \<Rightarrow> jobs_state \<Rightarrow> jobs_state \<Rightarrow> bool" where
  "undone E jid s0 s \<longleftrightarrow> unheld E jid s0 s \<or> (\<exists>ctx. held E jid s0 ctx s)"

abbreviation ended :: "env \<Rightarrow> string \<Rightarrow> jobs_state \<Rightarrow> py_exc + 'a \<Rightarrow> jobs_state \<Rightarrow> bool" where
  "ended E jid s0 r s \<equiv> (case r of Inr v \<Rightarrow> over E jid s0 s | Inl x \<Rightarrow> undone E jid s0 s)"

lemma frame_present: "frame_step s t \<Longrightarrow> map_of (jobs s) jid \<noteq> None \<Longrightarrow> map_of (jobs t) jid \<noteq> None"
  unfolding frame_step_def by blast

lemma frame_unheld: "frame_step s t \<Longrightarrow> unheld E jid s0 s \<Longrightarrow> unheld E jid s0 t"
  using frame_present [of s t jid] by (simp add: frame_step_def unheld_def)

lemma frame_held: "frame_step s t \<Longrightarrow> held E jid s0 ctx s \<Longrightarrow> held E jid s0 ctx t"
  using frame_present [of s t jid] by (simp add: frame_step_def held_def)

lemma still_settled: "still_step s t \<Longrightarrow> settled jid s \<Longrightarrow> settled jid t"
  by (simp add: still_step_def settled_def)

lemma still_over: "still_step s t \<Longrightarrow> over E jid s0 s \<Longrightarrow> over E jid s0 t"
  by (simp add: still_step_def settled_def over_def)

lemmas ends_frame_unheld = ends_framed [OF _ frame_step_preorder _ frame_unheld]
lemmas ends_frame_held = ends_framed [OF _ frame_step_preorder _ frame_held]

lemma ends_still:
  assumes "steps_in still_step c" and "finishes c" and "\<And>s t. still_step s t \<Longrightarrow> P s \<Longrightarrow> P t"
  shows "ends E P c (\<lambda>r. P)"
  by (rule ends_framed [OF assms(1) still_step_preorder assms(2,3)])

text \<open>A change that settles the job.\<close>

lemma ends_set_settled:
  assumes "\<And>j. j_status (f j) \<in> {Delivered, Proposal_ready, Failed}"
  shows "ends E (unheld E jid s0) (set_job jid f) (\<lambda>r s. over E jid s0 s)"
    and "ends E (held E jid s0 ctx) (set_job jid f) (\<lambda>r s. held E jid s0 ctx s \<and> settled jid s)"
  using assms by (auto simp: ends_def unheld_def held_def over_def settled_def map_of_dict_modify)

lemma ends_mark_failed:
  "ends E (unheld E jid s0) (mark_failed W jid e f) (\<lambda>r. over E jid s0)"
  "ends E (held E jid s0 ctx) (mark_failed W jid e f) (\<lambda>r s. held E jid s0 ctx s \<and> settled jid s)"
  unfolding mark_failed_def
  by (rule ends_seq [OF ends_set_settled(1) ends_still], simp, intro steps_rules, intro finishes_rules, erule (1) still_over, assumption)
    (rule ends_seq [OF ends_set_settled(2) ends_still], simp, intro steps_rules, intro finishes_rules,
      blast intro: still_settled frame_held [OF still_frame], assumption)

section \<open>Preparation and teardown\<close>

lemma persist_in_workers [simp]: "wk_contexts (persist_in up jid s) = wk_contexts s"
  by (simp add: persist_in_def)

text \<open>Worker ids are fresh: those drawn from now on are of no active worker.\<close>

definition fresh_workers :: "wiring \<Rightarrow> jobs_state \<Rightarrow> bool" where
  "fresh_workers H s0 \<longleftrightarrow> (\<forall>n \<ge> ticks s0. dw_worker_id (hb_drawn H n) \<notin> fst ` set (wk_contexts s0))"

lemma hub_prepare_effect:
  assumes "fresh_workers H s0" and "unheld E jid s0 s" and "run E (hub_prepare H jid) s = Some (r, t)"
  shows "jobs t = jobs s" "contexts t = contexts s" "ticks s \<le> ticks t"
    and "isl r \<Longrightarrow> writes_all E \<Longrightarrow> wk_contexts t = wk_contexts s"
    and "r = Inr ctx \<Longrightarrow> writes_all E \<Longrightarrow> wk_contexts t = AList.update (wc_worker_id ctx) ctx (wk_contexts s0) \<and>
      wc_worker_id ctx \<notin> fst ` set (wk_contexts s0)"
proof -
  let ?s = "s\<lparr>ticks := Suc (ticks s)\<rparr>"
  obtain cid where p: "prepare_worker E (live (hb_lifecycle H) (caps s)) (hb_drawn H (ticks s)) jid cid ?s = (r, t)"
    using assms(3) by (auto simp: hub_prepare_def run_bind run_prepare_worker)
  show "jobs t = jobs s" "contexts t = contexts s" "ticks s \<le> ticks t"
    using steps_run [OF services_of_hub(3) service_step_preorder assms(3)] by (simp_all add: service_step_def)
  show "wk_contexts t = wk_contexts s" if "isl r" "writes_all E"
    using prepare_worker_Inl [OF that(2)] p that(1) by (cases r) fastforce+
  show "wk_contexts t = AList.update (wc_worker_id ctx) ctx (wk_contexts s0) \<and> wc_worker_id ctx \<notin> fst ` set (wk_contexts s0)"
    if "r = Inr ctx" "writes_all E"
  proof -
    have "wc_worker_id ctx = dw_worker_id (hb_drawn H (ticks s))" "wk_contexts t = AList.update (wc_worker_id ctx) ctx (wk_contexts s)"
      using p that(1) by (auto elim!: prepare_worker_Inr simp: new_context_def activate_def)
    then show ?thesis using assms(1,2) that(2) by (auto simp: fresh_workers_def unheld_def)
  qed
qed

lemma ends_prepare_stage:
  assumes "fresh_workers H s0" and "jid \<notin> fst ` set (contexts s0)"
  shows "ends E (unheld E jid s0) (prepare_stage W (hub_deps H) jid)
    (\<lambda>r s. case r of Inr (Some (Some ctx)) \<Rightarrow> held E jid s0 ctx s | Inr None \<Rightarrow> over E jid s0 s | _ \<Rightarrow> False)"
proof -
  let ?Q = "\<lambda>r s. case r of Inr (Some (Some ctx)) \<Rightarrow> held E jid s0 ctx s | Inl x \<Rightarrow> unheld E jid s0 s | _ \<Rightarrow> False"
  have body: "ends E (unheld E jid s0) (co_bind (hub_prepare H jid) (\<lambda>ctx.
      let ctx = ctx\<lparr>wc_status := ''active''\<rparr> in co_seq (set_context jid ctx) (Ret (Some (Some ctx))))) ?Q"
    unfolding ends_def
  proof (intro allI impI)
    fix s
    assume s: "unheld E jid s0 s"
    obtain r t where run: "run E (hub_prepare H jid) s = Some (r, t)"
      using hub_finishes(3) [of H jid] unfolding finishes_def by (metis not_None_eq surj_pair)
    note e = hub_prepare_effect [OF assms(1) s run]
    show "\<exists>r t. run E (co_bind (hub_prepare H jid) (\<lambda>ctx.
      let ctx = ctx\<lparr>wc_status := ''active''\<rparr> in co_seq (set_context jid ctx) (Ret (Some (Some ctx))))) s = Some (r, t) \<and> ?Q r t"
    proof (cases r)
      case (Inl x)
      then have "unheld E jid s0 t" using s e(1-4) by (auto simp: unheld_def)
      then show ?thesis using run Inl by (simp add: run_bind)
    next
      case (Inr ctx)
      let ?ctx = "ctx\<lparr>wc_status := ''active''\<rparr>"
      have "held E jid s0 ?ctx (t\<lparr>contexts := AList.update jid ?ctx (contexts t)\<rparr>)"
        using s e(1,2) e(5) [OF Inr] assms(2) by (auto simp: unheld_def held_def)
      then show ?thesis using run Inr by (simp add: run_bind set_context_def run_modify_seq Let_def)
    qed
  qed
  have "ends E (unheld E jid s0) (co_seq (mark_failed W jid ''worker_preparation_failed'' id) (Ret None))
      (\<lambda>r s. case r of Inr (Some (Some ctx)) \<Rightarrow> held E jid s0 ctx s | Inr None \<Rightarrow> over E jid s0 s | _ \<Rightarrow> False)"
    unfolding mark_failed_def ends_def by (auto simp: run_seq unheld_def over_def settled_def map_of_dict_modify)
  with body show ?thesis
    unfolding prepare_stage_def
    by (simp add: hub_deps_def) (rule ends_catch, assumption, simp, auto split: option.splits)
qed

lemma ends_end_worker:
  assumes "wc_worker_id ctx' = wc_worker_id ctx"
  shows "ends E (\<lambda>s. held E jid s0 ctx s \<and> settled jid s) (end_worker (hub_deps H) jid (Some ctx')) (ended E jid s0)"
  unfolding ends_def
proof (intro allI impI)
  fix s
  assume s: "held E jid s0 ctx s \<and> settled jid s"
  let ?s = "s\<lparr>ticks := Suc (ticks s)\<rparr>"
  obtain r t where td: "teardown_worker E (hb_clock H (ticks s)) ctx' ?s = (r, t)" by fastforce
  then have run: "run E (end_worker (hub_deps H) jid (Some ctx')) s = (case r of Inl x \<Rightarrow> Some (Inl x, t)
      | Inr d \<Rightarrow> Some (Inr (), t\<lparr>contexts := AList.delete jid (contexts t)\<rparr>))"
    by (simp add: end_worker_def hub_deps_def run_seq hub_teardown_def run_bind run_teardown_worker split: sum.split)
  have same: "jobs t = jobs s" "contexts t = contexts s"
    using td by (auto simp: teardown_worker_def Let_def bind_r_def emit_def split: sum.splits)
  show "\<exists>r t. run E (end_worker (hub_deps H) jid (Some ctx')) s = Some (r, t) \<and> ended E jid s0 r t"
  proof (cases "writes_all E")
    case True
    then have "\<exists>d. r = Inr d" "wk_contexts t = AList.delete (wc_worker_id ctx) (wk_contexts s)"
      using td assms by (auto simp: teardown_worker_def Let_def emit_writes)
    then show ?thesis using run s same True by (auto simp: held_def over_def settled_def delete_fresh)
  next
    case False
    then show ?thesis using run s same by (cases r) (auto simp: held_def over_def settled_def undone_def)
  qed
qed

section \<open>The stages\<close>

definition framed :: "(jobs_state \<Rightarrow> bool) \<Rightarrow> bool" where
  "framed P \<longleftrightarrow> (\<forall>s t. frame_step s t \<longrightarrow> P s \<longrightarrow> P t)"

lemma framed_job: "framed (unheld E jid s0)" "framed (held E jid s0 ctx)"
  unfolding framed_def using frame_unheld frame_held by blast+

lemma framed_bind:
  assumes "framed P" and "steps_in frame_step c" and "finishes c" and "\<And>v. ends E P (f v) Q" and "\<And>x s. P s \<Longrightarrow> Q (Inl x) s"
  shows "ends E P (co_bind c f) Q"
proof (rule ends_bind)
  show "ends E P c (\<lambda>r. P)"
    by (rule ends_framed [OF assms(2) frame_step_preorder assms(3)]) (use assms(1) in \<open>unfold framed_def, blast\<close>)
qed (use assms(4,5) in blast)+

lemma framed_seq:
  "framed P \<Longrightarrow> steps_in frame_step c \<Longrightarrow> finishes c \<Longrightarrow> ends E P d Q \<Longrightarrow> (\<And>x s. P s \<Longrightarrow> Q (Inl x) s) \<Longrightarrow> ends E P (co_seq c d) Q"
  unfolding co_seq_def by (rule framed_bind)

lemma ends_if: "(b \<Longrightarrow> ends E P c Q) \<Longrightarrow> (\<not> b \<Longrightarrow> ends E P d Q) \<Longrightarrow> ends E P (if b then c else d) Q"
  by simp

lemma ends_option:
  "(v = None \<Longrightarrow> ends E P c Q) \<Longrightarrow> (\<And>x. v = Some x \<Longrightarrow> ends E P (d x) Q) \<Longrightarrow> ends E P (case v of None \<Rightarrow> c | Some x \<Rightarrow> d x) Q"
  by (cases v) simp_all

lemma hub_fields:
  "classify_c (hub_deps H) = hub_classify H" "route_available (hub_deps H) = Some (hub_route_available H)"
  "checker (hub_deps H) = Some (hb_registry H)" "egress_routes (hub_deps H) = None"
  "package_c (hub_deps H) = map_option (hub_package H) (hb_config H)"
  "execute_c (hub_deps H) = (if lc_has_executor (hb_lifecycle H) then Some (hub_execute H) else None)"
  "generate_c (hub_deps H) = hub_generate H" "dispatch_c (hub_deps H) = hub_dispatch H"
  "teardown (hub_deps H) = Some (hub_teardown H)" "processing_allowed (hub_deps H) = hb_processing H"
  by (simp_all add: hub_deps_def)

lemma classify_framed: "steps_in frame_step (classify_stage W (hub_deps H) jid)" "finishes (classify_stage W (hub_deps H) jid)"
proof -
  have c: "steps_in frame_step (classify_job W (hub_deps H) jid j)" "finishes (classify_job W (hub_deps H) jid j)" for j
    unfolding classify_job_def hub_fields by (intro steps_rules, intro finishes_rules)
  have "steps_in frame_step (case (j_status j, j_capability j) of (Classified, Some cap) \<Rightarrow> Ret (plan_of_job j cap) | _ \<Rightarrow> classify_job W (hub_deps H) jid j)" for j
    using c by (auto simp: steps_Ret split: job_status.split option.split)
  then show "steps_in frame_step (classify_stage W (hub_deps H) jid)"
    unfolding classify_stage_def by (intro steps_bind steps_seq steps_with_job steps_Ret frame_set_job frame_shared)
  have "finishes (case (j_status j, j_capability j) of (Classified, Some cap) \<Rightarrow> Ret (plan_of_job j cap) | _ \<Rightarrow> classify_job W (hub_deps H) jid j)" for j
    using c by (auto simp: finishes_basic split: job_status.split option.split)
  then show "finishes (classify_stage W (hub_deps H) jid)"
    unfolding classify_stage_def by (intro finishes_bind finishes_seq finishes_with_job finishes_basic finishes_shared)
qed

lemma ends_failed:
  "ends E (unheld E jid s0) (co_seq (mark_failed W jid e f) (Ret v)) (\<lambda>r s. r = Inr v \<and> over E jid s0 s)"
  unfolding mark_failed_def ends_def by (auto simp: run_seq unheld_def over_def settled_def map_of_dict_modify)

lemma ends_circuit_gate:
  "ends E (unheld E jid s0) (circuit_gate W (hub_deps H) jid p)
    (\<lambda>r s. case r of Inr ok \<Rightarrow> if ok then unheld E jid s0 s else over E jid s0 s | Inl x \<Rightarrow> unheld E jid s0 s)"
  unfolding circuit_gate_def hub_fields option.case
  by (intro ends_if framed_bind framed_seq framed_job ends_Ret ends_post [OF ends_failed] steps_rules finishes_rules) auto

lemma ends_permission_stage:
  "ends E (unheld E jid s0) (permission_stage W (hub_deps H) jid p)
    (\<lambda>r s. case r of Inr None \<Rightarrow> over E jid s0 s | _ \<Rightarrow> unheld E jid s0 s)"
proof -
  have check: "steps_in frame_step (check_permission_c R cap action ctx)" "finishes (check_permission_c R cap action ctx)" for R cap action ctx
    unfolding check_permission_c_def by (intro steps_Get steps_rules, intro finishes_Get finishes_rules)
  show ?thesis
    unfolding permission_stage_def hub_fields option.case Let_def
    by (intro ends_if framed_bind framed_seq framed_job ends_Ret ends_post [OF ends_failed] steps_rules finishes_rules check) auto
qed

text \<open>What is left after a dispatch: a worker with a response, or neither.\<close>

definition dispatched :: "env \<Rightarrow> string \<Rightarrow> jobs_state \<Rightarrow> worker_context \<Rightarrow> py_exc + 'a option \<Rightarrow> jobs_state \<Rightarrow> bool" where
  "dispatched E jid s0 ctx r s \<longleftrightarrow>
    (case r of Inr None \<Rightarrow> over E jid s0 s | Inr (Some a) \<Rightarrow> held E jid s0 ctx s | Inl x \<Rightarrow> undone E jid s0 s)"

lemma held_undone: "held E jid s0 ctx s \<Longrightarrow> undone E jid s0 s"
  by (auto simp: undone_def)

lemma dispatched_held [simp]:
  "held E jid s0 ctx s \<Longrightarrow> dispatched E jid s0 ctx (Inl x) s" "held E jid s0 ctx s \<Longrightarrow> dispatched E jid s0 ctx (Inr (Some a)) s"
  unfolding dispatched_def undone_def by auto

lemma ends_given_up:
  "ends E (held E jid s0 ctx) (co_seq (mark_failed W jid e f) (co_seq (end_worker (hub_deps H) jid (failed_worker (Some ctx))) (Ret None)))
    (dispatched E jid s0 ctx)"
proof (rule ends_seq [OF ends_mark_failed(2) ends_seq])
  show "ends E (\<lambda>s. held E jid s0 ctx s \<and> settled jid s) (end_worker (hub_deps H) jid (failed_worker (Some ctx))) (ended E jid s0)"
    unfolding failed_worker_def option.map by (rule ends_end_worker) simp
qed (auto simp: dispatched_def intro: ends_Ret held_undone)

lemma ends_execute_local:
  "ends E (held E jid s0 ctx) (execute_local W (hub_deps H) jid (Some ctx) m prompt) (dispatched E jid s0 ctx)"
proof -
  have local: "ends E (held E jid s0 ctx) (co_bind c (\<lambda>a. co_bind (local_response W a) (\<lambda>r. Ret (Some r))))
      (\<lambda>r s. case r of Inr None \<Rightarrow> False | _ \<Rightarrow> held E jid s0 ctx s)" if "steps_in frame_step c" "finishes c" for c
    unfolding local_response_def
    by (intro framed_bind framed_job ends_Ret steps_rules finishes_rules that) auto
  have caught: "ends E (held E jid s0 ctx) (co_catch (co_bind (hub_execute H ctx prompt m) (\<lambda>a. co_bind (local_response W a) (\<lambda>r. Ret (Some r))))
      (\<lambda>x. co_seq (log_event (\<lambda>sp. event_job_failed sp jid ''worker_execution_failed'' (exc_text (hub_deps H) x) None))
        (co_seq (mark_failed W jid ''worker_execution_failed'' id)
        (co_seq (end_worker (hub_deps H) jid (failed_worker (Some ctx))) (Ret None))))) (dispatched E jid s0 ctx)"
  proof (rule ends_catch [OF local])
    fix x
    show "ends E (\<lambda>s. case Inl x of Inr None \<Rightarrow> False | _ \<Rightarrow> held E jid s0 ctx s)
      (co_seq (log_event (\<lambda>sp. event_job_failed sp jid ''worker_execution_failed'' (exc_text (hub_deps H) x) None))
        (co_seq (mark_failed W jid ''worker_execution_failed'' id)
        (co_seq (end_worker (hub_deps H) jid (failed_worker (Some ctx))) (Ret None)))) (dispatched E jid s0 ctx)"
      unfolding sum.case by (intro framed_seq framed_job steps_rules finishes_rules ends_given_up) simp
  qed (auto intro: steps_rules finishes_rules split: option.splits)
  have "ends E (held E jid s0 ctx) (co_bind (hub_generate H prompt) (\<lambda>a. co_bind (local_response W a) (\<lambda>r. Ret (Some r))))
      (dispatched E jid s0 ctx)"
    by (rule ends_post [OF local]) (auto intro: steps_rules finishes_rules split: sum.splits option.splits)
  with caught show ?thesis by (simp add: execute_local_def hub_fields)
qed

lemma ends_execute_cloud:
  "ends E (held E jid s0 ctx) (execute_cloud W (hub_deps H) jid (Some ctx) p m prompt phash ref) (dispatched E jid s0 ctx)"
  unfolding execute_cloud_def hub_fields Let_def
  by (intro framed_bind framed_seq framed_job ends_if ends_given_up ends_Ret steps_rules finishes_rules) auto

lemma ends_dispatch_stage:
  "ends E (held E jid s0 ctx) (dispatch_stage W (hub_deps H) jid (Some ctx) p g pkg) (dispatched E jid s0 ctx)"
  unfolding dispatch_stage_def Let_def
  by (cases pkg, simp only: prod.case)
    (intro framed_bind framed_seq framed_job ends_if ends_execute_local ends_execute_cloud steps_rules finishes_rules dispatched_held)

lemma ends_finish_stage:
  "ends E (held E jid s0 ctx) (finish_stage W (hub_deps H) jid (Some ctx) p g r) (ended E jid s0)"
proof -
  have receive: "steps_in frame_step (receive_stage W jid p m r)" "finishes (receive_stage W jid p m r)" for m
    unfolding receive_stage_def Let_def by (intro steps_rules, intro finishes_rules)
  note close = ends_end_worker [OF refl]
  have still: "still_step s t \<Longrightarrow> held E jid s0 ctx s \<and> settled jid s \<Longrightarrow> held E jid s0 ctx t \<and> settled jid t" for s t
    using frame_held [OF still_frame] still_settled by blast
  have log: "steps_in still_step (with_job jid (\<lambda>j. log_event (b j)))" "finishes (with_job jid (\<lambda>j. log_event (b j)))" for b
    by (intro steps_rules, intro finishes_rules)
  have settled_seq: "ends E (\<lambda>s. held E jid s0 ctx s \<and> settled jid s) (co_seq c d) (ended E jid s0)"
    if "steps_in still_step c" "finishes c" "ends E (\<lambda>s. held E jid s0 ctx s \<and> settled jid s) d (ended E jid s0)" for c and d :: "unit task"
    by (rule ends_seq [OF ends_still [OF that(1,2) still] that(3)]) (auto intro: held_undone)
  have settle: "ends E (held E jid s0 ctx) (co_seq (set_job jid f) (co_seq (persist_job W jid) c)) (ended E jid s0)"
    if "\<And>j. j_status (f j) \<in> {Delivered, Proposal_ready, Failed}"
      and "ends E (\<lambda>s. held E jid s0 ctx s \<and> settled jid s) c (ended E jid s0)" for f and c :: "unit task"
    by (rule ends_seq [OF ends_set_settled(2) [OF that(1)] settled_seq [OF _ _ that(2)]])
      (auto intro: steps_rules finishes_rules held_undone)
  have id: "steps_in frame_step (with_job jid (\<lambda>j. case j_proposal_id j of
        Some i \<Rightarrow> Ret () | None \<Rightarrow> co_bind (uuid7 W) (\<lambda>i. set_job jid (\<lambda>j. j\<lparr>j_proposal_id := Some i\<rparr>))))"
    "finishes (with_job jid (\<lambda>j. case j_proposal_id j of
        Some i \<Rightarrow> Ret () | None \<Rightarrow> co_bind (uuid7 W) (\<lambda>i. set_job jid (\<lambda>j. j\<lparr>j_proposal_id := Some i\<rparr>))))"
    by (intro steps_rules, intro finishes_rules)
  have propose: "ends E (held E jid s0 ctx) (propose_stage W (hub_deps H) jid (Some ctx) p m r reason) (ended E jid s0)" for m reason
    unfolding propose_stage_def
    by (rule framed_seq [OF framed_job(2) id settle [OF _ settled_seq [OF log close]]]) (auto intro: held_undone)
  have deliver: "ends E (held E jid s0 ctx) (deliver_stage W (hub_deps H) jid (Some ctx)) (ended E jid s0)"
    unfolding deliver_stage_def
    by (rule framed_seq [OF framed_job(2) _ _ framed_bind [OF framed_job(2) _ _ settle [OF _ close]]])
      (auto intro: held_undone steps_rules finishes_rules)
  show ?thesis
    unfolding finish_stage_def
    by (intro framed_bind framed_seq framed_job receive steps_rules finishes_rules ends_option propose deliver) (auto intro: held_undone)
qed

section \<open>The iteration\<close>

lemma ends_granted_stage:
  assumes "fresh_workers H s0" and "jid \<notin> fst ` set (contexts s0)"
  shows "ends E (unheld E jid s0) (granted_stage W (hub_deps H) jid p g) (ended E jid s0)"
  unfolding granted_stage_def
proof (rule ends_bind [OF ends_prepare_stage [OF assms]])
  fix v
  have fallback: "steps_in frame_step (fallback_stage (hub_deps H) jid p)" "finishes (fallback_stage (hub_deps H) jid p)"
    unfolding fallback_stage_def hub_fields option.case by (intro steps_rules, intro finishes_rules)
  have package: "steps_in frame_step (package_stage (hub_deps H) jid p)" "finishes (package_stage (hub_deps H) jid p)"
    unfolding package_stage_def hub_fields
    by (intro steps_with_job steps_if steps_option steps_bind steps_Ret steps_Exc steps_first_model, auto intro: steps_rules)
      (intro finishes_with_job finishes_if finishes_option finishes_bind finishes_basic finishes_first_model, auto intro: finishes_rules)
  have rest: "ends E (held E jid s0 ctx) (co_seq (fallback_stage (hub_deps H) jid p) (co_bind (package_stage (hub_deps H) jid p) (\<lambda>pkg.
      co_bind (dispatch_stage W (hub_deps H) jid (Some ctx) p g pkg)
        (\<lambda>r. case r of None \<Rightarrow> Ret () | Some r \<Rightarrow> finish_stage W (hub_deps H) jid (Some ctx) p g r)))) (ended E jid s0)" for ctx
  proof (rule framed_seq [OF framed_job(2) fallback framed_bind [OF framed_job(2) package]])
    fix pkg
    show "ends E (held E jid s0 ctx) (co_bind (dispatch_stage W (hub_deps H) jid (Some ctx) p g pkg)
        (\<lambda>r. case r of None \<Rightarrow> Ret () | Some r \<Rightarrow> finish_stage W (hub_deps H) jid (Some ctx) p g r)) (ended E jid s0)"
    proof (rule ends_bind [OF ends_dispatch_stage])
      fix r
      show "ends E (dispatched E jid s0 ctx (Inr r)) (case r of None \<Rightarrow> Ret () | Some r \<Rightarrow> finish_stage W (hub_deps H) jid (Some ctx) p g r)
          (ended E jid s0)"
        by (cases r) (auto simp: dispatched_def [abs_def] intro: ends_Ret ends_finish_stage)
    qed (simp add: dispatched_def)
  qed (auto intro: held_undone)
  show "ends E (\<lambda>s. case Inr v of Inr (Some (Some ctx)) \<Rightarrow> held E jid s0 ctx s | Inr None \<Rightarrow> over E jid s0 s | _ \<Rightarrow> False)
      (case v of None \<Rightarrow> Ret () | Some w \<Rightarrow> co_seq (fallback_stage (hub_deps H) jid p) (co_bind (package_stage (hub_deps H) jid p) (\<lambda>pkg.
        co_bind (dispatch_stage W (hub_deps H) jid w p g pkg)
          (\<lambda>r. case r of None \<Rightarrow> Ret () | Some r \<Rightarrow> finish_stage W (hub_deps H) jid w p g r)))) (ended E jid s0)"
  proof (cases v)
    case (Some w)
    then show ?thesis using rest by (cases w) (simp_all add: ends_def)
  qed (simp add: ends_Ret)
qed simp

lemma ends_run_pipeline:
  assumes "fresh_workers H s0" and "jid \<notin> fst ` set (contexts s0)"
  shows "ends E (unheld E jid s0) (run_pipeline W (hub_deps H) jid) (ended E jid s0)"
proof -
  have "ends E (unheld E jid s0) (co_bind (classify_stage W (hub_deps H) jid) (\<lambda>p. co_bind (circuit_gate W (hub_deps H) jid p) (\<lambda>ok.
      if \<not> ok then Ret () else co_bind (permission_stage W (hub_deps H) jid p) (\<lambda>g.
        case g of None \<Rightarrow> Ret () | Some g \<Rightarrow> granted_stage W (hub_deps H) jid p g)))) (ended E jid s0)"
  proof (rule framed_bind [OF framed_job(1) classify_framed ends_bind [OF ends_circuit_gate]])
    fix p ok
    show "ends E (\<lambda>s. case Inr ok of Inr ok \<Rightarrow> if ok then unheld E jid s0 s else over E jid s0 s | Inl x \<Rightarrow> unheld E jid s0 s)
        (if \<not> ok then Ret () else co_bind (permission_stage W (hub_deps H) jid p) (\<lambda>g.
          case g of None \<Rightarrow> Ret () | Some g \<Rightarrow> granted_stage W (hub_deps H) jid p g)) (ended E jid s0)"
    proof (cases ok)
      case True
      have "ends E (unheld E jid s0) (co_bind (permission_stage W (hub_deps H) jid p) (\<lambda>g.
          case g of None \<Rightarrow> Ret () | Some g \<Rightarrow> granted_stage W (hub_deps H) jid p g)) (ended E jid s0)"
      proof (rule ends_bind [OF ends_permission_stage])
        fix g
        show "ends E (\<lambda>s. case Inr g of Inr None \<Rightarrow> over E jid s0 s | _ \<Rightarrow> unheld E jid s0 s)
            (case g of None \<Rightarrow> Ret () | Some g \<Rightarrow> granted_stage W (hub_deps H) jid p g) (ended E jid s0)"
          using ends_granted_stage [OF assms] by (cases g) (simp_all add: ends_Ret)
      qed (simp add: undone_def)
      with True show ?thesis by simp
    qed (simp add: ends_Ret)
  qed (simp_all add: undone_def)
  then show ?thesis
    unfolding run_pipeline_def ends_def by (auto simp: unheld_def)
qed

text \<open>What is done with an exception.\<close>

lemma ends_pipeline_failed:
  assumes "jid \<notin> fst ` set (contexts s0)"
  shows "ends E (undone E jid s0) (pipeline_failed W (hub_deps H) jid) (\<lambda>r s. r = Inr () \<and> over E jid s0 s)"
  unfolding ends_def
proof (intro allI impI)
  fix s
  assume s: "undone E jid s0 s"
  let ?mark = "Get (\<lambda>s. case map_of (jobs s) jid of None \<Rightarrow> Ret ()
      | Some j \<Rightarrow> if j_status j \<noteq> Delivered then mark_failed W jid ''pipeline_error'' id else Ret ())"
  have "map_of (jobs s) jid \<noteq> None" using s by (auto simp: undone_def unheld_def held_def)
  then obtain t where t: "run E ?mark s = Some (Inr (), t)" "settled jid t" "wk_contexts t = wk_contexts s" "contexts t = contexts s"
    by (cases "j_status (the (map_of (jobs s) jid)) = Delivered") (auto simp: mark_failed_def run_seq settled_def map_of_dict_modify)
  show "\<exists>r t. run E (pipeline_failed W (hub_deps H) jid) s = Some (r, t) \<and> r = Inr () \<and> over E jid s0 t"
  proof (cases "map_of (contexts t) jid")
    case None
    have "writes_all E \<Longrightarrow> unheld E jid s0 s" using s None t(4) by (auto simp: undone_def held_def)
    then have "over E jid s0 t" using t by (auto simp: over_def unheld_def)
    then show ?thesis using t None by (simp add: pipeline_failed_def run_seq)
  next
    case (Some c)
    let ?c = "c\<lparr>wc_status := ''failed''\<rparr>" and ?t = "t\<lparr>contexts := AList.delete jid (contexts t)\<rparr>"
    obtain r u where td: "teardown_worker E (hb_clock H (ticks t)) ?c (?t\<lparr>ticks := Suc (ticks t)\<rparr>) = (r, u)" by fastforce
    have u: "jobs u = jobs t" "contexts u = AList.delete jid (contexts t)"
      using td by (auto simp: teardown_worker_def Let_def bind_r_def emit_def split: sum.splits)
    have "wk_contexts u = wk_contexts s0 \<and> contexts u = contexts s0" if w: "writes_all E"
    proof -
      have "\<not> unheld E jid s0 s" using w Some t(4) assms by (auto simp: unheld_def map_of_eq_None_iff [symmetric])
      then obtain ctx where "held E jid s0 ctx s" using s by (auto simp: undone_def)
      moreover have "wk_contexts u = AList.delete (wc_worker_id c) (wk_contexts t)"
        using td w by (auto simp: teardown_worker_def Let_def emit_writes)
      ultimately show ?thesis using w Some t(3,4) u by (auto simp: held_def delete_fresh)
    qed
    then have "over E jid s0 u" using t(2) u(1) by (simp add: over_def settled_def)
    moreover have "run E (pipeline_failed W (hub_deps H) jid) s = Some (Inr (), u)"
      using t(1) Some td
      by (simp add: pipeline_failed_def run_seq hub_fields run_catch hub_teardown_def run_bind run_teardown_worker split: sum.split)
    ultimately show ?thesis by blast
  qed
qed

text \<open>
  C1: Every job that the worker loop takes is brought to an end. When the hub processes jobs and the job is in
  memory, the iteration terminates without an exception and leaves the job delivered, proposed for
  review or failed, whatever the services answer or raise and whichever audit writes fail. When every
  audit write is accepted, its worker is gone as well: the active workers and the workers held by jobs
  are exactly those from before.
\<close>

theorem job_settles:
  assumes "queue s = jid # q" and "map_of (jobs s) jid \<noteq> None" and "hb_processing H (s\<lparr>queue := q\<rparr>)"
    and "fresh_workers H s" and "jid \<notin> fst ` set (contexts s)"
  shows "\<exists>t. run E (worker_iteration W (hub_deps H)) s = Some (Inr (), t) \<and> settled jid t \<and>
    (writes_all E \<longrightarrow> wk_contexts t = wk_contexts s \<and> contexts t = contexts s)"
proof -
  let ?s = "s\<lparr>queue := q\<rparr>"
  have fresh: "fresh_workers H ?s" "jid \<notin> fst ` set (contexts ?s)" using assms(4,5) by (simp_all add: fresh_workers_def)
  have start: "unheld E jid ?s ?s" using assms(2) by (simp add: unheld_def)
  have "ends E (unheld E jid ?s) (co_catch (run_pipeline W (hub_deps H) jid) (\<lambda>x. pipeline_failed W (hub_deps H) jid))
      (\<lambda>r t. r = Inr () \<and> over E jid ?s t)"
    by (rule ends_catch [OF ends_run_pipeline [OF fresh]]) (use ends_pipeline_failed [OF fresh(2)] in auto)
  then obtain t where "run E (co_catch (run_pipeline W (hub_deps H) jid) (\<lambda>x. pipeline_failed W (hub_deps H) jid)) ?s = Some (Inr (), t)"
    and "over E jid ?s t"
    using start unfolding ends_def by blast
  then show ?thesis
    using assms(1,3) by (auto simp: worker_iteration_def hub_fields run_seq run_catch over_def)
qed

theorem job_settles_witness:
  "\<exists>t. run good_env (worker_iteration (task_world 0) (hub_deps (sample_hub ''local'' ''local''))) hub_start = Some (Inr (), t) \<and>
    settled ''j1'' t \<and> wk_contexts t = [] \<and> contexts t = []"
proof -
  have "queue hub_start = ''j1'' # []" "map_of (jobs hub_start) ''j1'' \<noteq> None" "hb_processing (sample_hub ''local'' ''local'') (hub_start\<lparr>queue := []\<rparr>)"
    "fresh_workers (sample_hub ''local'' ''local'') hub_start" "''j1'' \<notin> fst ` set (contexts hub_start)"
    by (simp_all add: hub_start_def put_job_def empty_jobs_def new_job_def sample_hub_def fresh_workers_def)
  from job_settles [OF this] good_env_writes show ?thesis
    by (auto simp: hub_start_def put_job_def empty_jobs_def)
qed

end
