(* ===== verification/Admin.thy ===== *)
theory Admin
  imports Trust Hub_Services Startup_Validator
begin

text \<open>
  The admin endpoints: \<open>orchestrator/admin_routes.py\<close>. A handler returns a status and a body, or raises (FastAPI
  answers 500). The dependencies that \<open>init\<close> and \<open>set_worker_lifecycle\<close> set are an \<open>admin\<close>; the state is that
  of the components. Clock readings and ids are arguments.
\<close>

type_synonym http = "int \<times> json"

record admin =
  ad_registry :: "registry option"
  ad_report :: "startup_report option"
  ad_lifecycle :: "lifecycle option"

definition admin_init :: "registry \<Rightarrow> startup_report option \<Rightarrow> admin \<Rightarrow> admin" where
  "admin_init R rep A = A\<lparr>ad_registry := Some R, ad_report := (if rep \<noteq> None then rep else ad_report A)\<rparr>"

definition set_worker_lifecycle :: "lifecycle \<Rightarrow> admin \<Rightarrow> admin" where
  "set_worker_lifecycle L A = A\<lparr>ad_lifecycle := Some L\<rparr>"

text \<open>The 503 of \<open>_guard\<close> and of the probes, the \<open>HTTPException\<close>s, and the 422 of a body that breaks a pattern.\<close>

definition not_ready_body :: "string \<Rightarrow> json" where
  "not_ready_body detail = JObj [(''error'', JStr ''not_ready''), (''detail'', JStr detail)]"

definition detail_body :: "string \<Rightarrow> json" where
  "detail_body d = JObj [(''detail'', JStr d)]"

definition invalid_body :: http where
  "invalid_body = (422, detail_body ''string_pattern_mismatch'')"

definition guard :: "admin \<Rightarrow> (registry \<Rightarrow> 's \<Rightarrow> (py_exc + http) \<times> 's) \<Rightarrow> 's \<Rightarrow> (py_exc + http) \<times> 's" where
  "guard A f s = (case ad_registry A of
      None \<Rightarrow> (Inr (503, not_ready_body ''Orchestrator not initialized''), s)
    | Some R \<Rightarrow> f R s)"

section \<open>Outcomes, model changes and overrides\<close>

definition promotion_json :: "promotion_check \<Rightarrow> json" where
  "promotion_json c = JObj [(''ready'', JBool (Trust.ready c)), (''capability_id'', JStr (pc_capability c)),
    (''current_level'', JInt (pc_current c)), (''recommended_level'', JInt (pc_recommended c)), (''reason'', JStr (pc_reason c)),
    (''notification_emitted'', JBool (pc_notified c)), (''source_event_id'', JStr (pc_event_id c))]"

definition admin_record_outcome ::
    "env \<Rightarrow> admin \<Rightarrow> instant \<Rightarrow> string \<Rightarrow> string \<Rightarrow> 'a trust_scheme \<Rightarrow> (py_exc + http) \<times> 'a trust_scheme" where
  "admin_record_outcome E A clk cid disp =
    (if disp \<notin> fst ` set DISPOSITION_SCORES then return_r invalid_body
     else guard A (\<lambda>R.
       if registry_get R cid = None then return_r (404, detail_body (''Unknown capability: '' @ cid))
       else bind_r (on_caps (record_outcome cid \<lparr>disposition = disp, outcome_time = Some clk\<rparr>)) (\<lambda>_.
            bind_r (on_caps (set_first_job_date cid clk)) (\<lambda>_.
            bind_r (read_caps (\<lambda>S. get_outcomes S cid)) (\<lambda>os.
            bind_r (read_caps (\<lambda>S. compute_approval_score S cid)) (\<lambda>score.
            bind_r (check_promotion E R clk cid) (\<lambda>c.
            return_r (200, JObj [(''status'', JStr ''recorded''), (''capability_id'', JStr cid), (''disposition'', JStr disp),
              (''outcomes_count'', JInt (int (length os))), (''approval_score'', jopt JNum score),
              (''promotion_check'', promotion_json c)]))))))))"

definition affected_by :: "registry \<Rightarrow> string list option \<Rightarrow> string list" where
  "affected_by R affected = (case affected of
      None \<Rightarrow> filter (\<lambda>cid. \<not> startswith cid ''_'') (dict_keys R)
    | Some cs \<Rightarrow> cs)"

definition demotion_json :: "demotion_result \<Rightarrow> json" where
  "demotion_json d = JObj [(''capability_id'', JStr (dem_capability d)), (''from_level'', JInt (dem_from d)),
    (''to_level'', JInt (dem_to d)), (''trigger'', JStr (dem_trigger d))]"

definition trigger_model_change ::
    "env \<Rightarrow> admin \<Rightarrow> instant \<Rightarrow> string list option \<Rightarrow> string \<Rightarrow> 'a trust_scheme \<Rightarrow> (py_exc + http) \<times> 'a trust_scheme" where
  "trigger_model_change E A clk affected new_model = guard A (\<lambda>R.
    (let cids = affected_by R affected in
     case List.find (\<lambda>cid. registry_get R cid = None) cids of
       Some cid \<Rightarrow> return_r (400, detail_body (''Unknown capability: '' @ cid))
     | None \<Rightarrow>
         bind_r (emit E (\<lambda>sp. event_system_model_change sp (Some ''unknown'') new_model cids)) (\<lambda>ev.
         bind_r (handle_model_change E R clk (Some (source_event_id ev)) cids) (\<lambda>ds.
         return_r (200, JObj [(''status'', JStr ''processed''), (''demotions'', JArr (map demotion_json ds))])))))"

definition simulate_override ::
    "env \<Rightarrow> admin \<Rightarrow> instant \<Rightarrow> string \<Rightarrow> string \<Rightarrow> string \<Rightarrow> string option \<Rightarrow> 'a trust_scheme \<Rightarrow> (py_exc + http) \<times> 'a trust_scheme" where
  "simulate_override E A clk sid otype cid prior =
    (if otype \<notin> {''cancel'', ''redirect''} then return_r invalid_body
     else guard A (\<lambda>R.
       if registry_get R cid = None then return_r (404, detail_body (''Unknown capability: '' @ cid))
       else bind_r (handle_override_demotion E R clk otype cid prior sid) (\<lambda>d.
         return_r (200, JObj [(''status'', JStr ''processed''), (''demoted'', JBool (demoted d)),
           (''detail'', JObj [(''demoted'', JBool (demoted d)), (''capability_id'', JStr (dem_capability d)),
             (''from_level'', JInt (dem_from d)), (''to_level'', JInt (dem_to d)), (''trigger'', JStr (dem_trigger d)),
             (''reason'', JStr (dem_reason d)), (''source_event_id'', JStr (dem_event_id d))])]))))"

section \<open>What the hub shows\<close>

definition capability_json :: "string \<Rightarrow> capability \<Rightarrow> cap_state \<Rightarrow> json" where
  "capability_json cid c e = JObj [(''capability_id'', JStr cid), (''capability_name'', JStr (cap_name c)),
    (''capability_type'', JStr (cap_type c)), (''desired_wal_level'', JInt (desired_wal_level c)),
    (''effective_wal_level'', JInt (effective_wal_level e)), (''max_wal'', JInt (max_wal c)), (''status'', JStr (cap_status e)),
    (''outcomes_count'', JInt (int (length (evaluable_outcomes e)))),
    (''recent_failures_count'', JInt (int (length (recent_failures e)))),
    (''approval_score'', jopt JNum (approval_score (evaluable_outcomes e))), (''first_job_date'', jopt JInt (first_job_date e)),
    (''last_reset'', JInt (last_reset e)), (''last_incident'', jopt JStr (last_incident e))]"

text \<open>A capability without a runtime state is left out; the score of one that has a state never raises.\<close>

definition get_capabilities :: "admin \<Rightarrow> 'a trust_scheme \<Rightarrow> (py_exc + http) \<times> 'a trust_scheme" where
  "get_capabilities A = guard A (\<lambda>R s. return_r (200, JObj [(''capabilities'',
    JArr (List.map_filter (\<lambda>(cid, c).
      if startswith cid ''_'' then None else map_option (capability_json cid c) (map_of (caps s) cid)) R))]) s)"

definition check_json :: "check_result \<Rightarrow> json" where
  "check_json c = JObj [(''check_name'', JStr (cr_name c)), (''passed'', JBool (cr_passed c)), (''severity'', JStr (cr_severity c))]"

definition get_startup_report :: "admin \<Rightarrow> http" where
  "get_startup_report A =
    (case ad_report A of
       None \<Rightarrow> (404, JObj [(''error'', JStr ''no_startup_report''), (''detail'', JStr ''No startup report available'')])
     | Some rep \<Rightarrow> (200, JObj [(''hub_start_permitted'', JBool (sv_permitted rep)),
         (''checks'', JArr (map check_json (sv_checks rep))), (''critical_failures'', jstrs (sv_critical rep)),
         (''warnings'', jstrs (sv_warnings rep))]))"

section \<open>The log as the endpoint reads it\<close>

text \<open>
  A query parameter filters when it is given and not empty. A line that is blank or no JSON is skipped; one that
  is JSON and no object raises as soon as a filter looks at it.
\<close>

definition passes :: "string \<Rightarrow> string option \<Rightarrow> json \<Rightarrow> py_exc + bool" where
  "passes k want v =
    (case want of
       None \<Rightarrow> Inr True
     | Some w \<Rightarrow> if w = [] then Inr True
         else (case json_get k JNull v of None \<Rightarrow> Inl AttributeError | Some x \<Rightarrow> Inr (x = JStr w)))"

fun matching_lines :: "(string \<Rightarrow> json option) \<Rightarrow> string option \<Rightarrow> string option \<Rightarrow> string list \<Rightarrow> py_exc + json list" where
  "matching_lines ld ty job [] = Inr []"
| "matching_lines ld ty job (l # ls) =
    (case (if strip_ws l = [] then None else ld (strip_ws l)) of
       None \<Rightarrow> matching_lines ld ty job ls
     | Some v \<Rightarrow>
         (case passes ''event_type'' ty v of
            Inl x \<Rightarrow> Inl x
          | Inr False \<Rightarrow> matching_lines ld ty job ls
          | Inr True \<Rightarrow>
              (case passes ''job_id'' job v of
                 Inl x \<Rightarrow> Inl x
               | Inr False \<Rightarrow> matching_lines ld ty job ls
               | Inr True \<Rightarrow> map_sum id (Cons v) (matching_lines ld ty job ls))))"

text \<open>The files in the order of their names, \<open>None\<close> for one that cannot be opened.\<close>

definition readable_lines :: "string list option list \<Rightarrow> string list" where
  "readable_lines files = concat (map (\<lambda>f. case f of None \<Rightarrow> [] | Some ls \<Rightarrow> ls) files)"

text \<open>\<open>xs[-n:]\<close> for any number.\<close>

definition tail_slice :: "int \<Rightarrow> 'a list \<Rightarrow> 'a list" where
  "tail_slice n xs = (if n > 0 then last_n (nat n) xs else drop (nat (- n)) xs)"

definition get_audit_events ::
    "(string \<Rightarrow> json option) \<Rightarrow> string option \<Rightarrow> int \<Rightarrow> string option \<Rightarrow> string list option list \<Rightarrow> py_exc + http" where
  "get_audit_events ld ty limit job files =
    map_sum id (\<lambda>es. (200, JObj [(''events'', JArr (tail_slice limit es)), (''total'', JInt (int (length es)))]))
      (matching_lines ld ty job (readable_lines files))"

section \<open>The probes\<close>

text \<open>
  A worker for \<open>route.local\<close> that runs one task and is torn down. \<open>F\<close> is what is drawn for the worker, \<open>jid\<close>
  the fresh id of the job that is made up, \<open>out\<close> the surroundings of the execution.
\<close>

definition run_probe ::
    "env \<Rightarrow> lifecycle \<Rightarrow> drawn \<Rightarrow> string \<Rightarrow> (worker_context \<Rightarrow> outside) \<Rightarrow> instant \<Rightarrow> string \<Rightarrow>
     'a workers_scheme \<Rightarrow> (py_exc + worker_context \<times> worker_result) \<times> 'a workers_scheme" where
  "run_probe E L F jid out clk task_type s =
    (let L = live L (caps s) in
     bind_r (prepare_worker E L F jid (Some ''route.local'')) (\<lambda>ctx.
       finally_r (\<lambda>s. map_prod (map_sum id (Pair ctx)) id (fst (execute_in_worker E L (out ctx) ctx task_type s)))
         (teardown_worker E clk ctx)) s)"

definition probe_ready ::
    "admin \<Rightarrow> (lifecycle \<Rightarrow> 'a workers_scheme \<Rightarrow> (py_exc + http) \<times> 'a workers_scheme) \<Rightarrow>
     'a workers_scheme \<Rightarrow> (py_exc + http) \<times> 'a workers_scheme" where
  "probe_ready A f = guard A (\<lambda>R.
    case ad_lifecycle A of
      None \<Rightarrow> return_r (503, not_ready_body ''worker_lifecycle unavailable'')
    | Some L \<Rightarrow>
        if registry_get R ''route.local'' = None
        then return_r (404, detail_body ''probe capability route.local missing from registry'')
        else f L)"

definition e2e_syscall_probe ::
    "env \<Rightarrow> admin \<Rightarrow> drawn \<Rightarrow> string \<Rightarrow> (worker_context \<Rightarrow> outside) \<Rightarrow> instant \<Rightarrow>
     'a workers_scheme \<Rightarrow> (py_exc + http) \<times> 'a workers_scheme" where
  "e2e_syscall_probe E A F jid out clk = probe_ready A (\<lambda>L.
    bind_r (run_probe E L F jid out clk ''syscall_probe'') (\<lambda>(ctx, r).
      return_r (200, JObj [(''status'', JStr ''ok''), (''result_line'', JStr (wr_text r)),
        (''container_id'', jopt JStr (wr_container_id r))])))"

text \<open>The targets of the probe's answer; \<open>coerce\<close> is pydantic's check of their list.\<close>

definition parsed_targets :: "(string \<Rightarrow> json option) \<Rightarrow> string \<Rightarrow> json" where
  "parsed_targets ld raw =
    (case ld raw of
       None \<Rightarrow> JArr []
     | Some v \<Rightarrow> (case json_get ''targets'' (JArr []) v of None \<Rightarrow> JArr [] | Some t \<Rightarrow> t))"

definition e2e_egress_probe ::
    "env \<Rightarrow> admin \<Rightarrow> drawn \<Rightarrow> string \<Rightarrow> (worker_context \<Rightarrow> outside) \<Rightarrow> instant \<Rightarrow> (string \<Rightarrow> json option) \<Rightarrow>
     (json \<Rightarrow> json option) \<Rightarrow> 'a workers_scheme \<Rightarrow> (py_exc + http) \<times> 'a workers_scheme" where
  "e2e_egress_probe E A F jid out clk ld coerce = probe_ready A (\<lambda>L.
    bind_r (run_probe E L F jid out clk ''egress_probe'') (\<lambda>(ctx, r).
      let mode = bp_network_mode (wc_blueprint ctx) in
      case coerce (parsed_targets ld (wr_text r)) of
        None \<Rightarrow> raise_r (ValueError ''targets'')
      | Some targets \<Rightarrow>
          return_r (200, JObj [(''status'', JStr ''ok''), (''network_mode'', JStr mode),
            (''network_context_matches_route_local'', JBool (mode = ''drnt-sandbox'')), (''targets'', targets),
            (''result_line'', JStr (wr_text r)), (''container_id'', jopt JStr (wr_container_id r))])))"

section \<open>What the endpoints do\<close>

lemma snd_bind_pure: "(\<And>v t. snd (f v t) = t) \<Longrightarrow> snd (bind_r m f s) = snd (m s)"
  by (cases "m s"; cases "fst (m s)") (auto simp: bind_r_def split: sum.split)

definition decoded :: "(string \<Rightarrow> json option) \<Rightarrow> string list \<Rightarrow> json list" where
  "decoded ld ls = List.map_filter (\<lambda>l. if strip_ws l = [] then None else ld (strip_ws l)) ls"

definition wanted :: "string option \<Rightarrow> string option \<Rightarrow> json \<Rightarrow> bool" where
  "wanted ty job v \<longleftrightarrow> (case v of
      JObj d \<Rightarrow> (\<forall>(k, w) \<in> {(''event_type'', ty), (''job_id'', job)}. w = None \<or> w = Some [] \<or> map_of d k = map_option JStr w)
    | _ \<Rightarrow> False)"

lemma passes_object:
  "passes k w (JObj d) = Inr (w = None \<or> w = Some [] \<or> map_of d k = map_option JStr w)"
  by (auto simp: passes_def json_get_def get_or_def split: option.splits)

lemma wanted_object:
  "wanted ty job (JObj d) \<longleftrightarrow> (ty = None \<or> ty = Some [] \<or> map_of d ''event_type'' = map_option JStr ty) \<and>
    (job = None \<or> job = Some [] \<or> map_of d ''job_id'' = map_option JStr job)"
  by (auto simp: wanted_def)

lemma matching_lines_filter:
  assumes "\<forall>l \<in> set ls. \<forall>v. ld (strip_ws l) = Some v \<longrightarrow> (\<exists>d. v = JObj d)"
  shows "matching_lines ld ty job ls = Inr (filter (wanted ty job) (decoded ld ls))"
  using assms
proof (induction ls)
  case (Cons l ls)
  then have IH: "matching_lines ld ty job ls = Inr (filter (wanted ty job) (decoded ld ls))" by simp
  show ?case
  proof (cases "if strip_ws l = [] then None else ld (strip_ws l)")
    case None
    then have "decoded ld (l # ls) = decoded ld ls" by (simp add: decoded_def map_filter_simps del: if_split_asm)
    with None IH show ?thesis by simp
  next
    case (Some v)
    then obtain d where v: "v = JObj d" using Cons.prems by (auto split: if_splits)
    from Some have "decoded ld (l # ls) = v # decoded ld ls" by (simp add: decoded_def map_filter_simps)
    with Some IH show ?thesis by (simp add: v passes_object wanted_object split: bool.split) (use IH in auto)
  qed
qed (simp add: decoded_def map_filter_simps)

text \<open>
  A probe leaves no worker behind. Whatever becomes of it (no worker, a task that fails or crashes, an
  answer that does not parse), the registered workers and their start times are those before the call, when the audit trail
  takes its events and the id drawn for the worker is fresh.
\<close>

theorem probe_leaves_no_worker:
  assumes "writes_all E" and "dw_worker_id F \<notin> fst ` set (wk_contexts s)" and "dw_worker_id F \<notin> fst ` set (wk_started s)"
    and "e2e_egress_probe E A F jid out clk ld coerce s = (r, t) \<or> e2e_syscall_probe E A F jid out clk s = (r, t)"
  shows "wk_contexts t = wk_contexts s \<and> wk_started t = wk_started s"
proof -
  let ?w = "\<lambda>u. (wk_contexts u, wk_started u)"
  have probe: "?w (snd (run_probe E L F jid out clk tt s)) = ?w s" for L tt
  proof -
    have "wc_worker_id c = dw_worker_id F" if "prepare_worker (accepting E) (live L (caps s)) F jid (Some ''route.local'') s = (Inr c, t)" for c t
      using that by (auto elim!: prepare_worker_Inr simp: new_context_def)
    then show ?thesis
      using active.borrowed [where E = E and s = s and f = Pair] started.borrowed [where E = E and s = s and f = Pair]
        assms(2,3) accepting_id [OF assms(1)]
      by (simp add: run_probe_def Let_def)
  qed
  have "?w (snd (e2e_egress_probe E A F jid out clk ld coerce s)) = ?w s" "?w (snd (e2e_syscall_probe E A F jid out clk s)) = ?w s"
    unfolding e2e_egress_probe_def e2e_syscall_probe_def probe_ready_def guard_def using probe
    by (simp_all add: snd_bind_pure Let_def case_prod_beta split: option.split)
  then show ?thesis using assms(4) by auto
qed

text \<open>
  The log endpoint returns the newest matching events. When every line that is JSON is an object, the answer
  holds the events that pass the filters, in the order of the log, cut to a suffix: the last \<open>limit\<close> of them for a
  positive limit, all of them for a limit of 0, all but the first \<open>-limit\<close> for a negative one; \<open>total\<close> counts
  them all.
\<close>

theorem audit_events_newest:
  assumes "\<forall>l \<in> set (readable_lines files). \<forall>v. ld (strip_ws l) = Some v \<longrightarrow> (\<exists>d. v = JObj d)"
  shows "\<exists>old es. filter (wanted ty job) (decoded ld (readable_lines files)) = old @ es \<and>
    get_audit_events ld ty limit job files =
      Inr (200, JObj [(''events'', JArr es), (''total'', JInt (int (length old + length es)))]) \<and>
    length (if limit > 0 then es else old) = min (nat \<bar>limit\<bar>) (length old + length es)"
proof -
  let ?es = "filter (wanted ty job) (decoded ld (readable_lines files))"
  have m: "matching_lines ld ty job (readable_lines files) = Inr ?es" using matching_lines_filter [OF assms] .
  obtain n where n: "tail_slice limit ?es = drop n ?es"
      "n = (if limit > 0 then length ?es - nat limit else nat (- limit))"
    by (simp add: tail_slice_def last_n_def)
  have "get_audit_events ld ty limit job files =
      Inr (200, JObj [(''events'', JArr (drop n ?es)), (''total'', JInt (int (length (take n ?es) + length (drop n ?es))))])"
    by (simp add: get_audit_events_def m n(1))
  moreover have "length (if limit > 0 then drop n ?es else take n ?es) = min (nat \<bar>limit\<bar>) (length (take n ?es) + length (drop n ?es))"
    using n(2) by (auto simp: min_def)
  ultimately show ?thesis by (intro exI [of _ "take n ?es"] exI [of _ "drop n ?es"]) simp
qed

section \<open>Concrete calls\<close>

definition sample_admin :: admin where
  "sample_admin = \<lparr>ad_registry = Some hub_registry, ad_report = None, ad_lifecycle = Some (hb_lifecycle (sample_hub ''local'' ''m''))\<rparr>"

theorem probe_leaves_no_worker_witness:
  "wk_contexts (snd (e2e_syscall_probe good_env sample_admin sample_drawn ''j9'' (\<lambda>_. sample_outside) 0 hub_start)) = [] \<and>
   wk_contexts (snd (prepare_worker good_env (live (hb_lifecycle (sample_hub ''local'' ''m'')) (caps hub_start)) sample_drawn ''j9''
     (Some ''route.local'') hub_start)) \<noteq> []"
proof -
  have "writes_all good_env" by (auto simp: writes_all_def good_env_def)
  moreover have "wk_contexts hub_start = []" "wk_started hub_start = []"
    by (simp_all add: hub_start_def put_job_def empty_jobs_def)
  ultimately have "wk_contexts (snd (e2e_syscall_probe good_env sample_admin sample_drawn ''j9'' (\<lambda>_. sample_outside) 0 hub_start)) = []"
    using probe_leaves_no_worker [OF _ _ _ disjI2 [OF surjective_pairing], of good_env sample_drawn hub_start] by simp
  moreover have "wk_contexts (snd (prepare_worker good_env (live (hb_lifecycle (sample_hub ''local'' ''m'')) (caps hub_start)) sample_drawn ''j9''
     (Some ''route.local'') hub_start)) \<noteq> []" by code_simp
  ultimately show ?thesis ..
qed

theorem audit_events_newest_witness:
  "\<exists>old es. get_audit_events (\<lambda>l. Some (JObj [(''event_type'', JStr l)])) (Some ''b'') 1 None [Some [''a'', ''b''], None, Some ['' '', ''b'']] =
     Inr (200, JObj [(''events'', JArr es), (''total'', JInt 2)]) \<and> length es = 1"
proof -
  let ?files = "[Some [''a'', ''b''], None, Some ['' '', ''b'']]"
  let ?ld = "\<lambda>l. Some (JObj [(''event_type'', JStr l)])"
  obtain old es where f: "filter (wanted (Some ''b'') None) (decoded ?ld (readable_lines ?files)) = old @ es"
    and g: "get_audit_events ?ld (Some ''b'') 1 None ?files =
      Inr (200, JObj [(''events'', JArr es), (''total'', JInt (int (length old + length es)))])"
    and l: "length (if (1::int) > 0 then es else old) = min (nat \<bar>1\<bar>) (length old + length es)"
    using audit_events_newest [of ?files ?ld "Some ''b''" None 1] by auto
  have "length (filter (wanted (Some ''b'') None) (decoded ?ld (readable_lines ?files))) = 2" by code_simp
  then have "length old + length es = 2" by (simp add: f)
  with g l show ?thesis by auto
qed

end
