(* ===== verification/Hub_App.thy ===== *)
theory Hub_App
  imports Startup Recovery Admin
begin

text \<open>
  The application: \<open>orchestrator/main.py\<close> and \<open>orchestrator/persistence.py\<close>. First what its start builds, from
  the files and rows that the last process left; then its endpoints, which turn the results and exceptions of
  the components into HTTP answers. \<open>job_manager is None\<close>, which no endpoint meets once the start is over, is
  the argument \<open>up\<close>. The values that FastAPI checks before a handler runs are typed here, but for the bounds of a
  page and the texts that are parsed.
\<close>

section \<open>The database module\<close>

text \<open>The module's globals: the path, which the other modules ask for, and whether the connection is open.\<close>

record db_module =
  db_path :: "string option"
  db_open :: bool

definition closed_db :: db_module where
  "closed_db = \<lparr>db_path = None, db_open = False\<rparr>"

definition dirname :: "string \<Rightarrow> string" where
  "dirname p = (let q = rev (dropWhile (\<lambda>c. c \<noteq> CHR ''/'') (rev p)) in
    if filter (\<lambda>c. c \<noteq> CHR ''/'') q = [] then q else rstrip_char CHR ''/'' q)"

text \<open>
  \<open>init_db\<close>: \<open>dir_ok\<close> and \<open>sql_ok\<close> say whether the directory can be made and whether the connection and the tables can. The
  directory is made outside the handler that resets the path.
\<close>

definition init_db :: "string option \<Rightarrow> string option \<Rightarrow> bool \<Rightarrow> bool \<Rightarrow> db_module \<Rightarrow> (py_exc + unit) \<times> db_module" where
  "init_db arg env_path dir_ok sql_ok M =
    (let p = (case arg of Some (c # cs) \<Rightarrow> c # cs | _ \<Rightarrow> (case env_path of Some e \<Rightarrow> e | None \<Rightarrow> ''/data/drnt.db''));
         M1 = M\<lparr>db_path := Some p\<rparr> in
     if dirname p \<noteq> [] \<and> \<not> dir_ok then (Inl OSError, M1)
     else if sql_ok then (Inr (), M1\<lparr>db_open := True\<rparr>)
     else (Inl RuntimeError, closed_db))"

definition close_db :: "db_module \<Rightarrow> db_module" where
  "close_db M = closed_db"

definition get_db_path :: "db_module \<Rightarrow> string option" where
  "get_db_path M = db_path M"

section \<open>The start\<close>

text \<open>What the last process left: the state file, the database (its tables and the rows of the others), the two stores.\<close>

record disk =
  dk_state_file :: bool
  dk_caps :: cap_states
  dk_meta :: startup_meta
  dk_db :: "job database"
  dk_circuits :: "(string, route_health) dict"
  dk_hub_row :: "hub_state option"
  dk_beat_row :: "instant option"
  dk_contexts :: "(string, json) dict"
  dk_results :: "(string, string) dict"

text \<open>
  What the start reads and how its surroundings answer: the observations of the validator, the parsed files (\<open>None\<close>
  when a file cannot be read), Ollama's model, the two calls to the worker proxy, the database, the clocks.
\<close>

record site =
  st_observed :: observed
  st_tail :: nat
  st_registry :: registry
  st_config_hash :: string
  st_sensitivity :: "sensitivity_entry list option"
  st_classes :: "(string option \<times> class_def list) option"
  st_compile :: "string \<Rightarrow> (string \<Rightarrow> (nat \<times> nat) list) option"
  st_ollama :: "string option \<times> string option"
  st_routes :: "(string \<times> policy_route) list option"
  st_proxy_health :: "int option"
  st_proxy_image :: "(int \<times> json option) option"
  st_sandbox_dir :: string
  st_image :: string
  st_seccomp :: "string option"
  st_db_env :: "string option"
  st_db_dir_ok :: bool
  st_db_ok :: bool
  st_timeout :: int
  st_stale :: "string option"
  st_now :: instant
  st_mono :: instant
  st_mono_later :: instant

text \<open>\<open>check_docker_available\<close> and \<open>check_image_exists\<close>; every exception counts as no.\<close>

definition check_docker_available :: "int option \<Rightarrow> bool" where
  "check_docker_available answer \<longleftrightarrow> answer = Some 200"

definition check_image_exists :: "(int \<times> json option) option \<Rightarrow> bool" where
  "check_image_exists answer =
    (case answer of
       Some (code, body) \<Rightarrow>
         code = 200 \<and> (case body of
             None \<Rightarrow> False
           | Some v \<Rightarrow> (case json_get ''exists'' (JBool False) v of Some e \<Rightarrow> truthy e | None \<Rightarrow> False))
     | None \<Rightarrow> False)"

definition routes_of :: "site \<Rightarrow> (string \<times> policy_route) list" where
  "routes_of Z = (case st_routes Z of Some rs \<Rightarrow> rs | None \<Rightarrow> [])"

definition build_lifecycle :: "site \<Rightarrow> registry \<Rightarrow> cap_states \<Rightarrow> lifecycle" where
  "build_lifecycle Z R S =
    (let rs = map snd (routes_of Z) in
     \<lparr>lc_validator = \<lparr>v_registry = R, v_states = S, v_endpoints = build_egress_endpoints_from_routes rs,
        v_ceilings = default_ceilings\<rparr>,
      lc_engine = new_engine (st_sandbox_dir Z) (st_image Z), lc_registry = R, lc_policies = load_from_routes rs [],
      lc_states = Some S,
      lc_has_executor = (check_docker_available (st_proxy_health Z) \<and> check_image_exists (st_proxy_image Z)),
      lc_seccomp = st_seccomp Z\<rparr>)"

definition build_monitor :: "site \<Rightarrow> disk \<Rightarrow> db_module \<Rightarrow> event list \<Rightarrow> monitor" where
  "build_monitor Z K M trail =
    new_monitor (get_db_path M \<noteq> None \<and> st_db_ok Z) (map fst (routes_of Z)) (Some (dk_circuits K)) trail"

definition build_packager :: "site \<Rightarrow> sens_config option" where
  "build_packager Z = map_option (\<lambda>(dflt, ds). load_sensitivity (st_compile Z) dflt ds) (st_classes Z)"

definition build_jobs :: "site \<Rightarrow> disk \<Rightarrow> db_module \<Rightarrow> cap_states \<Rightarrow> event list \<Rightarrow> jobs_state" where
  "build_jobs Z K M S trail =
    (let up = get_db_path M \<noteq> None \<and> st_db_ok Z in
     restart up
       \<lparr>alog = trail, caps = S, wk_contexts = [], wk_started = [], wk_windows = [], context_store = dk_contexts K, jobs = [],
        idem = \<lparr>idem_records = [], review_records = [], source_records = [], db = (if up then Some (dk_db K) else None)\<rparr>,
        job_db = up, queue = [], held_locks = [], results_dir = dk_results K, contexts = [], ticks = 0\<rparr>)"

definition build_hub :: "site \<Rightarrow> disk \<Rightarrow> db_module \<Rightarrow> event list \<Rightarrow> hub" where
  "build_hub Z K M trail =
    new_hub (get_db_path M \<noteq> None \<and> st_db_ok Z) (st_now Z) (st_mono Z) (dk_hub_row K) (dk_beat_row K) trail"

text \<open>The module's globals after the start.\<close>

record hub_process =
  hp_jobs :: jobs_state
  hp_hub :: hub
  hp_monitor :: monitor
  hp_admin :: admin
  hp_wiring :: wiring
  hp_db :: db_module

datatype boot = Raised py_exc | Exited | Started hub_process

text \<open>
  \<open>lifespan\<close> up to its \<open>yield\<close>, in the order of the code: gate, startup sequence, lifecycle, monitor, packager,
  database, job manager, hub state, recovery, self-check. \<open>base\<close> holds what the wiring does not build. The call that
  warms up Ollama and the loops it starts are left out; the second component is the trail.
\<close>

definition registry_of :: "registry \<Rightarrow> registry" where
  "registry_of data = (case registry_load data of Inr R \<Rightarrow> R | Inl _ \<Rightarrow> [])"

definition assemble_hub ::
    "env \<Rightarrow> world \<Rightarrow> site \<Rightarrow> disk \<Rightarrow> wiring \<Rightarrow> startup_report \<Rightarrow> startup_state \<Rightarrow> (boot \<times> event list) option" where
  "assemble_hub E W Z K H rep s =
    (let R = registry_of (st_registry Z);
         L = build_lifecycle Z R (caps s);
         A = set_worker_lifecycle L (admin_init R (Some rep) \<lparr>ad_registry = None, ad_report = None, ad_lifecycle = None\<rparr>);
         M = build_monitor Z K closed_db (alog s);
         D = snd (init_db None (st_db_env Z) (st_db_dir_ok Z) (st_db_ok Z) closed_db);
         J = build_jobs Z K D (caps s) (alog s);
         U = build_hub Z K D (alog s)
     in (case run E (startup_recovery W (st_stale Z)) J of
           None \<Rightarrow> None
         | Some (Inl x, t) \<Rightarrow> Some (Raised x, alog t)
         | Some (Inr report, t) \<Rightarrow>
             Some (Started
               \<lparr>hp_jobs = t, hp_hub = startup_self_check (st_timeout Z) (st_db_ok Z) (st_mono_later Z) U, hp_monitor = M, hp_admin = A,
                hp_wiring = H\<lparr>hb_registry := R, hb_lifecycle := L, hb_config := build_packager Z\<rparr>, hp_db = D\<rparr>, alog t)))"

definition boot_hub ::
    "env \<Rightarrow> world \<Rightarrow> codec \<Rightarrow> (cap_states \<Rightarrow> string) \<Rightarrow> site \<Rightarrow> disk \<Rightarrow> wiring \<Rightarrow> event list \<Rightarrow> (boot \<times> event list) option" where
  "boot_hub E W C hash_state Z K H trail =
    (case validate_all C (st_tail Z) (st_observed Z) of
       Inl x \<Rightarrow> Some (Raised x, trail)
     | Inr rep \<Rightarrow>
         (case startup_gate E rep \<lparr>alog = trail\<rparr> of
            (Inl x, a) \<Rightarrow> Some (Raised x, alog a)
          | (Inr _, a) \<Rightarrow>
              (case startup_run E hash_state (st_now Z) (st_registry Z) (st_config_hash Z) (st_sensitivity Z) (st_ollama Z)
                  (dk_state_file K) \<lparr>alog = alog a, caps = dk_caps K, meta = dk_meta K\<rparr> of
                 (Inl x, s) \<Rightarrow> Some (Raised x, alog s)
               | (Inr res, s) \<Rightarrow> if \<not> success res then Some (Exited, alog s) else assemble_hub E W Z K H rep s)))"

section \<open>Health\<close>

text \<open>The cached probe of Ollama: the last status and when it was read (in microseconds, like the time to live).\<close>

definition OLLAMA_CACHE_TTL :: instant where
  "OLLAMA_CACHE_TTL = 30 * 1000000"

definition cached_ollama_status :: "instant \<Rightarrow> int option \<Rightarrow> string \<times> instant \<Rightarrow> string \<times> (string \<times> instant)" where
  "cached_ollama_status clk answer cache =
    (if clk - snd cache < OLLAMA_CACHE_TTL then (fst cache, cache)
     else (let st = (if answer = Some 200 then ''available'' else ''unavailable'') in (st, (st, clk))))"

definition manager_missing :: http where
  "manager_missing = (503, not_ready_body ''Orchestrator not initialized'')"

definition hub_missing :: http where
  "hub_missing = (503, not_ready_body ''Hub state manager not initialized'')"

definition health_check ::
    "bool \<Rightarrow> bool \<Rightarrow> instant \<Rightarrow> int option \<Rightarrow> monitor option \<Rightarrow> hub option \<Rightarrow> string \<times> instant \<Rightarrow> http \<times> (string \<times> instant)" where
  "health_check up audit_ok clk answer M U cache =
    (if \<not> up then (manager_missing, cache)
     else (case cached_ollama_status clk answer cache of
       (ollama, cache') \<Rightarrow>
         ((200, JObj [(''orchestrator_status'', JStr ''running''),
            (''audit_log_status'', JStr (if audit_ok then ''connected'' else ''unavailable'')), (''ollama_status'', JStr ollama),
            (''last_successful_cloud_probe_timestamp'', jopt JInt (Option.bind M last_successful_probe)),
            (''hub_suspended'', JBool (case U of None \<Rightarrow> False | Some u \<Rightarrow> hub_st u \<noteq> ACTIVE))]), cache')))"

section \<open>Commands to the hub\<close>

definition with_hub :: "(hub \<Rightarrow> http \<times> hub) \<Rightarrow> hub option \<Rightarrow> http \<times> hub option" where
  "with_hub f U = (case U of None \<Rightarrow> (hub_missing, None) | Some u \<Rightarrow> map_prod id Some (f u))"

definition suspend_endpoint :: "env \<Rightarrow> bool \<Rightarrow> string \<Rightarrow> hub option \<Rightarrow> http \<times> hub option" where
  "suspend_endpoint E dbok host = with_hub (\<lambda>u. ((200, JObj [(''status'', JStr ''suspended'')]), hub_suspend E dbok host u))"

definition resume_endpoint :: "env \<Rightarrow> bool \<Rightarrow> string \<Rightarrow> hub option \<Rightarrow> http \<times> hub option" where
  "resume_endpoint E dbok host = with_hub (\<lambda>u. ((200, JObj [(''status'', JStr ''active'')]), hub_resume E dbok host u))"

definition confirm_endpoint :: "env \<Rightarrow> bool \<Rightarrow> string \<Rightarrow> hub option \<Rightarrow> http \<times> hub option" where
  "confirm_endpoint E dbok host = with_hub (\<lambda>u. case confirm_authority E dbok host u of
    ((st, from_state), u') \<Rightarrow> ((200, JObj [(''status'', JStr st), (''resumed_from'', JStr from_state)]), u'))"

text \<open>Asking for the status is the heartbeat.\<close>

definition hub_status_endpoint :: "bool \<Rightarrow> string \<Rightarrow> instant \<Rightarrow> instant \<Rightarrow> instant \<Rightarrow> hub option \<Rightarrow> http \<times> hub option" where
  "hub_status_endpoint dbok host wall clk later = with_hub (\<lambda>u. let u = record_heartbeat dbok wall clk u in
    ((200, JObj [(''state'', JStr (hub_text (hub_st u))),
       (''last_client_heartbeat'', jopt JInt (map_option (\<lambda>b. wall - (clk - b)) (last_beat u))),
       (''seconds_since_heartbeat'', jopt JInt (seconds_since_last_heartbeat later u)), (''hostname'', JStr host)]), u))"

section \<open>Jobs\<close>

record submit_request =
  sq_input :: string
  sq_modality :: string
  sq_device :: string
  sq_key :: "string option"
  sq_source :: "string option"
  sq_event :: "string option"
  sq_client_time :: "string option"

definition audit_unavailable :: http where
  "audit_unavailable = (503, JObj [(''error'', JStr ''audit_log_unavailable''),
    (''detail'', JStr ''Cannot accept jobs without audit logging.'')])"

text \<open>The answer to a job, and to each exception; those of a replay carry the id of the job that owns the source event.\<close>

definition submitted_json :: "job \<Rightarrow> json" where
  "submitted_json j = JObj [(''job_id'', JStr (j_id j)), (''status'', JStr (status_text (j_status j))), (''created_at'', JInt (j_created_at j))]"

definition source_event_conflict_body :: "string \<Rightarrow> json" where
  "source_event_conflict_body jid = JObj [(''source_event_replay'', JBool True), (''source_event_conflict'', JBool True),
    (''conflict_type'', JStr ''intent_mismatch''), (''original_job_id'', JStr jid),
    (''action_required'', JStr ''reconfirmation_required''),
    (''adr_compliance'', JStr ''partial_until_reconfirmation_path_exists''),
    (''message'', JStr (''Same source event identity was replayed with changed intent. '' @
      ''Duplicate execution was blocked. Human reconfirmation path is '' @
      ''required before changed intent can be acted on.''))]"

definition source_event_pending_body :: "string \<Rightarrow> json" where
  "source_event_pending_body jid = JObj [(''source_event_replay'', JBool True), (''source_event_conflict'', JBool False),
    (''consistency_pending'', JBool True), (''original_job_id'', JStr jid), (''action_required'', JStr ''retry''),
    (''retryable'', JBool True),
    (''message'', JStr (''Source event already maps to an existing job that is not yet '' @
      ''durable. Duplicate execution was blocked. Retry shortly.''))]"

definition submit_error :: "py_exc \<Rightarrow> http" where
  "submit_error x = (case x of
      IntentConflict jid \<Rightarrow> (409, source_event_conflict_body jid)
    | ConsistencyPending jid \<Rightarrow> (503, source_event_pending_body jid)
    | _ \<Rightarrow> audit_unavailable)"

definition submit_endpoint :: "world \<Rightarrow> bool \<Rightarrow> submit_request \<Rightarrow> http task" where
  "submit_endpoint W up q =
    (if \<not> up then Ret manager_missing
     else co_catch
       (co_bind (submit_job W (sq_input q) (sq_modality q) (sq_device q) (sq_key q) (sq_source q) (sq_event q) (sq_client_time q))
         (\<lambda>j. Ret (202, submitted_json j)))
       (\<lambda>x. Ret (submit_error x)))"

definition proposal_json :: "proposal \<Rightarrow> json" where
  "proposal_json p = JObj [(''proposal_id'', JStr (pr_id p)), (''job_id'', JStr (pr_job p)), (''result_id'', JStr (pr_result_id p)),
    (''response_hash'', JStr (pr_hash p)), (''proposed_by'', JStr (pr_by p)), (''governing_capability_id'', JStr (pr_capability p)),
    (''confidence'', JNum (pr_confidence p)), (''auto_accept_at'', JNull)]"

definition job_json :: "job \<Rightarrow> proposal option \<Rightarrow> json" where
  "job_json j p = JObj [(''job_id'', JStr (j_id j)), (''status'', JStr (status_text (j_status j))), (''created_at'', JInt (j_created_at j)),
    (''classified_at'', jopt JInt (j_classified_at j)), (''dispatched_at'', jopt JInt (j_dispatched_at j)),
    (''response_received_at'', jopt JInt (j_response_at j)), (''delivered_at'', jopt JInt (j_delivered_at j)),
    (''request_category'', jopt JStr (j_category j)), (''routing_recommendation'', jopt JStr (j_routing j)),
    (''result'', jopt JStr (j_result j)), (''error'', jopt JStr (j_error j)), (''proposal'', jopt proposal_json p)]"

definition get_job :: "jobs_state \<Rightarrow> string \<Rightarrow> job option" where
  "get_job s jid = map_of (jobs s) jid"

definition get_job_endpoint :: "bool \<Rightarrow> string \<Rightarrow> jobs_state \<Rightarrow> http" where
  "get_job_endpoint up jid s =
    (if \<not> up then manager_missing
     else (case get_job s jid of
         None \<Rightarrow> (404, detail_body ''Job not found'')
       | Some j \<Rightarrow> (200, job_json j (get_proposal s jid))))"

text \<open>The status text is parsed and the bounds of the page are checked before the handler runs, the cursor in it.\<close>

definition JOB_STATUSES :: "job_status list" where
  "JOB_STATUSES = [Submitted, Classified, Dispatched, Response_received, Delivered, Failed, Revoked, Proposal_ready, Closed_no_action]"

definition list_jobs_endpoint :: "(string \<Rightarrow> bool) \<Rightarrow> bool \<Rightarrow> string \<Rightarrow> string option \<Rightarrow> int \<Rightarrow> jobs_state \<Rightarrow> http" where
  "list_jobs_endpoint valid_uuid up status since limit s =
    (case List.find (\<lambda>st. status_text st = status) JOB_STATUSES of
       None \<Rightarrow> (422, detail_body ''enum'')
     | Some st \<Rightarrow>
         if limit < 1 \<or> limit > 200 then (422, detail_body ''limit'')
         else if \<not> up then manager_missing
         else if (case since of None \<Rightarrow> False | Some c \<Rightarrow> \<not> valid_uuid c)
         then (422, detail_body ''Malformed 'since' cursor'')
         else (let page = list_jobs s st since (nat limit) in
           (200, JObj [(''items'', JArr (map (\<lambda>(j, p). job_json j p) (items page))), (''next_cursor'', jopt JStr (next_cursor page)),
             (''count'', JInt (int (length (items page))))])))"

definition review_endpoint ::
    "world \<Rightarrow> bool \<Rightarrow> string \<Rightarrow> string \<Rightarrow> string \<Rightarrow> string \<Rightarrow> string \<Rightarrow> string option \<Rightarrow> http task" where
  "review_endpoint W up jid decision rid rhash key modified =
    (if \<not> up then Ret manager_missing
     else co_bind (review_job W jid decision rid rhash key modified ''phone'') (\<lambda>(code, body). Ret (int code, JObj body)))"

definition override_endpoint ::
    "world \<Rightarrow> job_deps \<Rightarrow> bool \<Rightarrow> string \<Rightarrow> string \<Rightarrow> string \<Rightarrow> string \<Rightarrow> string \<Rightarrow> string option \<Rightarrow> http task" where
  "override_endpoint W D up jid otype target detail device modified =
    (if \<not> up then Ret manager_missing
     else Get (\<lambda>s. if get_job s jid = None then Ret (404, detail_body ''Job not found'')
       else co_bind (override_job W D jid otype target detail device modified)
         (\<lambda>r. Ret (200, JObj (map (map_prod id JStr) r)))))"

section \<open>What a start gives\<close>

lemma assemble_cases:
  assumes "assemble_hub E W Z K H rep s = Some (Started P, tr)"
  obtains t where "hp_jobs P = t" "hp_monitor P = build_monitor Z K closed_db (alog s)"
    "hp_hub P = startup_self_check (st_timeout Z) (st_db_ok Z) (st_mono_later Z)
       (build_hub Z K (snd (init_db None (st_db_env Z) (st_db_dir_ok Z) (st_db_ok Z) closed_db)) (alog s))"
    "hb_lifecycle (hp_wiring P) = build_lifecycle Z (registry_of (st_registry Z)) (caps s)"
    "hb_registry (hp_wiring P) = registry_of (st_registry Z)" "hb_config (hp_wiring P) = build_packager Z"
  using assms by (auto simp: assemble_hub_def Let_def split: option.splits prod.splits sum.splits)

lemma boot_cases:
  assumes "boot_hub E W C hs Z K H trail = Some (Started P, tr)"
  obtains rep a res s where "validate_all C (st_tail Z) (st_observed Z) = Inr rep" "startup_gate E rep \<lparr>alog = trail\<rparr> = (Inr (), a)"
    "startup_run E hs (st_now Z) (st_registry Z) (st_config_hash Z) (st_sensitivity Z) (st_ollama Z) (dk_state_file K)
       \<lparr>alog = alog a, caps = dk_caps K, meta = dk_meta K\<rparr> = (Inr res, s)" "success res"
    "assemble_hub E W Z K H rep s = Some (Started P, tr)"
  using assms by (auto simp: boot_hub_def split: sum.splits prod.splits if_splits)


text \<open>
  The circuit breakers forget. The monitor is built before the database is opened, so it never has one: whatever
  circuits the last process stored, and although the database is there, the hub starts with every route of the
  configuration available, and nothing it learns is written.
\<close>

theorem circuits_forgotten_at_start:
  assumes "boot_hub E W C hs Z K H trail = Some (Started P, tr)"
  shows "circuit_db (hp_monitor P) = None \<and> get_available_routes (hp_monitor P) = remdups (map fst (routes_of Z)) \<and>
    (\<forall>rid \<in> set (map fst (routes_of Z)). get_route_health (hp_monitor P) rid = Some fresh_health)"
proof (rule boot_cases [OF assms])
  fix rep a res s
  assume as: "assemble_hub E W Z K H rep s = Some (Started P, tr)"
  have "hp_monitor P = build_monitor Z K closed_db (alog s)" by (rule assemble_cases [OF as])
  then have M: "hp_monitor P = \<lparr>alog = alog s, route_ids = remdups (map fst (routes_of Z)),
      health = map (\<lambda>rid. (rid, fresh_health)) (remdups (map fst (routes_of Z))), circuit_db = None\<rparr>"
    by (simp add: build_monitor_def new_monitor_def load_circuits_def get_db_path_def closed_db_def)
  have "map_of (map (\<lambda>rid. (rid, fresh_health)) xs) k = Some fresh_health" if "k \<in> set xs" for k and xs :: "string list"
    using that by (induction xs) auto
  moreover have "filter (\<lambda>(rid, rh). circuit rh \<in> {CLOSED, HALF_OPEN}) (map (\<lambda>rid. (rid, fresh_health)) xs) =
      map (\<lambda>rid. (rid, fresh_health)) xs" for xs :: "string list"
    by (induction xs) (simp_all add: fresh_health_def)
  ultimately show ?thesis by (simp add: M get_available_routes_def get_route_health_def comp_def)
qed

section \<open>What an answer to a submission means\<close>


section \<open>A finished job after a restart\<close>

lemma new_store_up:
  "db (new_store True (Some D)) = Some (D\<lparr>idem_tab := filter (\<lambda>(k, r). key_live (jobs_tab D) r) (idem_tab D)\<rparr>)"
  "source_records (new_store True (Some D)) = source_tab D"
  by (simp_all add: new_store_def load_from_db_def purge_terminal_keys_def Let_def)

lemma new_store_None: "db (new_store up None) = None"
  by (simp add: new_store_def load_from_db_def purge_terminal_keys_def Let_def)

lemma restart_up:
  assumes "db (idem s) = Some D"
  shows "jobs (restart True s) = fold (\<lambda>r. AList.update (row_job_id r) (row_data r))
      (filter (\<lambda>r. row_status r \<notin> {''delivered'', ''failed'', ''revoked''}) (jobs_tab D)) []"
    and "idem (restart True s) = new_store True (Some D)" and "job_db (restart True s)" and "held_locks (restart True s) = []"
  using assms by (simp_all add: restart_def load_jobs_from_db_def new_store_up)

lemma fold_update_None:
  "(\<forall>r \<in> set rs. row_job_id r \<noteq> jid) \<Longrightarrow> map_of d jid = None \<Longrightarrow>
    map_of (fold (\<lambda>r. AList.update (row_job_id r) (row_data r)) rs d) jid = None"
  by (induction rs arbitrary: d) auto

lemma find_row: "distinct (map row_job_id rows) \<Longrightarrow> row \<in> set rows \<Longrightarrow> List.find (\<lambda>r. row_job_id r = row_job_id row) rows = Some row"
  by (induction rows) auto

text \<open>A submission whose source event is owned, with the same intent, by a job that can be loaded.\<close>

lemma submit_replay:
  assumes "source_owner s (source_event_key src ev) = Some r" and "sr_hash r = h" and "loadable s (sr_job_id r) = Some j"
    and "\<And>n. db_up W n"
  shows "\<exists>t. run E (submit_source W raw_input modality device src ev client_time h) s = Some (Inr j, t) \<and> jobs t = jobs s"
proof -
  obtain S' where c: "check_and_store_source_event True (clock W (Suc (ticks s))) src ev (uuid_of W (ticks s)) h (idem s) =
      ((if sr_hash r = h then ''equivalent'' else ''conflict'', r), S')" "db S' = db (idem s)"
    using owned_check [OF assms(1)] by blast
  have "loadable (s\<lparr>ticks := n, idem := S'\<rparr>) (sr_job_id r) = loadable s (sr_job_id r)" for n
    using c(2) by (simp add: loadable_def load_job_by_id_def cong: option.case_cong)
  then show ?thesis using c(1) assms(2,3,4) by (simp add: submit_source_def run_bind run_store_op run_find_job)
qed

text \<open>
  C40: A replay hands out a job that cannot be looked up. After a restart a job that was delivered, failed or was
  revoked is in the database and not in memory. Submitting its source event again is answered 202 with its id; asking
  for that id is answered 404.
\<close>

theorem finished_job_not_found:
  assumes "db (idem s) = Some D" and "distinct (map row_job_id (jobs_tab D))" and "row \<in> set (jobs_tab D)"
    and "row_status row \<in> {''delivered'', ''failed'', ''revoked''}" and "j_id (row_data row) = row_job_id row"
    and "sq_source q = Some src" and "sq_event q = Some ev" and "map_of (source_tab D) (source_event_key src ev) = Some r"
    and "sr_job_id r = row_job_id row"
    and "sr_hash r = compute_intent_equivalence_hash (sha W) (nfc W) (sq_input q) (sq_modality q)" and "\<And>n. db_up W n"
  shows "\<exists>t. run E (submit_endpoint W True q) (restart True s) = Some (Inr (202, submitted_json (row_data row)), t) \<and>
    get_job_endpoint True (row_job_id row) t = (404, detail_body ''Job not found'')"
proof -
  let ?s = "restart True s" let ?k = "source_event_key src ev"
  note start = restart_up [OF assms(1)]
  have gone: "map_of (jobs ?s) (row_job_id row) = None"
    unfolding start(1)
  proof (rule fold_update_None)
    have "r' = row" if "r' \<in> set (jobs_tab D)" "row_job_id r' = row_job_id row" for r'
      using that assms(2,3) by (auto simp: distinct_map inj_on_def)
    then show "\<forall>r' \<in> set (filter (\<lambda>r. row_status r \<notin> {''delivered'', ''failed'', ''revoked''}) (jobs_tab D)).
        row_job_id r' \<noteq> row_job_id row"
      using assms(4) by auto
  qed simp
  let ?locked = "?s\<lparr>held_locks := [?k]\<rparr>"
  have own: "source_owner ?locked ?k = Some r"
    by (simp add: source_owner_def start new_store_up assms(8))
  have "loadable ?locked (sr_job_id r) = Some (row_data row)"
    using gone start find_row [OF assms(2,3)] by (simp add: loadable_def load_job_by_id_def new_store_up assms(9))
  from submit_replay [OF own assms(10) this assms(11), where E = E and raw_input = "sq_input q" and modality = "sq_modality q" and
      device = "sq_device q" and client_time = "sq_client_time q"]
  obtain t where
    t: "run E (submit_source W (sq_input q) (sq_modality q) (sq_device q) src ev (sq_client_time q)
       (compute_intent_equivalence_hash (sha W) (nfc W) (sq_input q) (sq_modality q))) ?locked = Some (Inr (row_data row), t)"
      "jobs t = jobs ?s"
    by auto
  then have "run E (submit_job W (sq_input q) (sq_modality q) (sq_device q) (sq_key q) (sq_source q) (sq_event q) (sq_client_time q)) ?s =
      Some (Inr (row_data row), t\<lparr>held_locks := remove1 ?k (held_locks t)\<rparr>)"
    using assms(6,7) start(4) by (simp add: submit_job_def run_with_lock)
  then have "run E (submit_endpoint W True q) ?s =
      Some (Inr (202, submitted_json (row_data row)), t\<lparr>held_locks := remove1 ?k (held_locks t)\<rparr>)"
    by (simp add: submit_endpoint_def run_catch run_bind)
  then show ?thesis using gone t(2) by (simp add: get_job_endpoint_def get_job_def)
qed

section \<open>A concrete start\<close>

text \<open>The last process stored an open circuit for the only route; a client was heard of five seconds ago.\<close>

definition sample_site :: site where
  "sample_site = \<lparr>st_observed = fresh_hub, st_tail = 100, st_registry = sample_registry, st_config_hash = ''c'',
     st_sensitivity = Startup.sample_sensitivity, st_classes = None, st_compile = (\<lambda>_. None), st_ollama = (None, None),
     st_routes = Some (map (Pair ''claude'') sample_routes), st_proxy_health = Some 200,
     st_proxy_image = Some (200, Some (JObj [(''exists'', JBool True)])), st_sandbox_dir = ''/var/drnt/workers'', st_image = ''w'',
     st_seccomp = None, st_db_env = None, st_db_dir_ok = True, st_db_ok = True, st_timeout = 600, st_stale = None,
     st_now = 5000000, st_mono = 0, st_mono_later = 0\<rparr>"

definition sample_disk :: disk where
  "sample_disk = \<lparr>dk_state_file = True, dk_caps = initialize_from_registry 0 sample_registry,
     dk_meta = \<lparr>last_config_hash = Some ''c'', last_ollama_model = None, last_ollama_digest = None\<rparr>, dk_db = empty_db,
     dk_circuits = [(''claude'', fresh_health\<lparr>circuit := OPEN\<rparr>)], dk_hub_row = Some ACTIVE, dk_beat_row = Some 0,
     dk_contexts = [], dk_results = []\<rparr>"

lemma recovery_idle:
  assumes "jobs s = []"
  shows "\<exists>t. run good_env (startup_recovery W raw) s = Some (Inr (report_of []), t)"
  using assms by (simp add: startup_recovery_def run_recovery_def now_def run_bind run_seq run_logged co_seq_def)

lemma sample_boot:
  "\<exists>P tr. boot_hub good_env sample_world link_codec (\<lambda>_. ''h'') sample_site sample_disk (sample_hub ''cloud'' ''claude'') [] =
    Some (Started P, tr)"
proof -
  obtain rep where rep: "validate_all link_codec 100 fresh_hub = Inr rep"
    by (cases "validate_all link_codec 100 fresh_hub")
      (simp_all add: validate_all_def check_egress_posture_def egress_critical_def fresh_hub_def json_contains_def
        check_default_deny_def json_iter_def check_audit_integrity_def)
  have "map_sum id sv_permitted (validate_all link_codec 100 fresh_hub) = Inr True" by code_simp
  then have "sv_permitted rep" using rep by simp
  then obtain a where gate: "startup_gate good_env rep \<lparr>alog = []\<rparr> = (Inr (), a)" by (simp add: startup_gate_def Let_def)
  have "validate_sensitivity_config Startup.sample_sensitivity = []"
    by (simp add: validate_sensitivity_config_def Startup.sample_sensitivity_def)
  then obtain res s where su: "startup_run good_env (\<lambda>_. ''h'') 5000000 sample_registry ''c'' Startup.sample_sensitivity (None, None) True
      \<lparr>alog = alog a, caps = initialize_from_registry 0 sample_registry,
        meta = \<lparr>last_config_hash = Some ''c'', last_ollama_model = None, last_ollama_digest = None\<rparr>\<rparr> = (Inr res, s)" "success res"
    using sample_registry_load sample_gates_ok by (simp add: startup_run_def bind_r_def Let_def model_changed_def)
  have idle: "jobs (build_jobs sample_site sample_disk M S tr) = []" for M S tr
    by (simp add: build_jobs_def restart_def load_jobs_from_db_def sample_disk_def empty_db_def new_store_up new_store_None Let_def)
  have "boot_hub good_env sample_world link_codec (\<lambda>_. ''h'') sample_site sample_disk (sample_hub ''cloud'' ''claude'') [] =
      assemble_hub good_env sample_world sample_site sample_disk (sample_hub ''cloud'' ''claude'') rep s"
    using rep gate su by (simp add: boot_hub_def sample_site_def sample_disk_def)
  moreover have "\<exists>P tr. assemble_hub good_env sample_world sample_site sample_disk (sample_hub ''cloud'' ''claude'') rep s = Some (Started P, tr)"
    using recovery_idle [OF idle, of sample_world "st_stale sample_site" "snd (init_db None (st_db_env sample_site) (st_db_dir_ok sample_site)
      (st_db_ok sample_site) closed_db)" "caps s" "alog s"]
    by (auto simp: assemble_hub_def Let_def)
  ultimately show ?thesis by simp
qed


theorem circuits_forgotten_at_start_witness:
  "\<exists>P tr. boot_hub good_env sample_world link_codec (\<lambda>_. ''h'') sample_site sample_disk (sample_hub ''cloud'' ''claude'') [] =
     Some (Started P, tr) \<and> is_route_available (hp_monitor P) ''claude'' \<and>
     map_of (dk_circuits sample_disk) ''claude'' = Some (fresh_health\<lparr>circuit := OPEN\<rparr>)"
proof -
  obtain P tr where b: "boot_hub good_env sample_world link_codec (\<lambda>_. ''h'') sample_site sample_disk (sample_hub ''cloud'' ''claude'') [] =
     Some (Started P, tr)" using sample_boot by blast
  have "''claude'' \<in> set (map fst (routes_of sample_site))" by (simp add: routes_of_def sample_site_def sample_routes_def)
  then have "get_route_health (hp_monitor P) ''claude'' = Some fresh_health" using circuits_forgotten_at_start [OF b] by blast
  then show ?thesis using b by (simp add: is_route_available_def get_route_health_def fresh_health_def sample_disk_def)
qed

definition finished_row :: "job job_row" where
  "finished_row = job_row_of ((new_job ''j0'' ''hi'' ''text'' ''watch'' 0)\<lparr>j_status := Delivered\<rparr>)"

definition finished_db :: "job database" where
  "finished_db = empty_db\<lparr>jobs_tab := [finished_row], source_tab :=
     [(source_event_key ''watch_app'' ''e1'', \<lparr>sr_job_id = ''j0'', sr_hash = compute_intent_equivalence_hash id id ''hi'' ''text'',
        sr_client_source = ''watch_app'', sr_event_id = ''e1'', sr_created_at = 0\<rparr>)]\<rparr>"

definition watch_request :: submit_request where
  "watch_request = \<lparr>sq_input = ''hi'', sq_modality = ''text'', sq_device = ''watch'', sq_key = None, sq_source = Some ''watch_app'',
     sq_event = Some ''e1'', sq_client_time = None\<rparr>"

theorem finished_job_not_found_witness:
  "\<exists>body t. run good_env (submit_endpoint sample_world True watch_request) (restart True (empty_jobs (Some finished_db))) =
     Some (Inr (202, body), t) \<and> get_job_endpoint True ''j0'' t = (404, detail_body ''Job not found'')"
proof -
  have "row_job_id finished_row = ''j0''" by (simp add: finished_row_def job_row_of_def new_job_def)
  then show ?thesis
    using finished_job_not_found [of "empty_jobs (Some finished_db)" finished_db finished_row watch_request "''watch_app''" "''e1''"
        "\<lparr>sr_job_id = ''j0'', sr_hash = compute_intent_equivalence_hash id id ''hi'' ''text'', sr_client_source = ''watch_app'',
          sr_event_id = ''e1'', sr_created_at = 0\<rparr>" sample_world good_env]
    by (auto simp: empty_jobs_def finished_db_def finished_row_def job_row_of_def new_job_def status_text_def watch_request_def
        sample_world_def)
qed

definition plain_request :: submit_request where
  "plain_request = \<lparr>sq_input = ''hi'', sq_modality = ''text'', sq_device = ''phone'', sq_key = Some ''k'', sq_source = None,
     sq_event = None, sq_client_time = None\<rparr>"


end
