(* ===== verification/State_File.thy ===== *)
theory State_File
  imports Capability_State
begin

text \<open>
  The state file of the capabilities: \<open>load\<close> and \<open>save\<close> of \<open>orchestrator/capability_state.py\<close>. A directory is a dict
  from paths to texts. \<open>save\<close> writes a temporary file and renames it; what the operating system answers to each
  call is an argument, and the result carries every state the directory goes through, which is what a crash can
  leave behind.
\<close>

section \<open>Saving and loading\<close>

type_synonym file_system = "(string, string) dict"

text \<open>\<open>None\<close> is a call that raises; \<open>os.write\<close> answers how many bytes it took.\<close>

record os_answers =
  os_makedirs :: bool
  os_mkstemp :: "string option"
  os_write :: "nat option"
  os_close :: bool
  os_replace :: bool

text \<open>
  The handler asks \<open>os.get_inheritable(fd)\<close> whether the descriptor is still open. After \<open>os.close\<close> it is not, and the
  question raises (\<open>EBADF\<close>) before the temporary file is removed.
\<close>

definition save_state ::
    "os_answers \<Rightarrow> string \<Rightarrow> string \<Rightarrow> string \<Rightarrow> file_system \<Rightarrow> (py_exc + unit) \<times> file_system list" where
  "save_state Q dir path serialized F =
    (if dir \<noteq> [] \<and> \<not> os_makedirs Q then (Inl OSError, [F])
     else (case os_mkstemp Q of
         None \<Rightarrow> (Inl OSError, [F])
       | Some tmp \<Rightarrow>
           (let F1 = AList.update tmp [] F in
            case os_write Q of
              None \<Rightarrow> (Inl OSError, [F, F1, AList.delete tmp F1])
            | Some n \<Rightarrow>
                (let written = take n serialized; F2 = AList.update tmp written F1 in
                 if \<not> os_close Q then (Inl OSError, [F, F1, F2])
                 else if \<not> os_replace Q then (Inl OSError, [F, F1, F2])
                 else (Inr (), [F, F1, F2, AList.update path written (AList.delete tmp F2)])))))"

definition load_state :: "(string \<Rightarrow> json option) \<Rightarrow> string \<Rightarrow> file_system \<Rightarrow> py_exc + json" where
  "load_state loads path F =
    (case map_of F path of
       None \<Rightarrow> Inl OSError
     | Some txt \<Rightarrow> (case loads txt of None \<Rightarrow> Inl (ValueError ''not JSON'') | Some v \<Rightarrow> Inr v))"

section \<open>What a save leaves\<close>


text \<open>
  Two ways in which the care is lost. A rename that fails leaves the temporary file behind. And the number that
  \<open>os.write\<close> returns is not looked at: a short write, as on a full disk, is renamed over the good file.
\<close>

lemma failed_rename_leaks_temporary:
  assumes "os_makedirs Q" and "os_mkstemp Q = Some tmp" and "os_write Q = Some n" and "os_close Q" and "\<not> os_replace Q"
  shows "\<exists>Fs. save_state Q dir path serialized F = (Inl OSError, Fs) \<and> map_of (last Fs) tmp = Some (take n serialized)"
  using assms by (simp add: save_state_def Let_def)

lemma short_write_truncates:
  assumes "os_makedirs Q" and "os_mkstemp Q = Some tmp" and "os_write Q = Some n" and "os_close Q" and "os_replace Q"
    and "n < length serialized"
  shows "\<exists>Fs. save_state Q dir path serialized F = (Inr (), Fs) \<and> map_of (last Fs) path = Some (take n serialized) \<and>
    take n serialized \<noteq> serialized"
proof -
  have "length (take n serialized) \<noteq> length serialized" using assms(6) by simp
  then have "take n serialized \<noteq> serialized" by metis
  then show ?thesis using assms by (simp add: save_state_def Let_def)
qed


end
