(* ===== verification/Audit_Tool.thy ===== *)
theory Audit_Tool
  imports Audit_Integrity
begin

text \<open>
  The command line of \<open>orchestrator/audit_integrity.py\<close> (\<open>verify\<close> and
  \<open>repair-tail\<close> with their exit codes, the reports they write) and the messages it produces: the
  text of a report, the actionable startup failure and its recognition in a log.

  The repair manifest and the reports are JSON values; \<open>indented\<close> stands for
  \<open>json.dumps(.., indent=2)\<close>. A path given as \<open>--out\<close> or \<open>--report-json\<close> is the name of
  a file in the audit directory, which is where the printed repair command puts it.
\<close>

section \<open>Messages\<close>

text \<open>The segments of a valid chain, counted by the genesis hashes.\<close>

definition segments :: "codec \<Rightarrow> audit_record list \<Rightarrow> nat" where
  "segments C rs =
    length (filter (\<lambda>r. case parsed r of None \<Rightarrow> False
                        | Some d \<Rightarrow> map_of d ''prev_hash'' = Some (JStr (GENESIS_HASH C))) rs)"

definition report_message :: "codec \<Rightarrow> audit_record list \<Rightarrow> audit_report \<Rightarrow> string" where
  "report_message C rs rep = (case rep_status rep of
      Empty_log \<Rightarrow> ''No audit records present; a new chain initializes from genesis.''
    | Valid \<Rightarrow> ''Chain valid, '' @ nat_str (records_total rep) @ '' records verified across '' @
        nat_str (segments C rs) @ '' segment(s).''
    | Interior_corruption \<Rightarrow> ''Interior corruption: '' @
        (if records_valid rep = 0 then ''first record does not chain from genesis (no trusted prefix)''
         else ''a valid record continues after the first break'') @ ''. Manual investigation required.''
    | Broken_tail \<Rightarrow> ''Broken hash-chain tail: '' @ nat_str (records_valid rep) @
        '' valid records, corrupt suffix from record '' @
        (case first_invalid_record rep of None \<Rightarrow> ''None'' | Some k \<Rightarrow> nat_str k) @ ''.'')"

definition audit_status_text :: "audit_status \<Rightarrow> string" where
  "audit_status_text st = (case st of Valid \<Rightarrow> ''valid'' | Empty_log \<Rightarrow> ''empty''
    | Broken_tail \<Rightarrow> ''broken_tail'' | Interior_corruption \<Rightarrow> ''interior_corruption'')"

definition AUDIT_FAILURE_MARKER :: string where
  "AUDIT_FAILURE_MARKER = ''audit_integrity failed:''"

definition repair_command :: "string \<Rightarrow> string" where
  "repair_command path =
    ''python -m audit_integrity repair-tail --path '' @ path @ '' --out '' @ path @ ''/repair-report.json''"

text \<open>The text of an optional record index in an f-string.\<close>

definition index_text :: "nat option \<Rightarrow> string" where
  "index_text k = (case k of None \<Rightarrow> ''None'' | Some i \<Rightarrow> nat_str i)"

definition format_startup_failure :: "string \<Rightarrow> audit_report \<Rightarrow> string \<Rightarrow> string" where
  "format_startup_failure message rep audit_path = (case rep_status rep of
      Broken_tail \<Rightarrow> AUDIT_FAILURE_MARKER @ '' broken hash-chain tail detected. Valid records: '' @
        nat_str (records_valid rep) @ ''. First invalid record: '' @ index_text (first_invalid_record rep) @
        ''. Repairable: yes. No audit data was deleted. Run: '' @ repair_command audit_path @
        '' (needs a read-write mount of the audit volume; see docs/AUDIT-RECOVERY.md)''
    | Interior_corruption \<Rightarrow> AUDIT_FAILURE_MARKER @ '' interior corruption detected. Valid records: '' @
        nat_str (records_valid rep) @ ''. First invalid record: '' @ index_text (first_invalid_record rep) @
        ''. Repairable: no. Manual investigation required. See docs/AUDIT-RECOVERY.md''
    | _ \<Rightarrow> AUDIT_FAILURE_MARKER @ '' '' @ message @
        '' Run: python -m audit_integrity verify --path '' @ audit_path)"

text \<open>\<open>needle in text\<close> on strings.\<close>

fun text_in :: "string \<Rightarrow> string \<Rightarrow> bool" where
  "text_in needle [] = (needle = [])"
| "text_in needle (c # cs) = (take (length needle) (c # cs) = needle \<or> text_in needle cs)"

definition is_audit_startup_failure :: "string \<Rightarrow> bool" where
  "is_audit_startup_failure log_text = (log_text \<noteq> [] \<and> text_in AUDIT_FAILURE_MARKER log_text)"

section \<open>Commands\<close>

definition opt_index :: "nat option \<Rightarrow> json" where
  "opt_index k = (case k of None \<Rightarrow> JNull | Some i \<Rightarrow> JInt (int i))"

definition to_dict :: "string \<Rightarrow> audit_report \<Rightarrow> json" where
  "to_dict message rep =
    JObj [(''status'', JStr (audit_status_text (rep_status rep))),
      (''records_total'', JInt (int (records_total rep))),
      (''records_valid'', JInt (int (records_valid rep))),
      (''first_invalid_record'', opt_index (first_invalid_record rep)),
      (''last_valid_record'', opt_index (last_valid_record rep)),
      (''last_valid_hash'', JStr (last_valid_hash rep)),
      (''repairable'', JBool (repairable rep)),
      (''corrupt_suffix_sha256'', case corrupt_suffix_sha256 rep of None \<Rightarrow> JNull | Some h \<Rightarrow> JStr h),
      (''files'', JArr (map JStr (rep_files rep))),
      (''message'', JStr message)]"

definition manifest_json :: "string \<Rightarrow> string \<Rightarrow> nat option \<Rightarrow> repair_manifest \<Rightarrow> json" where
  "manifest_json stamp quarantine_path last_valid m =
    JObj [(''repair_id'', JStr stamp), (''repair_type'', JStr ''tail_quarantine''),
      (''records_total'', JInt (int (man_records_total m))),
      (''records_valid'', JInt (int (man_records_valid m))),
      (''last_valid_record_index'', opt_index last_valid),
      (''last_valid_hash'', JStr (man_last_valid_hash m)),
      (''corrupt_from_record_index'', JInt (int (corrupt_from_record_index m))),
      (''corrupt_suffix_path'', JStr quarantine_path),
      (''corrupt_suffix_sha256'', JStr (man_corrupt_sha256 m)),
      (''sealed_file'', JStr (sealed_file m)),
      (''removed_files'', JArr (map JStr (removed_files m))),
      (''new_segment_anchor_hash'', JStr (man_last_valid_hash m)),
      (''operator_required'', JBool (operator_required m)),
      (''post_repair_status'', JStr (audit_status_text (post_repair_status m))),
      (''post_repair_records'', JInt (int (post_repair_records m)))]"

text \<open>
  What \<open>argparse\<close> hands to \<open>main\<close>: the sub-command with its arguments. The result is the exit
  code and the directory afterwards.
\<close>

datatype audit_command = Verify "string option" | Repair_tail "string option"

definition write_out :: "(json \<Rightarrow> string) \<Rightarrow> string option \<Rightarrow> json \<Rightarrow> (string, string) dict \<Rightarrow> (string, string) dict" where
  "write_out indented out j dir = (case out of None \<Rightarrow> dir
    | Some f \<Rightarrow> AList.update f (indented j @ [newline]) dir)"

definition healthy :: "audit_status \<Rightarrow> bool" where
  "healthy st = (st = Valid \<or> st = Empty_log)"

definition cmd_verify ::
    "codec \<Rightarrow> (json \<Rightarrow> string) \<Rightarrow> string option \<Rightarrow> (string, string) dict \<Rightarrow> nat \<times> (string, string) dict" where
  "cmd_verify C indented report_json dir =
    (let report = verify_path C dir;
         message = report_message C (read_records C dir (collect_log_files dir)) report;
         dir' = write_out indented (if report_json = Some [] then None else report_json) (to_dict message report) dir
     in (if healthy (rep_status report) then 0 else 1, dir'))"

definition cmd_repair_tail ::
    "codec \<Rightarrow> (json \<Rightarrow> string) \<Rightarrow> string \<Rightarrow> string \<Rightarrow> string option \<Rightarrow> (string, string) dict
      \<Rightarrow> nat \<times> (string, string) dict" where
  "cmd_repair_tail C indented stamp quarantine_path out dir =
    (case repair_tail C dir of
       (Inl refused, dir') \<Rightarrow> (2, dir')
     | (Inr (m, quarantined), dir') \<Rightarrow>
         (let manifest = manifest_json stamp quarantine_path (last_valid_record (verify_path C dir)) m
          in (if healthy (post_repair_status m) then 0 else 1, write_out indented out manifest dir')))"

definition audit_main ::
    "codec \<Rightarrow> (json \<Rightarrow> string) \<Rightarrow> string \<Rightarrow> string \<Rightarrow> audit_command \<Rightarrow> (string, string) dict
      \<Rightarrow> nat \<times> (string, string) dict" where
  "audit_main C indented stamp quarantine_path command dir = (case command of
      Verify report_json \<Rightarrow> cmd_verify C indented report_json dir
    | Repair_tail out \<Rightarrow> cmd_repair_tail C indented stamp quarantine_path out dir)"

section \<open>The messages are recognised\<close>

lemma text_in_prefix: "text_in needle (needle @ t)"
  by (cases needle; cases t) auto

lemma text_in_append [intro]: "text_in needle t \<Longrightarrow> text_in needle (s @ t)"
  by (induction s) auto

lemma take_prefix: "take (length n) xs = n \<Longrightarrow> take (length n) (xs @ t) = n"
  by (metis append.assoc append_eq_conv_conj append_take_drop_id)

lemma text_in_prepend [intro]: "text_in needle s \<Longrightarrow> text_in needle (s @ t)"
proof (induction s)
  case Nil
  then show ?case by (cases t) simp_all
next
  case (Cons c s)
  then show ?case using take_prefix [of needle "c # s" t] by auto
qed

text \<open>Whatever surrounds a startup failure in the log, the preflight recognises it.\<close>

theorem startup_failure_recognised:
  "is_audit_startup_failure (before @ format_startup_failure message rep path @ after)"
proof -
  have "\<exists>t. format_startup_failure message rep path = AUDIT_FAILURE_MARKER @ t"
    by (auto simp: format_startup_failure_def split: audit_status.splits)
  then obtain t where t: "format_startup_failure message rep path = AUDIT_FAILURE_MARKER @ t" ..
  then show ?thesis
    using text_in_prefix [of AUDIT_FAILURE_MARKER "t @ after"]
    by (auto simp: is_audit_startup_failure_def AUDIT_FAILURE_MARKER_def)
qed

section \<open>Verify and repair\<close>

lemma collect_update_other: "\<not> log_glob f \<Longrightarrow> collect_log_files (AList.update f v dir) = collect_log_files dir"
  by (simp add: collect_log_files_def update_keys)

lemma read_update_other:
  assumes "\<not> log_glob f" and "\<And>g. g \<in> set fs \<Longrightarrow> log_glob g"
  shows "read_records C (AList.update f v dir) fs = read_records C dir fs"
  by (rule read_records_cong) (use assms in \<open>auto simp: text_at_def update_conv\<close>)

text \<open>Writing a file that is no log leaves the verdict as it was.\<close>

lemma verify_update_other:
  assumes "\<not> log_glob f"
  shows "verify_path C (AList.update f v dir) = verify_path C dir"
proof -
  have "log_glob g" if "g \<in> set (collect_log_files dir)" for g
    using that by (simp add: collect_log_files_simps)
  then show ?thesis
    using read_update_other [OF assms] by (simp add: verify_path_def collect_update_other [OF assms])
qed

lemma write_out_verdict:
  "(\<And>f. out = Some f \<Longrightarrow> \<not> log_glob f) \<Longrightarrow> verify_path C (write_out indented out j dir) = verify_path C dir"
  by (auto simp: write_out_def verify_update_other split: option.split)

lemma verify_exit:
  "fst (cmd_verify C indented out dir) = (if healthy (rep_status (verify_path C dir)) then 0 else 1)"
  by (simp add: cmd_verify_def Let_def)

lemma repair_refuses:
  "rep_status (verify_path C dir) \<noteq> Broken_tail \<Longrightarrow> cmd_repair_tail C indented stamp qp out dir = (2, dir)"
  by (simp add: cmd_repair_tail_def repair_tail_def verify_path_def Let_def)

lemma repair_report_is_no_log: "\<not> log_glob ''repair-report.json''"
  by code_simp

text \<open>
  C23: The remedy the startup failure names works. On a broken tail the failure message contains the
  repair command; that command exits 0 and leaves a valid log with the same head hash, after which
  \<open>verify\<close> exits 0 and a second repair is refused with exit code 2 and changes nothing.
\<close>

theorem named_repair_restores:
  assumes "wf_dict dir" and "rep_status (verify_path C dir) = Broken_tail"
  shows "text_in (repair_command path) (format_startup_failure message (verify_path C dir) path) \<and>
    (\<exists>dir'. audit_main C indented stamp qp (Repair_tail (Some ''repair-report.json'')) dir = (0, dir') \<and>
      rep_status (verify_path C dir') = Valid \<and>
      last_valid_hash (verify_path C dir') = last_valid_hash (verify_path C dir) \<and>
      fst (audit_main C indented stamp qp (Verify None) dir') = 0 \<and>
      audit_main C indented stamp qp (Repair_tail out) dir' = (2, dir'))"
proof (intro conjI)
  obtain m q dir' where r: "repair_tail C dir = (Inr (m, q), dir')" "post_repair_status m = Valid"
    "rep_status (verify_path C dir') = Valid"
    "last_valid_hash (verify_path C dir') = last_valid_hash (verify_path C dir)"
    using repair_tail_works [OF assms] by blast
  let ?j = "manifest_json stamp qp (last_valid_record (verify_path C dir)) m"
  let ?d = "write_out indented (Some ''repair-report.json'') ?j dir'"
  have v: "verify_path C ?d = verify_path C dir'"
    by (rule write_out_verdict) (use repair_report_is_no_log in auto)
  have "audit_main C indented stamp qp (Repair_tail (Some ''repair-report.json'')) dir = (0, ?d)"
    by (simp add: audit_main_def cmd_repair_tail_def r(1,2) healthy_def Let_def)
  moreover have "fst (audit_main C indented stamp qp (Verify None) ?d) = 0"
    by (simp add: audit_main_def verify_exit v r(3) healthy_def)
  moreover have "audit_main C indented stamp qp (Repair_tail out) ?d = (2, ?d)"
    by (simp add: audit_main_def repair_refuses v r(3))
  ultimately show "\<exists>dir'. audit_main C indented stamp qp (Repair_tail (Some ''repair-report.json'')) dir = (0, dir') \<and>
      rep_status (verify_path C dir') = Valid \<and>
      last_valid_hash (verify_path C dir') = last_valid_hash (verify_path C dir) \<and>
      fst (audit_main C indented stamp qp (Verify None) dir') = 0 \<and>
      audit_main C indented stamp qp (Repair_tail out) dir' = (2, dir')"
    using v r(3,4) by (intro exI [of _ ?d]) simp
  show "text_in (repair_command path) (format_startup_failure message (verify_path C dir) path)"
    unfolding format_startup_failure_def assms(2) audit_status.case
    by (rule text_in_prefix | rule text_in_append)+
qed

theorem named_repair_restores_witness:
  "rep_status (verify_path toy_codec torn_dir) = Broken_tail \<and>
   fst (audit_main toy_codec (\<lambda>_. ''{}'') ''t'' ''q'' (Repair_tail (Some ''repair-report.json'')) torn_dir) = 0"
proof -
  have "wf_dict torn_dir" by (simp add: torn_dir_def)
  from named_repair_restores [OF this torn_dir_broken,
      where indented = "\<lambda>_. ''{}''" and stamp = "''t''" and qp = "''q''"]
  show ?thesis using torn_dir_broken by force
qed

text \<open>A report written over a log file is read as part of the log: the tool does not refuse such a path.\<close>

lemma report_over_log_breaks:
  "rep_status (verify_path toy_codec (snd (cmd_verify toy_codec (\<lambda>_. ''{}'') (Some ''drnt-audit-1.jsonl'')
     [(''drnt-audit-1.jsonl'', ''jDRNT-GENESIS'' @ [newline])]))) = Interior_corruption"
  by code_simp

section \<open>The command line of the stand-alone verifier\<close>

text \<open>
  \<open>drnt_audit_verify.py\<close>: a path is the list of its parts, which is what \<open>Path\<close> orders by; the world gives the
  lines of a file (after \<open>rstrip\<close>) or the names in a directory.
\<close>

datatype node = File_node "string list" | Dir_node "string list"

type_synonym path = "string list"

definition resolve_path :: "(path \<Rightarrow> node option) \<Rightarrow> path \<Rightarrow> path list" where
  "resolve_path W p = (case W p of
      Some (Dir_node names) \<Rightarrow> map (\<lambda>n. p @ [n]) (sort (filter log_glob names))
    | Some (File_node _) \<Rightarrow> [p]
    | None \<Rightarrow> [])"

definition collect_files :: "(path \<Rightarrow> node option) \<Rightarrow> path list \<Rightarrow> path list" where
  "collect_files W ps = sort (remdups (concat (map (resolve_path W) ps)))"

fun read_files :: "(path \<Rightarrow> node option) \<Rightarrow> path list \<Rightarrow> py_exc + string list list" where
  "read_files W [] = Inr []"
| "read_files W (f # fs) = (case W f of
      Some (File_node ls) \<Rightarrow> map_sum id ((#) ls) (read_files W fs)
    | _ \<Rightarrow> Inl OSError)"

text \<open>The exit code; an exception ends the interpreter with 1, as a broken chain does.\<close>

definition verifier_main :: "codec \<Rightarrow> (path \<Rightarrow> node option) \<Rightarrow> path list \<Rightarrow> nat" where
  "verifier_main C W ps =
    (if ps = [] then 1
     else let files = collect_files W ps in
       if files = [] then 1
       else (case read_files W files of
               Inl _ \<Rightarrow> 1
             | Inr ls \<Rightarrow> (case verify_files C ls of Inr True \<Rightarrow> 0 | _ \<Rightarrow> 1)))"

lemma read_files_ok: "read_files W fs = Inr ls \<longleftrightarrow> map W fs = map (\<lambda>l. Some (File_node l)) ls"
proof (induction fs arbitrary: ls)
  case (Cons f fs)
  have "read_files W (f # fs) = Inr ls \<longleftrightarrow>
      (\<exists>l ls'. ls = l # ls' \<and> W f = Some (File_node l) \<and> read_files W fs = Inr ls')"
    by (cases "read_files W fs") (auto split: option.split node.split)
  also have "\<dots> \<longleftrightarrow> map W (f # fs) = map (\<lambda>l. Some (File_node l)) ls"
    by (cases ls) (simp_all add: Cons.IH)
  finally show ?case .
qed auto

text \<open>
  The verifier exits 0 exactly when it found a file, could read them all, and their lines, file after file in
  the order of the paths, are one chain from genesis.
\<close>

theorem verifier_exit_zero:
  assumes "\<And>s. sha256 C s \<noteq> []" and "\<And>p ls. W p = Some (File_node ls) \<Longrightarrow> [] \<notin> set ls"
  shows "verifier_main C W ps = 0 \<longleftrightarrow> collect_files W ps \<noteq> [] \<and>
    (\<exists>ls. map W (collect_files W ps) = map (\<lambda>l. Some (File_node l)) ls \<and> chained C (GENESIS_HASH C) (concat ls))"
proof -
  have "verify_files C ls = Inr True \<longleftrightarrow> chained C (GENESIS_HASH C) (concat ls)"
    if "read_files W (collect_files W ps) = Inr ls" for ls
  proof (rule verify_files_chained [OF assms(1)])
    show "[] \<notin> set (concat ls)"
    proof
      assume "[] \<in> set (concat ls)"
      then obtain l where l: "l \<in> set ls" "[] \<in> set l" by auto
      then have "Some (File_node l) \<in> set (map W (collect_files W ps))" using that by (auto simp: read_files_ok)
      then show False using assms(2) l(2) by auto
    qed
  qed
  moreover have "collect_files W [] = []" by (simp add: collect_files_def)
  ultimately show ?thesis
    by (cases "read_files W (collect_files W ps)")
      (auto simp: verifier_main_def Let_def read_files_ok [symmetric] split: sum.split bool.split)
qed

text \<open>A path that is not there changes nothing but a warning: the files left out of the check are not noticed.\<close>

lemma missing_path_ignored:
  assumes "W p = None" and "ps \<noteq> []"
  shows "verifier_main C W (p # ps) = verifier_main C W ps"
  using assms by (simp add: verifier_main_def collect_files_def resolve_path_def)

end
