(* ===== verification/Egress_Config.thy ===== *)
theory Egress_Config
  imports Startup_Validator Egress_Gateway
begin

text \<open>
  The egress configuration as its readers decode it: the gateway's registry
  (\<open>egress-gateway/registry.py\<close>) and the hub's (\<open>orchestrator/registry.py\<close>). The loaders do not check the
  types of the values, so a loaded route holds decoded JSON; \<open>typed_route\<close> is the route with the annotated
  types that \<open>Egress_Gateway\<close> works on. The secrets file is parsed by a third-party package: its content is
  an argument.
\<close>

section \<open>Decoding\<close>

definition and_then :: "py_exc + 'a \<Rightarrow> ('a \<Rightarrow> py_exc + 'b) \<Rightarrow> py_exc + 'b" where
  "and_then r f = (case r of Inl x \<Rightarrow> Inl x | Inr v \<Rightarrow> f v)"

lemma and_then_Inr [simp]: "and_then r f = Inr v \<longleftrightarrow> (\<exists>u. r = Inr u \<and> f u = Inr v)"
  by (cases r) (simp_all add: and_then_def)

lemma and_then_simps [simp]: "and_then (Inl x) f = Inl x" "and_then (Inr v) f = f v"
  by (simp_all add: and_then_def)

fun each :: "('a \<Rightarrow> py_exc + 'b) \<Rightarrow> 'a list \<Rightarrow> py_exc + 'b list" where
  "each f [] = Inr []"
| "each f (x # xs) = and_then (f x) (\<lambda>y. and_then (each f xs) (\<lambda>ys. Inr (y # ys)))"

text \<open>\<open>d[k]\<close> of a decoded value, and the key of a dict that a value is (equal numbers are one key).\<close>

definition json_item :: "json \<Rightarrow> string \<Rightarrow> py_exc + json" where
  "json_item j k = (case j of
      JObj d \<Rightarrow> (case map_of d k of None \<Rightarrow> Inl (KeyError k) | Some v \<Rightarrow> Inr v)
    | _ \<Rightarrow> Inl TypeError)"

definition json_get_opt :: "json \<Rightarrow> string \<Rightarrow> json \<Rightarrow> py_exc + json" where
  "json_get_opt j k v = (case json_get k v j of None \<Rightarrow> Inl AttributeError | Some x \<Rightarrow> Inr x)"

definition dict_key :: "json \<Rightarrow> py_exc + json" where
  "dict_key v = (case v of
      JArr xs \<Rightarrow> Inl TypeError
    | JObj d \<Rightarrow> Inl TypeError
    | JBool b \<Rightarrow> Inr (JInt (if b then 1 else 0))
    | JNum q \<Rightarrow> Inr (if q = of_int (floor q) then JInt (floor q) else JNum q)
    | _ \<Rightarrow> Inr v)"

text \<open>The entries of \<open>data.get("routes", [])\<close>.\<close>

definition config_entries :: "json \<Rightarrow> py_exc + json list" where
  "config_entries data = and_then (json_get_opt data ''routes'' (JArr [])) json_iter"

section \<open>The registry of the gateway\<close>

record raw_route =
  rw_id :: json
  rw_provider :: json
  rw_endpoint :: json
  rw_model_string :: json
  rw_capabilities :: json
  rw_auth_method :: json
  rw_secret_ref :: json
  rw_rpm :: json
  rw_timeout_ms :: json
  rw_enabled :: json

definition read_route :: "json \<Rightarrow> py_exc + raw_route" where
  "read_route data =
    and_then (json_item data ''route_id'') (\<lambda>rid.
    and_then (json_item data ''provider'') (\<lambda>prov.
    and_then (json_item data ''endpoint_url'') (\<lambda>url.
    and_then (json_item data ''model_string'') (\<lambda>model.
    and_then (json_item data ''allowed_capabilities'') (\<lambda>capabilities.
    and_then (and_then (json_item data ''auth'') (\<lambda>a. json_item a ''method'')) (\<lambda>auth.
    and_then (and_then (json_item data ''auth'') (\<lambda>a. json_get_opt a ''secret_ref'' JNull)) (\<lambda>secret.
    and_then (and_then (json_item data ''constraints'') (\<lambda>c. json_item c ''rate_limit_rpm'')) (\<lambda>rpm.
    and_then (and_then (json_item data ''health'') (\<lambda>h. json_item h ''timeout_ms'')) (\<lambda>timeout.
    and_then (json_item data ''enabled'') (\<lambda>enabled.
    Inr \<lparr>rw_id = rid, rw_provider = prov, rw_endpoint = url, rw_model_string = model,
      rw_capabilities = capabilities, rw_auth_method = auth, rw_secret_ref = secret, rw_rpm = rpm,
      rw_timeout_ms = timeout, rw_enabled = enabled\<rparr>))))))))))"

fun add_routes :: "json list \<Rightarrow> (json, raw_route) dict \<Rightarrow> py_exc + (json, raw_route) dict" where
  "add_routes [] R = Inr R"
| "add_routes (j # js) R =
    and_then (read_route j) (\<lambda>r.
    and_then (dict_key (rw_id r)) (\<lambda>k. add_routes js (AList.update k r R)))"

definition gateway_registry_load :: "codec \<Rightarrow> string \<Rightarrow> py_exc + (string \<times> (json, raw_route) dict)" where
  "gateway_registry_load C raw =
    (case json_loads C raw of
       None \<Rightarrow> Inl (ValueError ''JSONDecodeError'')
     | Some data \<Rightarrow>
         and_then (config_entries data) (\<lambda>js.
         and_then (add_routes js []) (\<lambda>R. Inr (sha256 C raw, R))))"

definition raw_get_route :: "(json, raw_route) dict \<Rightarrow> string \<Rightarrow> raw_route option" where
  "raw_get_route R rid = map_of R (JStr rid)"

definition raw_all_routes :: "(json, raw_route) dict \<Rightarrow> raw_route list" where
  "raw_all_routes R = dict_vals R"

text \<open>The answer of the gateway's \<open>/health\<close>.\<close>

definition gateway_health :: "string \<times> (json, raw_route) dict \<Rightarrow> json" where
  "gateway_health reg = (case reg of (config_hash, R) \<Rightarrow>
    JObj [(''status'', JStr ''running''), (''routes_loaded'', JInt (int (length (raw_all_routes R)))),
      (''config_hash'', if config_hash = [] then JNull else JStr (take 16 config_hash))])"

section \<open>The annotated types\<close>

definition str_of :: "json \<Rightarrow> string option" where
  "str_of j = (case j of JStr s \<Rightarrow> Some s | _ \<Rightarrow> None)"

definition int_of :: "json \<Rightarrow> int option" where
  "int_of j = (case j of JInt i \<Rightarrow> Some i | _ \<Rightarrow> None)"

definition bool_of :: "json \<Rightarrow> bool option" where
  "bool_of j = (case j of JBool b \<Rightarrow> Some b | _ \<Rightarrow> None)"

definition strs_of :: "json \<Rightarrow> string list option" where
  "strs_of j = (case j of JArr xs \<Rightarrow> those (map str_of xs) | _ \<Rightarrow> None)"

definition typed_route :: "raw_route \<Rightarrow> gw_route option" where
  "typed_route r =
    (case (str_of (rw_id r), str_of (rw_provider r), str_of (rw_endpoint r), str_of (rw_model_string r),
        strs_of (rw_capabilities r), str_of (rw_auth_method r)) of
      (Some i, Some p, Some e, Some m, Some cs, Some a) \<Rightarrow>
        (case (int_of (rw_rpm r), int_of (rw_timeout_ms r), bool_of (rw_enabled r),
            case rw_secret_ref r of JNull \<Rightarrow> Some None | JStr s \<Rightarrow> Some (Some s) | _ \<Rightarrow> None) of
          (Some n, Some t, Some b, Some s) \<Rightarrow>
            Some \<lparr>gr_id = i, gr_provider = p, gr_endpoint = e, gr_model_string = m, gr_capabilities = cs,
              gr_auth = a, gr_secret_ref = s, gr_rpm = n, gr_timeout_ms = t, gr_enabled = b\<rparr>
        | _ \<Rightarrow> None)
    | _ \<Rightarrow> None)"

definition typed_table :: "(json, raw_route) dict \<Rightarrow> (string, gw_route) dict option" where
  "typed_table R = map_option (map (\<lambda>r. (gr_id r, r))) (those (map (\<lambda>(k, r). typed_route r) R))"

text \<open>
  The start of the gateway: the registry, then the secrets (\<open>None\<close>: there is no file). The gateway starts
  without a token, and then rejects every dispatch. A configuration of other types than the annotated
  ones gives \<open>None\<close>: it is loaded, and outside what \<open>Egress_Gateway\<close> models.
\<close>

definition load_secrets :: "(string, string option) dict option \<Rightarrow> (string, string option) dict" where
  "load_secrets secrets_file = (case secrets_file of Some d \<Rightarrow> d | None \<Rightarrow> [])"

definition gateway_start ::
    "codec \<Rightarrow> string \<Rightarrow> string \<Rightarrow> (string, string option) dict option \<Rightarrow> py_exc + gateway option" where
  "gateway_start C token raw secrets_file =
    and_then (gateway_registry_load C raw) (\<lambda>(config_hash, R).
      Inr (map_option (\<lambda>routes. \<lparr>gw_token = token, gw_routes = routes, gw_config_hash = config_hash,
         gw_secrets = load_secrets secrets_file, gw_windows = []\<rparr>) (typed_table R)))"

section \<open>The registry of the hub\<close>

record hub_route =
  hr_id :: json
  hr_provider :: json
  hr_endpoint :: json
  hr_model_string :: json
  hr_capabilities :: json
  hr_enabled :: json
  hr_auth :: json
  hr_constraints :: json
  hr_health :: json

definition read_hub_route :: "json \<Rightarrow> py_exc + hub_route" where
  "read_hub_route entry =
    and_then (json_item entry ''route_id'') (\<lambda>rid.
    and_then (json_item entry ''provider'') (\<lambda>prov.
    and_then (json_get_opt entry ''endpoint_url'' (JStr [])) (\<lambda>url.
    and_then (json_get_opt entry ''model_string'' (JStr ''*'')) (\<lambda>model.
    and_then (json_get_opt entry ''allowed_capabilities'' (JArr [])) (\<lambda>capabilities.
    and_then (json_get_opt entry ''enabled'' (JBool True)) (\<lambda>enabled.
    and_then (json_get_opt entry ''auth'' JNull) (\<lambda>auth.
    and_then (json_get_opt entry ''constraints'' JNull) (\<lambda>limits.
    and_then (json_get_opt entry ''health'' JNull) (\<lambda>health.
    Inr \<lparr>hr_id = rid, hr_provider = prov, hr_endpoint = url, hr_model_string = model,
      hr_capabilities = capabilities, hr_enabled = enabled, hr_auth = auth, hr_constraints = limits,
      hr_health = health\<rparr>)))))))))"

definition hub_registry_load :: "codec \<Rightarrow> string \<Rightarrow> py_exc + hub_route list" where
  "hub_registry_load C raw =
    (case json_loads C raw of
       None \<Rightarrow> Inl (ValueError ''JSONDecodeError'')
     | Some data \<Rightarrow> and_then (config_entries data) (each read_hub_route))"

definition hub_all_routes :: "hub_route list \<Rightarrow> hub_route list" where
  "hub_all_routes rs = rs"

definition hub_get_route :: "hub_route list \<Rightarrow> string \<Rightarrow> hub_route option" where
  "hub_get_route rs rid = List.find (\<lambda>r. hr_id r = JStr rid) rs"

section \<open>The two registries\<close>

lemma json_get_opt_item: "json_item j k = Inr v \<Longrightarrow> json_get_opt j k w = Inr v"
  by (cases j) (auto simp: json_item_def json_get_opt_def json_get_def get_or_def split: option.splits)

lemma json_get_opt_obj: "json_item j k = Inr v \<Longrightarrow> \<exists>u. json_get_opt j l w = Inr u"
  by (cases j) (auto simp: json_item_def json_get_opt_def json_get_def)

text \<open>A route the gateway can read is read by the hub, with the same values in the fields both use.\<close>

definition same_route :: "raw_route \<Rightarrow> hub_route \<Rightarrow> bool" where
  "same_route r h \<longleftrightarrow> hr_id h = rw_id r \<and> hr_provider h = rw_provider r \<and> hr_endpoint h = rw_endpoint r \<and>
    hr_model_string h = rw_model_string r \<and> hr_capabilities h = rw_capabilities r \<and> hr_enabled h = rw_enabled r"

lemma read_both:
  assumes "read_route j = Inr r"
  obtains h where "read_hub_route j = Inr h" "same_route r h"
proof -
  have i: "json_item j ''route_id'' = Inr (rw_id r)" "json_item j ''provider'' = Inr (rw_provider r)"
    "json_item j ''endpoint_url'' = Inr (rw_endpoint r)" "json_item j ''model_string'' = Inr (rw_model_string r)"
    "json_item j ''allowed_capabilities'' = Inr (rw_capabilities r)" "json_item j ''enabled'' = Inr (rw_enabled r)"
    using assms by (auto simp: read_route_def)
  obtain a c l where "json_get_opt j ''auth'' JNull = Inr a" "json_get_opt j ''constraints'' JNull = Inr c"
    "json_get_opt j ''health'' JNull = Inr l"
    using json_get_opt_obj [OF i(1)] by metis
  then show thesis
    using that i by (simp add: read_hub_route_def json_get_opt_item same_route_def)
qed

abbreviation by_id :: "('r \<Rightarrow> json) \<Rightarrow> 'r list \<Rightarrow> (json \<times> 'r) list" where
  "by_id f rs \<equiv> map (\<lambda>r. (f r, r)) rs"

text \<open>The gateway's table holds the last route of each id, the hub's list yields the first.\<close>

lemma add_routes_reads:
  "add_routes js R = Inr R' \<Longrightarrow>
    \<exists>rs. list_all2 (\<lambda>j r. read_route j = Inr r) js rs \<and>
      (\<forall>rid. map_of R' (JStr rid) = (map_of R ++ map_of (rev (by_id rw_id rs))) (JStr rid))"
proof (induction js arbitrary: R)
  case Nil
  then show ?case by simp
next
  case (Cons j js)
  then obtain r k where r: "read_route j = Inr r" "dict_key (rw_id r) = Inr k"
    "add_routes js (AList.update k r R) = Inr R'"
    by auto
  have k: "k = JStr rid \<longleftrightarrow> rw_id r = JStr rid" for rid
    using r(2) by (auto simp: dict_key_def split: json.splits if_splits)
  obtain rs where rs: "list_all2 (\<lambda>j r. read_route j = Inr r) js rs"
    "\<forall>rid. map_of R' (JStr rid) = (map_of (AList.update k r R) ++ map_of (rev (by_id rw_id rs))) (JStr rid)"
    using Cons.IH [OF r(3)] by blast
  have "map_of R' (JStr rid) = (map_of R ++ map_of (rev (by_id rw_id (r # rs)))) (JStr rid)" for rid
    using rs(2) [rule_format, of rid] k [of rid] by (auto simp: map_add_def split: option.splits)
  then show ?case
    using r(1) rs(1) by (intro exI [of _ "r # rs"]) simp
qed

lemma find_by_id: "List.find (\<lambda>r. f r = k) rs = map_of (by_id f rs) k"
  by (induction rs) auto

lemma each_list_all2: "each f xs = Inr ys \<longleftrightarrow> list_all2 (\<lambda>x y. f x = Inr y) xs ys"
  by (induction xs arbitrary: ys) (auto simp: list_all2_Cons1)

lemma read_all_both:
  "list_all2 (\<lambda>j r. read_route j = Inr r) js rs \<Longrightarrow> \<exists>hs. each read_hub_route js = Inr hs \<and> list_all2 same_route rs hs"
proof (induction rule: list_all2_induct)
  case (Cons j js r rs)
  then obtain hs where hs: "each read_hub_route js = Inr hs" "list_all2 same_route rs hs" by blast
  obtain h where "read_hub_route j = Inr h" "same_route r h" using Cons.hyps(1) by (rule read_both)
  then show ?case using hs by (intro exI [of _ "h # hs"]) simp
qed simp

lemma same_ids: "list_all2 same_route rs hs \<Longrightarrow> map hr_id hs = map rw_id rs"
  by (induction rule: list_all2_induct) (auto simp: same_route_def)

lemma same_lookup:
  "list_all2 same_route rs hs \<Longrightarrow> rel_option same_route (map_of (by_id rw_id rs) k) (map_of (by_id hr_id hs) k)"
  by (induction rule: list_all2_induct) (auto simp: same_route_def)

lemma loads_both:
  assumes "gateway_registry_load C raw = Inr (h, R)"
  obtains hs rs where "hub_registry_load C raw = Inr hs" "list_all2 same_route rs hs"
    "\<And>rid. raw_get_route R rid = map_of (rev (by_id rw_id rs)) (JStr rid)"
proof -
  obtain data js where d: "json_loads C raw = Some data" "config_entries data = Inr js" "add_routes js [] = Inr R"
    using assms by (auto simp: gateway_registry_load_def split: option.splits)
  obtain rs where rs: "list_all2 (\<lambda>j r. read_route j = Inr r) js rs"
    "\<forall>rid. map_of R (JStr rid) = (map_of [] ++ map_of (rev (by_id rw_id rs))) (JStr rid)"
    using add_routes_reads [OF d(3)] by blast
  obtain hs where "each read_hub_route js = Inr hs" "list_all2 same_route rs hs"
    using read_all_both [OF rs(1)] by blast
  then show thesis
    using that [of hs rs] d(1,2) rs(2) by (simp add: hub_registry_load_def raw_get_route_def)
qed

lemma map_of_rev: "distinct (map fst xs) \<Longrightarrow> map_of (rev xs) = map_of xs"
  by (subst map_of_inject_set) (simp_all flip: rev_map)

text \<open>
  C25: The hub and the gateway read one configuration alike. Whatever the gateway can load the hub can
  load, and when no route id occurs twice both look up the same routes by the same ids, with the same
  provider, endpoint, model pattern, capabilities and enabled flag.
\<close>

theorem registries_agree:
  assumes "gateway_registry_load C raw = Inr (h, R)"
  shows "\<exists>hs. hub_registry_load C raw = Inr hs \<and>
    (distinct (map hr_id (hub_all_routes hs)) \<longrightarrow>
      (\<forall>rid. rel_option same_route (raw_get_route R rid) (hub_get_route hs rid)))"
proof -
  obtain hs rs where l: "hub_registry_load C raw = Inr hs" "list_all2 same_route rs hs"
    "\<And>rid. raw_get_route R rid = map_of (rev (by_id rw_id rs)) (JStr rid)"
    using assms by (rule loads_both) blast
  have "raw_get_route R rid = map_of (by_id rw_id rs) (JStr rid)" if "distinct (map hr_id hs)" for rid
    using that same_ids [OF l(2)] by (simp add: l(3) map_of_rev comp_def)
  then show ?thesis
    using l(1) same_lookup [OF l(2)] by (simp add: hub_all_routes_def hub_get_route_def find_by_id)
qed

section \<open>Sample configurations\<close>

definition sample_entry :: "string \<Rightarrow> string \<Rightarrow> bool \<Rightarrow> json" where
  "sample_entry rid provider enabled =
    JObj [(''route_id'', JStr rid), (''provider'', JStr provider), (''endpoint_url'', JStr ''https://x/v1''),
      (''model_string'', JStr ''m-*''), (''allowed_capabilities'', jstrs [''route.cloud.x'']),
      (''auth'', JObj [(''method'', JStr ''bearer_token''), (''secret_ref'', JStr ''X_KEY'')]),
      (''constraints'', JObj [(''rate_limit_rpm'', JInt 30)]), (''health'', JObj [(''timeout_ms'', JInt 90000)]),
      (''enabled'', JBool enabled)]"

text \<open>A codec whose texts are the letter of a configuration: two ids, and one id twice.\<close>

definition config_codec :: codec where
  "config_codec = \<lparr>sha256 = id, json_loads = (\<lambda>s.
      if s = ''a'' then Some (JObj [(''routes'', JArr [sample_entry ''r1'' ''openai'' True, sample_entry ''r2'' ''google'' False])])
      else if s = ''b'' then Some (JObj [(''routes'', JArr [sample_entry ''r1'' ''openai'' True, sample_entry ''r1'' ''google'' False])])
      else None),
     json_dumps = (\<lambda>_. [])\<rparr>"

definition config_table :: "string \<Rightarrow> (json, raw_route) dict" where
  "config_table s = (case gateway_registry_load config_codec s of Inr (h, R) \<Rightarrow> R | Inl x \<Rightarrow> [])"

lemma config_loads: "gateway_registry_load config_codec ''a'' = Inr (''a'', config_table ''a'')"
  by code_simp

theorem registries_agree_witness:
  "\<exists>hs. hub_registry_load config_codec ''a'' = Inr hs \<and> length hs = 2 \<and>
    rel_option same_route (raw_get_route (config_table ''a'') ''r2'') (hub_get_route hs ''r2'')"
proof -
  have "map_sum id (\<lambda>hs. (length hs, distinct (map hr_id (hub_all_routes hs)))) (hub_registry_load config_codec ''a'')
      = Inr (2, True)"
    by code_simp
  then show ?thesis
    using registries_agree [OF config_loads] by auto
qed

text \<open>
  With an id that occurs twice they differ: the hub finds the first route, enabled, and the gateway the
  last, disabled.
\<close>

lemma duplicate_id_differs:
  "map_sum id (\<lambda>hs. map_option hr_enabled (hub_get_route hs ''r1'')) (hub_registry_load config_codec ''b'') = Inr (Some (JBool True))"
  "map_option rw_enabled (raw_get_route (config_table ''b'') ''r1'') = Some (JBool False)"
  by code_simp+

text \<open>
  What the gateway needs and the hub does not: without \<open>enabled\<close> the hub takes the route as enabled and
  the gateway does not start.
\<close>

lemma missing_enabled:
  "read_route (JObj [(''route_id'', JStr ''r''), (''provider'', JStr ''p''), (''endpoint_url'', JStr ''u''),
      (''model_string'', JStr ''m''), (''allowed_capabilities'', JArr []), (''auth'', JObj [(''method'', JStr ''none'')]),
      (''constraints'', JObj [(''rate_limit_rpm'', JInt 1)]), (''health'', JObj [(''timeout_ms'', JInt 1)])])
    = Inl (KeyError ''enabled'')"
  "map_sum id hr_enabled (read_hub_route (JObj [(''route_id'', JStr ''r''), (''provider'', JStr ''p'')])) = Inr (JBool True)"
  by code_simp+

section \<open>The gateway that starts\<close>

lemma those_Some: "those xs = Some ys \<longleftrightarrow> xs = map Some ys"
  by (induction xs arbitrary: ys) (auto split: option.splits)

lemma typed_id: "typed_route r = Some t \<Longrightarrow> rw_id r = JStr (gr_id t)"
  by (auto simp: typed_route_def str_of_def split: option.splits json.splits)

definition typed_as :: "(json, raw_route) dict \<Rightarrow> (string, gw_route) dict \<Rightarrow> bool" where
  "typed_as = list_all2 (\<lambda>(k, r) (i, t). k = JStr i \<and> gr_id t = i \<and> typed_route r = Some t)"

lemma typed_as_update:
  "typed_as R T \<Longrightarrow> typed_route r = Some t \<Longrightarrow>
    typed_as (AList.update (JStr (gr_id t)) r R) (AList.update (gr_id t) t T)"
  unfolding typed_as_def by (induction rule: list_all2_induct) auto

lemma typed_as_table: "typed_as R T \<Longrightarrow> typed_table R = Some T"
  unfolding typed_as_def by (induction rule: list_all2_induct) (auto simp: typed_table_def)

lemma add_routes_typed:
  assumes "list_all2 (\<lambda>j t. \<exists>r. read_route j = Inr r \<and> typed_route r = Some t) js ts" and "typed_as R T"
  shows "\<exists>R'. add_routes js R = Inr R' \<and> typed_as R' (fold (\<lambda>t. AList.update (gr_id t) t) ts T)"
  using assms
proof (induction arbitrary: R T rule: list_all2_induct)
  case (Cons j js t ts)
  then obtain r where r: "read_route j = Inr r" "typed_route r = Some t" by blast
  then have "dict_key (rw_id r) = Inr (JStr (gr_id t))" by (simp add: typed_id dict_key_def)
  then show ?case using Cons.IH [OF typed_as_update [OF Cons.prems r(2)]] r by simp
qed simp

text \<open>
  A configuration of routes with the annotated types is served as \<open>Egress_Gateway\<close> has it: the gateway
  starts with \<open>load_routes\<close> of them and the hash of the text it read.
\<close>

lemma gateway_starts:
  assumes "json_loads C raw = Some data" and "config_entries data = Inr js"
    and "list_all2 (\<lambda>j t. \<exists>r. read_route j = Inr r \<and> typed_route r = Some t) js ts"
  shows "gateway_start C token raw secrets_file = Inr (Some \<lparr>gw_token = token, gw_routes = load_routes ts,
    gw_config_hash = sha256 C raw, gw_secrets = load_secrets secrets_file, gw_windows = []\<rparr>)"
proof -
  obtain R where "add_routes js [] = Inr R" "typed_as R (load_routes ts)"
    using add_routes_typed [OF assms(3), of "[]" "[]"] by (auto simp: typed_as_def load_routes_def)
  then show ?thesis
    using assms(1,2) by (simp add: gateway_start_def gateway_registry_load_def typed_as_table)
qed

text \<open>Started without a token it forwards nothing.\<close>

lemma no_token_no_dispatch:
  "gateway_start C [] raw secrets_file = Inr (Some G) \<Longrightarrow> \<not> dispatch_authority G authorization"
  by (auto simp: gateway_start_def dispatch_authority_def split: prod.splits)

end
