(* ===== verification/Framing.thy ===== *)
theory Framing
  imports Audit_Client "HOL-Library.Word"
begin

unbundle bit_operations_syntax

text \<open>
  The wire between the audit client and the log writer: the length-prefixed frames of
  \<open>orchestrator/audit_client.py\<close>, their reassembly (\<open>_recv_exact\<close>, \<open>_handle_connection\<close>) and the accept
  loop (\<open>start\<close>) of \<open>audit-log-writer/src/log_writer.py\<close>. A byte string is a string of characters below 256.

  A connection is the packets that \<open>recv\<close> gets to see and whether the client has closed its side after
  them. The sockets that \<open>accept\<close> returns are blocking and have no timeout: a client that neither sends
  nor closes is waited for, which is the value \<open>Waiting\<close>.
\<close>

section \<open>The length prefix\<close>

text \<open>\<open>struct.Struct("!I")\<close>: an unsigned 32-bit number, most significant byte first; \<open>None\<close> is \<open>struct.error\<close>.\<close>

definition be_bytes :: "32 word \<Rightarrow> 8 word list" where
  "be_bytes w = [ucast (drop_bit 24 w), ucast (drop_bit 16 w), ucast (drop_bit 8 w), ucast w]"

definition be_word :: "8 word list \<Rightarrow> 32 word" where
  "be_word bs = fold (\<lambda>b w. push_bit 8 w OR ucast b) bs 0"

definition pack :: "nat \<Rightarrow> string option" where
  "pack n = (if n < 2 ^ 32 then Some (map (\<lambda>b. char_of (unat b)) (be_bytes (word_of_nat n))) else None)"

definition unpack :: "string \<Rightarrow> nat" where
  "unpack s = unat (be_word (map (\<lambda>c. word_of_nat (of_char c)) s))"

text \<open>What \<open>_send_and_receive\<close> writes.\<close>

definition frame :: "string \<Rightarrow> string option" where
  "frame payload = map_option (\<lambda>h. h @ payload) (pack (length payload))"

section \<open>Receiving\<close>

record connection =
  packets :: "string list"
  closed :: bool

text \<open>One \<open>recv(k)\<close>: at most \<open>k\<close> bytes of the next packet; the empty string when there is none.\<close>

fun recv :: "nat \<Rightarrow> string list \<Rightarrow> string \<times> string list" where
  "recv k [] = ([], [])"
| "recv k (p # ps) =
    (if p = [] then recv k ps
     else (take k p, if length p \<le> k then ps else drop k p # ps))"

datatype received = Received string connection | Closed_early | Waiting

lemma recv_empty: "0 < k \<Longrightarrow> fst (recv k ps) = [] \<longleftrightarrow> concat ps = []"
  by (induction ps) auto

lemma recv_length: "length (fst (recv k ps)) \<le> k"
  by (induction ps) auto

function recv_exact :: "nat \<Rightarrow> string \<Rightarrow> connection \<Rightarrow> received" where
  "recv_exact n data conn =
    (if length data < n then
       (let (chunk, ps) = recv (n - length data) (packets conn) in
        if chunk = [] then (if closed conn then Closed_early else Waiting)
        else recv_exact n (data @ chunk) (conn\<lparr>packets := ps\<rparr>))
     else Received data conn)"
  by pat_completeness auto
termination
  by (relation "measure (\<lambda>(n, data, conn). n - length data)") (auto simp flip: length_greater_0_conv)

declare recv_exact.simps [simp del]

section \<open>Serving\<close>

datatype served = Served "response option \<times> writer" | Blocked

definition serve_connection ::
    "codec \<Rightarrow> (string \<Rightarrow> bool) \<Rightarrow> string \<Rightarrow> string \<Rightarrow> instant \<Rightarrow> connection \<Rightarrow> writer \<Rightarrow> served" where
  "serve_connection C iso_ok now event_id mt conn W =
    (case recv_exact 4 [] conn of
       Waiting \<Rightarrow> Blocked
     | Closed_early \<Rightarrow> Served (None, W)
     | Received length_bytes conn1 \<Rightarrow>
         (let msg_length = unpack length_bytes in
          if msg_length > MAX_MESSAGE_SIZE then Served (Some (Error_response Message_too_large), W)
          else (case recv_exact msg_length [] conn1 of
              Waiting \<Rightarrow> Blocked
            | Closed_early \<Rightarrow> Served (None, W)
            | Received msg_bytes conn2 \<Rightarrow>
                Served (handle_connection C iso_ok now event_id mt msg_length msg_bytes W))))"

text \<open>
  The loop of \<open>start\<close> over what \<open>accept\<close> yields: a connection (with the clock readings and the id its
  event gets), a timeout of one second, or the signal to stop. The result is what was answered, the
  writer, and whether the loop still runs.
\<close>

datatype accepted_item =
    Accepted string string instant connection
  | Accept_timeout instant
  | Stop_signal instant

datatype loop_state = Running | Ended | Hanging

fun serve_loop ::
    "codec \<Rightarrow> (string \<Rightarrow> bool) \<Rightarrow> accepted_item list \<Rightarrow> writer \<Rightarrow> response option list \<times> writer \<times> loop_state" where
  "serve_loop C iso_ok [] W = ([], W, Running)"
| "serve_loop C iso_ok (Accepted now eid mt conn # xs) W =
    (case serve_connection C iso_ok now eid mt conn W of
       Blocked \<Rightarrow> ([], W, Hanging)
     | Served (r, W') \<Rightarrow>
         (let (rs, q) = serve_loop C iso_ok xs (maybe_flush_best_effort mt W') in (r # rs, q)))"
| "serve_loop C iso_ok (Accept_timeout mt # xs) W = serve_loop C iso_ok xs (maybe_flush_best_effort mt W)"
| "serve_loop C iso_ok (Stop_signal mt # xs) W = ([], shutdown mt (maybe_flush_best_effort mt W), Ended)"

section \<open>The prefix is read back\<close>

lemma be_word_bytes: "be_word (be_bytes w) = w"
proof (rule bit_word_eqI)
  fix n :: nat
  assume "n < LENGTH(32)"
  then consider "n < 8" | "8 \<le> n" "n < 16" | "16 \<le> n" "n < 24" | "24 \<le> n" "n < 32" by force
  then show "bit (be_word (be_bytes w)) n \<longleftrightarrow> bit w n"
    by cases (auto simp: be_word_def be_bytes_def bit_simps)
qed

lemma length_be_bytes [simp]: "length (be_bytes w) = 4"
  by (simp add: be_bytes_def)

lemma byte_mod [simp]: "word_of_nat (unat (b :: 8 word) mod 256) = b"
  using unsigned_less [of b, where 'a = nat] by simp

lemma unpack_pack: "pack n = Some h \<Longrightarrow> length h = 4 \<and> unpack h = n"
  by (auto simp: pack_def unpack_def comp_def be_word_bytes unsigned_of_nat take_bit_eq_mod split: if_splits)

section \<open>Reassembly\<close>

lemma recv_concat: "recv k ps = (chunk, ps') \<Longrightarrow> concat ps = chunk @ concat ps'"
  by (induction ps arbitrary: chunk ps') (auto split: if_splits)

text \<open>
  However the stream is cut into packets, the first \<open>n\<close> bytes are read and the rest is left; when
  there are fewer, the outcome depends only on whether the client has closed.
\<close>

lemma recv_exact_spec:
  assumes "length data \<le> n"
  shows "(n - length data \<le> length (concat (packets conn)) \<longrightarrow>
      (\<exists>ps. recv_exact n data conn = Received (data @ take (n - length data) (concat (packets conn))) (conn\<lparr>packets := ps\<rparr>) \<and>
        concat ps = drop (n - length data) (concat (packets conn)))) \<and>
    (length (concat (packets conn)) < n - length data \<longrightarrow>
      recv_exact n data conn = (if closed conn then Closed_early else Waiting))"
  using assms
proof (induction n data conn rule: recv_exact.induct)
  case (1 n data conn)
  show ?case
  proof (cases "length data < n")
    case False
    then have "n - length data = 0" "length data = n" using 1(2) by auto
    then show ?thesis by (subst (1 2) recv_exact.simps) (auto intro: exI [of _ "packets conn"])
  next
    case True
    obtain chunk ps where r: "recv (n - length data) (packets conn) = (chunk, ps)" by force
    have e: "chunk = [] \<longleftrightarrow> concat (packets conn) = []" "length chunk \<le> n - length data"
      "concat (packets conn) = chunk @ concat ps"
      using recv_empty [of "n - length data" "packets conn"] recv_length [of "n - length data" "packets conn"]
        recv_concat [OF r] r True by auto
    have step: "recv_exact n data conn =
        (if chunk = [] then (if closed conn then Closed_early else Waiting)
         else recv_exact n (data @ chunk) (conn\<lparr>packets := ps\<rparr>))"
      using True r by (subst recv_exact.simps) simp
    show ?thesis
    proof (cases "chunk = []")
      case True
      then have "length (concat (packets conn)) = 0" using e(1) by (simp only: list.size)
      then show ?thesis using step True \<open>length data < n\<close> by (simp only: diff_is_0_eq le_zero_eq) auto
    next
      case False
      have d: "n - length data = length chunk + (n - length (data @ chunk))" using e(2) True by simp
      have "length (data @ chunk) \<le> n" using e(2) True by simp
      note IH = 1(1) [OF True r [symmetric] refl False this]
      show ?thesis
        using IH False unfolding step e(3) d by simp
    qed
  qed
qed

lemmas recv_enough = recv_exact_spec [of "[]", simplified, THEN conjunct1, rule_format]
lemmas recv_short = recv_exact_spec [of "[]", simplified, THEN conjunct2, rule_format]

lemma frame_parts:
  "frame payload = Some f \<Longrightarrow> \<exists>h. f = h @ payload \<and> length h = 4 \<and> unpack h = length payload"
  by (auto simp: frame_def dest: unpack_pack)

text \<open>The length prefix is read, and what is left is the rest of the stream.\<close>

lemma serve_prefix:
  assumes "concat (packets conn) = h @ rest" and "length h = 4" and "unpack h \<le> MAX_MESSAGE_SIZE"
  obtains ps where "concat ps = rest"
    "serve_connection C iso_ok now eid mt conn W =
      (case recv_exact (unpack h) [] (conn\<lparr>packets := ps\<rparr>) of
         Waiting \<Rightarrow> Blocked
       | Closed_early \<Rightarrow> Served (None, W)
       | Received body conn2 \<Rightarrow> Served (handle_connection C iso_ok now eid mt (unpack h) body W))"
proof -
  obtain ps where "recv_exact 4 [] conn = Received h (conn\<lparr>packets := ps\<rparr>)" "concat ps = rest"
    using recv_enough [of 4 conn] assms(1,2) by auto
  then show thesis using that [of ps] assms(3) by (simp add: serve_connection_def Let_def)
qed

lemma frame_in_limit: "length body \<le> MAX_MESSAGE_SIZE \<Longrightarrow> \<exists>f. frame body = Some f"
  by (simp add: frame_def pack_def MAX_MESSAGE_SIZE_def)

lemma serve_frame:
  assumes "frame body = Some f" and "length body \<le> MAX_MESSAGE_SIZE" and "concat (packets conn) = take k f"
  shows "serve_connection C iso_ok now eid mt conn W =
    (if length f \<le> k then Served (handle_connection C iso_ok now eid mt (length body) body W)
     else if closed conn then Served (None, W) else Blocked)"
proof -
  obtain h where h: "f = h @ body" "length h = 4" "unpack h = length body"
    using frame_parts [OF assms(1)] by blast
  show ?thesis
  proof (cases "k < 4")
    case True
    then have "recv_exact 4 [] conn = (if closed conn then Closed_early else Waiting)"
      by (intro recv_short) (simp add: assms(3) h(1,2))
    then show ?thesis using True h(1,2) by (simp add: serve_connection_def)
  next
    case False
    then have c: "concat (packets conn) = h @ take (k - 4) body" using assms(3) h(1,2) by simp
    obtain ps where ps: "concat ps = take (k - 4) body" "serve_connection C iso_ok now eid mt conn W =
      (case recv_exact (unpack h) [] (conn\<lparr>packets := ps\<rparr>) of
         Waiting \<Rightarrow> Blocked
       | Closed_early \<Rightarrow> Served (None, W)
       | Received body conn2 \<Rightarrow> Served (handle_connection C iso_ok now eid mt (unpack h) body W))"
      by (rule serve_prefix [OF c h(2)]) (simp add: h(3) assms(2))
    show ?thesis
    proof (cases "length f \<le> k")
      case True
      then have "concat ps = body" using ps(1) h(1,2) by simp
      then obtain conn' where "recv_exact (length body) [] (conn\<lparr>packets := ps\<rparr>) = Received body conn'"
        using recv_enough [of "length body" "conn\<lparr>packets := ps\<rparr>"] by auto
      then show ?thesis using True ps(2) h(3) by simp
    next
      case short: False
      then have "recv_exact (length body) [] (conn\<lparr>packets := ps\<rparr>) = (if closed conn then Closed_early else Waiting)"
        using False h(1,2) recv_short [of "conn\<lparr>packets := ps\<rparr>" "length body"] by (simp add: ps(1))
      then show ?thesis using short ps(2) h(3) by simp
    qed
  qed
qed

text \<open>
  C24: Frames survive the stream. However a client's frame is cut into packets, once all of it has
  arrived the log writer handles exactly the body that was sent; of a frame whose client closes early
  nothing is handled and the writer is unchanged; and a client that stops in the middle without
  closing is waited for.
\<close>

theorem frames_reassembled:
  assumes "frame body = Some f" and "length body \<le> MAX_MESSAGE_SIZE" and "concat (packets conn) = take k f"
  shows "serve_connection C iso_ok now eid mt conn W =
    (if length f \<le> k then Served (handle_connection C iso_ok now eid mt (length body) body W)
     else if closed conn then Served (None, W) else Blocked)"
  by (rule serve_frame [OF assms])

text \<open>A frame in three packets: cut after its first byte, and after the first byte of the body.\<close>

definition cut_connection :: "string \<Rightarrow> connection" where
  "cut_connection f = \<lparr>packets = [take 1 f, take 4 (drop 1 f), drop 5 f], closed = False\<rparr>"

lemma concat_cut: "concat (packets (cut_connection f)) = f"
proof -
  have "take 4 (drop 1 f) @ drop 5 f = drop 1 f" using append_take_drop_id [of 4 "drop 1 f"] by simp
  then show ?thesis using append_take_drop_id [of 1 f] by (simp add: cut_connection_def)
qed

theorem frames_reassembled_witness:
  "\<exists>f. frame ''{}'' = Some f \<and>
    serve_connection sample_codec (\<lambda>_. True) ''2026-01-01T10:00:00Z'' ''e1'' 1 (cut_connection f)
        (fresh_writer sample_codec ''2025-12-31'' ''2026-01-01'' 0) =
      Served (handle_connection sample_codec (\<lambda>_. True) ''2026-01-01T10:00:00Z'' ''e1'' 1 2 ''{}''
        (fresh_writer sample_codec ''2025-12-31'' ''2026-01-01'' 0))"
proof -
  obtain f where f: "frame ''{}'' = Some f"
    using frame_in_limit [of "''{}''"] by (auto simp: MAX_MESSAGE_SIZE_def)
  have "concat (packets (cut_connection f)) = take (length f) f" by (simp add: concat_cut)
  with frames_reassembled [OF f, of "cut_connection f" "length f" sample_codec "\<lambda>_. True"
      "''2026-01-01T10:00:00Z''" "''e1''" 1 "fresh_writer sample_codec ''2025-12-31'' ''2026-01-01'' 0"] f
  show ?thesis by (simp add: MAX_MESSAGE_SIZE_def numeral_2_eq_2)
qed

section \<open>The loop\<close>

text \<open>A client that connects and sends nothing stops the service: what comes after it is not served.\<close>

lemma silent_client_hangs:
  "serve_loop C iso_ok (Accepted now eid mt \<lparr>packets = [], closed = False\<rparr> # xs) W = ([], W, Hanging)"
proof -
  have "recv_exact 4 [] \<lparr>packets = [], closed = False\<rparr> = Waiting" by (subst recv_exact.simps) simp
  then show ?thesis by (simp add: serve_connection_def)
qed

text \<open>
  A loop over clients that send whole frames is a run of the writer: a request and a tick for each.
  What holds of every run of the writer holds of the service.
\<close>

definition whole_frame :: "accepted_item \<Rightarrow> string \<times> string \<times> instant \<times> string \<Rightarrow> bool" where
  "whole_frame x q = (case q of (now, eid, mt, body) \<Rightarrow>
     \<exists>conn f. x = Accepted now eid mt conn \<and> frame body = Some f \<and> length body \<le> MAX_MESSAGE_SIZE \<and>
       concat (packets conn) = f)"

definition request_ops :: "string \<times> string \<times> instant \<times> string \<Rightarrow> writer_op list" where
  "request_ops q = (case q of (now, eid, mt, body) \<Rightarrow> [Request now eid mt (length body) body, Tick mt])"

lemma loop_is_run:
  "list_all2 whole_frame xs qs \<Longrightarrow>
    \<exists>rs W'. serve_loop C iso_ok xs W = (rs, W', Running) \<and> length rs = length xs \<and>
      writer_run C iso_ok (concat (map request_ops qs)) W = Inr W'"
proof (induction arbitrary: W rule: list_all2_induct)
  case (Cons x xs q qs)
  obtain now eid mt body where q: "q = (now, eid, mt, body)" by (cases q)
  obtain conn f where f: "x = Accepted now eid mt conn" "frame body = Some f" "length body \<le> MAX_MESSAGE_SIZE"
    "concat (packets conn) = take (length f) f"
    using Cons.hyps(1) by (auto simp: whole_frame_def q)
  obtain r W1 where h: "handle_connection C iso_ok now eid mt (length body) body W = (r, W1)" by force
  obtain rs W' where "serve_loop C iso_ok xs (maybe_flush_best_effort mt W1) = (rs, W', Running)"
    "length rs = length xs" "writer_run C iso_ok (concat (map request_ops qs)) (maybe_flush_best_effort mt W1) = Inr W'"
    using Cons.IH by blast
  moreover have "request_ops q = [Request now eid mt (length body) body, Tick mt]"
    by (simp add: request_ops_def q)
  ultimately show ?case
    using serve_frame [OF f(2,3,4), of C iso_ok now eid mt W] h
    by (simp add: f(1) writer_step_def)
qed simp

end
