(* ===== verification/Ollama.thy ===== *)
theory Ollama
  imports Classifier Startup_Validator
begin

text \<open>
  The calls to the local model's service: the request of \<open>classify\<close> and \<open>generate_local_response\<close>
  and the health check of \<open>orchestrator/classifier.py\<close>, and \<open>get_ollama_model_info\<close> of
  \<open>orchestrator/startup.py\<close>. The service is outside: its answer to one HTTP call is an argument.
\<close>

text \<open>
  The answer: the call raised (no connection, a timeout), or a status with the decoded body (\<open>None\<close> when
  \<open>resp.json()\<close> raises). \<open>raise_for_status\<close> raises but for a success.
\<close>

datatype http_answer = No_answer | Http nat "json option"

definition success_body :: "http_answer \<Rightarrow> json option" where
  "success_body a = (case a of
      No_answer \<Rightarrow> None
    | Http status body \<Rightarrow> if 200 \<le> status \<and> status \<le> 299 then body else None)"

text \<open>\<open>data.get(k, v)\<close> in the protected block: \<open>None\<close> when it raises.\<close>

definition body_get :: "http_answer \<Rightarrow> string \<Rightarrow> json \<Rightarrow> json option" where
  "body_get a k v = Option.bind (success_body a) (json_get k v)"

section \<open>Classification\<close>

text \<open>The reply that \<open>classify\<close> parses; the request fails over to the empty text.\<close>

definition classify_reply :: "http_answer \<Rightarrow> json option" where
  "classify_reply a = body_get a ''response'' (JStr [])"

definition classify_with ::
    "(string \<Rightarrow> json option) \<Rightarrow> (string \<Rightarrow> rat option) \<Rightarrow> http_answer \<Rightarrow> py_exc + classification" where
  "classify_with loads float_of a = classify_input loads float_of (classify_reply a)"

definition generate_request :: "string \<Rightarrow> json" where
  "generate_request prompt =
    JObj [(''model'', JStr ''llama3.1:8b''), (''prompt'', JStr prompt), (''stream'', JBool False),
      (''keep_alive'', JStr ''30m''), (''options'', JObj [(''temperature'', JNum (7 / 10))])]"

section \<open>The local answer\<close>

record ol_response =
  lr_text :: json
  lr_tokens_in :: json
  lr_tokens_out :: json

text \<open>\<open>None\<close>: the exception is logged and raised again.\<close>

definition generate_local_response :: "http_answer \<Rightarrow> ol_response option" where
  "generate_local_response a =
    (case (body_get a ''response'' (JStr []), body_get a ''prompt_eval_count'' (JInt 0),
        body_get a ''eval_count'' (JInt 0)) of
       (Some t, Some m, Some n) \<Rightarrow> Some \<lparr>lr_text = t, lr_tokens_in = m, lr_tokens_out = n\<rparr>
     | _ \<Rightarrow> None)"

section \<open>Health\<close>

fun any_contains :: "string \<Rightarrow> json list \<Rightarrow> py_exc + bool" where
  "any_contains k [] = Inr False"
| "any_contains k (m # ms) =
    (case json_contains k m of Inl x \<Rightarrow> Inl x | Inr True \<Rightarrow> Inr True | Inr False \<Rightarrow> any_contains k ms)"

text \<open>The names of the listed models; \<open>None\<close> when an entry is no object or the list none to iterate.\<close>

definition model_names :: "json \<Rightarrow> json list option" where
  "model_names data =
    (case json_get ''models'' (JArr []) data of
       None \<Rightarrow> None
     | Some v \<Rightarrow> (case json_iter v of Inl x \<Rightarrow> None | Inr ms \<Rightarrow> those (map (json_get ''name'' (JStr [])) ms)))"

definition check_ollama_health :: "http_answer \<Rightarrow> string" where
  "check_ollama_health a = (case a of
      No_answer \<Rightarrow> ''down''
    | Http status body \<Rightarrow>
        if status \<noteq> 200 then ''degraded''
        else (case Option.bind body model_names of
            None \<Rightarrow> ''down''
          | Some names \<Rightarrow>
              (case any_contains ''llama3.1:8b'' names of
                 Inl x \<Rightarrow> ''down'' | Inr True \<Rightarrow> ''healthy'' | Inr False \<Rightarrow> ''degraded'')))"

section \<open>The model at start\<close>

text \<open>\<open>models[0]\<close> of a value that is not empty; \<open>None\<close> for the \<open>KeyError\<close> or \<open>TypeError\<close>.\<close>

definition json_first :: "json \<Rightarrow> json option" where
  "json_first v = (case v of JArr (x # xs) \<Rightarrow> Some x | JStr (c # cs) \<Rightarrow> Some (JStr [c]) | _ \<Rightarrow> None)"

definition get_ollama_model_info :: "http_answer \<Rightarrow> json \<times> json" where
  "get_ollama_model_info a =
    (case body_get a ''models'' (JArr []) of
       None \<Rightarrow> (JNull, JNull)
     | Some models \<Rightarrow>
         if \<not> truthy models then (JNull, JNull)
         else (case json_first models of
             None \<Rightarrow> (JNull, JNull)
           | Some m \<Rightarrow>
               (case (json_get ''name'' JNull m, json_get ''digest'' JNull m) of
                  (Some n, Some d) \<Rightarrow> (n, d) | _ \<Rightarrow> (JNull, JNull))))"

section \<open>What the callers rely on\<close>

text \<open>
  Without the local model every request is classified for the cloud: the fallback names Claude, and a
  caller cannot tell it from a classification.
\<close>

lemma unreachable_goes_to_cloud:
  assumes "loads [] = None"
  shows "classify_with loads float_of No_answer = Inr
    \<lparr>c_category = ''analysis'', c_local_capable = False, c_routing = ''cloud'', c_model = ''claude'',
     c_confidence = 1 / 2, c_capability = ''route.cloud.claude'', c_candidates = [''claude-sonnet-4-20250514''],
     c_route = ''claude-sonnet-default''\<rparr>"
proof -
  have "strip_fences [] = []" by code_simp
  then show ?thesis
    using assms
    by (simp add: classify_with_def classify_reply_def body_get_def success_body_def classify_input_def
        parse_classification_def FALLBACK_def MODEL_MAP_def)
qed

text \<open>A healthy service has answered 200 with a list of models that is not empty.\<close>

lemma healthy_has_model:
  assumes "check_ollama_health a = ''healthy''"
  shows "\<exists>data names. a = Http 200 (Some data) \<and> model_names data = Some names \<and> names \<noteq> []"
proof -
  obtain body where a: "a = Http 200 body" and c: "check_ollama_health (Http 200 body) = ''healthy''"
    using assms by (cases a) (auto simp: check_ollama_health_def split: if_splits)
  obtain data names where d: "body = Some data" "model_names data = Some names"
    using c by (auto simp: check_ollama_health_def bind_eq_None_conv split: option.splits) (cases body; auto)
  have "names \<noteq> []" using c d by (auto simp: check_ollama_health_def)
  then show ?thesis using a d by blast
qed

text \<open>The answer is unknown, and nothing else, when the service cannot be asked.\<close>

lemma model_info_unreachable:
  "success_body a = None \<Longrightarrow> get_ollama_model_info a = (JNull, JNull)"
  by (simp add: get_ollama_model_info_def body_get_def)

lemma model_info_first:
  "get_ollama_model_info (Http 200 (Some (JObj [(''models'', JArr (JObj [(''name'', n), (''digest'', d)] # ms))]))) = (n, d)"
  by (simp add: get_ollama_model_info_def body_get_def success_body_def json_get_def get_or_def truthy_def json_first_def)

lemma health_examples:
  "check_ollama_health (Http 200 (Some (JObj [(''models'', JArr [JObj [(''name'', JStr ''llama3.1:8b'')]])]))) = ''healthy''"
  "check_ollama_health (Http 200 (Some (JObj [(''models'', JArr [JObj [(''name'', JStr ''mistral'')]])]))) = ''degraded''"
  "check_ollama_health (Http 503 None) = ''degraded''" "check_ollama_health No_answer = ''down''"
  by code_simp+

end
