(* ===== verification/State_Table.thy ===== *)
theory State_Table
  imports Connectivity Idempotency Audit_Files
begin

text \<open>
  The table \<open>state\<close> that four modules share (\<open>orchestrator/persistence.py\<close>): the idempotency keys, review
  outcomes and source events of \<open>idempotency_store.py\<close>, the circuits of \<open>connectivity_monitor.py\<close> and the two
  rows of \<open>hub_state.py\<close>, told apart by the prefix of their keys. The other theories give each module a table
  of records of its own; here is the one table of texts below it, with the statements and the encodings of
  the code, and the proof that it refines those tables.

  \<open>iso\<close> and \<open>from_iso\<close> are \<open>datetime.isoformat\<close> and \<open>fromisoformat\<close>; \<open>codec\<close> has \<open>json.dumps\<close> and \<open>json.loads\<close>.
  The column \<open>updated_at\<close> is never read.
\<close>

section \<open>Statements\<close>

type_synonym state_table = "(string, string) dict"

text \<open>\<open>LIKE\<close> as SQLite has it: \<open>%\<close> is any text, \<open>_\<close> any character, and letters match in either case.\<close>

function sql_like :: "string \<Rightarrow> string \<Rightarrow> bool" where
  "sql_like [] t = (t = [])"
| "sql_like (c # p) t =
    (if c = CHR ''%'' then sql_like p t \<or> (case t of [] \<Rightarrow> False | x # xs \<Rightarrow> sql_like (c # p) xs)
     else (case t of [] \<Rightarrow> False | x # xs \<Rightarrow> (c = CHR ''_'' \<or> lower_char c = lower_char x) \<and> sql_like p xs))"
  by pat_completeness auto
termination
  by (relation "measures [\<lambda>(p, t). length p + length t]") auto

text \<open>The prefixes; the rows of the hub have whole keys and are selected by equality.\<close>

datatype row_family = Idem_rows | Review_rows | Source_rows | Circuit_rows

definition row_prefix :: "row_family \<Rightarrow> string" where
  "row_prefix f = (case f of Idem_rows \<Rightarrow> ''idem:'' | Review_rows \<Rightarrow> ''review_idem:''
    | Source_rows \<Rightarrow> ''srcevent:'' | Circuit_rows \<Rightarrow> ''circuit:'')"

definition KEY_STATE :: string where
  "KEY_STATE = ''hub:state''"

definition KEY_HEARTBEAT :: string where
  "KEY_HEARTBEAT = ''hub:last_heartbeat''"

definition row_key :: "row_family \<Rightarrow> string \<Rightarrow> string" where
  "row_key f k = row_prefix f @ k"

text \<open>\<open>SELECT key, value FROM state WHERE key LIKE prefix%\<close>, in the order of the rows.\<close>

definition select_like :: "row_family \<Rightarrow> state_table \<Rightarrow> (string \<times> string) list" where
  "select_like f T = filter (\<lambda>(k, v). sql_like (row_prefix f @ ''%'') k) T"

text \<open>\<open>INSERT OR REPLACE\<close> removes the old row and adds a new one.\<close>

definition replace_row :: "string \<Rightarrow> string \<Rightarrow> state_table \<Rightarrow> state_table" where
  "replace_row k v T = AList.delete k T @ [(k, v)]"

text \<open>\<open>INSERT .. ON CONFLICT(key) DO NOTHING\<close>, with whether it inserted.\<close>

definition insert_row :: "string \<Rightarrow> string \<Rightarrow> state_table \<Rightarrow> bool \<times> state_table" where
  "insert_row k v T = (if map_of T k = None then (True, T @ [(k, v)]) else (False, T))"

definition delete_rows :: "string list \<Rightarrow> state_table \<Rightarrow> state_table" where
  "delete_rows ks T = filter (\<lambda>(k, v). k \<notin> set ks) T"

text \<open>
  \<open>json_extract(value, '$.job_id')\<close>: \<open>None\<close> is the error of a text that is no JSON, \<open>Some None\<close> the SQL \<open>NULL\<close>.
\<close>

definition extract_job_id :: "codec \<Rightarrow> string \<Rightarrow> string option option" where
  "extract_job_id C v = (case json_loads C v of
      None \<Rightarrow> None
    | Some (JObj d) \<Rightarrow> Some (case map_of d ''job_id'' of Some (JStr s) \<Rightarrow> Some s | _ \<Rightarrow> None)
    | Some _ \<Rightarrow> Some None)"

text \<open>The compare-and-delete; an error of the extraction leaves the table as it is.\<close>

definition delete_if_job :: "codec \<Rightarrow> string \<Rightarrow> string \<Rightarrow> state_table \<Rightarrow> state_table" where
  "delete_if_job C k job_id T =
    (if \<exists>v \<in> set (map snd (filter (\<lambda>kv. fst kv = k) T)). extract_job_id C v = None then T
     else filter (\<lambda>(k', v). \<not> (k' = k \<and> extract_job_id C v = Some (Some job_id))) T)"

text \<open>The purge at start; \<open>running\<close> are the ids of the jobs that are neither delivered nor failed.\<close>

definition purge_rows :: "codec \<Rightarrow> string list \<Rightarrow> state_table \<Rightarrow> state_table" where
  "purge_rows C running T =
    (if \<exists>v \<in> set (map snd (select_like Idem_rows T)). extract_job_id C v = None then T
     else filter (\<lambda>(k, v). \<not> (sql_like (row_prefix Idem_rows @ ''%'') k \<and>
         (case extract_job_id C v of Some (Some j) \<Rightarrow> j \<notin> set running | _ \<Rightarrow> True))) T)"

section \<open>Encodings\<close>

type_synonym times = "(instant \<Rightarrow> string) \<times> (string \<Rightarrow> instant option)"

definition get_str :: "(string, json) dict \<Rightarrow> string \<Rightarrow> string option" where
  "get_str d k = (case map_of d k of Some (JStr s) \<Rightarrow> Some s | _ \<Rightarrow> None)"

definition get_time :: "times \<Rightarrow> (string, json) dict \<Rightarrow> string \<Rightarrow> instant option" where
  "get_time Z d k = Option.bind (get_str d k) (snd Z)"

text \<open>A decoder yields \<open>None\<close> where the code raises (a missing key), and for a value of a type that the code never writes.\<close>

definition decoded :: "codec \<Rightarrow> ((string, json) dict \<Rightarrow> 'r option) \<Rightarrow> string \<Rightarrow> 'r option" where
  "decoded C f v = (case json_loads C v of Some (JObj d) \<Rightarrow> f d | _ \<Rightarrow> None)"

definition idem_value :: "codec \<Rightarrow> times \<Rightarrow> idem_record \<Rightarrow> string" where
  "idem_value C Z r = json_dumps C (JObj [(''job_id'', JStr (ir_job_id r)), (''status'', JStr (ir_status r)),
     (''created_at'', JStr (fst Z (ir_created_at r)))])"

definition idem_row :: "codec \<Rightarrow> times \<Rightarrow> string \<Rightarrow> idem_record option" where
  "idem_row C Z = decoded C (\<lambda>d.
    (case (get_str d ''job_id'', get_time Z d ''created_at'', get_str d ''status'') of
       (Some j, Some t, Some st) \<Rightarrow> Some \<lparr>ir_job_id = j, ir_created_at = t, ir_status = st\<rparr>
     | _ \<Rightarrow> None))"

definition review_value :: "codec \<Rightarrow> times \<Rightarrow> review_record \<Rightarrow> string" where
  "review_value C Z r = json_dumps C (JObj [(''payload_identity'', JObj (payload_identity r)),
     (''outcome'', JObj [(''status_code'', JInt (int (outcome_code r))), (''body'', JObj (outcome_body r))]),
     (''applied'', JBool (applied r)), (''created_at'', JStr (fst Z (rr_created_at r)))])"

definition review_row :: "codec \<Rightarrow> times \<Rightarrow> string \<Rightarrow> review_record option" where
  "review_row C Z = decoded C (\<lambda>d.
    (case (map_of d ''payload_identity'', map_of d ''outcome'', map_of d ''applied'', get_time Z d ''created_at'') of
       (Some (JObj pid), Some (JObj out), Some (JBool ap), Some t) \<Rightarrow>
         (case (map_of out ''status_code'', map_of out ''body'') of
            (Some (JInt n), Some (JObj body)) \<Rightarrow> Some \<lparr>payload_identity = pid, outcome_code = nat n, outcome_body = body,
              applied = ap, rr_created_at = t\<rparr>
          | _ \<Rightarrow> None)
     | _ \<Rightarrow> None))"

definition source_value :: "codec \<Rightarrow> times \<Rightarrow> source_event_record \<Rightarrow> string" where
  "source_value C Z r = json_dumps C (JObj [(''job_id'', JStr (sr_job_id r)),
     (''intent_equivalence_hash'', JStr (sr_hash r)), (''client_source'', JStr (sr_client_source r)),
     (''client_source_event_id'', JStr (sr_event_id r)), (''created_at'', JStr (fst Z (sr_created_at r)))])"

definition source_row :: "codec \<Rightarrow> times \<Rightarrow> string \<Rightarrow> source_event_record option" where
  "source_row C Z = decoded C (\<lambda>d.
    (case (get_str d ''job_id'', get_str d ''intent_equivalence_hash'', get_str d ''client_source'',
        get_str d ''client_source_event_id'', get_time Z d ''created_at'') of
       (Some j, Some h, Some cs, Some e, Some t) \<Rightarrow>
         Some \<lparr>sr_job_id = j, sr_hash = h, sr_client_source = cs, sr_event_id = e, sr_created_at = t\<rparr>
     | _ \<Rightarrow> None))"

section \<open>Loading\<close>

text \<open>
  The loops of \<open>_load_from_db\<close>: the first row that does not decode raises out of the loop, and the rows
  behind it are not loaded (the exception is logged).
\<close>

fun load_rows :: "(string \<Rightarrow> 'r option) \<Rightarrow> nat \<Rightarrow> (string \<times> string) list \<Rightarrow> (string, 'r) dict \<Rightarrow> (string, 'r) dict" where
  "load_rows dec n [] recs = recs"
| "load_rows dec n ((k, v) # rows) recs =
    (case dec v of None \<Rightarrow> recs | Some r \<Rightarrow> load_rows dec n rows (AList.update (drop n k) r recs))"

definition load_family :: "row_family \<Rightarrow> (string \<Rightarrow> 'r option) \<Rightarrow> state_table \<Rightarrow> (string, 'r) dict" where
  "load_family f dec T = load_rows dec (length (row_prefix f)) (select_like f T) []"

lemma load_rows_stops:
  "dec v = None \<Longrightarrow> load_rows dec n (rows @ (k, v) # rest) recs = load_rows dec n rows recs"
  by (induction rows arbitrary: recs) (auto split: option.split)

text \<open>The row of a circuit and the two rows of the hub.\<close>

definition opt_time :: "times \<Rightarrow> instant option \<Rightarrow> json" where
  "opt_time Z t = (case t of None \<Rightarrow> JNull | Some x \<Rightarrow> JStr (fst Z x))"

definition circuit_name :: "circuit_state \<Rightarrow> string" where
  "circuit_name c = (case c of CLOSED \<Rightarrow> ''closed'' | OPEN \<Rightarrow> ''open'' | HALF_OPEN \<Rightarrow> ''half_open'')"

definition circuit_value :: "codec \<Rightarrow> times \<Rightarrow> route_health \<Rightarrow> string" where
  "circuit_value C Z rh = json_dumps C (JObj [(''state'', JStr (circuit_name (circuit rh))),
     (''consecutive_failures'', JInt (int (consecutive_failures rh))),
     (''consecutive_successes'', JInt (int (consecutive_successes rh))),
     (''last_success_time'', opt_time Z (last_success_time rh)),
     (''last_failure_time'', opt_time Z (last_failure_time rh)),
     (''last_probe_time'', opt_time Z (last_probe_time rh))])"

definition circuit_of_name :: "string \<Rightarrow> circuit_state option" where
  "circuit_of_name s = map_of [(''closed'', CLOSED), (''open'', OPEN), (''half_open'', HALF_OPEN)] s"

text \<open>\<open>if data.get(k): .. fromisoformat(data[k])\<close>; a missing or empty time is left at \<open>None\<close>.\<close>

definition get_opt_time :: "times \<Rightarrow> (string, json) dict \<Rightarrow> string \<Rightarrow> instant option option" where
  "get_opt_time Z d k =
    (if truthy (get_or d k JNull) then map_option Some (get_time Z d k) else Some None)"

definition get_nat :: "(string, json) dict \<Rightarrow> string \<Rightarrow> nat option" where
  "get_nat d k = (case map_of d k of Some (JInt i) \<Rightarrow> Some (nat i) | _ \<Rightarrow> None)"

definition circuit_row :: "codec \<Rightarrow> times \<Rightarrow> string \<Rightarrow> route_health option" where
  "circuit_row C Z = decoded C (\<lambda>d.
    (case (Option.bind (get_str d ''state'') circuit_of_name, get_nat d ''consecutive_failures'',
        get_nat d ''consecutive_successes'') of
       (Some c, Some m, Some n) \<Rightarrow>
         (case (get_opt_time Z d ''last_success_time'', get_opt_time Z d ''last_failure_time'',
             get_opt_time Z d ''last_probe_time'') of
            (Some ok, Some bad, Some probed) \<Rightarrow> Some \<lparr>circuit = c, consecutive_failures = m, consecutive_successes = n,
              last_probe_time = probed, last_success_time = ok, last_failure_time = bad\<rparr>
          | _ \<Rightarrow> None)
     | _ \<Rightarrow> None))"

definition hub_value :: "codec \<Rightarrow> hub_state \<Rightarrow> string" where
  "hub_value C h = json_dumps C (JObj [(''state'', JStr (hub_text h))])"

definition hub_row_of :: "codec \<Rightarrow> string \<Rightarrow> hub_state option" where
  "hub_row_of C = decoded C (\<lambda>d. Option.bind (get_str d ''state'')
     (map_of [(''active'', ACTIVE), (''suspended'', SUSPENDED), (''awaiting_authority'', AWAITING_AUTHORITY)]))"

definition beat_value :: "codec \<Rightarrow> times \<Rightarrow> instant \<Rightarrow> string" where
  "beat_value C Z t = json_dumps C (JObj [(''wall_timestamp'', JStr (fst Z t))])"

definition beat_row_of :: "codec \<Rightarrow> times \<Rightarrow> string \<Rightarrow> instant option" where
  "beat_row_of C Z = decoded C (\<lambda>d. get_time Z d ''wall_timestamp'')"

section \<open>The encodings are read back\<close>

definition times_ok :: "times \<Rightarrow> bool" where
  "times_ok Z \<longleftrightarrow> (\<forall>t. snd Z (fst Z t) = Some t \<and> fst Z t \<noteq> [])"

definition review_json_ok :: "review_record \<Rightarrow> bool" where
  "review_json_ok r \<longleftrightarrow> json_wf (JObj (payload_identity r)) \<and> json_wf (JObj (outcome_body r))"

lemma decoded_dumps: "codec_ok C \<Longrightarrow> json_wf (JObj d) \<Longrightarrow> decoded C f (json_dumps C (JObj d)) = f d"
  by (simp add: decoded_def codec_loads_dumps del: json_wf.simps)

named_theorems row_defs

declare get_str_def [row_defs] get_time_def [row_defs] get_nat_def [row_defs] get_opt_time_def [row_defs]
  get_or_def [row_defs] truthy_def [row_defs] opt_time_def [row_defs] times_ok_def [row_defs]

lemma idem_roundtrip: "codec_ok C \<Longrightarrow> times_ok Z \<Longrightarrow> idem_row C Z (idem_value C Z r) = Some r"
  by (simp add: idem_row_def idem_value_def decoded_dumps row_defs)

lemma review_roundtrip:
  "codec_ok C \<Longrightarrow> times_ok Z \<Longrightarrow> review_json_ok r \<Longrightarrow> review_row C Z (review_value C Z r) = Some r"
  by (auto simp: review_row_def review_value_def decoded_dumps review_json_ok_def row_defs)

lemma source_roundtrip: "codec_ok C \<Longrightarrow> times_ok Z \<Longrightarrow> source_row C Z (source_value C Z r) = Some r"
  by (simp add: source_row_def source_value_def decoded_dumps row_defs)

lemma circuit_roundtrip: "codec_ok C \<Longrightarrow> times_ok Z \<Longrightarrow> circuit_row C Z (circuit_value C Z rh) = Some rh"
  by (cases "circuit rh"; cases "last_success_time rh"; cases "last_failure_time rh"; cases "last_probe_time rh")
    (simp_all add: circuit_row_def circuit_value_def decoded_dumps circuit_name_def circuit_of_name_def row_defs)

lemma hub_roundtrip: "codec_ok C \<Longrightarrow> hub_row_of C (hub_value C h) = Some h"
  by (cases h) (simp_all add: hub_row_of_def hub_value_def decoded_dumps hub_text_def row_defs)

lemma beat_roundtrip: "codec_ok C \<Longrightarrow> times_ok Z \<Longrightarrow> beat_row_of C Z (beat_value C Z t) = Some t"
  by (simp add: beat_row_of_def beat_value_def decoded_dumps row_defs)

lemma idem_row_job: "idem_row C Z v = Some r \<Longrightarrow> extract_job_id C v = Some (Some (ir_job_id r))"
  by (auto simp: idem_row_def decoded_def extract_job_id_def get_str_def split: option.splits json.splits)

lemma source_row_job: "source_row C Z v = Some r \<Longrightarrow> extract_job_id C v = Some (Some (sr_job_id r))"
  by (auto simp: source_row_def decoded_def extract_job_id_def get_str_def split: option.splits json.splits)

section \<open>The prefixes tell the families apart\<close>

lemma like_any [simp]: "sql_like ''%'' t"
  by (induction t) simp_all

lemma like_char:
  "c \<noteq> CHR ''%'' \<Longrightarrow> sql_like (c # p) (x # xs) \<longleftrightarrow> (c = CHR ''_'' \<or> lower_char c = lower_char x) \<and> sql_like p xs"
  "c \<noteq> CHR ''%'' \<Longrightarrow> \<not> sql_like (c # p) []"
  by simp_all

declare sql_like.simps(2) [simp del]

lemma like_family: "sql_like (row_prefix f @ ''%'') (row_key g k) \<longleftrightarrow> f = g"
  by (cases f; cases g) (simp_all add: row_key_def row_prefix_def like_char lower_char_def Let_def)

lemma like_hub: "\<not> sql_like (row_prefix f @ ''%'') KEY_STATE" "\<not> sql_like (row_prefix f @ ''%'') KEY_HEARTBEAT"
  by (cases f; simp add: KEY_STATE_def KEY_HEARTBEAT_def row_prefix_def like_char lower_char_def Let_def)+

lemma row_key_inject [simp]: "row_key f k = row_key g k' \<longleftrightarrow> f = g \<and> k = k'"
proof
  assume e: "row_key f k = row_key g k'"
  then have "f = g" using like_family [of f g k'] like_family [of f f k] by simp
  then show "f = g \<and> k = k'" using e by (simp add: row_key_def)
qed simp

section \<open>One table for several\<close>

definition table_ok :: "state_table \<Rightarrow> bool" where
  "table_ok T \<longleftrightarrow> wf_dict T \<and>
    (\<forall>k \<in> fst ` set T. (\<exists>f k'. k = row_key f k') \<or> k \<in> {KEY_STATE, KEY_HEARTBEAT})"

definition rows_of :: "row_family \<Rightarrow> (string \<Rightarrow> 'r option) \<Rightarrow> (string \<Rightarrow> string option) \<Rightarrow> string \<Rightarrow> 'r option" where
  "rows_of f dec m k = Option.bind (m (row_key f k)) dec"

text \<open>A table of records is what the rows of a family hold, all of them readable.\<close>

definition holds :: "row_family \<Rightarrow> (string \<Rightarrow> 'r option) \<Rightarrow> (string \<Rightarrow> string option) \<Rightarrow> (string, 'r) dict \<Rightarrow> bool" where
  "holds f dec m tab \<longleftrightarrow> wf_dict tab \<and>
    (\<forall>k. map_of tab k = rows_of f dec m k) \<and> (\<forall>k v. m (row_key f k) = Some v \<longrightarrow> dec v \<noteq> None)"

lemma map_of_filter_keys: "map_of (filter (\<lambda>(k, v). P k) T) k = (if P k then map_of T k else None)"
  by (induction T) auto

lemma map_of_filter_wf:
  "wf_dict T \<Longrightarrow> map_of (filter (\<lambda>(k, v). P k v) T) k = (case map_of T k of Some v \<Rightarrow> if P k v then Some v else None | None \<Rightarrow> None)"
  by (induction T) (force split: option.split simp: map_of_eq_None_iff)+

lemma load_rows_lookup:
  assumes "\<forall>(k, v) \<in> set rows. (\<exists>k'. k = row_key f k') \<and> dec v \<noteq> None" and "wf_dict rows"
  shows "map_of (load_rows dec (length (row_prefix f)) rows recs) k =
    (case map_of rows (row_key f k) of Some v \<Rightarrow> dec v | None \<Rightarrow> map_of recs k)"
  using assms
proof (induction rows arbitrary: recs)
  case (Cons kv rows)
  obtain k' v r where kv: "kv = (row_key f k', v)" "dec v = Some r" using Cons.prems(1) by (cases kv) auto
  have "drop (length (row_prefix f)) (row_key f k') = k'" by (simp add: row_key_def)
  then show ?case
    using Cons by (auto simp: kv map_of_eq_None_iff split: option.split) (force simp: map_of_eq_None_iff)+
qed simp

text \<open>Over a table of the known keys, loading a family gives the records its rows hold.\<close>

lemma load_family_lookup:
  assumes "table_ok T" and "holds f dec (map_of T) tab"
  shows "map_of (load_family f dec T) = map_of tab"
proof
  fix k
  have sel: "map_of (select_like f T) q = (if sql_like (row_prefix f @ ''%'') q then map_of T q else None)" for q
    unfolding select_like_def by (rule map_of_filter_keys)
  have wf: "wf_dict (select_like f T)"
    using assms(1) by (auto simp: table_ok_def select_like_def intro: distinct_map_filter)
  have "(\<exists>k'. q = row_key f k') \<and> dec v \<noteq> None" if "(q, v) \<in> set (select_like f T)" for q v
  proof -
    have q: "sql_like (row_prefix f @ ''%'') q" "(q, v) \<in> set T" using that by (auto simp: select_like_def)
    then obtain g k' where "q = row_key g k'"
      using assms(1) like_hub [of f] by (force simp: table_ok_def)
    then have "q = row_key f k'" using q(1) like_family by auto
    moreover have "map_of T q = Some v" using assms(1) q(2) by (simp add: table_ok_def)
    ultimately show ?thesis using assms(2) by (auto simp: holds_def)
  qed
  then have "map_of (load_family f dec T) k = (case map_of T (row_key f k) of Some v \<Rightarrow> dec v | None \<Rightarrow> None)"
    unfolding load_family_def by (subst load_rows_lookup [OF _ wf]) (auto simp: sel like_family split: option.split)
  then show "map_of (load_family f dec T) k = map_of tab k"
    using assms(2) by (simp add: holds_def rows_of_def split: option.split)
qed

section \<open>The statements refine the tables of records\<close>

lemma map_of_replace [simp]: "map_of (replace_row k v T) = (map_of T)(k \<mapsto> v)"
  by (rule ext) (auto simp: replace_row_def map_add_def split: option.split)

lemma map_of_insert: "map_of (snd (insert_row k v T)) = (if map_of T k = None then (map_of T)(k \<mapsto> v) else map_of T)"
  by (rule ext) (auto simp: insert_row_def map_add_def split: option.split)

lemma map_of_delete_rows: "map_of (delete_rows ks T) k = (if k \<in> set ks then None else map_of T k)"
  unfolding delete_rows_def by (subst map_of_filter_keys) simp

lemma map_of_delete_if_job:
  assumes "wf_dict T" and "\<And>v. map_of T k = Some v \<Longrightarrow> extract_job_id C v \<noteq> None"
  shows "map_of (delete_if_job C k j T) = (case map_of T k of
      Some v \<Rightarrow> if extract_job_id C v = Some (Some j) then (map_of T)(k := None) else map_of T | None \<Rightarrow> map_of T)"
proof -
  have "\<not> (\<exists>v \<in> set (map snd (filter (\<lambda>kv. fst kv = k) T)). extract_job_id C v = None)"
    using assms by auto
  then show ?thesis
    by (auto simp: delete_if_job_def map_of_filter_wf [OF assms(1)] fun_eq_iff split: option.split)
qed

lemma table_ok_steps:
  assumes "table_ok T"
  shows "table_ok (replace_row (row_key f k) v T)" "table_ok (snd (insert_row (row_key f k) v T))"
    "table_ok (delete_rows ks T)" "table_ok (delete_if_job C q j T)" "table_ok (purge_rows C running T)"
proof -
  have sub: "table_ok (filter P T)" for P using assms by (auto simp: table_ok_def intro: distinct_map_filter)
  show "table_ok (delete_rows ks T)" "table_ok (delete_if_job C q j T)" "table_ok (purge_rows C running T)"
    using assms sub by (simp_all add: delete_rows_def delete_if_job_def purge_rows_def)
  have "set (AList.delete q T) \<subseteq> set T" for q by (auto simp: AList.delete_eq)
  then show "table_ok (replace_row (row_key f k) v T)"
    using assms by (auto simp: table_ok_def replace_row_def delete_keys distinct_removeAll)
  show "table_ok (snd (insert_row (row_key f k) v T))"
    using assms by (auto simp: table_ok_def insert_row_def map_of_eq_None_iff)
qed

lemma holds_put:
  "holds f dec m tab \<Longrightarrow> dec v = Some r \<Longrightarrow> holds f dec (m(row_key f k \<mapsto> v)) (AList.update k r tab)"
  by (auto simp: holds_def rows_of_def)

lemma holds_other: "holds f dec m tab \<Longrightarrow> g \<noteq> f \<Longrightarrow> holds f dec (m(row_key g k := w)) tab"
  by (auto simp: holds_def rows_of_def)

lemma holds_remove:
  assumes "holds f dec m tab" and "\<And>k. m' (row_key f k) = (if k \<in> K then None else m (row_key f k))"
  shows "holds f dec m' (filter (\<lambda>(k, r). k \<notin> K) tab)"
  using assms map_of_filter_keys [of "\<lambda>k. k \<notin> K" tab] by (auto simp: holds_def rows_of_def intro: distinct_map_filter)

lemma holds_filter:
  assumes "holds f dec m tab"
  shows "holds f dec (\<lambda>q. if \<exists>k. q = row_key f k \<and> \<not> (\<exists>r. map_of tab k = Some r \<and> P r) then None else m q)
    (filter (\<lambda>(k, r). P r) tab)"
proof -
  have "wf_dict tab" using assms by (simp add: holds_def)
  then show ?thesis
    using assms map_of_filter_wf [of tab "\<lambda>k r. P r"]
    by (auto simp: holds_def rows_of_def intro: distinct_map_filter split: option.split)
qed

lemma holds_unread: "holds f dec m tab \<Longrightarrow> (\<And>k. m' (row_key f k) = m (row_key f k)) \<Longrightarrow> holds f dec m' tab"
  by (simp add: holds_def rows_of_def)

text \<open>\<open>running\<close> are the jobs of the jobs table that are neither delivered nor failed.\<close>

definition represents ::
  "codec \<Rightarrow> times \<Rightarrow> string list \<Rightarrow> state_table \<Rightarrow> ('j, 'a) store_scheme \<Rightarrow> bool" where
  "represents C Z running T S \<longleftrightarrow> table_ok T \<and> (case db S of None \<Rightarrow> False | Some D \<Rightarrow>
     holds Idem_rows (idem_row C Z) (map_of T) (idem_tab D) \<and>
     holds Review_rows (review_row C Z) (map_of T) (review_tab D) \<and>
     holds Source_rows (source_row C Z) (map_of T) (source_tab D) \<and>
     (\<forall>r. key_live (jobs_tab D) r \<longleftrightarrow> ir_job_id r \<in> set running))"

text \<open>
  The statements of the store, on the one table and on the tables of records. \<open>Put_circuit\<close> is a write of
  another module that shares the table, \<open>Purge_idem\<close> the statement of \<open>_purge_terminal_keys\<close>.
\<close>

datatype store_stmt =
    Put_idem string idem_record
  | Put_review string review_record
  | Claim_source string source_event_record
  | Release_source string string
  | Drop_idem "string list"
  | Put_circuit string route_health
  | Purge_idem

fun table_exec :: "codec \<Rightarrow> times \<Rightarrow> string list \<Rightarrow> store_stmt \<Rightarrow> state_table \<Rightarrow> state_table" where
  "table_exec C Z running (Put_idem k r) T = replace_row (row_key Idem_rows k) (idem_value C Z r) T"
| "table_exec C Z running (Put_review k r) T = replace_row (row_key Review_rows k) (review_value C Z r) T"
| "table_exec C Z running (Claim_source k r) T = snd (insert_row (row_key Source_rows k) (source_value C Z r) T)"
| "table_exec C Z running (Release_source k j) T = delete_if_job C (row_key Source_rows k) j T"
| "table_exec C Z running (Drop_idem ks) T = delete_rows (map (row_key Idem_rows) ks) T"
| "table_exec C Z running (Put_circuit k rh) T = replace_row (row_key Circuit_rows k) (circuit_value C Z rh) T"
| "table_exec C Z running Purge_idem T = purge_rows C running T"

fun store_exec :: "store_stmt \<Rightarrow> ('j, 'a) store_scheme \<Rightarrow> ('j, 'a) store_scheme" where
  "store_exec (Put_idem k r) S = db_write True k r S"
| "store_exec (Put_review k r) S = db_write_review True k r S"
| "store_exec (Claim_source k r) S = snd (db_try_insert_source_event True k r S)"
| "store_exec (Release_source k j) S = db_delete_source_event True k j S"
| "store_exec (Drop_idem ks) S = db_delete True ks S"
| "store_exec (Put_circuit k rh) S = S"
| "store_exec Purge_idem S = snd (purge_terminal_keys True S)"

definition stmt_ok :: "store_stmt \<Rightarrow> bool" where
  "stmt_ok q = (case q of Put_review k r \<Rightarrow> review_json_ok r | _ \<Rightarrow> True)"

lemma map_of_purge:
  assumes T: "table_ok T" and I: "holds Idem_rows (idem_row C Z) (map_of T) tab"
  shows "map_of (purge_rows C running T) =
    (\<lambda>q. if \<exists>k. q = row_key Idem_rows k \<and> \<not> (\<exists>r. map_of tab k = Some r \<and> ir_job_id r \<in> set running)
      then None else map_of T q)"
proof
  fix q
  have wf: "wf_dict T" using T by (simp add: table_ok_def)
  have job: "\<exists>r. map_of tab k = Some r \<and> extract_job_id C v = Some (Some (ir_job_id r))"
    if "map_of T (row_key Idem_rows k) = Some v" for k v
    using I that idem_row_job [of C Z v] by (fastforce simp: holds_def rows_of_def)
  have known: "(\<exists>k. q = row_key Idem_rows k) \<longleftrightarrow> sql_like (row_prefix Idem_rows @ ''%'') q"
    if "map_of T q = Some v" for q v
    using T that like_hub [of Idem_rows] by (force simp: table_ok_def like_family dest: map_of_SomeD)
  have "extract_job_id C v \<noteq> None" if "(k, v) \<in> set (select_like Idem_rows T)" for k v
    using that wf known job by (fastforce simp: select_like_def)
  then have "\<not> (\<exists>v \<in> set (map snd (select_like Idem_rows T)). extract_job_id C v = None)" by auto
  then have run: "purge_rows C running T = filter (\<lambda>(k, v). \<not> (sql_like (row_prefix Idem_rows @ ''%'') k \<and>
      (case extract_job_id C v of Some (Some j) \<Rightarrow> j \<notin> set running | _ \<Rightarrow> True))) T"
    unfolding purge_rows_def by (rule if_not_P)
  show "map_of (purge_rows C running T) q =
    (if \<exists>k. q = row_key Idem_rows k \<and> \<not> (\<exists>r. map_of tab k = Some r \<and> ir_job_id r \<in> set running)
      then None else map_of T q)"
  proof (cases "map_of T q")
    case None
    then show ?thesis by (simp add: run map_of_filter_wf [OF wf])
  next
    case (Some v)
    show ?thesis
    proof (cases "\<exists>k. q = row_key Idem_rows k")
      case True
      then obtain k r where q: "q = row_key Idem_rows k" and "map_of tab k = Some r"
        "extract_job_id C v = Some (Some (ir_job_id r))"
        using job Some by blast
      then show ?thesis
        using known [OF Some] by (simp add: run map_of_filter_wf [OF wf] Some [unfolded q])
    next
      case False
      then show ?thesis using known [OF Some] by (simp add: run map_of_filter_wf [OF wf] Some)
    qed
  qed
qed

lemma stmt_refines:
  assumes C: "codec_ok C" and Z: "times_ok Z" and R: "represents C Z running T S" and q: "stmt_ok q"
  shows "represents C Z running (table_exec C Z running q T) (store_exec q S)"
proof -
  obtain D where D: "db S = Some D" and T: "table_ok T"
    and I: "holds Idem_rows (idem_row C Z) (map_of T) (idem_tab D)"
    and V: "holds Review_rows (review_row C Z) (map_of T) (review_tab D)"
    and E: "holds Source_rows (source_row C Z) (map_of T) (source_tab D)"
    and L: "\<And>r. key_live (jobs_tab D) r \<longleftrightarrow> ir_job_id r \<in> set running"
    using R by (auto simp: represents_def split: option.splits)
  note steps = table_ok_steps [OF T]
  show ?thesis
  proof (cases q)
    case (Put_idem k r)
    then show ?thesis
      using D L steps I V E idem_roundtrip [OF C Z]
      by (simp add: represents_def db_write_def db_exec_def holds_put holds_other)
  next
    case (Put_review k r)
    then show ?thesis
      using D L steps I V E q review_roundtrip [OF C Z]
      by (simp add: represents_def db_write_review_def db_exec_def holds_put holds_other stmt_ok_def)
  next
    case (Claim_source k r)
    have "map_of (source_tab D) k = None \<longleftrightarrow> map_of T (row_key Source_rows k) = None"
      using E by (cases "map_of T (row_key Source_rows k)") (auto simp: holds_def rows_of_def)
    then show ?thesis
      using D L steps I V E source_roundtrip [OF C Z] Claim_source
      by (simp add: represents_def db_try_insert_source_event_def map_of_insert holds_put holds_other)
  next
    case (Release_source k j)
    let ?q = "row_key Source_rows k"
    have x: "extract_job_id C v = Some (map_option sr_job_id (source_row C Z v))" if "map_of T ?q = Some v" for v
      using E that source_row_job by (fastforce simp: holds_def)
    have m: "map_of (delete_if_job C ?q j T) = (if map_option sr_job_id (map_of (source_tab D) k) = Some j
        then (map_of T)(?q := None) else map_of T)"
      using T E x by (subst map_of_delete_if_job) (auto simp: table_ok_def holds_def rows_of_def split: option.split)
    have tab: "filter (\<lambda>(k', r). \<not> (k' = k \<and> sr_job_id r = j)) (source_tab D) =
        (if map_option sr_job_id (map_of (source_tab D) k) = Some j
         then filter (\<lambda>(k', r). k' \<notin> {k}) (source_tab D) else source_tab D)"
    proof -
      have "(a, b) \<in> set (source_tab D) \<longleftrightarrow> map_of (source_tab D) a = Some b" for a b
        using E by (metis holds_def map_of_eq_Some_iff)
      then show ?thesis by (auto simp: filter_id_conv intro!: filter_cong)
    qed
    have "holds Source_rows (source_row C Z) (map_of (delete_if_job C ?q j T))
        (filter (\<lambda>(k', r). \<not> (k' = k \<and> sr_job_id r = j)) (source_tab D))"
      unfolding tab m using E holds_remove [OF E, of "(map_of T)(?q := None)" "{k}"]
      by (cases "map_option sr_job_id (map_of (source_tab D) k) = Some j") auto
    moreover have "holds Idem_rows (idem_row C Z) (map_of (delete_if_job C ?q j T)) (idem_tab D)"
      "holds Review_rows (review_row C Z) (map_of (delete_if_job C ?q j T)) (review_tab D)"
      unfolding m using I V by (simp_all add: holds_other)
    ultimately show ?thesis
      using D L steps Release_source by (simp add: represents_def db_delete_source_event_def db_exec_def)
  next
    case (Drop_idem ks)
    have "holds Idem_rows (idem_row C Z) (map_of (table_exec C Z running q T)) (filter (\<lambda>(k, r). k \<notin> set ks) (idem_tab D))"
      by (rule holds_remove [OF I]) (auto simp: Drop_idem map_of_delete_rows)
    moreover have "holds Review_rows (review_row C Z) (map_of (table_exec C Z running q T)) (review_tab D)"
      "holds Source_rows (source_row C Z) (map_of (table_exec C Z running q T)) (source_tab D)"
      by (rule holds_unread [OF V] holds_unread [OF E]; auto simp: Drop_idem map_of_delete_rows)+
    ultimately show ?thesis
      using D L steps Drop_idem by (simp add: represents_def db_delete_def db_exec_def)
  next
    case (Put_circuit k rh)
    then show ?thesis using D L steps I V E by (simp add: represents_def holds_other)
  next
    case Purge_idem
    have m: "map_of (purge_rows C running T) =
        (\<lambda>q. if \<exists>k. q = row_key Idem_rows k \<and> \<not> (\<exists>r. map_of (idem_tab D) k = Some r \<and> ir_job_id r \<in> set running)
          then None else map_of T q)"
      by (rule map_of_purge [OF T I])
    have "holds Idem_rows (idem_row C Z) (map_of (purge_rows C running T))
        (filter (\<lambda>(k, r). ir_job_id r \<in> set running) (idem_tab D))"
      unfolding m by (rule holds_filter [OF I])
    moreover have "holds Review_rows (review_row C Z) (map_of (purge_rows C running T)) (review_tab D)"
      "holds Source_rows (source_row C Z) (map_of (purge_rows C running T)) (source_tab D)"
      unfolding m by (rule holds_unread [OF V] holds_unread [OF E]; simp)+
    ultimately show ?thesis
      using D L steps Purge_idem by (simp add: represents_def purge_terminal_keys_def L [abs_def] cong: filter_cong)
  qed
qed

text \<open>
  A restart: after the purge, what the loops read from the table is what \<open>load_from_db\<close> puts into memory.
\<close>

lemma restart_loads_table:
  assumes "codec_ok C" and "times_ok Z" and "represents C Z running T S"
  shows "map_of (idem_records (load_from_db True S)) = map_of (load_family Idem_rows (idem_row C Z) (purge_rows C running T))"
    and "map_of (review_records (load_from_db True S)) = map_of (load_family Review_rows (review_row C Z) (purge_rows C running T))"
    and "map_of (source_records (load_from_db True S)) = map_of (load_family Source_rows (source_row C Z) (purge_rows C running T))"
proof -
  have "represents C Z running (purge_rows C running T) (snd (purge_terminal_keys True S))"
    using stmt_refines [OF assms, of Purge_idem] by (simp add: stmt_ok_def)
  moreover obtain D where "db S = Some D" using assms(3) by (auto simp: represents_def split: option.splits)
  ultimately show "map_of (idem_records (load_from_db True S)) =
      map_of (load_family Idem_rows (idem_row C Z) (purge_rows C running T))"
    "map_of (review_records (load_from_db True S)) =
      map_of (load_family Review_rows (review_row C Z) (purge_rows C running T))"
    "map_of (source_records (load_from_db True S)) =
      map_of (load_family Source_rows (source_row C Z) (purge_rows C running T))"
    by (simp_all add: represents_def load_from_db_def purge_terminal_keys_def load_family_lookup [symmetric])
qed

text \<open>
  C28: The shared table refines the tables of records. Through any sequence of statements of the idempotency
  store, with writes of the circuits between them, loading the three families from the one table of texts
  yields exactly the records that the store's own tables hold: prefixes keep the modules apart, and every
  record that is written is read back.
\<close>

theorem state_table_refines:
  assumes "codec_ok C" and "times_ok Z" and "represents C Z running T S" and "list_all stmt_ok qs"
  shows "\<exists>D. db (fold store_exec qs S) = Some D \<and>
    map_of (load_family Idem_rows (idem_row C Z) (fold (table_exec C Z running) qs T)) = map_of (idem_tab D) \<and>
    map_of (load_family Review_rows (review_row C Z) (fold (table_exec C Z running) qs T)) = map_of (review_tab D) \<and>
    map_of (load_family Source_rows (source_row C Z) (fold (table_exec C Z running) qs T)) = map_of (source_tab D)"
proof -
  have "represents C Z running (fold (table_exec C Z running) qs T) (fold store_exec qs S)"
    using assms(3,4) by (induction qs arbitrary: T S) (simp_all add: stmt_refines [OF assms(1,2)])
  then show ?thesis
    by (auto simp: represents_def load_family_lookup split: option.splits)
qed

definition sample_times :: times where
  "sample_times = (\<lambda>t. (if t < 0 then CHR ''-'' else CHR ''+'') # replicate (nat \<bar>t\<bar>) CHR ''i'',
     \<lambda>s. case s of [] \<Rightarrow> None | c # r \<Rightarrow> Some (if c = CHR ''-'' then - int (length r) else int (length r)))"

lemma sample_times_ok: "times_ok sample_times"
  by (simp add: times_ok_def sample_times_def)

definition sample_stmts :: "store_stmt list" where
  "sample_stmts =
    [Put_idem ''k1'' \<lparr>ir_job_id = ''j1'', ir_created_at = 5, ir_status = ''accepted''\<rparr>,
     Put_circuit ''cloud'' \<lparr>circuit = OPEN, consecutive_failures = 2, consecutive_successes = 0,
       last_probe_time = None, last_success_time = Some (- 1), last_failure_time = Some 7\<rparr>,
     Claim_source ''s1'' \<lparr>sr_job_id = ''j1'', sr_hash = ''h'', sr_client_source = ''phone'', sr_event_id = ''e'', sr_created_at = 6\<rparr>,
     Put_review ''v1'' \<lparr>payload_identity = [(''decision'', JStr ''ok'')], outcome_code = 200, outcome_body = [],
       applied = True, rr_created_at = 8\<rparr>,
     Release_source ''s1'' ''j2'', Purge_idem, Drop_idem [''k2'']]"

theorem state_table_refines_witness:
  "\<exists>D. db (fold store_exec sample_stmts (new_store True (Some \<lparr>jobs_tab = [] :: nat job_row list, idem_tab = [],
      review_tab = [], source_tab = []\<rparr>))) = Some D \<and>
    map_of (load_family Idem_rows (idem_row sample_codec sample_times)
      (fold (table_exec sample_codec sample_times []) sample_stmts [])) = map_of (idem_tab D) \<and>
    map_of (load_family Review_rows (review_row sample_codec sample_times)
      (fold (table_exec sample_codec sample_times []) sample_stmts [])) = map_of (review_tab D) \<and>
    map_of (load_family Source_rows (source_row sample_codec sample_times)
      (fold (table_exec sample_codec sample_times []) sample_stmts [])) = map_of (source_tab D)"
  by (rule state_table_refines [OF sample_codec_ok sample_times_ok])
    (simp_all add: represents_def table_ok_def holds_def rows_of_def new_store_def load_from_db_def
      purge_terminal_keys_def key_live_def sample_stmts_def stmt_ok_def review_json_ok_def)

end
