(* ===== verification/Spec2Isabelle.thy ===== *)
theory Spec2Isabelle
  imports Audit_Client Audit_Integrity Startup Connectivity Job_Reviews Job_Delivery Egress_Gateway Worker_Lifecycle
    Context_Packager Recovery Startup_Validator Hub_Jobs Hub_App State_File Audit_Tool Egress_Config Framing Ollama State_Table
begin

text \<open>
  \<^bold>\<open>Verification of the local-first AI gateway.\<close>

  \<^bold>\<open>The program.\<close> A hub (\<open>orchestrator/\<close>) takes jobs from devices, has a local model classify them, decides
  what it may do with each on its own, runs them on the local model in a confined worker container or on a
  cloud model behind a gateway, and delivers the result or proposes it for review. Around it stand four
  services: the audit log writer (\<open>audit-log-writer/\<close>), which keeps a hash-chained log of everything the hub
  decides; the egress gateway (\<open>egress-gateway/\<close>), which alone holds the keys of the cloud providers; the
  worker proxy (\<open>worker-proxy/\<close>), which alone talks to Docker; and the program inside a worker
  (\<open>worker/\<close>). A durable audit record precedes or accompanies each change of state: the log is the
  reference against which most of the properties are stated.

  \<^bold>\<open>How the model is built.\<close> Data are records and datatypes with the fields of the code; a dict is an association
  list with \<open>AList.update\<close>, so that the order of insertion is kept. A function that can raise returns
  \<open>py_exc + 'a\<close>. Synchronous code that records events threads a state that extends the record \<open>audit\<close>
  (\<open>Effects\<close>): the chain is \<open>audit\<close> (the trail), \<open>trust\<close> (the states of the capabilities), \<open>workers\<close>,
  \<open>packager\<close>, \<open>jobs_state\<close>, with \<open>monitor\<close>, \<open>hub\<close> and \<open>startup_state\<close> beside it. The asynchronous handlers
  of the job manager are values of the type \<open>co\<close> (\<open>Coroutine\<close>): trees of reads, writes, waits, emissions and
  exceptions, so that other handlers may run at each await; \<open>run\<close> executes one alone, \<open>reachable\<close> is the
  inductive relation of all schedules, \<open>safe\<close> a rely-guarantee predicate that carries invariants over them.
  Strings of the decoder (\<open>json.loads\<close>), hashes, clocks, drawn identifiers, regular expressions, HTTP peers
  and Docker are arguments.

  \<^bold>\<open>Theories and sources.\<close>
  \<^item> \<open>Prelude\<close>, \<open>Text_Numbers\<close>, \<open>Effects\<close>, \<open>Coroutine\<close>, \<open>Write_Through\<close>: dicts, JSON, printed numbers, the trail,
    tasks and the contract of a written-through row, shared by all.
  \<^item> \<open>Audit_Events\<close> (\<open>events.py\<close>, \<open>egress_events.py\<close>), \<open>Audit_Validator\<close> (\<open>event_validator.py\<close>, \<open>models.py\<close> of the writer),
    \<open>Audit_Chain\<close> (\<open>hash_chain.py\<close>, \<open>drnt_audit_verify.py\<close>), \<open>Audit_Files\<close> (\<open>file_manager.py\<close>),
    \<open>Audit_Writer\<close> (\<open>log_writer.py\<close>), \<open>Audit_Client\<close> (\<open>audit_client.py\<close>), \<open>Framing\<close> (the wire between the two),
    \<open>Audit_Integrity\<close> and \<open>Audit_Tool\<close> (\<open>audit_integrity.py\<close>).
  \<^item> \<open>Capability_Registry\<close>, \<open>Capability_State\<close>, \<open>State_File\<close> (\<open>capability_registry.py\<close>, \<open>capability_state.py\<close>),
    \<open>Permission\<close> (\<open>permission_checker.py\<close>, \<open>pipeline_evaluator.py\<close>), \<open>Trust\<close> (\<open>demotion_engine.py\<close>,
    \<open>promotion_monitor.py\<close>), \<open>Decay\<close> (\<open>decay_evaluator.py\<close>), \<open>Startup\<close> (\<open>startup.py\<close>),
    \<open>Startup_Validator\<close> (\<open>startup_validator.py\<close>).
  \<^item> \<open>Sandbox\<close> (\<open>runtime_manifest.py\<close>, \<open>manifest_validator.py\<close>, \<open>sandbox_blueprint.py\<close>, \<open>blueprint_engine.py\<close>),
    \<open>Egress_Proxy\<close> (\<open>egress_proxy.py\<close>, the policy store), \<open>Rate_Limit\<close> (both limiters), \<open>Worker_Proxy\<close>
    (\<open>worker-proxy/\<close>), \<open>Worker_Lifecycle\<close> (\<open>worker_lifecycle.py\<close>, \<open>worker_context.py\<close>, \<open>worker_executor.py\<close>),
    \<open>Worker_Pool\<close>, \<open>Worker_Agent\<close> (\<open>worker_agent.py\<close>).
  \<^item> \<open>Context_Packager\<close> (\<open>context_packager.py\<close>), \<open>Classifier\<close> and \<open>Ollama\<close> (\<open>classifier.py\<close>),
    \<open>Connectivity\<close> (\<open>connectivity_monitor.py\<close>, \<open>hub_state.py\<close>), \<open>Egress_Gateway\<close> and \<open>Egress_Config\<close>
    (\<open>egress-gateway/\<close>, \<open>registry.py\<close>).
  \<^item> \<open>Idempotency\<close> (\<open>source_event.py\<close>, \<open>idempotency_store.py\<close>), \<open>State_Table\<close> (the SQLite table it shares
    with \<open>Connectivity\<close>), \<open>Job_State\<close>, \<open>Job_Submit\<close>, \<open>Job_Resolve\<close>,
    \<open>Job_Pipeline\<close> (\<open>job_manager.py\<close>, \<open>models.py\<close>), \<open>Recovery\<close> (\<open>stale_recovery.py\<close>);
    over them \<open>Job_Triples\<close>, \<open>Job_Concurrency\<close>, \<open>Job_Delivery\<close>, \<open>Job_Reviews\<close> hold the proofs.
  \<^item> \<open>Hub_Services\<close>, \<open>Hub_Jobs\<close>, \<open>Hub_App\<close>, \<open>Admin\<close> (\<open>main.py\<close>, \<open>persistence.py\<close>, \<open>admin_routes.py\<close>): the
    components wired together, and every endpoint.

  \<^bold>\<open>What is shown.\<close>
  \<^item> \<^emph>\<open>The log.\<close> Whatever the sequence of requests, ticks, crashes and restarts within a day, the files verify
    from genesis; an acknowledged record is on the disk; over an unreliable connection an emission that
    returns has written one record; frames survive any cutting of the stream; two different logs have
    different heads unless the hash collides; the tail check, the classification and the repair are exact, and
    the repair that a failed start names restores a log that verifies.
  \<^item> \<^emph>\<open>Trust.\<close> An action is allowed exactly under the documented conditions; levels stay in range; a recommendation
    changes nothing; the decay terminates; the state file is saved atomically.
  \<^item> \<^emph>\<open>Confinement.\<close> Every container that is asked for has the fixed image, no capabilities, no foreign network
    and its limits; the proxy accepts exactly what the executor sends; a task comes back with the model's
    answer; no probe and no job leaves a worker behind.
  \<^item> \<^emph>\<open>What leaves the host.\<close> The gateway forwards exactly under the six checks and within a route's rate; a package
    is the input with every sensitive span replaced, and nothing but the package is sent to a cloud model;
    hub and gateway read one configuration alike when its route ids are distinct.
  \<^item> \<^emph>\<open>Jobs.\<close> A source event belongs to its first submission over processes, restarts and failing statements; a
    submission is answered 202 only with a recorded job; under every schedule no job is both reviewed and
    overridden, and a delivery follows a permission; reviews replay; every job that is taken is
    settled; recovery and paging are exact; the shared table gives back every record that was written to it.
  \<^item> \<^emph>\<open>The hub.\<close> A start that succeeds has passed the critical checks and wires what the component theorems assume
    (\<open>wired\<close>); the services it wires meet the contract under which the job theorems are proved.

  \<^bold>\<open>Interfaces.\<close> Five locales state what one component relies on in another, each interpreted on the model:
  \<open>event_sink\<close> (what the audit client needs of a service: on \<open>handle_connection\<close>), \<open>rpm_window\<close> (a sliding
  window: on the gateway's limiter and the hub's), \<open>write_through\<close> (a value in memory with its row: on the circuits,
  the hub's mode and the reviews), \<open>worker_pool\<close> (a worker prepared and dismissed: on both registers of the
  lifecycle) and \<open>job_services\<close> (what the pipeline needs of its services: on \<open>hub_deps\<close>).

  \<^bold>\<open>Refinements and state machines.\<close> \<open>circuit_spec\<close> is the circuit breaker as a function of the probe history, and
  \<open>circuit_move\<close> its moves; \<open>represents\<close> relates the one table of texts to the tables of records;
  \<open>job_services\<close> is the contract that the wired services refine.

  \<^bold>\<open>Bounds and fuel.\<close> The startup decay loop takes a number of passes; the sum of the levels suffices, which is
  a theorem. \<open>_await_job_loadable\<close> polls five times, as in the code. Following the cursor of a listing takes as
  many pages as there are jobs, and one. Every other loop is structural recursion or carries a measure. A
  message has at most 16 MiB, and the length prefix is a 32-bit word.

  \<^bold>\<open>Hypotheses on the outside.\<close> \<open>codec_ok\<close>: \<open>json.loads\<close> inverts \<open>json.dumps\<close>, whose text has no newline, and a hash is
  not empty. \<open>envelope_ok\<close>: drawn identifiers are UUIDv7, time stamps ISO text. \<open>patterns_in\<close>: a regular
  expression matches inside its text. \<open>writes_all\<close>: the log answers every emission of a run. \<open>ollama_typed\<close>: the
  local model answers with a text and two integers. \<open>fresh_workers\<close>: a drawn worker identifier is not in
  use. \<open>routed\<close>: a classified job is local or cloud. Each property that uses one has a witness where it holds.

  \<^bold>\<open>Not modelled.\<close> Logging; reading settings from the environment; the argument parser of the command line and the
  wording of the classification prompt; FastAPI's and pydantic's own machinery beyond the checks that the code
  states (a body of the wrong shape is refused before a handler runs); SQLite beyond a row per key whose
  statement succeeds or fails (the statements on the shared table are modelled in \<open>State_Table\<close>); the order in which \<open>glob\<close> meets files it then sorts; the rounding of
  floats (a float is the rational it denotes); \<open>urlparse\<close>, \<open>dotenv\<close>, Docker, \<open>httpx\<close> and the providers'
  services, which are arguments.
\<close>

end
